(* ===== verification/Rt_Prelude.thy ===== *)
theory Rt_Prelude
  imports
    Main
    "HOL-Library.Word"
    "HOL-Library.AList"
    "HOL-Library.Char_ord"
    "HOL-Library.Code_Target_Nat"
    "HOL-Library.List_Lexorder"
    "HOL-Library.Option_ord"
    "HOL-Library.Product_Lexorder"
    "HOL-Library.Sublist"
begin

text \<open>
  Shared vocabulary of the development: the machine integer types, ordered maps and sets
  standing for Rust's \<^verbatim>\<open>BTreeMap\<close> and \<^verbatim>\<open>BTreeSet\<close>, saturating
  arithmetic, and the collections of simplification rules that the component theories extend.

  A \<^verbatim>\<open>BTreeMap<K, V>\<close> is the list of its entries in iteration order, that is in
  ascending key order; a \<^verbatim>\<open>BTreeSet<K>\<close> is the list of its members in ascending
  order.  The orders are those of Rust: \<^verbatim>\<open>u32\<close> unsigned, \<^verbatim>\<open>str\<close>
  bytewise, tuples lexicographic, \<^verbatim>\<open>None\<close> below \<^verbatim>\<open>Some\<close>.
\<close>

type_synonym u8 = "8 word"
type_synonym u32 = "32 word"

text \<open>
  \<^verbatim>\<open>i32\<close> and \<^verbatim>\<open>i64\<close> values are integers, \<^verbatim>\<open>u64\<close>,
  \<^verbatim>\<open>u128\<close> and \<^verbatim>\<open>usize\<close> values are naturals; the bounds are written
  out where the code depends on them.
\<close>

type_synonym i32 = int
type_synonym u64 = nat
type_synonym u128 = nat
type_synonym usize = nat

definition is_i32 :: "int \<Rightarrow> bool" where
  "is_i32 n \<longleftrightarrow> - (2 ^ 31) \<le> n \<and> n < 2 ^ 31"

definition u128_max :: nat where
  "u128_max = 2 ^ 128 - 1"

definition i32_max :: nat where
  "i32_max = 2 ^ 31 - 1"

definition sat_add_u128 :: "u128 \<Rightarrow> u128 \<Rightarrow> u128" where
  "sat_add_u128 a b = min (a + b) u128_max"

lemma u8_less [simp]: "unat (b :: u8) < 256"
  using unsigned_less [of b, where ?'a = nat] by simp

lemma u32_less [simp]: "unat (w :: u32) < 4294967296"
  using unsigned_less [of w, where ?'a = nat] by simp

lemma mem_map_filter: "y \<in> set (List.map_filter f xs) \<longleftrightarrow> (\<exists>x \<in> set xs. f x = Some y)"
  by (induction xs) (auto simp: List.map_filter_def)

named_theorems wf_intros \<open>preservation rules of the well-formedness invariants\<close>
named_theorems view_simps \<open>lookup views of the state operations\<close>

subsection \<open>Ordered maps\<close>

type_synonym ('k, 'v) btree = "('k \<times> 'v) list"

abbreviation bt_get :: "('k, 'v) btree \<Rightarrow> 'k \<Rightarrow> 'v option" where
  "bt_get m k \<equiv> map_of m k"

fun bt_insert :: "'k::linorder \<Rightarrow> 'v \<Rightarrow> ('k, 'v) btree \<Rightarrow> ('k, 'v) btree" where
  "bt_insert k v [] = [(k, v)]"
| "bt_insert k v ((k', v') # m) =
     (if k < k' then (k, v) # (k', v') # m
      else if k = k' then (k, v) # m
      else (k', v') # bt_insert k v m)"

definition bt_remove :: "'k \<Rightarrow> ('k, 'v) btree \<Rightarrow> ('k, 'v) btree" where
  "bt_remove k m = filter (\<lambda>(k', _). k' \<noteq> k) m"

definition bt_retain :: "('k \<Rightarrow> bool) \<Rightarrow> ('k, 'v) btree \<Rightarrow> ('k, 'v) btree" where
  "bt_retain P m = filter (\<lambda>(k, _). P k) m"

definition bt_keys :: "('k, 'v) btree \<Rightarrow> 'k list" where
  "bt_keys m = map fst m"

definition bt_has :: "('k, 'v) btree \<Rightarrow> 'k \<Rightarrow> bool" where
  "bt_has m k \<longleftrightarrow> map_of m k \<noteq> None"

definition bt_of_list :: "('k::linorder \<times> 'v) list \<Rightarrow> ('k, 'v) btree" where
  "bt_of_list xs = fold (\<lambda>(k, v). bt_insert k v) xs []"

definition bt_wf :: "('k::linorder, 'v) btree \<Rightarrow> bool" where
  "bt_wf m \<longleftrightarrow> sorted_wrt (<) (map fst m)"

lemma map_of_bt_insert [simp]: "map_of (bt_insert k v m) = (map_of m)(k \<mapsto> v)"
  by (induction k v m rule: bt_insert.induct) auto

lemma map_of_bt_remove [simp]: "map_of (bt_remove k m) = (map_of m)(k := None)"
  by (induction m) (auto simp: bt_remove_def)

lemma map_of_bt_retain [simp]:
  "map_of (bt_retain P m) = (\<lambda>k. if P k then map_of m k else None)"
  by (induction m) (auto simp: bt_retain_def)

lemma set_bt_keys [simp]: "set (bt_keys m) = dom (map_of m)"
  by (simp add: bt_keys_def dom_map_of_conv_image_fst)

lemma bt_has_dom: "bt_has m k \<longleftrightarrow> k \<in> dom (map_of m)"
  by (auto simp: bt_has_def)

lemma fst_set_bt_insert: "fst ` set (bt_insert k v m) = insert k (fst ` set m)"
  by (induction k v m rule: bt_insert.induct) auto

lemma bt_wf_Nil [simp, wf_intros]: "bt_wf []"
  by (simp add: bt_wf_def)

lemma bt_wf_insert [simp, wf_intros]: "bt_wf m \<Longrightarrow> bt_wf (bt_insert k v m)"
proof (induction k v m rule: bt_insert.induct)
  case (1 k v)
  then show ?case by (simp add: bt_wf_def)
next
  case (2 k v k' v' m)
  then show ?case
    using fst_set_bt_insert [of k v m]
    by (fastforce simp: bt_wf_def simp flip: image_set)
qed

lemma bt_wf_filter: "bt_wf m \<Longrightarrow> bt_wf (filter P m)"
  by (induction m) (auto simp: bt_wf_def)

lemma bt_wf_remove [simp, wf_intros]: "bt_wf m \<Longrightarrow> bt_wf (bt_remove k m)"
  by (simp add: bt_remove_def bt_wf_filter)

lemma bt_wf_retain [simp, wf_intros]: "bt_wf m \<Longrightarrow> bt_wf (bt_retain P m)"
  by (simp add: bt_retain_def bt_wf_filter)

lemma bt_wf_fold_remove [wf_intros]: "bt_wf m \<Longrightarrow> bt_wf (fold bt_remove ks m)"
  by (induction ks arbitrary: m) auto

lemma bt_wf_tl: "bt_wf (x # m) \<Longrightarrow> bt_wf m"
  by (simp add: bt_wf_def)

lemma bt_wf_fold_insert: "bt_wf m \<Longrightarrow> bt_wf (fold (\<lambda>(k, v). bt_insert k v) xs m)"
  by (induction xs arbitrary: m) auto

lemma bt_wf_of_list [simp, wf_intros]: "bt_wf (bt_of_list xs)"
  by (simp add: bt_of_list_def bt_wf_fold_insert)

lemma map_of_fold_bt_insert:
  "map_of (fold (\<lambda>(k, v). bt_insert k v) xs m) = map_of m ++ map_of (rev xs)"
  by (induction xs arbitrary: m) (auto simp: map_add_def fun_eq_iff split: option.splits)

lemma map_of_bt_of_list [simp]: "map_of (bt_of_list xs) = map_of (rev xs)"
  by (simp add: bt_of_list_def map_of_fold_bt_insert)

lemma bt_wf_distinct: "bt_wf m \<Longrightarrow> distinct (map fst m)"
  by (simp add: bt_wf_def strict_sorted_iff)

text \<open>
  Two well-formed maps with the same lookups are the same list: the representation is canonical.
\<close>

lemma bt_wf_ext: "bt_wf m \<Longrightarrow> bt_wf n \<Longrightarrow> map_of m = map_of n \<Longrightarrow> m = n"
proof -
  assume m: "bt_wf m" and n: "bt_wf n" and eq: "map_of m = map_of n"
  from m n have sorted: "sorted (map fst m)" "sorted (map fst n)"
    and d: "distinct (map fst m)" "distinct (map fst n)"
    by (auto simp: bt_wf_def strict_sorted_iff)
  have "set m = set n"
    using d eq by (metis map_of_inject_set)
  moreover from d have "inj_on fst (set m \<union> set n)"
    using \<open>set m = set n\<close> by (simp add: distinct_map)
  ultimately show ?thesis
    using sorted d by (intro map_sorted_distinct_set_unique) simp_all
qed

lemma bt_keys_insert_mem: "k \<in> set (bt_keys (bt_insert k v m))"
  by simp

lemma bt_remove_absent: "map_of m k = None \<Longrightarrow> bt_remove k m = m"
  by (induction m) (auto simp: bt_remove_def split: if_splits)

lemma bt_retain_all: "(\<And>k. k \<in> dom (map_of m) \<Longrightarrow> P k) \<Longrightarrow> bt_retain P m = m"
  by (force simp: bt_retain_def filter_id_conv dom_map_of_conv_image_fst)

subsection \<open>Ordered sets\<close>

type_synonym 'k bset = "'k list"

fun bs_insert :: "'k::linorder \<Rightarrow> 'k bset \<Rightarrow> 'k bset" where
  "bs_insert k [] = [k]"
| "bs_insert k (x # xs) =
     (if k < x then k # x # xs else if k = x then x # xs else x # bs_insert k xs)"

definition bs_remove :: "'k \<Rightarrow> 'k bset \<Rightarrow> 'k bset" where
  "bs_remove k s = filter (\<lambda>x. x \<noteq> k) s"

definition bs_of_list :: "'k::linorder list \<Rightarrow> 'k bset" where
  "bs_of_list xs = fold bs_insert xs []"

definition bs_wf :: "'k::linorder bset \<Rightarrow> bool" where
  "bs_wf s \<longleftrightarrow> sorted_wrt (<) s"

lemma set_bs_insert [simp]: "set (bs_insert k s) = insert k (set s)"
  by (induction k s rule: bs_insert.induct) auto

lemma set_bs_remove [simp]: "set (bs_remove k s) = set s - {k}"
  by (auto simp: bs_remove_def)

lemma set_fold_bs_insert: "set (fold bs_insert xs s) = set xs \<union> set s"
  by (induction xs arbitrary: s) auto

lemma set_bs_of_list [simp]: "set (bs_of_list xs) = set xs"
  by (simp add: bs_of_list_def set_fold_bs_insert)

lemma bs_wf_Nil [simp, wf_intros]: "bs_wf []"
  by (simp add: bs_wf_def)

lemma bs_wf_insert [simp, wf_intros]: "bs_wf s \<Longrightarrow> bs_wf (bs_insert k s)"
  by (induction k s rule: bs_insert.induct) (auto simp: bs_wf_def)

lemma bs_wf_filter [simp, wf_intros]: "bs_wf s \<Longrightarrow> bs_wf (filter P s)"
  by (simp add: bs_wf_def sorted_wrt_filter)

lemma bs_wf_remove [simp, wf_intros]: "bs_wf s \<Longrightarrow> bs_wf (bs_remove k s)"
  by (simp add: bs_remove_def)

lemma bs_wf_fold_insert: "bs_wf s \<Longrightarrow> bs_wf (fold bs_insert xs s)"
  by (induction xs arbitrary: s) auto

lemma bs_wf_of_list [simp, wf_intros]: "bs_wf (bs_of_list xs)"
  by (simp add: bs_of_list_def bs_wf_fold_insert)

lemma bs_wf_distinct: "bs_wf s \<Longrightarrow> distinct s"
  by (simp add: bs_wf_def strict_sorted_iff)

subsection \<open>The keyed store contract\<close>

text \<open>
  What every component relies on when it keeps per-key data: a lookup sees the last insertion,
  a removal forgets one key and leaves the others.  The ordered map above provides it.
\<close>

locale keyed_store =
  fixes get :: "'m \<Rightarrow> 'k \<Rightarrow> 'v option"
    and put :: "'k \<Rightarrow> 'v \<Rightarrow> 'm \<Rightarrow> 'm"
    and del :: "'k \<Rightarrow> 'm \<Rightarrow> 'm"
  assumes get_put: "get (put k v m) = (get m)(k \<mapsto> v)"
    and get_del: "get (del k m) = (get m)(k := None)"
begin

lemma get_fold_del: "get (fold del ks m) k = (if k \<in> set ks then None else get m k)"
  by (induction ks arbitrary: m) (auto simp: get_del)

lemma put_del_frame: "k' \<noteq> k \<Longrightarrow> get (put k v (del k m)) k' = get m k'"
  by (simp add: get_put get_del)

lemma get_put_twice: "get (put k v (put k w m)) = get (put k v m)"
  by (simp add: get_put)

text \<open>Draining the keys selected by a test: every selected key is gone, no other is touched.\<close>

lemma drain_selected:
  assumes "set ks = {k. \<exists>v. get m k = Some v \<and> P k v}"
  shows "get (fold del ks m) k = (case get m k of None \<Rightarrow> None | Some v \<Rightarrow> if P k v then None else Some v)"
  using assms by (auto simp: get_fold_del split: option.splits)

end

interpretation bt: keyed_store map_of bt_insert bt_remove
  by unfold_locales simp_all

end
