(* ===== verification/Rt_Text.thy ===== *)
theory Rt_Text
  imports Rt_Prelude
begin

text \<open>
  Rust strings.  A \<^verbatim>\<open>str\<close> is the list of its UTF-8 bytes, one
  \<^typ>\<open>char\<close> per byte, so byte lengths, ordering, prefix and substring tests and the ASCII
  case functions are those of Rust.  \<open>ws_len\<close> recognises every character of the Unicode
  class White\_Space by its UTF-8 encoding; the lead bytes it looks for never occur inside another
  character, so stepping bytewise agrees with stepping over characters.

  The last part proves what the text file formats of the daemon need: a printed number parses
  back, white space splits and line splits are inverse to joining.
\<close>

subsection \<open>White space\<close>

definition ascii_ws :: "char list" where
  "ascii_ws = [CHR 0x09, CHR 0x0A, CHR 0x0B, CHR 0x0C, CHR 0x0D, CHR 0x20]"

definition wide_ws :: "string list" where
  "wide_ws =
    [[CHR 0xC2, CHR 0x85], [CHR 0xC2, CHR 0xA0], [CHR 0xE1, CHR 0x9A, CHR 0x80],
     [CHR 0xE2, CHR 0x80, CHR 0x80], [CHR 0xE2, CHR 0x80, CHR 0x81], [CHR 0xE2, CHR 0x80, CHR 0x82],
     [CHR 0xE2, CHR 0x80, CHR 0x83], [CHR 0xE2, CHR 0x80, CHR 0x84], [CHR 0xE2, CHR 0x80, CHR 0x85],
     [CHR 0xE2, CHR 0x80, CHR 0x86], [CHR 0xE2, CHR 0x80, CHR 0x87], [CHR 0xE2, CHR 0x80, CHR 0x88],
     [CHR 0xE2, CHR 0x80, CHR 0x89], [CHR 0xE2, CHR 0x80, CHR 0x8A], [CHR 0xE2, CHR 0x80, CHR 0xA8],
     [CHR 0xE2, CHR 0x80, CHR 0xA9], [CHR 0xE2, CHR 0x80, CHR 0xAF], [CHR 0xE2, CHR 0x81, CHR 0x9F],
     [CHR 0xE3, CHR 0x80, CHR 0x80]]"

text \<open>Length in bytes of the white space character at the front (at the end) of a string, or 0.\<close>

definition ws_len :: "string \<Rightarrow> nat" where
  "ws_len s =
     (case s of [] \<Rightarrow> 0
      | c # _ \<Rightarrow>
          if c \<in> set ascii_ws then 1
          else (case find (\<lambda>w. prefix w s) wide_ws of None \<Rightarrow> 0 | Some w \<Rightarrow> length w))"

definition ws_len_end :: "string \<Rightarrow> nat" where
  "ws_len_end s =
     (if s = [] then 0
      else if last s \<in> set ascii_ws then 1
      else (case find (\<lambda>w. suffix w s) wide_ws of None \<Rightarrow> 0 | Some w \<Rightarrow> length w))"

text \<open>Bytes that cannot start a white space character.\<close>

definition plain_byte :: "char \<Rightarrow> bool" where
  "plain_byte c \<longleftrightarrow> c \<notin> set ascii_ws \<and> (\<forall>w \<in> set wide_ws. hd w \<noteq> c)"

definition plain_text :: "string \<Rightarrow> bool" where
  "plain_text s \<longleftrightarrow> list_all plain_byte s"

lemma ws_len_plain: "plain_byte c \<Longrightarrow> ws_len (c # s) = 0"
  by (auto simp: ws_len_def plain_byte_def wide_ws_def)

function trim_start :: "string \<Rightarrow> string" where
  "trim_start s = (if ws_len s = 0 then s else trim_start (drop (ws_len s) s))"
  by pat_completeness auto
termination
  by (relation "measure length") (auto simp: ws_len_def split: list.splits)

function trim_end :: "string \<Rightarrow> string" where
  "trim_end s =
     (if ws_len_end s = 0 then s else trim_end (take (length s - ws_len_end s) s))"
  by pat_completeness auto
termination
  by (relation "measure length") (auto simp: ws_len_end_def split: if_splits)

declare trim_start.simps [simp del] trim_end.simps [simp del]

definition str_trim :: "string \<Rightarrow> string" where
  "str_trim s = trim_end (trim_start s)"

text \<open>
  \<^verbatim>\<open>split_whitespace\<close>: the first argument counts the bytes of a multi-byte white
  space character still to be skipped, the second is the current token.
\<close>

definition emit :: "string \<Rightarrow> string list" where
  "emit tok = (if tok = [] then [] else [tok])"

fun split_ws_from :: "nat \<Rightarrow> string \<Rightarrow> string \<Rightarrow> string list" where
  "split_ws_from _ tok [] = emit tok"
| "split_ws_from (Suc n) tok (c # cs) = split_ws_from n tok cs"
| "split_ws_from 0 tok (c # cs) =
     (case ws_len (c # cs) of
        0 \<Rightarrow> split_ws_from 0 (tok @ [c]) cs
      | Suc n \<Rightarrow> emit tok @ split_ws_from n [] cs)"

definition split_whitespace :: "string \<Rightarrow> string list" where
  "split_whitespace s = split_ws_from 0 [] s"

subsection \<open>Searching, splitting and joining\<close>

definition starts_with :: "string \<Rightarrow> string \<Rightarrow> bool" where
  "starts_with s p \<longleftrightarrow> prefix p s"

definition ends_with :: "string \<Rightarrow> string \<Rightarrow> bool" where
  "ends_with s p \<longleftrightarrow> suffix p s"

definition str_contains :: "string \<Rightarrow> string \<Rightarrow> bool" where
  "str_contains s p \<longleftrightarrow> sublist p s"

definition strip_prefix :: "string \<Rightarrow> string \<Rightarrow> string option" where
  "strip_prefix p s = (if prefix p s then Some (drop (length p) s) else None)"

definition strip_suffix :: "string \<Rightarrow> string \<Rightarrow> string option" where
  "strip_suffix p s = (if suffix p s then Some (take (length s - length p) s) else None)"

fun split_once :: "string \<Rightarrow> string \<Rightarrow> (string \<times> string) option" where
  "split_once d [] = (if d = [] then Some ([], []) else None)"
| "split_once d (c # cs) =
     (if prefix d (c # cs) then Some ([], drop (length d) (c # cs))
      else map_option (\<lambda>(a, b). (c # a, b)) (split_once d cs))"

fun split_on :: "char \<Rightarrow> string \<Rightarrow> string list" where
  "split_on d [] = [[]]"
| "split_on d (c # cs) =
     (if c = d then [] # split_on d cs
      else (case split_on d cs of [] \<Rightarrow> [[c]] | t # ts \<Rightarrow> (c # t) # ts))"

definition newline :: char where "newline = CHR 0x0A"
definition carriage_return :: char where "carriage_return = CHR 0x0D"
definition tab :: char where "tab = CHR 0x09"
definition quote :: char where "quote = CHR 0x22"
definition backslash :: char where "backslash = CHR 0x5C"

lemmas char_defs = newline_def carriage_return_def tab_def quote_def backslash_def

fun split_inclusive :: "string \<Rightarrow> string list" where
  "split_inclusive [] = []"
| "split_inclusive (c # cs) =
     (if c = newline then [newline] # split_inclusive cs
      else (case split_inclusive cs of [] \<Rightarrow> [[c]] | l # ls \<Rightarrow> (c # l) # ls))"

definition strip_line :: "string \<Rightarrow> string" where
  "strip_line l =
     (case strip_suffix [newline] l of
        None \<Rightarrow> l
      | Some b \<Rightarrow> (case strip_suffix [carriage_return] b of None \<Rightarrow> b | Some b' \<Rightarrow> b'))"

definition str_lines :: "string \<Rightarrow> string list" where
  "str_lines s = map strip_line (split_inclusive s)"

fun str_join :: "string \<Rightarrow> string list \<Rightarrow> string" where
  "str_join sep [] = []"
| "str_join sep [x] = x"
| "str_join sep (x # y # zs) = x @ sep @ str_join sep (y # zs)"

definition ascii_lower :: "char \<Rightarrow> char" where
  "ascii_lower c =
     (if of_char c \<ge> (65::nat) \<and> of_char c \<le> (90::nat) then char_of (of_char c + (32::nat)) else c)"

definition to_ascii_lowercase :: "string \<Rightarrow> string" where
  "to_ascii_lowercase s = map ascii_lower s"

definition eq_ignore_ascii_case :: "string \<Rightarrow> string \<Rightarrow> bool" where
  "eq_ignore_ascii_case a b \<longleftrightarrow> to_ascii_lowercase a = to_ascii_lowercase b"

text \<open>A string literal with characters outside ASCII, given by its UTF-8 bytes.\<close>

definition utf8 :: "nat list \<Rightarrow> string" where
  "utf8 bs = map char_of bs"

subsection \<open>UTF-8 validity\<close>

text \<open>
  The validation of \<^verbatim>\<open>str::from_utf8\<close>: the offset of the first byte that is not part
  of a valid sequence, and the length of the invalid sequence, or \<^verbatim>\<open>None\<close> when the
  input ends inside one.
\<close>

definition byte_of :: "char \<Rightarrow> nat" where "byte_of c = of_char c"

definition utf8_width :: "char \<Rightarrow> nat" where
  "utf8_width c =
     (if byte_of c < 0x80 then 1
      else if 0xC2 \<le> byte_of c \<and> byte_of c \<le> 0xDF then 2
      else if 0xE0 \<le> byte_of c \<and> byte_of c \<le> 0xEF then 3
      else if 0xF0 \<le> byte_of c \<and> byte_of c \<le> 0xF4 then 4
      else 0)"

definition utf8_cont :: "char \<Rightarrow> bool" where
  "utf8_cont c \<longleftrightarrow> 0x80 \<le> byte_of c \<and> byte_of c \<le> 0xBF"

definition utf8_second :: "char \<Rightarrow> char \<Rightarrow> bool" where
  "utf8_second c d \<longleftrightarrow>
     utf8_cont d \<and>
     (byte_of c = 0xE0 \<longrightarrow> 0xA0 \<le> byte_of d) \<and> (byte_of c = 0xED \<longrightarrow> byte_of d \<le> 0x9F) \<and>
     (byte_of c = 0xF0 \<longrightarrow> 0x90 \<le> byte_of d) \<and> (byte_of c = 0xF4 \<longrightarrow> byte_of d \<le> 0x8F)"

text \<open>How much of the sequence that \<^verbatim>\<open>c\<close> opens is valid: its whole width, or the
  error length at which it breaks off.\<close>

definition utf8_tail :: "char \<Rightarrow> string \<Rightarrow> nat option + nat" where
  "utf8_tail c cs =
     (let w = utf8_width c
      in if w = 0 then Inl (Some 1)
         else if w = 1 then Inr 1
         else
           case cs of
             [] \<Rightarrow> Inl None
           | d # ds \<Rightarrow>
               if \<not> utf8_second c d then Inl (Some 1)
               else
                 let good = length (takeWhile utf8_cont (take (w - 2) ds))
                 in if good = w - 2 then Inr w
                    else if length ds \<le> good then Inl None
                    else Inl (Some (good + 2)))"

fun utf8_scan :: "nat \<Rightarrow> nat \<Rightarrow> string \<Rightarrow> (nat \<times> nat option) option" where
  "utf8_scan at _ [] = None"
| "utf8_scan at (Suc skip) (c # cs) = utf8_scan at skip cs"
| "utf8_scan at 0 (c # cs) =
     (case utf8_tail c cs of
        Inl e \<Rightarrow> Some (at, e)
      | Inr w \<Rightarrow> utf8_scan (at + w) (w - 1) cs)"

definition utf8_error :: "string \<Rightarrow> (nat \<times> nat option) option" where
  "utf8_error s = utf8_scan 0 0 s"

definition valid_utf8 :: "string \<Rightarrow> bool" where
  "valid_utf8 s \<longleftrightarrow> utf8_error s = None"

definition is_ascii :: "string \<Rightarrow> bool" where
  "is_ascii s \<longleftrightarrow> list_all (\<lambda>c. byte_of c < 0x80) s"

lemma utf8_scan_ascii: "is_ascii s \<Longrightarrow> utf8_scan at 0 s = None"
  by (induction s arbitrary: at) (simp_all add: is_ascii_def utf8_tail_def utf8_width_def Let_def)

lemma valid_utf8_ascii: "is_ascii s \<Longrightarrow> valid_utf8 s"
  by (simp add: valid_utf8_def utf8_error_def utf8_scan_ascii)

subsection \<open>Numbers\<close>

definition digit_char :: "nat \<Rightarrow> char" where
  "digit_char d = char_of (48 + d)"

definition is_digit :: "char \<Rightarrow> bool" where
  "is_digit c \<longleftrightarrow> 48 \<le> (of_char c :: nat) \<and> (of_char c :: nat) \<le> 57"

definition digit_val :: "char \<Rightarrow> nat" where
  "digit_val c = of_char c - 48"

fun show_nat :: "nat \<Rightarrow> string" where
  "show_nat n = (if n < 10 then [digit_char n] else show_nat (n div 10) @ [digit_char (n mod 10)])"

declare show_nat.simps [simp del]

definition show_int :: "int \<Rightarrow> string" where
  "show_int i = (if i < 0 then ''-'' @ show_nat (nat (- i)) else show_nat (nat i))"

definition show_bool :: "bool \<Rightarrow> string" where
  "show_bool b = (if b then ''true'' else ''false'')"

definition show_u32 :: "u32 \<Rightarrow> string" where
  "show_u32 w = show_nat (unat w)"

text \<open>\<^verbatim>\<open>{:05}\<close> and \<^verbatim>\<open>{:02}\<close>: zero padding to a minimal width.\<close>

definition show_padded :: "nat \<Rightarrow> nat \<Rightarrow> string" where
  "show_padded w n = replicate (w - length (show_nat n)) (CHR ''0'') @ show_nat n"

definition parse_digits :: "string \<Rightarrow> nat option" where
  "parse_digits s =
     (if s = [] \<or> \<not> list_all is_digit s then None
      else Some (foldl (\<lambda>a c. 10 * a + digit_val c) 0 s))"

definition strip_plus :: "string \<Rightarrow> string" where
  "strip_plus s = (case s of [] \<Rightarrow> [] | c # r \<Rightarrow> if c = CHR ''+'' then r else s)"

text \<open>\<^verbatim>\<open>str::parse\<close> for an unsigned type of the given bound: an optional plus sign, then
  digits only; overflow is an error.\<close>

definition parse_unsigned :: "nat \<Rightarrow> string \<Rightarrow> nat option" where
  "parse_unsigned bound s =
     (case parse_digits (strip_plus s) of
        None \<Rightarrow> None
      | Some n \<Rightarrow> if n < bound then Some n else None)"

definition parse_u32 :: "string \<Rightarrow> u32 option" where
  "parse_u32 s = map_option of_nat (parse_unsigned (2 ^ 32) s)"

definition parse_u64 :: "string \<Rightarrow> u64 option" where
  "parse_u64 s = parse_unsigned (2 ^ 64) s"

definition parse_signed :: "nat \<Rightarrow> string \<Rightarrow> int option" where
  "parse_signed bits s =
     (case s of
        [] \<Rightarrow> None
      | c # r \<Rightarrow>
          if c = CHR ''-'' then
            (case parse_digits r of
               None \<Rightarrow> None
             | Some n \<Rightarrow> if n \<le> 2 ^ (bits - 1) then Some (- int n) else None)
          else
            (case parse_digits (strip_plus s) of
               None \<Rightarrow> None
             | Some n \<Rightarrow> if n < 2 ^ (bits - 1) then Some (int n) else None))"

definition parse_i32 :: "string \<Rightarrow> i32 option" where
  "parse_i32 s = parse_signed 32 s"

definition parse_i64 :: "string \<Rightarrow> int option" where
  "parse_i64 s = parse_signed 64 s"

definition show_utf8_error :: "nat \<times> nat option \<Rightarrow> string" where
  "show_utf8_error e =
     (case snd e of
        Some n \<Rightarrow> ''invalid utf-8 sequence of '' @ show_nat n @ '' bytes from index '' @ show_nat (fst e)
      | None \<Rightarrow> ''incomplete utf-8 byte sequence from index '' @ show_nat (fst e))"

subsection \<open>Escaping\<close>

definition hex_digit :: "nat \<Rightarrow> char" where
  "hex_digit d = (if d < 10 then char_of (48 + d) else char_of (87 + d))"

definition escape_char :: "char \<Rightarrow> string" where
  "escape_char c =
     (if c = quote then [backslash, quote]
      else if c = backslash then [backslash, backslash]
      else if c = newline then [backslash, CHR ''n'']
      else if c = carriage_return then [backslash, CHR ''r'']
      else if c = tab then [backslash, CHR ''t'']
      else if (of_char c :: nat) < 32
        then [backslash, CHR ''u'', CHR ''0'', CHR ''0'',
              hex_digit (of_char c div 16), hex_digit (of_char c mod 16)]
      else [c])"

definition sanitize_char :: "char \<Rightarrow> char" where
  "sanitize_char c = (if c = newline \<or> c = carriage_return \<or> c = tab then CHR '' '' else c)"

subsection \<open>Printed numbers parse back\<close>

lemma of_char_digit [simp]: "d < 10 \<Longrightarrow> (of_char (digit_char d) :: nat) = 48 + d"
  by (simp add: digit_char_def of_char_of)

lemma is_digit_digit [simp]: "d < 10 \<Longrightarrow> is_digit (digit_char d)"
  by (simp add: is_digit_def)

lemma digit_val_digit [simp]: "d < 10 \<Longrightarrow> digit_val (digit_char d) = d"
  by (simp add: digit_val_def)

lemma show_nat_nonempty [simp]: "show_nat n \<noteq> []"
  by (subst show_nat.simps) simp

lemma show_nat_digits: "list_all is_digit (show_nat n)"
proof (induction n rule: show_nat.induct)
  case (1 n)
  then show ?case by (cases "n < 10") (simp_all add: show_nat.simps [of n])
qed

lemma show_nat_value: "foldl (\<lambda>a c. 10 * a + digit_val c) 0 (show_nat n) = n"
proof (induction n rule: show_nat.induct)
  case (1 n)
  then show ?case by (cases "n < 10") (simp_all add: show_nat.simps [of n])
qed

lemma parse_digits_show [simp]: "parse_digits (show_nat n) = Some n"
  by (simp add: parse_digits_def show_nat_digits show_nat_value)

lemma not_digit_sign [simp]: "\<not> is_digit (CHR ''+'')" "\<not> is_digit (CHR ''-'')"
  by (simp_all add: is_digit_def)

lemma show_nat_hd_digit: "\<exists>c r. show_nat n = c # r \<and> is_digit c"
  using show_nat_digits [of n] show_nat_nonempty [of n]
  by (cases "show_nat n") auto

lemma strip_plus_show [simp]: "strip_plus (show_nat n) = show_nat n"
  using show_nat_hd_digit [of n] not_digit_sign(1) by (auto simp: strip_plus_def)

lemma parse_unsigned_show: "n < b \<Longrightarrow> parse_unsigned b (show_nat n) = Some n"
  by (simp add: parse_unsigned_def)

lemma parse_u32_show [simp]: "parse_u32 (show_u32 w) = Some w"
proof -
  have "unat w < 2 ^ 32" by simp
  then show ?thesis by (simp add: parse_u32_def show_u32_def parse_unsigned_show)
qed

lemma parse_u64_show: "n < 2 ^ 64 \<Longrightarrow> parse_u64 (show_nat n) = Some n"
  by (simp add: parse_u64_def parse_unsigned_show)

lemma parse_i32_show: "is_i32 i \<Longrightarrow> parse_i32 (show_int i) = Some i"
proof (cases "i < 0")
  case True
  moreover assume "is_i32 i"
  then have "nat (- i) \<le> 2 ^ 31" by (auto simp: is_i32_def)
  ultimately show ?thesis by (simp add: parse_i32_def parse_signed_def show_int_def)
next
  case False
  moreover assume "is_i32 i"
  ultimately have "nat i < 2 ^ 31" by (auto simp: is_i32_def)
  moreover obtain c r where "show_nat (nat i) = c # r" "is_digit c"
    using show_nat_hd_digit by blast
  moreover have "parse_digits (strip_plus (show_nat (nat i))) = Some (nat i)" by simp
  ultimately show ?thesis
    using False not_digit_sign(2) by (auto simp: parse_i32_def parse_signed_def show_int_def)
qed

subsection \<open>White space and line splitting invert joining\<close>

lemma is_digit_plain: "is_digit c \<Longrightarrow> plain_byte c"
  by (auto simp: is_digit_def plain_byte_def ascii_ws_def wide_ws_def)

lemma plain_text_show [simp]: "plain_text (show_nat n)"
  using show_nat_digits [of n] by (auto simp: plain_text_def list_all_iff is_digit_plain)

lemma plain_text_Cons [simp]: "plain_text (c # s) \<longleftrightarrow> plain_byte c \<and> plain_text s"
  by (simp add: plain_text_def)

lemma plain_byte_minus [simp]: "plain_byte (CHR ''-'')"
  by (auto simp: plain_byte_def ascii_ws_def wide_ws_def)

lemma plain_text_show_int [simp]: "plain_text (show_int i)"
  by (auto simp: show_int_def)

lemma show_int_nonempty [simp]: "show_int i \<noteq> []"
  by (simp add: show_int_def)

lemma plain_text_append [simp]: "plain_text (s @ t) \<longleftrightarrow> plain_text s \<and> plain_text t"
  by (simp add: plain_text_def)

lemma split_ws_from_plain:
  "plain_text t \<Longrightarrow> split_ws_from 0 tok (t @ s) = split_ws_from 0 (tok @ t) s"
  by (induction t arbitrary: tok) (auto simp: plain_text_def ws_len_plain)

lemma split_ws_from_space:
  "split_ws_from 0 tok (CHR '' '' # s) = emit tok @ split_ws_from 0 [] s"
  by (simp add: ws_len_def ascii_ws_def)

lemma split_whitespace_join:
  "list_all (\<lambda>t. plain_text t \<and> t \<noteq> []) ts \<Longrightarrow> split_whitespace (str_join '' '' ts) = ts"
proof (induction ts rule: induct_list012)
  case 1
  then show ?case by (simp add: split_whitespace_def emit_def)
next
  case (2 x)
  then show ?case
    using split_ws_from_plain [of x "[]" "[]"] by (simp add: split_whitespace_def emit_def)
next
  case (3 x y zs)
  then show ?case
    using split_ws_from_plain [of x "[]" "CHR '' '' # str_join '' '' (y # zs)"]
    by (simp add: split_whitespace_def emit_def split_ws_from_space del: split_ws_from.simps)
qed

lemma concat_split_inclusive: "concat (split_inclusive s) = s"
  by (induction s rule: split_inclusive.induct) (auto split: list.splits)

lemma split_inclusive_line:
  "newline \<notin> set l \<Longrightarrow> split_inclusive (l @ newline # s) = (l @ [newline]) # split_inclusive s"
  by (induction l) auto

lemma strip_line_terminated:
  "l = [] \<or> last l \<noteq> carriage_return \<Longrightarrow> strip_line (l @ [newline]) = l"
  by (cases l rule: rev_cases) (auto simp: strip_line_def strip_suffix_def suffix_def)

definition line_ok :: "string \<Rightarrow> bool" where
  "line_ok l \<longleftrightarrow> newline \<notin> set l \<and> (l = [] \<or> last l \<noteq> carriage_return)"

lemma str_lines_unlines:
  "list_all line_ok ls \<Longrightarrow> str_lines (concat (map (\<lambda>l. l @ [newline]) ls)) = ls"
  by (induction ls) (auto simp: str_lines_def split_inclusive_line strip_line_terminated line_ok_def)

lemma str_join_newline:
  "ls \<noteq> [] \<Longrightarrow> str_join [newline] ls @ [newline] = concat (map (\<lambda>l. l @ [newline]) ls)"
  by (induction ls rule: induct_list012) auto

lemma str_lines_join:
  "ls \<noteq> [] \<Longrightarrow> list_all line_ok ls \<Longrightarrow> str_lines (str_join [newline] ls @ [newline]) = ls"
  by (simp add: str_join_newline str_lines_unlines)

lemma plain_text_line_ok: "plain_text l \<Longrightarrow> line_ok l"
  by (auto simp: line_ok_def plain_text_def list_all_iff plain_byte_def ascii_ws_def char_defs
      dest: last_in_set)

lemma line_ok_join_space:
  "list_all plain_text ts \<Longrightarrow> line_ok (str_join '' '' ts)"
proof -
  assume "list_all plain_text ts"
  then have "\<forall>c \<in> set (str_join '' '' ts). plain_byte c \<or> c = CHR '' ''"
    by (induction "'' ''" ts rule: str_join.induct) (auto simp: plain_text_def list_all_iff)
  then show ?thesis
    by (fastforce simp: line_ok_def plain_byte_def ascii_ws_def char_defs dest: last_in_set)
qed

lemma split_inclusive_last: "newline \<notin> set l \<Longrightarrow> l \<noteq> [] \<Longrightarrow> split_inclusive l = [l]"
proof (induction l)
  case (Cons c l)
  then show ?case by (cases "l = []") auto
qed simp

lemma strip_line_last: "newline \<notin> set l \<Longrightarrow> strip_line l = l"
  by (auto simp: strip_line_def strip_suffix_def suffix_def)

lemma str_lines_single: "newline \<notin> set l \<Longrightarrow> l \<noteq> [] \<Longrightarrow> str_lines l = [l]"
  by (simp add: str_lines_def split_inclusive_last strip_line_last)

lemma str_lines_first:
  "line_ok l \<Longrightarrow> str_lines (l @ newline # s) = l # str_lines s"
  using split_inclusive_line [of l s] strip_line_terminated [of l]
  by (simp add: str_lines_def line_ok_def)

lemma str_lines_join_open:
  "list_all (\<lambda>l. line_ok l \<and> l \<noteq> []) ls \<Longrightarrow> str_lines (str_join [newline] ls) = ls"
proof (induction ls rule: induct_list012)
  case 1
  then show ?case by (simp add: str_lines_def)
next
  case (2 x)
  then show ?case by (simp add: str_lines_single line_ok_def)
next
  case (3 x y zs)
  then show ?case by (simp add: str_lines_first)
qed

subsection \<open>Trimming\<close>

lemma trim_start_plain: "plain_byte c \<Longrightarrow> trim_start (c # s) = c # s"
  by (simp add: trim_start.simps [of "c # s"] ws_len_plain)

text \<open>An ASCII byte that is not white space ends no white space character.\<close>

definition solid_byte :: "char \<Rightarrow> bool" where
  "solid_byte c \<longleftrightarrow> c \<notin> set ascii_ws \<and> (\<forall>w \<in> set wide_ws. last w \<noteq> c)"

lemma ws_len_end_solid: "solid_byte c \<Longrightarrow> ws_len_end (s @ [c]) = 0"
  by (auto simp: ws_len_end_def solid_byte_def wide_ws_def suffix_def)

lemma trim_end_solid: "solid_byte c \<Longrightarrow> trim_end (s @ [c]) = s @ [c]"
  by (simp add: trim_end.simps [of "s @ [c]"] ws_len_end_solid)

lemma str_trim_solid: "plain_byte a \<Longrightarrow> solid_byte b \<Longrightarrow> str_trim (a # s @ [b]) = a # s @ [b]"
  using trim_end_solid [of b "a # s"] by (simp add: str_trim_def trim_start_plain)

lemma str_trim_one: "plain_byte a \<Longrightarrow> solid_byte a \<Longrightarrow> str_trim [a] = [a]"
  using trim_end_solid [of a "[]"] by (simp add: str_trim_def trim_start_plain)

lemma str_trim_id:
  assumes "s \<noteq> []" and "plain_byte (hd s)" and "solid_byte (last s)"
  shows "str_trim s = s"
proof (cases s)
  case (Cons a r)
  then show ?thesis
    using assms str_trim_one [of a] str_trim_solid [of a "last r" "butlast r"]
    by (cases "r = []") (simp_all add: append_butlast_last_id)
qed (use assms in simp)

lemma is_digit_solid: "is_digit c \<Longrightarrow> solid_byte c"
  by (auto simp: is_digit_def solid_byte_def ascii_ws_def wide_ws_def)

lemma str_trim_digits:
  assumes "list_all is_digit s" and "s \<noteq> []"
  shows "str_trim s = s"
  using assms by (intro str_trim_id) (auto simp: list_all_iff is_digit_plain is_digit_solid)

lemma str_trim_show [simp]: "str_trim (show_nat n) = show_nat n"
  by (intro str_trim_digits show_nat_digits show_nat_nonempty)

subsection \<open>Splitting and prefixes\<close>

lemma strip_prefix_append [simp]: "strip_prefix p (p @ s) = Some s"
  by (simp add: strip_prefix_def)

lemma split_once_absent:
  "d \<noteq> [] \<Longrightarrow> split_once d s = None \<longleftrightarrow> \<not> sublist d s"
proof (induction s)
  case Nil
  then show ?case by simp
next
  case (Cons c s)
  then show ?case by (auto simp: sublist_Cons_right)
qed

lemma split_once_Some:
  "split_once d s = Some (a, b) \<Longrightarrow> s = a @ d @ b"
proof (induction s arbitrary: a)
  case Nil
  then show ?case by (auto split: if_splits)
next
  case (Cons c s)
  then show ?case by (auto split: if_splits elim: prefixE)
qed

lemma to_ascii_lowercase_append [simp]:
  "to_ascii_lowercase (s @ t) = to_ascii_lowercase s @ to_ascii_lowercase t"
  by (simp add: to_ascii_lowercase_def)

lemma str_contains_append: "str_contains t p \<Longrightarrow> str_contains (s @ t @ u) p"
  unfolding str_contains_def by (auto simp: sublist_def) (metis append.assoc)

lemma str_contains_self [simp]: "str_contains s s"
  by (simp add: str_contains_def)

end
