(* ===== verification/Rt_Bytes.thy ===== *)
theory Rt_Bytes
  imports Rt_Prelude
begin

text \<open>
  Little-endian byte encodings (\<^verbatim>\<open>to_le_bytes\<close>, \<^verbatim>\<open>from_le_bytes\<close>) of
  \<^verbatim>\<open>u32\<close> and \<^verbatim>\<open>i32\<close>, splitting a buffer into fixed chunks
  (\<^verbatim>\<open>chunks_exact\<close>), and the conversions between text and bytes.
\<close>

type_synonym bytes = "u8 list"

definition text_bytes :: "string \<Rightarrow> bytes" where
  "text_bytes s = map (\<lambda>c. of_nat (of_char c)) s"

definition bytes_text :: "bytes \<Rightarrow> string" where
  "bytes_text b = map (\<lambda>x. char_of (unat x)) b"

lemma char_byte_inverse [simp]: "char_of (unat (of_nat (of_char c) :: u8)) = c"
  by (simp add: unat_of_nat)

lemma byte_char_inverse [simp]: "(of_nat (of_char (char_of (unat b) :: char)) :: u8) = b"
  by (simp add: of_char_of)

lemma bytes_text_inverse [simp]: "bytes_text (text_bytes s) = s"
  by (simp add: text_bytes_def bytes_text_def comp_def)

lemma text_bytes_inverse [simp]: "text_bytes (bytes_text b) = b"
  by (simp add: text_bytes_def bytes_text_def comp_def map_idI)

lemma text_bytes_length [simp]: "length (text_bytes s) = length s"
  by (simp add: text_bytes_def)

lemma text_bytes_inject: "text_bytes s = text_bytes t \<longleftrightarrow> s = t"
  by (metis bytes_text_inverse)

definition le_nat :: "bytes \<Rightarrow> nat" where
  "le_nat bs = foldr (\<lambda>b n. unat b + 256 * n) bs 0"

definition u32_of_le :: "bytes \<Rightarrow> u32" where
  "u32_of_le bs = of_nat (le_nat (take 4 bs))"

definition i32_of_le :: "bytes \<Rightarrow> i32" where
  "i32_of_le bs = sint (u32_of_le bs)"

definition u32_to_le :: "u32 \<Rightarrow> bytes" where
  "u32_to_le w =
    [ucast w, ucast (drop_bit 8 w), ucast (drop_bit 16 w), ucast (drop_bit 24 w)]"

definition i32_to_le :: "i32 \<Rightarrow> bytes" where
  "i32_to_le n = u32_to_le (word_of_int n)"

function chunks_exact :: "nat \<Rightarrow> 'a list \<Rightarrow> 'a list list" where
  "chunks_exact n xs =
     (if n = 0 \<or> length xs < n then [] else take n xs # chunks_exact n (drop n xs))"
  by pat_completeness auto
termination
  by (relation "measure (\<lambda>(n, xs). length xs)") auto

declare chunks_exact.simps [simp del]

lemma u32_to_le_length [simp]: "length (u32_to_le w) = 4"
  by (simp add: u32_to_le_def)

lemma i32_to_le_length [simp]: "length (i32_to_le n) = 4"
  by (simp add: i32_to_le_def)

lemma le_nat_simps [simp]: "le_nat [] = 0" "le_nat (b # bs) = unat b + 256 * le_nat bs"
  by (simp_all add: le_nat_def)

lemma unat_ucast8: "unat (ucast (w :: u32) :: u8) = unat w mod 256"
  by (simp add: unsigned_ucast_eq take_bit_eq_mod)

lemma le_nat_u32: "le_nat (u32_to_le w) = unat w"
proof -
  have less: "unat w < 4294967296"
    by simp
  have d: "unat (drop_bit n w) = unat w div 2 ^ n" for n
    by (simp only: unat_drop_bit_eq drop_bit_eq_div [where ?'a = nat])
  have base: "n mod 256 + (256 * (n div 256 mod 256) + (65536 * (n div 65536 mod 256)
      + 16777216 * (n div 16777216))) = n" if "n < 4294967296" for n :: nat
  proof -
    define q r t where "q = n div 256" and "r = q div 256" and "t = r div 256"
    have *: "n div 65536 = r" "n div 16777216 = t"
      by (simp_all add: q_def r_def t_def div_mult2_eq [symmetric])
    have "t < 256"
      using that by (simp flip: *(2) add: less_mult_imp_div_less)
    then have t: "r mod 256 + 256 * t = r" "t mod 256 = t"
      by (simp_all add: t_def)
    have "q mod 256 + 256 * r = q" "n mod 256 + 256 * q = n"
      by (simp_all add: r_def q_def)
    then have "n mod 256 + 256 * (q mod 256 + 256 * (r mod 256 + 256 * t)) = n"
      by (simp only: t)
    then show ?thesis
      unfolding * q_def [symmetric] by simp
  qed
  have top: "unat w div 16777216 mod 256 = unat w div 16777216"
    using less by (simp add: less_mult_imp_div_less)
  have "le_nat (u32_to_le w) = unat w mod 256 + (256 * (unat w div 256 mod 256)
      + (65536 * (unat w div 65536 mod 256) + 16777216 * (unat w div 16777216 mod 256)))"
    by (simp add: u32_to_le_def unat_ucast8 d)
  then show ?thesis
    unfolding top base [OF less] .
qed

lemma u32_le_roundtrip [simp]: "u32_of_le (u32_to_le w @ bs) = w"
  by (simp add: u32_of_le_def le_nat_u32)

lemma u32_le_roundtrip' [simp]: "u32_of_le (u32_to_le w) = w"
  using u32_le_roundtrip [of w "[]"] by simp

lemma sint_word_of_int_i32: "is_i32 n \<Longrightarrow> sint (word_of_int n :: u32) = n"
  by (simp add: is_i32_def signed_of_int signed_take_bit_int_eq_self)

lemma i32_le_roundtrip [simp]: "is_i32 n \<Longrightarrow> i32_of_le (i32_to_le n @ bs) = n"
  by (simp add: i32_of_le_def i32_to_le_def sint_word_of_int_i32)

lemma i32_of_le_range: "is_i32 (i32_of_le bs)"
  using sint_lt [of "u32_of_le bs"] sint_ge [of "u32_of_le bs"]
  by (simp add: is_i32_def i32_of_le_def)

lemma u32_of_le_four: "u32_of_le (a # b # c # d # rest) = u32_of_le [a, b, c, d]"
  by (simp add: u32_of_le_def)

lemma le_nat_four_less: "le_nat [a, b, c, d :: u8] < 2 ^ 32"
  using u8_less [of a] u8_less [of b] u8_less [of c] u8_less [of d]
  by (simp del: u8_less)

lemma chunks_exact_append:
  "0 < n \<Longrightarrow> length x = n \<Longrightarrow> chunks_exact n (x @ xs) = x # chunks_exact n xs"
  by (subst chunks_exact.simps) simp

lemma chunks_exact_Nil [simp]: "chunks_exact n [] = []"
  by (subst chunks_exact.simps) auto

lemma chunks_exact_concat:
  "0 < n \<Longrightarrow> list_all (\<lambda>x. length x = n) xs \<Longrightarrow> chunks_exact n (concat xs) = xs"
  by (induction xs) (auto simp: chunks_exact_append)

lemma chunks_exact_elem_length: "c \<in> set (chunks_exact n xs) \<Longrightarrow> length c = n"
proof (induction n xs rule: chunks_exact.induct)
  case (1 n xs)
  then show ?case by (subst (asm) (2) chunks_exact.simps) (auto split: if_splits)
qed

lemma length_concat_const:
  "list_all (\<lambda>x. length x = n) xs \<Longrightarrow> length (concat xs) = n * length xs"
  by (induction xs) auto

lemma concat_chunks_exact:
  "0 < n \<Longrightarrow> n dvd length xs \<Longrightarrow> concat (chunks_exact n xs) = xs"
proof (induction n xs rule: chunks_exact.induct)
  case (1 n xs)
  show ?case
  proof (cases "length xs < n")
    case True
    with "1.prems" have "xs = []" by (auto dest: dvd_imp_le)
    then show ?thesis by simp
  next
    case False
    with "1.prems" have "n dvd length (drop n xs)" by (simp add: dvd_diff_nat)
    with False "1" show ?thesis by (subst chunks_exact.simps) simp
  qed
qed

end
