(* ===== verification/Domain.thy ===== *)
theory Domain
  imports Rt_Text Rt_Bytes
begin

text \<open>
  The data model of the daemon: \<^verbatim>\<open>app/error.rs\<close> (the error type every fallible
  operation returns), \<^verbatim>\<open>domain/capability.rs\<close>, \<^verbatim>\<open>domain/operation.rs\<close>,
  \<^verbatim>\<open>domain/runtime.rs\<close> and \<^verbatim>\<open>domain/policy.rs\<close>.  An enum is a datatype
  whose constructors carry a two letter prefix of the enum, a struct is a record.
\<close>

subsection \<open>Errors\<close>

text \<open>\<^verbatim>\<open>std::io::Error\<close> as the source uses it: its kind and its message.\<close>

datatype io_kind =
    NotFound | PermissionDenied | TimedOut | WouldBlock | Interrupted | UnexpectedEof
  | WriteZero | InvalidData | OtherIo

record io_error =
  io_kind :: io_kind
  io_message :: string

datatype daemon_error =
    Config_Error string
  | Io_Error io_error
  | Protocol_Error string
  | System_Error string

type_synonym 'a res = "daemon_error + 'a"

definition show_error :: "daemon_error \<Rightarrow> string" where
  "show_error e =
     (case e of
        Config_Error m \<Rightarrow> ''config error: '' @ m
      | Io_Error io \<Rightarrow> ''io error: '' @ io_message io
      | Protocol_Error m \<Rightarrow> ''protocol error: '' @ m
      | System_Error m \<Rightarrow> ''system error: '' @ m)"

definition is_ok :: "'a res \<Rightarrow> bool" where
  "is_ok r = (case r of Inl _ \<Rightarrow> False | Inr _ \<Rightarrow> True)"

lemma is_ok_simps [simp]: "is_ok (Inr x)" "\<not> is_ok (Inl e)"
  by (simp_all add: is_ok_def)

subsection \<open>Capabilities\<close>

datatype capability_name =
    CN_Root | CN_PackageInventory | CN_LsposedSystemServer | CN_CgroupV2Freezer
  | CN_BinderFreezer | CN_SignalControl | CN_NetworkBreak | CN_WakelockControl

datatype capability_status = CS_Available | CS_Missing | CS_Degraded | CS_Untested

datatype risk_level = RL_Normal | RL_Caution | RL_Disabled

record control_capability =
  cc_name :: capability_name
  cc_status :: capability_status
  cc_evidence :: string
  cc_checked_at_ms :: u128
  cc_risk_level :: risk_level

definition capability_missing :: "capability_name \<Rightarrow> string \<Rightarrow> control_capability" where
  "capability_missing name evidence =
    \<lparr>cc_name = name, cc_status = CS_Missing, cc_evidence = evidence, cc_checked_at_ms = 0,
     cc_risk_level = RL_Disabled\<rparr>"

subsection \<open>Operations\<close>

datatype control_action =
    CA_Freeze | CA_Unfreeze | CA_Terminate | CA_Postpone | CA_Fallback | CA_Skip | CA_Recover

datatype operation_result = OR_Success | OR_Partial | OR_Failed | OR_Skipped | OR_Postponed

record control_operation =
  co_operation_id :: u64
  co_timestamp_ms :: u128
  co_package_name :: string
  co_uid :: u32
  co_pid_list :: "i32 list"
  co_action :: control_action
  co_backend :: string
  co_reason :: string
  co_result :: operation_result
  co_details :: string

subsection \<open>Processes\<close>

datatype process_state = PS_Foreground | PS_Visible | PS_Service | PS_Cached | PS_Empty | PS_Unknown

datatype control_state = CT_Running | CT_PendingFreeze | CT_Frozen | CT_Unfreezing | CT_Unknown

record runtime_process =
  rp_pid :: i32
  rp_uid :: u32
  rp_package_name :: string
  rp_process_name :: string
  rp_proc_state :: process_state
  rp_control_state :: control_state
  rp_cgroup_freeze_path :: "string option"
  rp_binder_state :: "string option"
  rp_start_time_ticks :: "u64 option"
  rp_last_seen_at_ms :: u128

definition identity_matches :: "runtime_process \<Rightarrow> string \<Rightarrow> u32 \<Rightarrow> bool" where
  "identity_matches p package_name uid \<longleftrightarrow> rp_package_name p = package_name \<and> rp_uid p = uid"

subsection \<open>Policies\<close>

datatype protected_reason =
    PR_Manager | PR_Launcher | PR_InputMethod | PR_RootManager | PR_HookManager
  | PR_SystemCritical | PR_UserProtected

record managed_app =
  ma_package_name :: string
  ma_user_id :: u32
  ma_uid :: u32
  ma_label :: string
  ma_is_system_app :: bool
  ma_protected_reason :: "protected_reason option"
  ma_policy_id :: string
  ma_last_seen_baseline :: string

definition policy_identity :: "managed_app \<Rightarrow> string \<times> u32" where
  "policy_identity app = (ma_package_name app, ma_user_id app)"

definition is_protected :: "managed_app \<Rightarrow> bool" where
  "is_protected app \<longleftrightarrow> ma_protected_reason app \<noteq> None"

definition apply_protected_defaults :: "managed_app \<Rightarrow> managed_app" where
  "apply_protected_defaults app =
     (if ma_protected_reason app \<noteq> None \<or> ma_is_system_app app then
        app\<lparr>ma_protected_reason :=
               (case ma_protected_reason app of Some r \<Rightarrow> Some r | None \<Rightarrow> Some PR_SystemCritical),
            ma_policy_id := ''protected:'' @ ma_package_name app\<rparr>
      else app)"

datatype freeze_mode =
    FM_Protected | FM_Free | FM_Freeze | FM_FreezeWithRestrictions | FM_SignalStop | FM_Terminate

datatype control_method = CM_CgroupBinderFreeze | CM_SignalStop | CM_Terminate

record restriction_requests =
  rr_network_break :: bool
  rr_wakelock_restriction :: bool

datatype foreground_strategy = FS_Strict | FS_Permissive

datatype fallback_action = FB_Postpone | FB_AlternateFreezer | FB_Signal | FB_Terminate | FB_Skip

datatype freeze_policy =
  Selected (fp_mode: freeze_mode) (fp_delay_ms: u64) (fp_foreground_strategy: foreground_strategy)
    (fp_allow_network_restriction: bool) (fp_allow_wakelock_restriction: bool)
    (fp_fallback_strategy: "fallback_action list") (fp_updated_at_ms: u128)

definition legacy_mode_table :: "i32 \<Rightarrow> freeze_mode \<times> bool \<times> fallback_action list" where
  "legacy_mode_table mode =
     (if mode = 10 then (FM_Terminate, False, [FB_Postpone, FB_Skip])
      else if mode = 20 then (FM_SignalStop, False, [FB_Postpone, FB_Skip])
      else if mode = 21 then (FM_SignalStop, True, [FB_Postpone, FB_Skip])
      else if mode = 30 then (FM_Freeze, False, [FB_Signal, FB_Skip])
      else if mode = 31 then (FM_Freeze, True, [FB_Signal, FB_Skip])
      else if mode = 40 \<or> mode = 50 then (FM_Protected, False, [FB_Skip])
      else (FM_Free, False, [FB_Skip]))"

definition from_legacy_mode :: "i32 \<Rightarrow> bool \<Rightarrow> freeze_policy" where
  "from_legacy_mode mode permissive =
     (let (m, allow_network, fallback) = legacy_mode_table mode
      in Selected m 0 (if permissive then FS_Permissive else FS_Strict)
           allow_network False fallback 0)"

definition protected_default :: freeze_policy where
  "protected_default = Selected FM_Protected 0 FS_Strict False False [FB_Skip] 0"

fun policy_control_method :: "freeze_policy \<Rightarrow> control_method option" where
  "policy_control_method (Selected mode _ _ _ _ _ _) =
     (case mode of
        FM_Freeze \<Rightarrow> Some CM_CgroupBinderFreeze
      | FM_FreezeWithRestrictions \<Rightarrow> Some CM_CgroupBinderFreeze
      | FM_SignalStop \<Rightarrow> Some CM_SignalStop
      | FM_Terminate \<Rightarrow> Some CM_Terminate
      | FM_Protected \<Rightarrow> None
      | FM_Free \<Rightarrow> None)"

definition is_control_allowed_for :: "freeze_policy \<Rightarrow> managed_app \<Rightarrow> bool" where
  "is_control_allowed_for policy app =
     (if ma_is_system_app app \<or> is_protected app then False
      else policy_control_method policy \<noteq> None)"

fun requested_restrictions :: "freeze_policy \<Rightarrow> restriction_requests" where
  "requested_restrictions (Selected _ _ _ allow_network allow_wakelock _ _) =
     \<lparr>rr_network_break = allow_network, rr_wakelock_restriction = allow_wakelock\<rparr>"

lemma is_control_allowed_iff:
  "is_control_allowed_for policy app \<longleftrightarrow>
     \<not> ma_is_system_app app \<and> ma_protected_reason app = None \<and>
     fp_mode policy \<notin> {FM_Protected, FM_Free}"
  by (cases policy) (auto simp: is_control_allowed_for_def is_protected_def split: freeze_mode.splits)

lemma apply_protected_defaults_idem:
  "apply_protected_defaults (apply_protected_defaults app) = apply_protected_defaults app"
  by (auto simp: apply_protected_defaults_def split: option.splits)

text \<open>
  Protection is final: after \<^verbatim>\<open>apply_protected_defaults\<close> a system application,
  or one with a protection reason, is refused by every policy, and an application that has neither
  is returned unchanged, so that exactly the policies with a control method control it.
\<close>

lemma protected_defaults_block_control:
  "is_control_allowed_for policy (apply_protected_defaults app) \<longleftrightarrow>
     \<not> ma_is_system_app app \<and> ma_protected_reason app = None \<and> policy_control_method policy \<noteq> None"
  by (auto simp: is_control_allowed_for_def is_protected_def apply_protected_defaults_def)

end
