(* ===== verification/Oplog.thy ===== *)
theory Oplog
  imports Domain
begin

text \<open>
  \<^verbatim>\<open>app/operation_log.rs\<close>: the bounded log of control operations, its JSON and
  legacy text renderings, and the escaping they use.  The contract \<open>bounded_log\<close>, which the
  manager log of \<^verbatim>\<open>app/logging.rs\<close> shares, is stated here.
\<close>

subsection \<open>The bounded log contract\<close>

locale bounded_log =
  fixes items :: "'l \<Rightarrow> 'a list"
    and cap :: "'l \<Rightarrow> nat"
    and push :: "'a \<Rightarrow> 'l \<Rightarrow> 'l"
    and ok :: "'l \<Rightarrow> bool"
  assumes push_items: "items (push x l) = items l \<or> (\<exists>k. items (push x l) = drop k (items l) @ [x])"
    and push_cap: "cap (push x l) = cap l"
    and push_ok: "ok l \<Longrightarrow> ok (push x l)"
    and ok_bounded: "ok l \<Longrightarrow> length (items l) \<le> cap l"
begin

lemma push_all_cap: "cap (fold push xs l) = cap l"
  by (induction xs arbitrary: l) (simp_all add: push_cap)

lemma push_all_ok: "ok l \<Longrightarrow> ok (fold push xs l)"
  by (induction xs arbitrary: l) (simp_all add: push_ok)

lemma push_all_bounded: "ok l \<Longrightarrow> length (items (fold push xs l)) \<le> cap l"
  using push_all_ok [of l xs] ok_bounded push_all_cap by metis

text \<open>Pushing keeps the order of the log: what is left is the end of the old log followed by some of
  the new entries, in their order.\<close>

lemma push_all_items: "\<exists>k ys. subseq ys xs \<and> items (fold push xs l) = drop k (items l @ ys)"
proof (induction xs arbitrary: l)
  case Nil
  show ?case by (rule exI [of _ 0], rule exI [of _ "[]"]) simp
next
  case (Cons x xs)
  from Cons.IH [of "push x l"] obtain k ys where ys: "subseq ys xs"
    and eq: "items (fold push xs (push x l)) = drop k (items (push x l) @ ys)" by blast
  from push_items [of x l] show ?case
  proof
    assume "items (push x l) = items l"
    with ys eq show ?thesis by (auto intro: list_emb_Cons)
  next
    assume "\<exists>j. items (push x l) = drop j (items l) @ [x]"
    then obtain j where j: "items (push x l) = drop j (items l) @ [x]" by blast
    have "drop k (drop j (items l) @ x # ys) = drop (min j (length (items l)) + k) (items l @ x # ys)"
      by (cases "j \<le> length (items l)") (simp_all add: add.commute)
    with j ys eq show ?thesis
      by (intro exI [of _ "min j (length (items l)) + k"] exI [of _ "x # ys"]) simp
  qed
qed

lemma push_sorted:
  assumes "sorted_wrt R (items l)" and "\<forall>y \<in> set (items l). R y x"
  shows "sorted_wrt R (items (push x l))"
  using push_items [of x l] assms
  by (auto simp: sorted_wrt_append intro: sorted_wrt_drop) (meson in_set_dropD)

lemma push_set: "set (items (push x l)) \<subseteq> insert x (set (items l))"
  using push_items [of x l] by (auto dest: in_set_dropD)

end

subsection \<open>The operation log\<close>

record operation_log =
  ol_capacity :: usize
  ol_records :: "control_operation list"

definition operation_log_new :: "usize \<Rightarrow> operation_log" where
  "operation_log_new capacity = \<lparr>ol_capacity = max capacity 1, ol_records = []\<rparr>"

definition oplog_push :: "control_operation \<Rightarrow> operation_log \<Rightarrow> operation_log" where
  "oplog_push operation log =
     log\<lparr>ol_records :=
          (if length (ol_records log) = ol_capacity log then tl (ol_records log) else ol_records log)
            @ [operation]\<rparr>"

definition oplog_wf :: "operation_log \<Rightarrow> bool" where
  "oplog_wf log \<longleftrightarrow> 0 < ol_capacity log \<and> length (ol_records log) \<le> ol_capacity log"

lemma oplog_wf_new [simp, wf_intros]: "oplog_wf (operation_log_new n)"
  by (simp add: oplog_wf_def operation_log_new_def)

lemma oplog_push_cases:
  "ol_records (oplog_push x l) = drop (if length (ol_records l) = ol_capacity l then 1 else 0) (ol_records l) @ [x]"
  by (simp add: oplog_push_def drop_Suc)

interpretation oplog: bounded_log ol_records ol_capacity oplog_push oplog_wf
proof unfold_locales
  fix x l
  show "ol_records (oplog_push x l) = ol_records l \<or>
      (\<exists>k. ol_records (oplog_push x l) = drop k (ol_records l) @ [x])"
    using oplog_push_cases by blast
  show "ol_capacity (oplog_push x l) = ol_capacity l"
    by (simp add: oplog_push_def)
  assume "oplog_wf l"
  then show "oplog_wf (oplog_push x l)" and "length (ol_records l) \<le> ol_capacity l"
    by (auto simp: oplog_wf_def oplog_push_def)
qed

lemmas oplog_wf_push [simp, wf_intros] = oplog.push_ok

subsection \<open>Names and fields\<close>

definition escape_json :: "string \<Rightarrow> string" where
  "escape_json value = concat (map escape_char value)"

definition sanitize_legacy_field :: "string \<Rightarrow> string" where
  "sanitize_legacy_field value = map sanitize_char value"

definition action_name :: "control_action \<Rightarrow> string" where
  "action_name action =
     (case action of
        CA_Freeze \<Rightarrow> ''freeze'' | CA_Unfreeze \<Rightarrow> ''unfreeze'' | CA_Terminate \<Rightarrow> ''terminate''
      | CA_Postpone \<Rightarrow> ''postpone'' | CA_Fallback \<Rightarrow> ''fallback'' | CA_Skip \<Rightarrow> ''skip''
      | CA_Recover \<Rightarrow> ''recover'')"

definition result_name :: "operation_result \<Rightarrow> string" where
  "result_name result =
     (case result of
        OR_Success \<Rightarrow> ''success'' | OR_Partial \<Rightarrow> ''partial'' | OR_Failed \<Rightarrow> ''failed''
      | OR_Skipped \<Rightarrow> ''skipped'' | OR_Postponed \<Rightarrow> ''postponed'')"

definition is_binder_blocker :: "control_operation \<Rightarrow> bool" where
  "is_binder_blocker op \<longleftrightarrow>
     str_contains (to_ascii_lowercase (co_reason op @ '' '' @ co_details op)) ''binder''"

definition legacy_result_text :: "operation_result \<Rightarrow> string" where
  "legacy_result_text result =
     (case result of
        OR_Success \<Rightarrow> (utf8 [0xE6, 0x88, 0x90, 0xE5, 0x8A, 0x9F])
      | OR_Partial \<Rightarrow> (utf8 [0xE9, 0x83, 0xA8, 0xE5, 0x88, 0x86, 0xE5, 0xAE, 0x8C, 0xE6,
        0x88, 0x90])
      | OR_Failed \<Rightarrow> (utf8 [0xE5, 0xA4, 0xB1, 0xE8, 0xB4, 0xA5])
      | OR_Skipped \<Rightarrow> (utf8 [0xE5, 0xB7, 0xB2, 0xE8, 0xB7, 0xB3, 0xE8, 0xBF, 0x87])
      | OR_Postponed \<Rightarrow> (utf8 [0xE5, 0xB7, 0xB2, 0xE5, 0xBB, 0xB6, 0xE8, 0xBF, 0x9F]))"

definition legacy_process_text :: "usize \<Rightarrow> string" where
  "legacy_process_text process_count = show_nat process_count @ (utf8 [0xE8, 0xBF, 0x9B, 0xE7, 0xA8, 0x8B])"

definition legacy_freeze_phrase :: "control_operation \<Rightarrow> string" where
  "legacy_freeze_phrase op =
     (if str_contains (co_backend op) ''signal'' then (utf8 [0xF0, 0x9F, 0xA7, 0x8A, 0xE5, 0x86,
        0xBB, 0xE7, 0xBB, 0x93])
      else (utf8 [0xE2, 0x9D, 0x84, 0xEF, 0xB8, 0x8F, 0xE5, 0x86, 0xBB, 0xE7, 0xBB, 0x93]))"

definition legacy_time_prefix :: "u128 \<Rightarrow> string" where
  "legacy_time_prefix timestamp_ms =
     (let seconds = (timestamp_ms div 1000 + 8 * 3600) mod 86400;
          hour = seconds div 3600;
          minute = (seconds mod 3600) div 60;
          second = seconds mod 60
      in ''['' @ show_padded 2 hour @ '':'' @ show_padded 2 minute @ '':'' @ show_padded 2 second @ '']  '')"

definition legacy_timestamped_line :: "u128 \<Rightarrow> string \<Rightarrow> string" where
  "legacy_timestamped_line timestamp_ms message =
     (let line = legacy_time_prefix timestamp_ms @ message
      in if ends_with line [newline] then line else line @ [newline])"

text \<open>The text of \<^verbatim>\<open>details\<close> after the leading \<^verbatim>\<open>process_count=\<close> token.\<close>

function skip_to_ws :: "string \<Rightarrow> string option" where
  "skip_to_ws s = (if s = [] then None else if ws_len s > 0 then Some s else skip_to_ws (tl s))"
  by pat_completeness auto
termination
  by (relation "measure length") auto

declare skip_to_ws.simps [simp del]

definition meaningful_details :: "string \<Rightarrow> string option" where
  "meaningful_details details =
     (let details = str_trim details
      in if details = [] then None
         else let details =
                (case strip_prefix ''process_count='' details of
                   Some remainder \<Rightarrow>
                     (case skip_to_ws remainder of Some rest \<Rightarrow> trim_start rest | None \<Rightarrow> [])
                 | None \<Rightarrow> details)
              in if details = [] then None else Some details)"

subsection \<open>Renderings\<close>

definition pid_text :: "control_operation \<Rightarrow> string" where
  "pid_text op = str_join '','' (map show_int (co_pid_list op))"

definition json_str :: "string \<Rightarrow> string \<Rightarrow> string" where
  "json_str key value = [quote] @ key @ [quote] @ '':'' @ [quote] @ value @ [quote]"

definition json_raw :: "string \<Rightarrow> string \<Rightarrow> string" where
  "json_raw key value = [quote] @ key @ [quote] @ '':'' @ value"

definition operation_to_json :: "control_operation \<Rightarrow> string" where
  "operation_to_json op =
     ''{'' @ str_join '',''
       [json_raw ''operationId'' (show_nat (co_operation_id op)),
        json_raw ''timestampMs'' (show_nat (co_timestamp_ms op)),
        json_str ''packageName'' (escape_json (co_package_name op)),
        json_raw ''uid'' (show_u32 (co_uid op)),
        json_raw ''pidList'' (''['' @ pid_text op @ '']''),
        json_str ''action'' (action_name (co_action op)),
        json_str ''backend'' (escape_json (co_backend op)),
        json_str ''reason'' (escape_json (co_reason op)),
        json_str ''result'' (result_name (co_result op)),
        json_str ''details'' (escape_json (co_details op))] @ ''}''"

definition oplog_to_json :: "operation_log \<Rightarrow> string" where
  "oplog_to_json log =
     ''{'' @ json_raw ''operations'' (''['' @ str_join '','' (map operation_to_json (ol_records log)) @ '']'')
       @ ''}''"

definition blocker_pid_text :: "control_operation \<Rightarrow> string" where
  "blocker_pid_text op = (case co_pid_list op of [] \<Rightarrow> ''?'' | pid # _ \<Rightarrow> show_int pid)"

definition legacy_context_suffix :: "control_operation \<Rightarrow> string \<Rightarrow> string" where
  "legacy_context_suffix op pids =
     '' '' @ str_join '' ''
       ([''UID:'' @ show_u32 (co_uid op)]
        @ (if pids \<noteq> [] then [''PID:'' @ pids] else [])
        @ (if str_trim (co_backend op) \<noteq> []
           then [(utf8 [0xE6, 0x96, 0xB9, 0xE5, 0xBC, 0x8F,
        0x3A]) @ sanitize_legacy_field (co_backend op)] else [])
        @ [(utf8 [0xE7, 0xBB, 0x93, 0xE6, 0x9E, 0x9C, 0x3A]) @ legacy_result_text (co_result op)]
        @ (if str_trim (co_reason op) \<noteq> []
           then [(utf8 [0xE5, 0x8E, 0x9F, 0xE5, 0x9B, 0xA0,
        0x3A]) @ sanitize_legacy_field (co_reason op)] else [])
        @ (case meaningful_details (co_details op) of
             Some details \<Rightarrow>
               [(utf8 [0xE8, 0xAF, 0xA6, 0xE6, 0x83, 0x85, 0x3A]) @ sanitize_legacy_field details]
           | None \<Rightarrow> []))"

text \<open>The two message functions differ in the context they append: none, or the suffix above.\<close>

definition operation_message :: "control_operation \<Rightarrow> string \<Rightarrow> string" where
  "operation_message op ctxt =
     (let package_name = sanitize_legacy_field (co_package_name op);
          process_text = legacy_process_text (length (co_pid_list op))
      in case co_action op of
           CA_Freeze \<Rightarrow> legacy_freeze_phrase op @ '' '' @ package_name @ '' '' @ process_text @ ctxt
         | CA_Unfreeze \<Rightarrow>
             (if co_pid_list op = []
              then (utf8 [0xF0, 0x9F, 0x98, 0x81, 0xE5, 0x90, 0xAF, 0xE5, 0x8A, 0xA8,
        0x20]) @ package_name @ ctxt
              else (utf8 [0xE2, 0x98, 0x80, 0xEF, 0xB8, 0x8F, 0xE8, 0xA7, 0xA3, 0xE5, 0x86, 0xBB, 0x20])
                     @ package_name @ '' '' @ process_text @ ctxt)
         | CA_Terminate \<Rightarrow>
             (if co_pid_list op = []
              then (utf8 [0xF0, 0x9F, 0x98, 0xAD, 0xE5, 0x85, 0xB3, 0xE9, 0x97, 0xAD,
        0x20]) @ package_name @ ctxt
              else (utf8 [0xF0, 0x9F, 0x98, 0xAD, 0xE5, 0x85, 0xB3, 0xE9, 0x97, 0xAD, 0x20])
                     @ package_name @ '' '' @ process_text @ ctxt)
         | CA_Postpone \<Rightarrow>
             (if is_binder_blocker op
              then package_name @ '':'' @ blocker_pid_text op
                     @ (utf8 [0x20, 0x42, 0x69, 0x6E, 0x64, 0x65, 0x72, 0xE6, 0xAD, 0xA3, 0xE5, 0x9C,
        0xA8, 0xE4, 0xBC, 0xA0, 0xE8, 0xBE, 0x93, 0x2C, 0x20, 0xE5, 0xBB, 0xB6, 0xE8, 0xBF, 0x9F, 0xE5, 0x90, 0x8E, 0xE5, 0x86, 0x8D, 0xE5, 0x86, 0xBB, 0xE7, 0xBB, 0x93]) @ ctxt
              else (utf8 [0xE2, 0x8F, 0xB3, 0xE5, 0xBB, 0xB6, 0xE8, 0xBF, 0x9F, 0xE5, 0x86, 0xBB,
        0xE7, 0xBB, 0x93, 0x20])
                     @ package_name @ '' '' @ process_text @ ctxt)
         | CA_Fallback \<Rightarrow> (utf8 [0xE2, 0x9A, 0xA0, 0xEF, 0xB8, 0x8F, 0xE9, 0x99, 0x8D,
        0xE7, 0xBA, 0xA7, 0xE5, 0xA4, 0x84, 0xE7, 0x90, 0x86, 0x20])
             @ package_name @ '' '' @ process_text @ ctxt
         | CA_Skip \<Rightarrow> (utf8 [0xE2, 0x9A, 0xA0, 0xEF, 0xB8, 0x8F, 0xE8, 0xB7, 0xB3, 0xE8,
        0xBF, 0x87, 0x20])
             @ package_name @ '' '' @ process_text @ ctxt
         | CA_Recover \<Rightarrow> (utf8 [0xE2, 0x99, 0xBB, 0xEF, 0xB8, 0x8F, 0xE6, 0x81, 0xA2,
        0xE5, 0xA4, 0x8D, 0x20])
             @ package_name @ '' '' @ process_text @ ctxt)"

definition legacy_operation_message :: "control_operation \<Rightarrow> string" where
  "legacy_operation_message op = operation_message op []"

definition diagnostic_operation_message :: "control_operation \<Rightarrow> string" where
  "diagnostic_operation_message op = operation_message op (legacy_context_suffix op (pid_text op))"

definition operation_to_legacy_text :: "control_operation \<Rightarrow> string" where
  "operation_to_legacy_text op =
     legacy_timestamped_line (co_timestamp_ms op) (legacy_operation_message op)"

definition operation_to_debug_text :: "control_operation \<Rightarrow> string" where
  "operation_to_debug_text op =
     legacy_timestamped_line (co_timestamp_ms op) (diagnostic_operation_message op)"

definition oplog_to_legacy_text :: "operation_log \<Rightarrow> string" where
  "oplog_to_legacy_text log = concat (map operation_to_legacy_text (ol_records log))"

definition operation_is_legacy_info :: "control_operation \<Rightarrow> bool" where
  "operation_is_legacy_info op =
     (case (co_action op, co_result op) of
        (CA_Freeze, OR_Success) \<Rightarrow> True
      | (CA_Unfreeze, OR_Success) \<Rightarrow> True
      | (CA_Terminate, OR_Success) \<Rightarrow> True
      | (CA_Postpone, OR_Postponed) \<Rightarrow> is_binder_blocker op
      | _ \<Rightarrow> False)"

subsection \<open>Escaping is safe\<close>

text \<open>The control characters and the two characters JSON gives a meaning inside a string.\<close>

fun json_string_body :: "string \<Rightarrow> bool" where
  "json_string_body [] = True"
| "json_string_body (c # cs) =
     (if c = quote \<or> (of_char c :: nat) < 32 then False
      else if c = backslash then
        (case cs of
           [] \<Rightarrow> False
         | e # r \<Rightarrow>
             if e \<in> {quote, backslash, CHR ''n'', CHR ''r'', CHR ''t''} then json_string_body r
             else e = CHR ''u'' \<and> 4 \<le> length r \<and> json_string_body r)
      else json_string_body cs)"

lemma hex_digit_code: "d < 16 \<Longrightarrow> (of_char (hex_digit d) :: nat) = (if d < 10 then 48 + d else 87 + d)"
  by (simp add: hex_digit_def of_char_of)

lemma hex_digit_safe:
  "d < 16 \<Longrightarrow> hex_digit d \<noteq> quote \<and> hex_digit d \<noteq> backslash \<and> 32 \<le> (of_char (hex_digit d) :: nat)"
  using hex_digit_code [of d] by (auto simp: char_defs split: if_splits)

lemma json_body_escape_append:
  "json_string_body (escape_char c @ s) = json_string_body s"
proof -
  have "(of_char c :: nat) div 16 < 16" "(of_char c :: nat) mod 16 < 16"
    by (simp_all add: less_mult_imp_div_less)
  then show ?thesis
    using hex_digit_safe [of "of_char c div 16"] hex_digit_safe [of "of_char c mod 16"]
    by (auto simp: escape_char_def char_defs not_less)
qed

text \<open>
  An escaped string is a well-formed JSON string body for every input: no bare quote, no
  control character, and every backslash starts a complete escape sequence.  A package name or an
  error text therefore cannot break out of its field of the operation log.
\<close>

lemma escape_json_well_formed: "json_string_body (escape_json s)"
  by (induction s) (simp_all add: escape_json_def json_body_escape_append)

subsection \<open>Clock\<close>

lemma show_padded_two: "n < 100 \<Longrightarrow> length (show_padded 2 n) = 2"
proof -
  assume "n < 100"
  then have "length (show_nat n) \<le> 2"
    using less_mult_imp_div_less [of n 10 10]
    by (simp add: show_nat.simps [of n] show_nat.simps [of "n div 10"])
  then show ?thesis by (simp add: show_padded_def)
qed

lemma legacy_time_prefix_length: "length (legacy_time_prefix t) = 12"
proof -
  define s where "s = (t div 1000 + 8 * 3600) mod 86400"
  have "s < 86400" by (simp add: s_def)
  then have "s div 3600 < 100" "s mod 3600 div 60 < 100" "s mod 60 < 100"
    by (simp_all add: less_mult_imp_div_less)
  then show ?thesis
    unfolding legacy_time_prefix_def Let_def s_def [symmetric] by (simp add: show_padded_two)
qed

end
