(* ===== verification/Logging.thy ===== *)
theory Logging
  imports Oplog
begin

text \<open>
  \<^verbatim>\<open>app/logging.rs\<close>: the manager log.  It is bounded in records and in retained bytes,
  drops operations it has already seen, and filters by view when rendered.  The heap size of a
  record's strings (\<^verbatim>\<open>String::capacity\<close>) is allocator state; a record carries it in the
  field \<open>lr_heap\<close>, which no comparison of records reads.
\<close>

definition log_level_setting_index :: usize where "log_level_setting_index = 30"
definition max_retained_log_bytes :: usize where "max_retained_log_bytes = 1000000"

datatype log_view = LV_Info | LV_Warn | LV_Error | LV_Critical | LV_Debug

definition decode_log_view :: "u8 \<Rightarrow> log_view \<times> bool" where
  "decode_log_view v =
     (if v = 0 then (LV_Info, False)
      else if v = 1 then (LV_Debug, False)
      else if v = 2 then (LV_Warn, False)
      else if v = 3 then (LV_Error, False)
      else if v = 4 then (LV_Critical, False)
      else (LV_Info, True))"

datatype log_level = LL_Info | LL_Warn | LL_Error | LL_Critical | LL_Debug

datatype log_category = LC_LegacyOperation | LC_Diagnostic | LC_Fault

datatype log_payload = LP_Text string | LP_VerifiedLegacyLine string | LP_Operation control_operation

record log_record =
  lr_level :: log_level
  lr_category :: log_category
  lr_timestamp_ms :: u128
  lr_payload :: log_payload
  lr_heap :: usize

definition text_record :: "log_level \<Rightarrow> log_category \<Rightarrow> u128 \<Rightarrow> string \<Rightarrow> log_record" where
  "text_record level category timestamp_ms message =
    \<lparr>lr_level = level, lr_category = category, lr_timestamp_ms = timestamp_ms,
     lr_payload = LP_Text message, lr_heap = length message\<rparr>"

definition legacy_text :: "u128 \<Rightarrow> string \<Rightarrow> log_record" where
  "legacy_text timestamp_ms message = text_record LL_Info LC_LegacyOperation timestamp_ms message"

definition diagnostic :: "log_level \<Rightarrow> u128 \<Rightarrow> string \<Rightarrow> log_record" where
  "diagnostic level timestamp_ms message = text_record level LC_Diagnostic timestamp_ms message"

definition fault :: "log_level \<Rightarrow> u128 \<Rightarrow> string \<Rightarrow> log_record" where
  "fault level timestamp_ms message = text_record level LC_Fault timestamp_ms message"

definition operation_log_level :: "control_operation \<Rightarrow> log_level" where
  "operation_log_level op =
     (case co_result op of OR_Partial \<Rightarrow> LL_Warn | OR_Failed \<Rightarrow> LL_Error | _ \<Rightarrow> LL_Info)"

definition operation_heap :: "control_operation \<Rightarrow> usize" where
  "operation_heap op =
     length (co_package_name op) + length (co_backend op) + length (co_reason op)
       + length (co_details op) + length (co_pid_list op) * 4"

definition operation_record :: "control_operation \<Rightarrow> log_record" where
  "operation_record op =
    \<lparr>lr_level = operation_log_level op, lr_category = LC_LegacyOperation,
     lr_timestamp_ms = co_timestamp_ms op, lr_payload = LP_Operation op, lr_heap = operation_heap op\<rparr>"

definition is_verified_legacy_line :: "string \<Rightarrow> bool" where
  "is_verified_legacy_line line \<longleftrightarrow>
     length line \<ge> 12 \<and> line ! 0 = CHR ''['' \<and> line ! 3 = CHR '':'' \<and> line ! 6 = CHR '':'' \<and>
     line ! 9 = CHR '']'' \<and> line ! 10 = CHR '' '' \<and> line ! 11 = CHR '' '' \<and>
     list_all (\<lambda>i. is_digit (line ! i)) [1, 2, 4, 5, 7, 8] \<and>
     (let message = drop 12 line
      in list_ex (starts_with message)
           [(utf8 [0xE2, 0x9D, 0x84, 0xEF, 0xB8, 0x8F, 0xE5, 0x86, 0xBB, 0xE7, 0xBB, 0x93,
        0x20]), (utf8 [0xF0, 0x9F, 0xA7, 0x8A, 0xE5, 0x86, 0xBB, 0xE7, 0xBB, 0x93, 0x20]),
            (utf8 [0xE2, 0x98, 0x80, 0xEF, 0xB8, 0x8F, 0xE8, 0xA7, 0xA3, 0xE5, 0x86, 0xBB,
        0x20]), (utf8 [0xF0, 0x9F, 0x98, 0x81, 0xE5, 0x90, 0xAF, 0xE5, 0x8A, 0xA8, 0x20]),
            (utf8 [0xF0, 0x9F, 0x98, 0xAD, 0xE5, 0x85, 0xB3, 0xE9, 0x97, 0xAD, 0x20]), (utf8 [0xE2,
        0x9A, 0x99, 0xEF, 0xB8, 0x8F, 0xE8, 0xAE, 0xBE, 0xE7, 0xBD, 0xAE, 0xE6, 0x88, 0x90, 0xE5, 0x8A, 0x9F])]
         \<or> ends_with message (utf8 [0x20, 0x42, 0x69, 0x6E, 0x64, 0x65, 0x72, 0xE6, 0xAD, 0xA3,
        0xE5, 0x9C, 0xA8, 0xE4, 0xBC, 0xA0, 0xE8, 0xBE, 0x93, 0x2C, 0x20, 0xE5, 0xBB, 0xB6, 0xE8, 0xBF, 0x9F, 0xE5, 0x90, 0x8E, 0xE5, 0x86, 0x8D, 0xE5, 0x86, 0xBB, 0xE7, 0xBB, 0x93]))"

definition verified_legacy_line :: "string \<Rightarrow> log_record option" where
  "verified_legacy_line line =
     (if \<not> is_verified_legacy_line line then None
      else Some \<lparr>lr_level = LL_Info, lr_category = LC_LegacyOperation, lr_timestamp_ms = 0,
                 lr_payload = LP_VerifiedLegacyLine line, lr_heap = length line\<rparr>)"

definition retained_record_bytes :: "log_record \<Rightarrow> usize" where
  "retained_record_bytes r = 128 + lr_heap r"

subsection \<open>The log\<close>

record manager_log =
  ml_capacity :: usize
  ml_records :: "log_record list"
  ml_retained_bytes :: usize
  ml_highest_operation_id :: u64
  ml_operation_timestamp_cutoff_ms :: "u128 option"
  ml_content_version :: u64

definition manager_log_new :: "usize \<Rightarrow> manager_log" where
  "manager_log_new capacity =
    \<lparr>ml_capacity = max capacity 1, ml_records = [], ml_retained_bytes = 0,
     ml_highest_operation_id = 0, ml_operation_timestamp_cutoff_ms = None, ml_content_version = 0\<rparr>"

definition bump_content_version :: "manager_log \<Rightarrow> manager_log" where
  "bump_content_version log = log\<lparr>ml_content_version := min (ml_content_version log + 1) (2 ^ 64 - 1)\<rparr>"

text \<open>The early returns of \<^verbatim>\<open>push\<close>: an operation at or before the clear cutoff, an
  operation id already seen, an equal operation without an id, a record over the byte limit.\<close>

definition push_rejects :: "log_record \<Rightarrow> manager_log \<Rightarrow> bool" where
  "push_rejects record log \<longleftrightarrow>
     (case lr_payload record of
        LP_Operation op \<Rightarrow>
          (case ml_operation_timestamp_cutoff_ms log of
             Some cutoff \<Rightarrow> co_timestamp_ms op \<le> cutoff
           | None \<Rightarrow> False) \<or>
          (if co_operation_id op \<noteq> 0 then co_operation_id op \<le> ml_highest_operation_id log
           else list_ex (\<lambda>existing. lr_payload existing = LP_Operation op) (ml_records log))
      | _ \<Rightarrow> False) \<or>
     retained_record_bytes record > max_retained_log_bytes"

fun evict :: "usize \<Rightarrow> usize \<Rightarrow> usize \<Rightarrow> log_record list \<Rightarrow> log_record list \<times> usize" where
  "evict cap bytes retained [] = ([], retained)"
| "evict cap bytes retained (r # rs) =
     (if length (r # rs) \<ge> cap \<or> retained + bytes > max_retained_log_bytes
      then evict cap bytes (retained - retained_record_bytes r) rs
      else (r # rs, retained))"

definition log_push :: "log_record \<Rightarrow> manager_log \<Rightarrow> manager_log" where
  "log_push record log =
     (if push_rejects record log then log
      else
        let bytes = retained_record_bytes record;
            (kept, retained) = evict (ml_capacity log) bytes (ml_retained_bytes log) (ml_records log);
            highest = (case lr_payload record of
                         LP_Operation op \<Rightarrow>
                           if co_operation_id op \<noteq> 0 then co_operation_id op
                           else ml_highest_operation_id log
                       | _ \<Rightarrow> ml_highest_operation_id log)
        in bump_content_version
             (log\<lparr>ml_records := kept @ [record], ml_retained_bytes := retained + bytes,
                  ml_highest_operation_id := highest\<rparr>))"

definition log_push_once :: "log_record \<Rightarrow> manager_log \<Rightarrow> manager_log" where
  "log_push_once record log =
     (if list_ex (\<lambda>existing. lr_level existing = lr_level record \<and>
           lr_category existing = lr_category record \<and> lr_payload existing = lr_payload record)
           (ml_records log)
      then log else log_push record log)"

definition log_clear :: "u128 \<Rightarrow> manager_log \<Rightarrow> manager_log" where
  "log_clear now_ms log =
     (let cleared = log\<lparr>ml_operation_timestamp_cutoff_ms := Some now_ms, ml_records := [],
                        ml_retained_bytes := 0\<rparr>
      in if ml_records log = [] then cleared else bump_content_version cleared)"

subsection \<open>Rendering\<close>

definition record_is_visible :: "log_record \<Rightarrow> log_view \<Rightarrow> bool" where
  "record_is_visible record view =
     (case view of
        LV_Info \<Rightarrow> lr_category record = LC_LegacyOperation \<and>
          (case lr_payload record of LP_Operation op \<Rightarrow> operation_is_legacy_info op | _ \<Rightarrow> True)
      | LV_Warn \<Rightarrow> lr_level record \<in> {LL_Warn, LL_Error, LL_Critical}
      | LV_Error \<Rightarrow> lr_level record \<in> {LL_Error, LL_Critical}
      | LV_Critical \<Rightarrow> lr_level record = LL_Critical
      | LV_Debug \<Rightarrow> True)"

definition level_name :: "log_level \<Rightarrow> string" where
  "level_name level =
     (case level of LL_Info \<Rightarrow> ''INFO'' | LL_Warn \<Rightarrow> ''WARN'' | LL_Error \<Rightarrow> ''ERROR''
      | LL_Critical \<Rightarrow> ''CRITICAL'' | LL_Debug \<Rightarrow> ''DEBUG'')"

definition render_record :: "log_record \<Rightarrow> log_view \<Rightarrow> string" where
  "render_record record view =
     (case lr_payload record of
        LP_Operation op \<Rightarrow>
          if view = LV_Debug then operation_to_debug_text op else operation_to_legacy_text op
      | LP_VerifiedLegacyLine line \<Rightarrow> if ends_with line [newline] then line else line @ [newline]
      | LP_Text message \<Rightarrow>
          if lr_category record = LC_LegacyOperation \<and> view \<in> {LV_Info, LV_Debug}
          then legacy_timestamped_line (lr_timestamp_ms record) message
          else legacy_timestamped_line (lr_timestamp_ms record)
                 (''['' @ level_name (lr_level record) @ ''] '' @ message))"

definition log_render :: "manager_log \<Rightarrow> log_view \<Rightarrow> string" where
  "log_render log view =
     concat (map (\<lambda>r. render_record r view) (filter (\<lambda>r. record_is_visible r view) (ml_records log)))"

subsection \<open>Bounds\<close>

definition log_wf :: "manager_log \<Rightarrow> bool" where
  "log_wf log \<longleftrightarrow>
     0 < ml_capacity log \<and> length (ml_records log) \<le> ml_capacity log \<and>
     ml_retained_bytes log = sum_list (map retained_record_bytes (ml_records log)) \<and>
     ml_retained_bytes log \<le> max_retained_log_bytes"

lemma log_wf_new [simp, wf_intros]: "log_wf (manager_log_new n)"
  by (simp add: log_wf_def manager_log_new_def)

lemma evict_spec:
  assumes "retained = sum_list (map retained_record_bytes rs)" and "evict cap bytes retained rs = (kept, ret')"
    and "0 < cap" and "bytes \<le> max_retained_log_bytes"
  shows "(\<exists>k. kept = drop k rs) \<and> ret' = sum_list (map retained_record_bytes kept) \<and>
         length kept < cap \<and> ret' + bytes \<le> max_retained_log_bytes"
  using assms
proof (induction cap bytes retained rs arbitrary: kept ret' rule: evict.induct)
  case (1 cap bytes retained)
  then show ?case by auto
next
  case (2 cap bytes retained r rs)
  show ?case
  proof (cases "length (r # rs) \<ge> cap \<or> retained + bytes > max_retained_log_bytes")
    case True
    with 2 have "(\<exists>k. kept = drop k rs) \<and> ret' = sum_list (map retained_record_bytes kept) \<and>
         length kept < cap \<and> ret' + bytes \<le> max_retained_log_bytes"
      by simp
    then show ?thesis by (metis drop_Suc_Cons)
  next
    case False
    with 2 show ?thesis by (auto intro: exI [of _ 0])
  qed
qed

lemma log_push_accepted:
  assumes "log_wf log" and "\<not> push_rejects record log"
  obtains k where "ml_records (log_push record log) = drop k (ml_records log) @ [record]"
    and "log_wf (log_push record log)"
proof -
  obtain kept ret where e: "evict (ml_capacity log) (retained_record_bytes record)
      (ml_retained_bytes log) (ml_records log) = (kept, ret)" by fastforce
  from assms have "retained_record_bytes record \<le> max_retained_log_bytes"
    by (auto simp: push_rejects_def)
  with assms(1) evict_spec [OF _ e] have s: "\<exists>k. kept = drop k (ml_records log)"
      "ret = sum_list (map retained_record_bytes kept)" "length kept < ml_capacity log"
      "ret + retained_record_bytes record \<le> max_retained_log_bytes"
    by (auto simp: log_wf_def)
  with assms(2) e that show ?thesis
    by (auto simp: log_push_def log_wf_def bump_content_version_def)
qed

lemma log_wf_push [wf_intros]: "log_wf log \<Longrightarrow> log_wf (log_push record log)"
  by (cases "push_rejects record log") (auto simp: log_push_def elim: log_push_accepted)

lemma log_wf_push_once [wf_intros]: "log_wf log \<Longrightarrow> log_wf (log_push_once record log)"
  by (simp add: log_push_once_def log_wf_push)

lemma log_wf_clear [wf_intros]: "log_wf log \<Longrightarrow> log_wf (log_clear now log)"
  by (auto simp: log_wf_def log_clear_def Let_def bump_content_version_def)

lemma evict_drop: "\<exists>k. fst (evict cap bytes retained rs) = drop k rs"
proof (induction cap bytes retained rs rule: evict.induct)
  case (2 cap bytes retained r rs)
  show ?case
  proof (cases "length (r # rs) \<ge> cap \<or> retained + bytes > max_retained_log_bytes")
    case True
    with 2 show ?thesis by (metis drop_Suc_Cons evict.simps(2))
  next
    case False
    then show ?thesis by (auto intro: exI [of _ 0])
  qed
qed simp

lemma log_push_items:
  "ml_records (log_push record log) = ml_records log \<or>
   (\<exists>k. ml_records (log_push record log) = drop k (ml_records log) @ [record])"
  using evict_drop [of "ml_capacity log" "retained_record_bytes record" "ml_retained_bytes log"
      "ml_records log"]
  by (auto simp: log_push_def bump_content_version_def Let_def split: prod.splits)

lemma log_push_capacity: "ml_capacity (log_push record log) = ml_capacity log"
  by (auto simp: log_push_def bump_content_version_def Let_def split: prod.splits)

interpretation mlog: bounded_log ml_records ml_capacity log_push log_wf
proof unfold_locales
  show "log_wf l \<Longrightarrow> length (ml_records l) \<le> ml_capacity l" for l
    by (simp add: log_wf_def)
qed (simp_all add: log_push_items log_push_capacity log_wf_push)

text \<open>
  C40.  The manager log never exceeds its record capacity nor its byte budget, whatever is pushed:
  a long run leaves the end of the old log followed by some of the new records in order, and the
  byte counter is exactly the sum over what is retained.
\<close>

theorem manager_log_bounded:
  assumes "log_wf log"
  shows "length (ml_records (fold log_push rs log)) \<le> ml_capacity log \<and>
         sum_list (map retained_record_bytes (ml_records (fold log_push rs log))) \<le> max_retained_log_bytes \<and>
         (\<exists>k ys. subseq ys rs \<and> ml_records (fold log_push rs log) = drop k (ml_records log @ ys))"
  using mlog.push_all_bounded [OF assms, of rs] mlog.push_all_items [of rs log]
    mlog.push_all_ok [OF assms, of rs]
  by (auto simp: log_wf_def)

theorem manager_log_bounded_witness:
  "length (ml_records (fold log_push [legacy_text 1 ''a'', legacy_text 2 ''b''] (manager_log_new 1))) \<le> 1"
  using manager_log_bounded [OF log_wf_new, of "[legacy_text 1 ''a'', legacy_text 2 ''b'']" 1]
  by (simp add: manager_log_new_def)

subsection \<open>Operations are logged once\<close>

lemma highest_push:
  "ml_highest_operation_id (log_push r log) \<ge> ml_highest_operation_id log"
  by (auto simp: log_push_def bump_content_version_def push_rejects_def Let_def
      split: prod.splits log_payload.splits)

lemma highest_push_all:
  "ml_highest_operation_id log \<le> ml_highest_operation_id (fold log_push rs log)"
  by (induction rs arbitrary: log) (auto intro: order_trans [OF highest_push])

lemma cutoff_push [view_simps]:
  "ml_operation_timestamp_cutoff_ms (log_push r log) = ml_operation_timestamp_cutoff_ms log"
  by (auto simp: log_push_def bump_content_version_def Let_def split: prod.splits)

lemma cutoff_push_all [view_simps]:
  "ml_operation_timestamp_cutoff_ms (fold log_push rs log) = ml_operation_timestamp_cutoff_ms log"
  by (induction rs arbitrary: log) (auto simp: cutoff_push)

text \<open>An operation with an id is settled once it has been offered: from then on it is rejected.\<close>

definition settled :: "control_operation \<Rightarrow> manager_log \<Rightarrow> bool" where
  "settled op log \<longleftrightarrow> co_operation_id op \<noteq> 0 \<and> push_rejects (operation_record op) log"

lemma push_settles: "co_operation_id op \<noteq> 0 \<Longrightarrow> settled op (log_push (operation_record op) log)"
  by (auto simp: settled_def log_push_def push_rejects_def operation_record_def bump_content_version_def
      Let_def split: prod.splits)

lemma settled_push: "settled op log \<Longrightarrow> settled op (log_push r log)"
  using highest_push [of log r]
  by (auto simp: settled_def push_rejects_def operation_record_def view_simps)

lemma settled_push_all: "settled op log \<Longrightarrow> settled op (fold log_push rs log)"
  by (induction rs arbitrary: log) (auto intro: settled_push)

lemma push_all_settles:
  "op \<in> set ops \<Longrightarrow> co_operation_id op \<noteq> 0 \<Longrightarrow>
   settled op (fold log_push (map operation_record ops) log)"
  by (induction ops arbitrary: log) (auto intro: settled_push_all push_settles)

lemma push_settled_id:
  "(\<forall>op \<in> set ops. settled op log) \<Longrightarrow> fold log_push (map operation_record ops) log = log"
  by (induction ops) (auto simp: settled_def log_push_def)

text \<open>
  The control loop offers its whole operation log to the manager log on every pass; re-offering
  any operations that were offered before, in any order and with any records pushed in between,
  changes nothing.  Each operation therefore appears at most once.
\<close>

lemma replayed_operations_ignored:
  assumes "set again \<subseteq> set ops" and "\<forall>op \<in> set ops. co_operation_id op \<noteq> 0"
  shows "fold log_push (map operation_record again)
           (fold log_push others (fold log_push (map operation_record ops) log))
         = fold log_push others (fold log_push (map operation_record ops) log)"
proof (rule push_settled_id, rule ballI)
  fix op assume "op \<in> set again"
  with assms have "op \<in> set ops" "co_operation_id op \<noteq> 0" by auto
  then show "settled op (fold log_push others (fold log_push (map operation_record ops) log))"
    by (intro settled_push_all push_all_settles)
qed

definition sample_operation :: "u64 \<Rightarrow> control_operation" where
  "sample_operation i =
    \<lparr>co_operation_id = i, co_timestamp_ms = 5, co_package_name = ''com.example.app'', co_uid = 10123,
     co_pid_list = [42], co_action = CA_Freeze, co_backend = ''signal.stop'', co_reason = ''r'',
     co_result = OR_Success, co_details = ''process_count=1''\<rparr>"

lemma replayed_operations_ignored_witness:
  "fold log_push (map operation_record [sample_operation 1])
     (fold log_push [legacy_text 9 ''x'']
       (fold log_push (map operation_record [sample_operation 1, sample_operation 2]) (manager_log_new 8)))
   = fold log_push [legacy_text 9 ''x'']
       (fold log_push (map operation_record [sample_operation 1, sample_operation 2]) (manager_log_new 8))"
  by (rule replayed_operations_ignored) (simp_all add: sample_operation_def)

lemma clear_then_old_rejected:
  "co_timestamp_ms op \<le> now \<Longrightarrow> push_rejects (operation_record op) (log_clear now log)"
  by (auto simp: push_rejects_def operation_record_def log_clear_def Let_def bump_content_version_def)

lemma render_after_clear [simp]: "log_render (log_clear now log) view = []"
  by (auto simp: log_render_def log_clear_def Let_def bump_content_version_def)

lemma severity_views_nest:
  "record_is_visible r LV_Critical \<Longrightarrow> record_is_visible r LV_Error"
  "record_is_visible r LV_Error \<Longrightarrow> record_is_visible r LV_Warn"
  "record_is_visible r LV_Warn \<Longrightarrow> record_is_visible r LV_Debug"
  by (auto simp: record_is_visible_def)

end
