(* ===== verification/Deferral.thy ===== *)
theory Deferral
  imports Domain
begin

text \<open>
  The timing components: \<^verbatim>\<open>app/scheduler.rs\<close> (pending freezes and their due
  times), \<^verbatim>\<open>app/download_deferral.rs\<close> (the receive-rate sampler that holds a
  freeze back while an application downloads) and \<^verbatim>\<open>app/foreground.rs\<close>.
\<close>

subsection \<open>Foreground classification\<close>

record foreground_signals =
  has_visible_ui :: bool
  has_foreground_service :: bool
  has_overlay :: bool
  has_audio :: bool

definition classify_foreground ::
  "process_state \<Rightarrow> foreground_strategy \<Rightarrow> foreground_signals \<Rightarrow> bool" where
  "classify_foreground proc_state strategy signals =
     (case proc_state of
        PS_Foreground \<Rightarrow> True
      | PS_Visible \<Rightarrow> True
      | PS_Unknown \<Rightarrow> strategy = FS_Strict
      | _ \<Rightarrow> strategy = FS_Permissive \<and>
             (has_visible_ui signals \<or> has_foreground_service signals \<or>
              has_overlay signals \<or> has_audio signals))"

lemma permissive_never_hides_foreground:
  "proc_state \<noteq> PS_Unknown \<Longrightarrow> classify_foreground proc_state FS_Strict s \<Longrightarrow>
   classify_foreground proc_state FS_Permissive s"
  by (cases proc_state) (auto simp: classify_foreground_def)

subsection \<open>The freeze scheduler\<close>

record pending_freeze =
  pf_package_name :: string
  pf_uid :: u32
  pf_due_at_ms :: u128

type_synonym freeze_scheduler = "(string \<times> u32, pending_freeze) btree"

definition schedule_background ::
  "string \<Rightarrow> u32 \<Rightarrow> u128 \<Rightarrow> u64 \<Rightarrow> freeze_scheduler \<Rightarrow> freeze_scheduler" where
  "schedule_background package_name uid now_ms delay_ms pending =
     bt_insert (package_name, uid)
       \<lparr>pf_package_name = package_name, pf_uid = uid, pf_due_at_ms = now_ms + delay_ms\<rparr> pending"

definition cancel_foreground ::
  "string \<Rightarrow> u32 \<Rightarrow> freeze_scheduler \<Rightarrow> pending_freeze option \<times> freeze_scheduler" where
  "cancel_foreground package_name uid pending =
     (bt_get pending (package_name, uid), bt_remove (package_name, uid) pending)"

fun claim_keys :: "(string \<times> u32) list \<Rightarrow> freeze_scheduler \<Rightarrow>
    pending_freeze list \<times> freeze_scheduler" where
  "claim_keys [] pending = ([], pending)"
| "claim_keys (k # ks) pending =
     (let (jobs, rest) = claim_keys ks (bt_remove k pending)
      in case bt_get pending k of None \<Rightarrow> (jobs, rest) | Some job \<Rightarrow> (job # jobs, rest))"

definition due_keys :: "u128 \<Rightarrow> freeze_scheduler \<Rightarrow> (string \<times> u32) list" where
  "due_keys now_ms pending = map fst (filter (\<lambda>(_, p). pf_due_at_ms p \<le> now_ms) pending)"

definition due_at :: "u128 \<Rightarrow> freeze_scheduler \<Rightarrow> pending_freeze list \<times> freeze_scheduler" where
  "due_at now_ms pending = claim_keys (due_keys now_ms pending) pending"

lemma claim_keys_rest: "snd (claim_keys ks pending) = fold bt_remove ks pending"
  by (induction ks pending rule: claim_keys.induct) (auto split: prod.splits option.splits)

lemma set_claim_keys:
  "distinct ks \<Longrightarrow> set (fst (claim_keys ks pending)) = {j. \<exists>k \<in> set ks. bt_get pending k = Some j}"
proof (induction ks pending rule: claim_keys.induct)
  case (1 pending)
  then show ?case by simp
next
  case (2 k ks pending)
  then have "set (fst (claim_keys ks (bt_remove k pending))) =
      {j. \<exists>k' \<in> set ks. bt_get pending k' = Some j}"
    by auto
  then show ?case by (auto split: prod.splits option.splits)
qed

lemma set_due_keys:
  "bt_wf pending \<Longrightarrow>
   set (due_keys now pending) = {k. \<exists>p. bt_get pending k = Some p \<and> pf_due_at_ms p \<le> now}"
  by (force simp: due_keys_def dest: bt_wf_distinct)

lemma distinct_due_keys: "bt_wf pending \<Longrightarrow> distinct (due_keys now pending)"
  unfolding due_keys_def using bt_wf_filter [THEN bt_wf_distinct] by blast

text \<open>
  Due jobs are claimed exactly once: \<^verbatim>\<open>due_at\<close> returns exactly the jobs whose
  time has come, keeps exactly the later ones, and a second call at the same time or at any earlier
  time returns nothing.
\<close>

lemma due_at_claims_once:
  assumes "bt_wf pending" and "due_at now pending = (jobs, rest)" and "now' \<le> now"
  shows "set jobs = {p. \<exists>k. bt_get pending k = Some p \<and> pf_due_at_ms p \<le> now} \<and>
         bt_get rest = (\<lambda>k. case bt_get pending k of None \<Rightarrow> None
            | Some p \<Rightarrow> if pf_due_at_ms p \<le> now then None else Some p) \<and>
         fst (due_at now' rest) = []"
proof -
  from assms(2) have jobs: "jobs = fst (claim_keys (due_keys now pending) pending)"
    and rest: "rest = fold bt_remove (due_keys now pending) pending"
    using claim_keys_rest [of "due_keys now pending" pending] by (auto simp: due_at_def)
  have left: "bt_get rest = (\<lambda>k. case bt_get pending k of None \<Rightarrow> None
            | Some p \<Rightarrow> if pf_due_at_ms p \<le> now then None else Some p)"
    unfolding rest
    by (rule ext, rule bt.drain_selected) (simp add: set_due_keys assms(1))
  have "bt_wf rest"
    using assms(1) unfolding rest by (rule bt_wf_fold_remove)
  then have "k \<notin> set (due_keys now' rest)" for k
    using assms(3) by (auto simp: set_due_keys left split: option.splits if_splits)
  then have "due_keys now' rest = []" by (metis list.set_intros(1) neq_Nil_conv)
  moreover have "set jobs = {p. \<exists>k. bt_get pending k = Some p \<and> pf_due_at_ms p \<le> now}"
    unfolding jobs set_claim_keys [OF distinct_due_keys [OF assms(1)]]
    by (auto simp: set_due_keys assms(1))
  ultimately show ?thesis
    using left by (simp add: due_at_def)
qed

lemma due_at_claims_once_witness:
  "fst (due_at 5100 (snd (due_at 5100 (schedule_background ''com.example.app'' 10123 100 5000 [])))) = []"
  using due_at_claims_once [of "schedule_background ''com.example.app'' 10123 100 5000 []" 5100
      "fst (due_at 5100 (schedule_background ''com.example.app'' 10123 100 5000 []))"
      "snd (due_at 5100 (schedule_background ''com.example.app'' 10123 100 5000 []))" 5100]
  by (simp add: schedule_background_def bt_wf_def)

subsection \<open>Download deferral\<close>

definition download_threshold_bytes_per_sec :: u64 where
  "download_threshold_bytes_per_sec = 5 * 1024 * 1024"

definition download_retry_delay_ms :: u64 where "download_retry_delay_ms = 30000"
definition initial_sample_delay_ms :: u64 where "initial_sample_delay_ms = 1000"

datatype download_deferral_action = DD_Proceed | DD_Postpone

datatype uid_rx_sample = Rx_Value u64 | Rx_Missing | Rx_Failed

record sample =
  sm_rx_bytes :: u64
  sm_sampled_at_ms :: u128

type_synonym download_deferral = "(u32, sample) btree"

definition download_candidate_packages :: "string list" where
  "download_candidate_packages =
     [''com.baidu.netdisk'', ''com.quark.clouddrive'', ''com.google.android.apps.docs'',
      ''com.pikpak.android'', ''com.trim.app'']"

definition is_candidate_package :: "string \<Rightarrow> bool" where
  "is_candidate_package package_name \<longleftrightarrow>
     list_ex (\<lambda>candidate. eq_ignore_ascii_case package_name candidate) download_candidate_packages"

definition clear_uid :: "u32 \<Rightarrow> download_deferral \<Rightarrow> download_deferral" where
  "clear_uid uid samples = bt_remove uid samples"

definition bytes_per_second :: "sample \<Rightarrow> u64 \<Rightarrow> u128 \<Rightarrow> u128" where
  "bytes_per_second previous rx_bytes sampled_at_ms =
     (rx_bytes - sm_rx_bytes previous) * 1000 div (sampled_at_ms - sm_sampled_at_ms previous)"

definition evaluate_deferral ::
  "u32 \<Rightarrow> string \<Rightarrow> uid_rx_sample \<Rightarrow> u128 \<Rightarrow> download_deferral \<Rightarrow>
   download_deferral_action \<times> download_deferral" where
  "evaluate_deferral uid package_name smp sampled_at_ms samples =
     (if \<not> is_candidate_package package_name then (DD_Proceed, bt_remove uid samples)
      else case smp of
        Rx_Value rx_bytes \<Rightarrow>
          (let samples' = bt_insert uid \<lparr>sm_rx_bytes = rx_bytes, sm_sampled_at_ms = sampled_at_ms\<rparr> samples
           in case bt_get samples uid of
                None \<Rightarrow> (DD_Postpone, samples')
              | Some previous \<Rightarrow>
                  if sampled_at_ms \<le> sm_sampled_at_ms previous \<or> rx_bytes < sm_rx_bytes previous
                  then (DD_Postpone, samples')
                  else if bytes_per_second previous rx_bytes sampled_at_ms
                          > download_threshold_bytes_per_sec
                  then (DD_Postpone, samples')
                  else (DD_Proceed, samples'))
      | _ \<Rightarrow> (DD_Postpone, bt_remove uid samples))"

lemma evaluate_deferral_other_uid [view_simps]:
  "uid' \<noteq> uid \<Longrightarrow> bt_get (snd (evaluate_deferral uid pkg smp t samples)) uid' = bt_get samples uid'"
  by (auto simp: evaluate_deferral_def Let_def split: uid_rx_sample.splits option.splits)

lemma evaluate_deferral_wf [wf_intros]:
  "bt_wf samples \<Longrightarrow> bt_wf (snd (evaluate_deferral uid pkg smp t samples))"
  by (auto simp: evaluate_deferral_def Let_def split: uid_rx_sample.splits option.splits)

text \<open>
  A candidate package is released for freezing only on proof of a slow download: two good
  samples, the later one strictly newer and not smaller, with a rate of at most the threshold between
  them.  A missing or failed sample forgets the baseline, so that the next good sample cannot
  release it either.
\<close>

lemma proceed_needs_slow_rate:
  assumes "is_candidate_package pkg"
    and "fst (evaluate_deferral uid pkg smp t samples) = DD_Proceed"
  shows "\<exists>rx previous. smp = Rx_Value rx \<and> bt_get samples uid = Some previous \<and>
      sm_sampled_at_ms previous < t \<and> sm_rx_bytes previous \<le> rx \<and>
      (rx - sm_rx_bytes previous) * 1000
        < (download_threshold_bytes_per_sec + 1) * (t - sm_sampled_at_ms previous)"
proof -
  from assms obtain rx previous where r: "smp = Rx_Value rx" "bt_get samples uid = Some previous"
      "sm_sampled_at_ms previous < t" "sm_rx_bytes previous \<le> rx"
      "bytes_per_second previous rx t \<le> download_threshold_bytes_per_sec"
    by (auto simp: evaluate_deferral_def Let_def not_le not_less
        split: uid_rx_sample.splits option.splits if_splits)
  then have "(rx - sm_rx_bytes previous) * 1000 div (t - sm_sampled_at_ms previous)
      < download_threshold_bytes_per_sec + 1"
    by (simp add: bytes_per_second_def)
  with r(3) have "(rx - sm_rx_bytes previous) * 1000
      < (download_threshold_bytes_per_sec + 1) * (t - sm_sampled_at_ms previous)"
    by (subst (asm) div_less_iff_less_mult) (simp_all add: mult.commute)
  with r show ?thesis by blast
qed

lemma proceed_needs_slow_rate_witness:
  "is_candidate_package ''com.trim.app'' \<and>
   fst (evaluate_deferral 7 ''com.trim.app'' (Rx_Value 900) 2000
      [(7, \<lparr>sm_rx_bytes = 100, sm_sampled_at_ms = 1000\<rparr>)]) = DD_Proceed \<and>
   (\<exists>rx previous. Rx_Value 900 = Rx_Value rx \<and>
      bt_get [(7, \<lparr>sm_rx_bytes = 100, sm_sampled_at_ms = 1000\<rparr>)] (7 :: u32) = Some previous \<and>
      sm_sampled_at_ms previous < 2000 \<and> sm_rx_bytes previous \<le> rx \<and>
      (rx - sm_rx_bytes previous) * 1000
        < (download_threshold_bytes_per_sec + 1) * (2000 - sm_sampled_at_ms previous))"
proof -
  have c: "is_candidate_package ''com.trim.app''"
    by code_simp
  have p: "fst (evaluate_deferral 7 ''com.trim.app'' (Rx_Value 900) 2000
      [(7, \<lparr>sm_rx_bytes = 100, sm_sampled_at_ms = 1000\<rparr>)]) = DD_Proceed"
    using c by (simp add: evaluate_deferral_def bytes_per_second_def download_threshold_bytes_per_sec_def)
  show ?thesis using c p proceed_needs_slow_rate [OF c p] by blast
qed

lemma sample_gap_resets_baseline:
  assumes "is_candidate_package pkg" and "smp = Rx_Missing \<or> smp = Rx_Failed"
  shows "fst (evaluate_deferral uid pkg smp2 t2 (snd (evaluate_deferral uid pkg smp t samples))) = DD_Postpone"
  using assms by (auto simp: evaluate_deferral_def Let_def split: uid_rx_sample.splits)

subsection \<open>Parsing the kernel counters\<close>

text \<open>The table is the section between the two marker lines; the first argument is the flag
  \<^verbatim>\<open>in_uid_table\<close>.\<close>

fun parse_uid_lines :: "bool \<Rightarrow> string list \<Rightarrow> (u32, u64) btree \<Rightarrow> (u32, u64) btree" where
  "parse_uid_lines in_table [] vals = vals"
| "parse_uid_lines in_table (line # rest) vals =
     (if line = ''mAppUidStatsMap:'' then parse_uid_lines True rest vals
      else if in_table \<and> line = ''mStatsMapA:'' then vals
      else if \<not> in_table then parse_uid_lines in_table rest vals
      else case split_whitespace line of
        uid # rx_bytes # _ \<Rightarrow>
          (case (parse_u32 uid, parse_u64 rx_bytes) of
             (Some u, Some rx) \<Rightarrow> parse_uid_lines in_table rest (bt_insert u rx vals)
           | _ \<Rightarrow> parse_uid_lines in_table rest vals)
      | _ \<Rightarrow> parse_uid_lines in_table rest vals)"

definition parse_uid_rx_bytes :: "string \<Rightarrow> (u32, u64) btree res" where
  "parse_uid_rx_bytes netstats =
     (let vals = parse_uid_lines False (map str_trim (str_lines netstats)) []
      in if vals = [] then Inl (System_Error ''Android netstats UID rx table unavailable'')
         else Inr vals)"

lemma parse_uid_lines_outside:
  "\<not> List.member lines ''mAppUidStatsMap:'' \<Longrightarrow> parse_uid_lines False lines vals = vals"
  by (induction lines arbitrary: vals) (auto split: list.splits)

end
