(* ===== verification/Health.thy ===== *)
theory Health
  imports Oplog
begin

text \<open>
  \<^verbatim>\<open>app/health.rs\<close>: the readiness report from which the control loop and the manager
  decide whether the module may act.
\<close>

datatype health_status = HS_Active | HS_Degraded | HS_Inactive

record module_health =
  mh_manager_ready :: bool
  mh_daemon_ready :: bool
  mh_hook_ready :: bool
  mh_root_ready :: bool
  mh_freezer_ready :: bool
  mh_policy_ready :: bool
  mh_status :: health_status
  mh_degraded_reasons :: "string list"

definition health_inactive :: "string \<Rightarrow> module_health" where
  "health_inactive reason =
    \<lparr>mh_manager_ready = False, mh_daemon_ready = False, mh_hook_ready = False, mh_root_ready = False,
     mh_freezer_ready = False, mh_policy_ready = False, mh_status = HS_Inactive,
     mh_degraded_reasons = [reason]\<rparr>"

definition unless_ready :: "bool \<Rightarrow> string \<Rightarrow> string list" where
  "unless_ready ready reason = (if ready then [] else [reason])"

definition health_evaluate :: "bool \<Rightarrow> bool \<Rightarrow> bool \<Rightarrow> bool \<Rightarrow> bool \<Rightarrow> bool \<Rightarrow> module_health" where
  "health_evaluate manager_ready daemon_ready hook_ready root_ready freezer_ready policy_ready =
    \<lparr>mh_manager_ready = manager_ready, mh_daemon_ready = daemon_ready, mh_hook_ready = hook_ready,
     mh_root_ready = root_ready, mh_freezer_ready = freezer_ready, mh_policy_ready = policy_ready,
     mh_status =
       (if manager_ready \<and> daemon_ready \<and> hook_ready \<and> root_ready \<and> freezer_ready \<and> policy_ready
        then HS_Active
        else if manager_ready \<or> daemon_ready then HS_Degraded
        else HS_Inactive),
     mh_degraded_reasons =
       unless_ready daemon_ready ''daemon not initialized''
       @ unless_ready hook_ready ''hook bridge unavailable''
       @ unless_ready root_ready ''root capability unavailable''
       @ unless_ready freezer_ready ''freezer capability unavailable''
       @ unless_ready policy_ready ''policy unavailable''\<rparr>"

definition is_safe_for_control :: "module_health \<Rightarrow> bool" where
  "is_safe_for_control health \<longleftrightarrow> mh_status health = HS_Active"

definition push_reason :: "string \<Rightarrow> module_health \<Rightarrow> module_health" where
  "push_reason reason health = health\<lparr>mh_degraded_reasons := mh_degraded_reasons health @ [reason]\<rparr>"

definition with_hook_bridge ::
  "bool \<Rightarrow> bool \<Rightarrow> bool \<Rightarrow> bool \<Rightarrow> bool \<Rightarrow> bool \<Rightarrow> string option \<Rightarrow> module_health" where
  "with_hook_bridge manager_ready daemon_ready root_ready freezer_ready policy_ready
       hook_ready_for_control hook_reason =
     (let health = health_evaluate manager_ready daemon_ready hook_ready_for_control root_ready
                     freezer_ready policy_ready
      in case hook_reason of
           None \<Rightarrow> health
         | Some reason \<Rightarrow>
             if reason \<in> set (mh_degraded_reasons health) then health else push_reason reason health)"

definition downgrade_active_health :: "module_health \<Rightarrow> module_health" where
  "downgrade_active_health health =
     (if mh_status health = HS_Active then health\<lparr>mh_status := HS_Degraded\<rparr> else health)"

definition with_capability_failures ::
  "bool \<Rightarrow> bool \<Rightarrow> bool \<Rightarrow> bool \<Rightarrow> bool \<Rightarrow> bool \<Rightarrow> bool \<Rightarrow> bool \<Rightarrow> bool \<Rightarrow> module_health" where
  "with_capability_failures manager_ready daemon_ready hook_ready root_ready
       package_inventory_ready freezer_ready network_ready wakelock_ready screen_state_ready =
     (let h0 = health_evaluate manager_ready daemon_ready hook_ready root_ready freezer_ready True;
          h1 = (if package_inventory_ready then h0
                else push_reason ''package inventory unavailable'' (downgrade_active_health h0));
          h2 = (if network_ready then h1 else push_reason ''network control unavailable'' h1);
          h3 = (if wakelock_ready then h2 else push_reason ''wake-lock control unavailable'' h2);
          h4 = (if screen_state_ready then h3
                else push_reason ''screen-state detection unavailable'' (downgrade_active_health h3))
      in h4)"

subsection \<open>Reports\<close>

definition health_status_name :: "health_status \<Rightarrow> string" where
  "health_status_name status =
     (case status of HS_Active \<Rightarrow> ''active'' | HS_Degraded \<Rightarrow> ''degraded'' | HS_Inactive \<Rightarrow> ''inactive'')"

definition json_string_list :: "string list \<Rightarrow> string" where
  "json_string_list items = ''['' @ str_join '','' (map (\<lambda>s. [quote] @ escape_json s @ [quote]) items) @ '']''"

definition health_report_json :: "module_health \<Rightarrow> string" where
  "health_report_json health =
     ''{'' @ str_join '',''
       [json_str ''status'' (health_status_name (mh_status health)),
        json_raw ''managerReady'' (show_bool (mh_manager_ready health)),
        json_raw ''daemonReady'' (show_bool (mh_daemon_ready health)),
        json_raw ''hookReady'' (show_bool (mh_hook_ready health)),
        json_raw ''rootReady'' (show_bool (mh_root_ready health)),
        json_raw ''freezerReady'' (show_bool (mh_freezer_ready health)),
        json_raw ''policyReady'' (show_bool (mh_policy_ready health)),
        json_raw ''degradedReasons'' (json_string_list (mh_degraded_reasons health))] @ ''}''"

subsection \<open>What the report promises\<close>

lemma unless_ready_empty [simp]: "unless_ready ready reason = [] \<longleftrightarrow> ready"
  by (simp add: unless_ready_def)

lemma push_reason_simps [simp]:
  "mh_status (push_reason r h) = mh_status h"
  "mh_degraded_reasons (push_reason r h) = mh_degraded_reasons h @ [r]"
  by (simp_all add: push_reason_def)

lemma downgrade_simps [simp]:
  "mh_status (downgrade_active_health h) \<noteq> HS_Active"
  "mh_degraded_reasons (downgrade_active_health h) = mh_degraded_reasons h"
  by (simp_all add: downgrade_active_health_def)

lemma evaluate_active_iff:
  "mh_status (health_evaluate m d h r f p) = HS_Active \<longleftrightarrow> m \<and> d \<and> h \<and> r \<and> f \<and> p"
  by (simp add: health_evaluate_def)

lemma evaluate_reasons_iff:
  "mh_degraded_reasons (health_evaluate m d h r f p) = [] \<longleftrightarrow> d \<and> h \<and> r \<and> f \<and> p"
  by (simp add: health_evaluate_def)

text \<open>
  The capability report is safe for control exactly when manager, daemon, hook, root, package
  inventory, freezer and screen state are all ready; missing network or wake-lock control is listed
  as a reason but does not by itself forbid control, and no reason at all is listed only when every
  one of them is ready.
\<close>

lemma capability_health_exact:
  "(is_safe_for_control (with_capability_failures m d h r inventory f network wakelock screen) \<longleftrightarrow>
     m \<and> d \<and> h \<and> r \<and> inventory \<and> f \<and> screen) \<and>
   (mh_degraded_reasons (with_capability_failures m d h r inventory f network wakelock screen) = [] \<longleftrightarrow>
     d \<and> h \<and> r \<and> inventory \<and> f \<and> network \<and> wakelock \<and> screen)"
  by (auto simp: is_safe_for_control_def with_capability_failures_def Let_def evaluate_active_iff
      evaluate_reasons_iff)

lemma hook_bridge_safe_iff:
  "is_safe_for_control (with_hook_bridge m d r f p hook reason) \<longleftrightarrow> m \<and> d \<and> r \<and> f \<and> p \<and> hook"
  by (auto simp: is_safe_for_control_def with_hook_bridge_def Let_def evaluate_active_iff split: option.splits)

lemma hook_bridge_reason_listed:
  "reason \<in> set (mh_degraded_reasons (with_hook_bridge m d r f p hook (Some reason)))"
  by (auto simp: with_hook_bridge_def Let_def)

lemma hook_bridge_reasons_distinct:
  "distinct (mh_degraded_reasons (with_hook_bridge m d r f p hook reason))"
proof -
  have "distinct (mh_degraded_reasons (health_evaluate m d h r f p))" for h
    by (simp add: health_evaluate_def unless_ready_def)
  then show ?thesis by (auto simp: with_hook_bridge_def Let_def split: option.splits)
qed

end
