(* ===== verification/Backend.thy ===== *)
theory Backend
  imports Domain
begin

text \<open>
  The freezer backends: \<^verbatim>\<open>sys/binder.rs\<close>, \<^verbatim>\<open>sys/cgroup.rs\<close> and
  \<^verbatim>\<open>app/freezer_backend.rs\<close>.  The kernel is a parameter: which device nodes exist, what
  an ioctl answers, what a directory of the cgroup file system holds and which files open for
  writing.  What the daemon decides from the answers is modelled in full.
\<close>

subsection \<open>Binder\<close>

text \<open>An \<^verbatim>\<open>io::Error\<close> with the \<^verbatim>\<open>raw_os_error\<close> the probe inspects.\<close>

record os_error =
  oe_errno :: "i32 option"
  oe_text :: string

definition esrch :: i32 where "esrch = 3"

definition binder_device_candidates :: "string list" where
  "binder_device_candidates = [''/dev/binder'', ''/dev/binderfs/binder'']"

datatype binder_freeze_request = BF_Freeze | BF_Unfreeze

record binder_freeze_info =
  bfi_pid :: u32
  bfi_enable :: u32
  bfi_timeout_ms :: u32

definition binder_freeze_ioctl :: u64 where "binder_freeze_ioctl = 0x400c620e"

definition binder_freezer_request :: "u32 \<Rightarrow> binder_freeze_request \<Rightarrow> u32 \<Rightarrow> binder_freeze_info" where
  "binder_freezer_request pid request timeout_ms =
    \<lparr>bfi_pid = pid, bfi_enable = (if request = BF_Freeze then 1 else 0), bfi_timeout_ms = timeout_ms\<rparr>"

record binder_freezer_capability =
  bc_status :: capability_status
  bc_device_path :: "string option"
  bc_evidence :: string

fun probe_candidates ::
  "(string \<Rightarrow> os_error + unit) \<Rightarrow> string list \<Rightarrow> string list \<Rightarrow> string list + binder_freezer_capability" where
  "probe_candidates probe attempted [] = Inl attempted"
| "probe_candidates probe attempted (path # paths) =
     (case probe path of
        Inr _ \<Rightarrow> Inr \<lparr>bc_status = CS_Available, bc_device_path = Some path,
                     bc_evidence = ''binder freezer ioctl probe succeeded''\<rparr>
      | Inl e \<Rightarrow>
          if oe_errno e = Some esrch
          then Inr \<lparr>bc_status = CS_Available, bc_device_path = Some path,
                     bc_evidence = ''binder kernel recognized freezer ioctl: '' @ oe_text e\<rparr>
          else probe_candidates probe (attempted @ [path @ '': '' @ oe_text e]) paths)"

definition detect_binder_freezer_capability_with_probe ::
  "(string \<Rightarrow> bool) \<Rightarrow> (string \<Rightarrow> os_error + unit) \<Rightarrow> string list \<Rightarrow> binder_freezer_capability" where
  "detect_binder_freezer_capability_with_probe node_exists probe candidates =
     (case probe_candidates probe [] (filter node_exists candidates) of
        Inr capability \<Rightarrow> capability
      | Inl attempted \<Rightarrow>
          if attempted = []
          then \<lparr>bc_status = CS_Missing, bc_device_path = None, bc_evidence = ''no binder device found''\<rparr>
          else \<lparr>bc_status = CS_Degraded, bc_device_path = find node_exists candidates,
                bc_evidence = ''binder freezer ioctl probe failed: '' @ str_join ''; '' attempted\<rparr>)"

definition set_binder_freeze ::
  "(string \<Rightarrow> os_error + 'fd) \<Rightarrow> ('fd \<Rightarrow> u64 \<Rightarrow> binder_freeze_info \<Rightarrow> os_error + unit) \<Rightarrow>
   string \<Rightarrow> u32 \<Rightarrow> binder_freeze_request \<Rightarrow> u32 \<Rightarrow> os_error + unit" where
  "set_binder_freeze open_rw ioctl path pid request_kind timeout_ms =
     (case open_rw path of
        Inl e \<Rightarrow> Inl e
      | Inr fd \<Rightarrow> ioctl fd binder_freeze_ioctl (binder_freezer_request pid request_kind timeout_ms))"

definition probe_binder_freezer ::
  "(string \<Rightarrow> os_error + 'fd) \<Rightarrow> ('fd \<Rightarrow> u64 \<Rightarrow> binder_freeze_info \<Rightarrow> os_error + unit) \<Rightarrow>
   string \<Rightarrow> os_error + unit" where
  "probe_binder_freezer open_rw ioctl path = set_binder_freeze open_rw ioctl path 0 BF_Freeze 0"

definition discover_binder_device :: "binder_freezer_capability \<Rightarrow> string option" where
  "discover_binder_device capability =
     (if bc_status capability \<noteq> CS_Available then None
      else find (\<lambda>candidate. bc_device_path capability = Some candidate) binder_device_candidates)"

definition probe_recognizes :: "(string \<Rightarrow> os_error + unit) \<Rightarrow> string \<Rightarrow> bool" where
  "probe_recognizes probe path \<longleftrightarrow>
     (case probe path of Inr _ \<Rightarrow> True | Inl e \<Rightarrow> oe_errno e = Some esrch)"

lemma probe_candidates_hit:
  assumes "find (probe_recognizes probe) paths = Some path"
  shows "\<exists>evidence. probe_candidates probe attempted paths =
    Inr \<lparr>bc_status = CS_Available, bc_device_path = Some path, bc_evidence = evidence\<rparr>"
  using assms
proof (induction paths arbitrary: attempted)
  case (Cons p paths)
  show ?case
  proof (cases "probe_recognizes probe p")
    case True
    with Cons have "p = path" by simp
    with True show ?thesis
      by (cases "probe p") (simp_all add: probe_recognizes_def)
  next
    case False
    with Cons have "find (probe_recognizes probe) paths = Some path" by simp
    from Cons.IH [OF this] False show ?thesis
      by (cases "probe p") (simp_all add: probe_recognizes_def)
  qed
qed simp

lemma probe_candidates_miss:
  assumes "find (probe_recognizes probe) paths = None"
  shows "\<exists>tried. probe_candidates probe attempted paths = Inl (attempted @ tried) \<and>
           length tried = length paths"
  using assms
proof (induction paths arbitrary: attempted)
  case (Cons p paths)
  then obtain e where e: "probe p = Inl e" "oe_errno e \<noteq> Some esrch"
    by (auto simp: probe_recognizes_def split: if_splits sum.splits)
  from Cons have "find (probe_recognizes probe) paths = None" by (simp split: if_splits)
  from Cons.IH [OF this, of "attempted @ [p @ '': '' @ oe_text e]"] e show ?case by auto
qed simp

text \<open>
  The Binder freezer is reported available exactly when some existing device node recognises
  the freeze ioctl (it answers success, or \<^verbatim>\<open>ESRCH\<close> for the sentinel pid), and then the
  first such node is the one used; with nodes but none that recognises it the report is degraded,
  with no node at all it is missing.
\<close>

lemma binder_capability_verdict:
  "(bc_status (detect_binder_freezer_capability_with_probe node_exists probe candidates),
    bc_device_path (detect_binder_freezer_capability_with_probe node_exists probe candidates)) =
    (case find (probe_recognizes probe) (filter node_exists candidates) of
       Some path \<Rightarrow> (CS_Available, Some path)
     | None \<Rightarrow> if filter node_exists candidates = [] then (CS_Missing, None)
               else (CS_Degraded, find node_exists candidates))"
proof (cases "find (probe_recognizes probe) (filter node_exists candidates)")
  case None
  from probe_candidates_miss [OF None, of "[]"] obtain tried
    where "probe_candidates probe [] (filter node_exists candidates) = Inl tried"
      and "length tried = length (filter node_exists candidates)" by auto
  moreover from this have "tried = [] \<longleftrightarrow> filter node_exists candidates = []"
    by (metis length_0_conv)
  ultimately show ?thesis using None by (simp add: detect_binder_freezer_capability_with_probe_def)
next
  case (Some path)
  with probe_candidates_hit [OF Some, of "[]"] show ?thesis
    by (auto simp: detect_binder_freezer_capability_with_probe_def)
qed

subsection \<open>The cgroup v2 freezer\<close>

text \<open>
  A directory of the cgroup file system as \<^verbatim>\<open>read_dir\<close> presents it: the directory may be
  unreadable, and an entry may fail to be read; entries come in directory order.  A path is its list
  of components, so that \<^verbatim>\<open>Path::starts_with\<close> is the prefix order.
\<close>

datatype cg_dir =
    CG_Unreadable io_error
  | CG_Entries "cg_entry list"
and cg_entry =
    CG_BadEntry io_error
  | CG_File string
  | CG_Dir string cg_dir

type_synonym path = "string list"

definition cgroup_freeze_file :: string where "cgroup_freeze_file = ''cgroup.freeze''"

fun discover_freeze_files_inner :: "path \<Rightarrow> cg_dir \<Rightarrow> path list \<Rightarrow> path list res"
and discover_entries :: "path \<Rightarrow> cg_entry list \<Rightarrow> path list \<Rightarrow> path list res" where
  "discover_freeze_files_inner path (CG_Unreadable e) paths =
     (if io_kind e = NotFound then Inr paths else Inl (Io_Error e))"
| "discover_freeze_files_inner path (CG_Entries entries) paths = discover_entries path entries paths"
| "discover_entries path [] paths = Inr paths"
| "discover_entries path (CG_BadEntry e # es) paths =
     (if io_kind e = NotFound then discover_entries path es paths else Inl (Io_Error e))"
| "discover_entries path (CG_File name # es) paths =
     (if name = cgroup_freeze_file then discover_entries path es (paths @ [path @ [name]])
      else discover_entries path es paths)"
| "discover_entries path (CG_Dir name sub # es) paths =
     (if name = cgroup_freeze_file then discover_entries path es (paths @ [path @ [name]])
      else
        case discover_freeze_files_inner (path @ [name]) sub paths of
          Inl e \<Rightarrow> Inl e
        | Inr paths' \<Rightarrow> discover_entries path es paths')"

definition discover_freeze_files :: "path \<Rightarrow> cg_dir option \<Rightarrow> path list res" where
  "discover_freeze_files root tree =
     (case tree of None \<Rightarrow> Inr [] | Some dir \<Rightarrow> discover_freeze_files_inner root dir [])"

datatype cgroup_freezer_preference =
    CP_AndroidAppCgroupV2 | CP_SystemCgroupV2 | CP_GenericCgroupV2 | CP_Missing

record cgroup_freezer_capability =
  gc_status :: capability_status
  gc_preference :: cgroup_freezer_preference
  gc_freeze_files :: "path list"
  gc_evidence :: string

fun select_from ::
  "(path \<Rightarrow> bool) \<Rightarrow> (cgroup_freezer_preference \<times> usize) option \<Rightarrow>
   (cgroup_freezer_preference \<times> path list) list \<Rightarrow>
   capability_status \<times> cgroup_freezer_preference \<times> path list \<times> usize" where
  "select_from can_write first_unwritable [] =
     (case first_unwritable of
        Some (preference, discovered_count) \<Rightarrow> (CS_Degraded, preference, [], discovered_count)
      | None \<Rightarrow> (CS_Missing, CP_Missing, [], 0))"
| "select_from can_write first_unwritable ((preference, files) # rest) =
     (if files = [] then select_from can_write first_unwritable rest
      else if filter can_write files \<noteq> []
      then (CS_Available, preference, filter can_write files, length files)
      else select_from can_write
             (case first_unwritable of Some u \<Rightarrow> Some u | None \<Rightarrow> Some (preference, length files)) rest)"

definition select_writable_freeze_files ::
  "(path \<Rightarrow> bool) \<Rightarrow> path list \<Rightarrow> path list \<Rightarrow> path list \<Rightarrow>
   capability_status \<times> cgroup_freezer_preference \<times> path list \<times> usize" where
  "select_writable_freeze_files can_write app_files system_files generic_files =
     select_from can_write None
       [(CP_AndroidAppCgroupV2, app_files), (CP_SystemCgroupV2, system_files),
        (CP_GenericCgroupV2, generic_files)]"

definition display_path :: "path \<Rightarrow> string" where
  "display_path p = str_join ''/'' p"

definition detect_cgroup_v2_freezer_capability ::
  "string option \<Rightarrow> (path \<Rightarrow> bool) \<Rightarrow> path \<Rightarrow> cg_dir option \<Rightarrow> cgroup_freezer_capability res" where
  "detect_cgroup_v2_freezer_capability controllers_text can_write root tree =
     (let controllers = root @ [''cgroup.controllers''];
          text = (case controllers_text of Some t \<Rightarrow> t | None \<Rightarrow> []);
          controller_has_freezer = (''freezer'' \<in> set (split_whitespace text));
          under = (\<lambda>name p. take (length root + 1) p = root @ [name])
      in case discover_freeze_files root tree of
           Inl e \<Rightarrow> Inl e
         | Inr discovered \<Rightarrow>
             let (status, preference, files, count) =
                   select_writable_freeze_files can_write
                     (filter (under ''apps'') discovered)
                     (filter (under ''system'') discovered)
                     (filter (\<lambda>p. \<not> under ''apps'' p \<and> \<not> under ''system'' p) discovered)
             in Inr \<lparr>gc_status = status, gc_preference = preference, gc_freeze_files = files,
                     gc_evidence = display_path controllers @ '' contains freezer=''
                       @ show_bool controller_has_freezer @ ''; freeze_files='' @ show_nat count
                       @ ''; writable_freeze_files='' @ show_nat (length files)\<rparr>)"

datatype freeze_state = Thawed | Frozen

definition freeze_state_text :: "freeze_state \<Rightarrow> string" where
  "freeze_state_text state = (case state of Thawed \<Rightarrow> ''0'' | Frozen \<Rightarrow> ''1'')"

text \<open>Reading takes the file's content, or the error of opening it.\<close>

definition read_freeze_state :: "io_error + string \<Rightarrow> freeze_state res" where
  "read_freeze_state content =
     (case content of
        Inl e \<Rightarrow> Inl (Io_Error e)
      | Inr text \<Rightarrow>
          (let value = str_trim text
           in if value = ''0'' then Inr Thawed
              else if value = ''1'' then Inr Frozen
              else Inl (System_Error (''unknown cgroup.freeze state '' @ value))))"

definition write_freeze_state :: "(string \<Rightarrow> io_error option) \<Rightarrow> freeze_state \<Rightarrow> unit res" where
  "write_freeze_state write_file state =
     (case write_file (freeze_state_text state) of None \<Rightarrow> Inr () | Some e \<Rightarrow> Inl (Io_Error e))"

definition apply_cgroup_freeze :: "(string \<Rightarrow> io_error option) \<Rightarrow> bool \<Rightarrow> unit res" where
  "apply_cgroup_freeze write_file frozen =
     write_freeze_state write_file (if frozen then Frozen else Thawed)"

lemma freeze_state_roundtrip:
  "read_freeze_state (Inr (freeze_state_text state @ [newline])) = Inr state"
  by (cases state) (simp_all add: freeze_state_text_def read_freeze_state_def, code_simp+)

text \<open>
  What the search should find: the files of a tree are the positions reachable through readable
  directories, and no directory below one named \<^verbatim>\<open>cgroup.freeze\<close> is entered.
\<close>

inductive freeze_file_at :: "cg_dir \<Rightarrow> path \<Rightarrow> bool" where
  here_file: "CG_File cgroup_freeze_file \<in> set es \<Longrightarrow> freeze_file_at (CG_Entries es) [cgroup_freeze_file]"
| here_dir: "CG_Dir cgroup_freeze_file sub \<in> set es \<Longrightarrow> freeze_file_at (CG_Entries es) [cgroup_freeze_file]"
| below: "CG_Dir name sub \<in> set es \<Longrightarrow> name \<noteq> cgroup_freeze_file \<Longrightarrow> freeze_file_at sub p \<Longrightarrow>
          freeze_file_at (CG_Entries es) (name # p)"

inductive_cases freeze_file_at_entries: "freeze_file_at (CG_Entries es) p"
inductive_cases freeze_file_at_unreadable: "freeze_file_at (CG_Unreadable e) p"

inductive_simps freeze_file_at_entries_iff: "freeze_file_at (CG_Entries es) p"

lemma freeze_file_at_unreadable_iff [simp]: "\<not> freeze_file_at (CG_Unreadable e) p"
  by (auto elim: freeze_file_at_unreadable)

lemma freeze_file_at_Nil [simp]: "\<not> freeze_file_at (CG_Entries []) p"
  by (auto elim: freeze_file_at_entries)

lemma freeze_file_at_Cons:
  "freeze_file_at (CG_Entries (e # es)) p \<longleftrightarrow>
     freeze_file_at (CG_Entries es) p \<or>
     (case e of
        CG_BadEntry _ \<Rightarrow> False
      | CG_File name \<Rightarrow> name = cgroup_freeze_file \<and> p = [name]
      | CG_Dir name sub \<Rightarrow>
          if name = cgroup_freeze_file then p = [name] else (\<exists>q. p = name # q \<and> freeze_file_at sub q))"
  by (cases e) (auto simp: freeze_file_at_entries_iff)

lemma discover_sound_complete:
  "discover_freeze_files_inner path dir paths = Inr found \<Longrightarrow>
     set found = set paths \<union> {path @ p |p. freeze_file_at dir p}"
  "discover_entries path es paths = Inr found \<Longrightarrow>
     set found = set paths \<union> {path @ p |p. freeze_file_at (CG_Entries es) p}"
  by (induction path dir paths and path es paths arbitrary: found and found
      rule: discover_freeze_files_inner_discover_entries.induct)
    (auto simp: freeze_file_at_Cons split: if_splits sum.splits)

text \<open>
  When the search of the cgroup file system succeeds it has found every freeze file that is
  reachable from the root through readable directories, and nothing else.
\<close>

lemma discovered_freeze_files_exact:
  assumes "discover_freeze_files root (Some tree) = Inr found"
  shows "set found = {root @ p |p. freeze_file_at tree p}"
  using assms discover_sound_complete(1) [of root tree "[]" found] by (simp add: discover_freeze_files_def)

definition sample_tree :: cg_dir where
  "sample_tree = CG_Entries [CG_Dir ''apps'' (CG_Entries [CG_File ''cgroup.freeze'', CG_File ''cgroup.procs'']),
                             CG_BadEntry \<lparr>io_kind = NotFound, io_message = ''gone''\<rparr>]"

lemma discovered_freeze_files_exact_witness:
  "{[''sys''] @ p |p. freeze_file_at sample_tree p} = {[''sys'', ''apps'', ''cgroup.freeze'']}"
proof -
  have "discover_freeze_files [''sys''] (Some sample_tree) = Inr [[''sys'', ''apps'', ''cgroup.freeze'']]"
    by code_simp
  from discovered_freeze_files_exact [OF this] show ?thesis by simp
qed

end
