(* ===== verification/Freezer_Backend.thy ===== *)
theory Freezer_Backend
  imports Backend
begin

text \<open>
  \<^verbatim>\<open>app/freezer_backend.rs\<close>: which of freeze, signal, terminate, postpone or skip is
  chosen for an application, from its policy, the state of its processes and what the backend
  environment offers.  \<^verbatim>\<open>BackendEnvironment::detect\<close> probes the kernel; its two answers
  are arguments.
\<close>

datatype decision_action =
    DA_Freeze | DA_Postpone | DA_AlternateFreezer | DA_Signal | DA_Terminate | DA_Skip

record freeze_decision =
  fd_action :: decision_action
  fd_reason :: string

record backend_environment =
  be_cgroup_available :: bool
  be_binder_available :: bool
  be_network_available :: bool
  be_wakelock_available :: bool
  be_screen_state_available :: bool
  be_hook_fresh :: bool

definition default_environment :: backend_environment where
  "default_environment =
    \<lparr>be_cgroup_available = True, be_binder_available = True, be_network_available = True,
     be_wakelock_available = True, be_screen_state_available = True, be_hook_fresh = True\<rparr>"

definition detect_environment :: "bool \<Rightarrow> binder_freezer_capability \<Rightarrow> backend_environment" where
  "detect_environment cgroup_exists binder_capability =
    \<lparr>be_cgroup_available = cgroup_exists,
     be_binder_available = (bc_status binder_capability = CS_Available),
     be_network_available = False, be_wakelock_available = False,
     be_screen_state_available = False, be_hook_fresh = False\<rparr>"

definition capability_of :: "capability_name \<Rightarrow> bool \<Rightarrow> string \<Rightarrow> control_capability" where
  "capability_of name available evidence =
    \<lparr>cc_name = name, cc_status = (if available then CS_Available else CS_Missing), cc_evidence = evidence,
     cc_checked_at_ms = 0, cc_risk_level = (if available then RL_Normal else RL_Disabled)\<rparr>"

definition capability_with_status ::
  "capability_name \<Rightarrow> capability_status \<Rightarrow> string \<Rightarrow> risk_level \<Rightarrow> control_capability" where
  "capability_with_status name status evidence risk_level =
    \<lparr>cc_name = name, cc_status = status, cc_evidence = evidence, cc_checked_at_ms = 0,
     cc_risk_level = risk_level\<rparr>"

definition discover_capabilities ::
  "backend_environment \<Rightarrow> cgroup_freezer_capability res \<Rightarrow> binder_freezer_capability \<Rightarrow>
   control_capability list" where
  "discover_capabilities env cgroup_result binder_capability =
     (let cgroup_capability =
            (case cgroup_result of
               Inr c \<Rightarrow> capability_with_status CN_CgroupV2Freezer (gc_status c) (gc_evidence c)
                          (if gc_status c = CS_Available then RL_Normal else RL_Disabled)
             | Inl e \<Rightarrow> capability_with_status CN_CgroupV2Freezer CS_Missing
                          (''cgroup capability probe failed: '' @ show_error e) RL_Disabled);
          binder_risk =
            (case bc_status binder_capability of
               CS_Available \<Rightarrow> RL_Normal
             | CS_Untested \<Rightarrow> RL_Caution | CS_Degraded \<Rightarrow> RL_Caution
             | CS_Missing \<Rightarrow> RL_Disabled)
      in [cgroup_capability,
          capability_with_status CN_BinderFreezer (bc_status binder_capability)
            (bc_evidence binder_capability) binder_risk,
          capability_of CN_SignalControl True ''kill(2) SIGSTOP/SIGCONT fallback backend'',
          capability_of CN_NetworkBreak (be_network_available env) ''network break'',
          capability_of CN_WakelockControl (be_wakelock_available env) ''wake-lock control''])"

subsection \<open>Deciding\<close>

definition fallback_to_decision :: "fallback_action \<Rightarrow> decision_action" where
  "fallback_to_decision fallback =
     (case fallback of
        FB_Postpone \<Rightarrow> DA_Postpone | FB_AlternateFreezer \<Rightarrow> DA_AlternateFreezer
      | FB_Signal \<Rightarrow> DA_Signal | FB_Terminate \<Rightarrow> DA_Terminate | FB_Skip \<Rightarrow> DA_Skip)"

definition fallback_decision :: "freeze_policy \<Rightarrow> string \<Rightarrow> freeze_decision" where
  "fallback_decision policy reason =
    \<lparr>fd_action = fallback_to_decision
       (case fp_fallback_strategy policy of [] \<Rightarrow> FB_Skip | fallback # _ \<Rightarrow> fallback),
     fd_reason = reason\<rparr>"

definition binder_state_busy :: "string \<Rightarrow> bool" where
  "binder_state_busy state =
     (let normalized = to_ascii_lowercase state
      in str_contains normalized ''binder_queue active'' \<or> str_contains normalized ''busy''
         \<or> str_contains normalized ''sync_txn'' \<or> str_contains normalized ''txns_pending''
         \<or> str_contains normalized ''binder_pending'')"

definition idle_blocker :: "runtime_process list \<Rightarrow> string option" where
  "idle_blocker processes =
     (case find (\<lambda>p. rp_control_state p = CT_PendingFreeze \<and>
                  (case rp_binder_state p of None \<Rightarrow> False | Some state \<Rightarrow> binder_state_busy state)) processes of
        None \<Rightarrow> None
      | Some blocked \<Rightarrow>
          Some (''pending freeze idle evidence is not satisfied by binder transaction state for pid ''
            @ show_int (rp_pid blocked) @ '': ''
            @ (case rp_binder_state blocked of Some s \<Rightarrow> s | None \<Rightarrow> ''unavailable'')))"

definition decide :: "decision_action \<Rightarrow> string \<Rightarrow> freeze_decision" where
  "decide action reason = \<lparr>fd_action = action, fd_reason = reason\<rparr>"

definition can_freeze ::
  "backend_environment \<Rightarrow> managed_app \<Rightarrow> freeze_policy \<Rightarrow> runtime_process list \<Rightarrow> freeze_decision" where
  "can_freeze env app policy processes =
     (if \<not> is_control_allowed_for policy app
        then decide DA_Skip ''policy or protected package blocks control''
      else if processes = [] then decide DA_Skip ''no runtime processes''
      else if list_ex (\<lambda>p. rp_proc_state p \<in> {PS_Foreground, PS_Visible, PS_Unknown}) processes
        then decide DA_Postpone ''foreground, visible, or unknown process state''
      else if \<not> be_hook_fresh env \<or> \<not> be_screen_state_available env
        then decide DA_Postpone ''fresh hook and screen-state evidence required''
      else
        case idle_blocker processes of
          Some reason \<Rightarrow> decide DA_Postpone reason
        | None \<Rightarrow>
          let requested = requested_restrictions policy
          in if rr_network_break requested \<and> \<not> be_network_available env
             then decide DA_Postpone ''network restriction requested but backend is unavailable''
             else if rr_wakelock_restriction requested \<and> \<not> be_wakelock_available env
             then decide DA_Postpone ''wakelock restriction requested but backend is unavailable''
             else if fp_mode policy = FM_Terminate then decide DA_Terminate ''terminate policy selected''
             else if fp_mode policy = FM_SignalStop then decide DA_Signal ''signal-stop policy selected''
             else if be_cgroup_available env \<and> be_binder_available env
             then decide DA_Freeze ''cgroup and binder freezer available''
             else if be_cgroup_available env \<and> \<not> be_binder_available env
             then fallback_decision policy
               ''cgroup freezer available but binder freezer unavailable; freeze_process requires binder''
             else fallback_decision policy ''preferred freezer unavailable'')"

definition is_permission_denied :: "daemon_error \<Rightarrow> bool" where
  "is_permission_denied e = (case e of Io_Error io \<Rightarrow> io_kind io = PermissionDenied | _ \<Rightarrow> False)"

definition fallback_after_freeze_apply_error :: "freeze_policy \<Rightarrow> daemon_error \<Rightarrow> freeze_decision" where
  "fallback_after_freeze_apply_error policy e =
     fallback_decision policy
       (if is_permission_denied e
        then ''permission denied while applying cgroup.freeze: '' @ show_error e
        else ''freezer apply failed: '' @ show_error e)"

definition backend_operation ::
  "managed_app \<Rightarrow> runtime_process list \<Rightarrow> control_action \<Rightarrow> operation_result \<Rightarrow> string \<Rightarrow>
   control_operation" where
  "backend_operation app processes action result reason =
    \<lparr>co_operation_id = 0, co_timestamp_ms = 0, co_package_name = ma_package_name app,
     co_uid = ma_uid app, co_pid_list = map rp_pid processes, co_action = action,
     co_backend = ''SystemAwareCgroupBinderBackend'', co_reason = reason, co_result = result,
     co_details = ''process_count='' @ show_nat (length processes)\<rparr>"

definition freeze_operation :: "managed_app \<Rightarrow> runtime_process list \<Rightarrow> string \<Rightarrow> control_operation" where
  "freeze_operation app processes reason = backend_operation app processes CA_Freeze OR_Success reason"

definition unfreeze_operation :: "managed_app \<Rightarrow> runtime_process list \<Rightarrow> string \<Rightarrow> control_operation" where
  "unfreeze_operation app processes reason = backend_operation app processes CA_Unfreeze OR_Success reason"

definition mark_processes_frozen :: "runtime_process list \<Rightarrow> runtime_process list" where
  "mark_processes_frozen processes = map (\<lambda>p. p\<lparr>rp_control_state := CT_Frozen\<rparr>) processes"

definition mark_processes_running :: "runtime_process list \<Rightarrow> runtime_process list" where
  "mark_processes_running processes = map (\<lambda>p. p\<lparr>rp_control_state := CT_Running\<rparr>) processes"

subsection \<open>What a decision promises\<close>

definition background_state :: "process_state \<Rightarrow> bool" where
  "background_state s \<longleftrightarrow> s \<in> {PS_Service, PS_Cached, PS_Empty}"

text \<open>The evidence \<^verbatim>\<open>can_freeze\<close> needs before it lets anything happen to a process.\<close>

definition control_evidence ::
  "backend_environment \<Rightarrow> managed_app \<Rightarrow> freeze_policy \<Rightarrow> runtime_process list \<Rightarrow> bool" where
  "control_evidence env app policy processes \<longleftrightarrow>
     is_control_allowed_for policy app \<and> processes \<noteq> [] \<and>
     (\<forall>p \<in> set processes. background_state (rp_proc_state p) \<and>
        (rp_control_state p = CT_PendingFreeze \<longrightarrow>
           (\<forall>state. rp_binder_state p = Some state \<longrightarrow> \<not> binder_state_busy state))) \<and>
     be_hook_fresh env \<and> be_screen_state_available env \<and>
     (fp_allow_network_restriction policy \<longrightarrow> be_network_available env) \<and>
     (fp_allow_wakelock_restriction policy \<longrightarrow> be_wakelock_available env)"

lemma decide_action [simp]: "fd_action (decide a r) = a"
  by (simp add: decide_def)

lemma fallback_decision_action:
  "fd_action (fallback_decision policy reason) \<noteq> DA_Freeze"
  by (auto simp: fallback_decision_def fallback_to_decision_def split: list.splits fallback_action.splits)

lemma idle_blocker_None_iff:
  "idle_blocker processes = None \<longleftrightarrow>
     (\<forall>p \<in> set processes. rp_control_state p = CT_PendingFreeze \<longrightarrow>
        (\<forall>state. rp_binder_state p = Some state \<longrightarrow> \<not> binder_state_busy state))"
proof -
  have "idle_blocker processes = None \<longleftrightarrow>
      find (\<lambda>p. rp_control_state p = CT_PendingFreeze \<and>
             (case rp_binder_state p of None \<Rightarrow> False | Some state \<Rightarrow> binder_state_busy state)) processes = None"
    by (cases "find (\<lambda>p. rp_control_state p = CT_PendingFreeze \<and>
             (case rp_binder_state p of None \<Rightarrow> False | Some state \<Rightarrow> binder_state_busy state)) processes")
      (simp_all add: idle_blocker_def)
  also have "\<dots> \<longleftrightarrow> (\<forall>p \<in> set processes. rp_control_state p = CT_PendingFreeze \<longrightarrow>
        (\<forall>state. rp_binder_state p = Some state \<longrightarrow> \<not> binder_state_busy state))"
    unfolding find_None_iff by (auto split: option.splits)
  finally show ?thesis .
qed

lemma no_visible_process_iff:
  "\<not> list_ex (\<lambda>p. rp_proc_state p \<in> {PS_Foreground, PS_Visible, PS_Unknown}) processes \<longleftrightarrow>
     (\<forall>p \<in> set processes. background_state (rp_proc_state p))"
proof -
  have "(s \<in> {PS_Foreground, PS_Visible, PS_Unknown}) = (\<not> background_state s)" for s
    by (cases s) (simp_all add: background_state_def)
  then show ?thesis by (simp add: list_ex_iff)
qed

lemma requested_restrictions_sel [simp]:
  "rr_network_break (requested_restrictions policy) = fp_allow_network_restriction policy"
  "rr_wakelock_restriction (requested_restrictions policy) = fp_allow_wakelock_restriction policy"
  by (cases policy; simp)+

lemma can_freeze_gates:
  "can_freeze env app policy processes =
    (if \<not> is_control_allowed_for policy app
       then decide DA_Skip ''policy or protected package blocks control''
     else if processes = [] then decide DA_Skip ''no runtime processes''
     else if \<not> (\<forall>p \<in> set processes. background_state (rp_proc_state p))
       then decide DA_Postpone ''foreground, visible, or unknown process state''
     else if \<not> be_hook_fresh env \<or> \<not> be_screen_state_available env
       then decide DA_Postpone ''fresh hook and screen-state evidence required''
     else if idle_blocker processes \<noteq> None then decide DA_Postpone (the (idle_blocker processes))
     else if fp_allow_network_restriction policy \<and> \<not> be_network_available env
       then decide DA_Postpone ''network restriction requested but backend is unavailable''
     else if fp_allow_wakelock_restriction policy \<and> \<not> be_wakelock_available env
       then decide DA_Postpone ''wakelock restriction requested but backend is unavailable''
     else if fp_mode policy = FM_Terminate then decide DA_Terminate ''terminate policy selected''
     else if fp_mode policy = FM_SignalStop then decide DA_Signal ''signal-stop policy selected''
     else if be_cgroup_available env \<and> be_binder_available env
       then decide DA_Freeze ''cgroup and binder freezer available''
     else fallback_decision policy
       (if be_cgroup_available env
        then ''cgroup freezer available but binder freezer unavailable; freeze_process requires binder''
        else ''preferred freezer unavailable''))"
  unfolding can_freeze_def no_visible_process_iff [symmetric]
  by (cases "idle_blocker processes") (simp_all add: Let_def)

lemma can_freeze_without_evidence:
  assumes "\<not> control_evidence env app policy processes"
  shows "fd_action (can_freeze env app policy processes) \<in> {DA_Skip, DA_Postpone}"
proof (rule ccontr)
  assume bad: "\<not> ?thesis"
  have "control_evidence env app policy processes"
    using bad idle_blocker_None_iff [of processes]
    unfolding can_freeze_gates control_evidence_def by (simp split: if_splits)
  with assms show False ..
qed

lemma can_freeze_with_evidence:
  assumes "control_evidence env app policy processes"
  shows "fd_action (can_freeze env app policy processes) =
    (if fp_mode policy = FM_Terminate then DA_Terminate
     else if fp_mode policy = FM_SignalStop then DA_Signal
     else if be_cgroup_available env \<and> be_binder_available env then DA_Freeze
     else fd_action (fallback_decision policy []))"
proof -
  from assms have "idle_blocker processes = None" "is_control_allowed_for policy app" "processes \<noteq> []"
      "\<forall>p \<in> set processes. background_state (rp_proc_state p)" "be_hook_fresh env"
      "be_screen_state_available env"
      "\<not> (fp_allow_network_restriction policy \<and> \<not> be_network_available env)"
      "\<not> (fp_allow_wakelock_restriction policy \<and> \<not> be_wakelock_available env)"
    by (simp_all add: control_evidence_def idle_blocker_None_iff)
  then show ?thesis
    unfolding can_freeze_gates by (simp only: if_False if_True simp_thms fallback_decision_def) simp
qed

text \<open>
  C31.  The decision is total and exact.  Without the full evidence (the policy controls this
  unprotected application, it has processes, none of them is foreground, visible or unknown, none
  pending has a busy Binder, hook and screen state are fresh, each requested restriction has its
  backend) nothing happens now; with it the policy's mode decides, and the cgroup freezer is chosen
  only when the cgroup and the Binder freezer are both there, else the first fallback of the policy.
\<close>

theorem can_freeze_decides:
  "fd_action (can_freeze env app policy processes) \<in>
    (if \<not> control_evidence env app policy processes then {DA_Skip, DA_Postpone}
     else if fp_mode policy = FM_Terminate then {DA_Terminate}
     else if fp_mode policy = FM_SignalStop then {DA_Signal}
     else if be_cgroup_available env \<and> be_binder_available env then {DA_Freeze}
     else {fd_action (fallback_decision policy [])} - {DA_Freeze})"
  using can_freeze_without_evidence can_freeze_with_evidence fallback_decision_action by auto

lemma legacy_policy_fallback:
  "fd_action (fallback_decision (from_legacy_mode mode permissive) reason) \<in> {DA_Postpone, DA_Signal, DA_Skip}"
  by (auto simp: fallback_decision_def fallback_to_decision_def from_legacy_mode_def legacy_mode_table_def
      Let_def)

text \<open>An environment straight from the probe never lets the backend act: its evidence flags are
  set only by the caller that holds a fresh report.\<close>

lemma detected_environment_never_acts:
  "fd_action (can_freeze (detect_environment c b) app policy processes) \<in> {DA_Skip, DA_Postpone}"
  by (rule can_freeze_without_evidence) (simp add: control_evidence_def detect_environment_def)

lemma select_from_available:
  assumes "select_from can_write u classes = (CS_Available, preference, files, count)"
  shows "\<exists>all. (preference, all) \<in> set classes \<and> files = filter can_write all \<and> files \<noteq> []"
  using assms
proof (induction can_write u classes rule: select_from.induct)
  case (2 can_write u pref all rest)
  show ?case
  proof (cases "all \<noteq> [] \<and> filter can_write all \<noteq> []")
    case True
    with 2(3) have "pref = preference \<and> files = filter can_write all" by simp
    with True show ?thesis by auto
  next
    case False
    with 2 show ?thesis by (cases "all = []") auto
  qed
qed (simp split: option.splits prod.splits)

end
