(* ===== verification/Compat.thy ===== *)
theory Compat
  imports Health Freezer_Backend
begin

text \<open>
  \<^verbatim>\<open>app/compatibility.rs\<close> (the verified target list and the compatibility gate of
  the control loop) and \<^verbatim>\<open>protocol/manager_v2.rs\<close> (the JSON reports).  The property
  files are read by the operating system; their content, or the error of reading them, is an argument.
\<close>

subsection \<open>Verified targets\<close>

datatype verified_target = Verified_Target (vt_device_model: string) (vt_sdk: u32)

text \<open>The derived order of the struct: by model, then by sdk.\<close>

instantiation verified_target :: linorder
begin

definition less_eq_verified_target :: "verified_target \<Rightarrow> verified_target \<Rightarrow> bool" where
  "less_eq_verified_target a b \<longleftrightarrow> (vt_device_model a, vt_sdk a) \<le> (vt_device_model b, vt_sdk b)"

definition less_verified_target :: "verified_target \<Rightarrow> verified_target \<Rightarrow> bool" where
  "less_verified_target a b \<longleftrightarrow> (vt_device_model a, vt_sdk a) < (vt_device_model b, vt_sdk b)"

instance
proof
  fix a b c :: verified_target
  show "(a < b) = (a \<le> b \<and> \<not> b \<le> a)"
    by (auto simp: less_eq_verified_target_def less_verified_target_def)
  show "a \<le> a" by (simp add: less_eq_verified_target_def)
  show "a \<le> b \<Longrightarrow> b \<le> c \<Longrightarrow> a \<le> c"
    unfolding less_eq_verified_target_def by (rule order_trans)
  show "a \<le> b \<Longrightarrow> b \<le> a \<Longrightarrow> a = b"
    unfolding less_eq_verified_target_def by (cases a; cases b) auto
  show "a \<le> b \<or> b \<le> a"
    unfolding less_eq_verified_target_def by (rule linear)
qed

end

record runtime_environment =
  re_device_model :: string
  re_android_version :: string
  re_sdk :: u32
  re_fingerprint :: string
  re_kernel :: string
  re_root_ready :: bool
  re_hook_ready :: bool
  re_freezer_ready :: bool
  re_verified_targets :: "verified_target list"

definition runtime_environment_new ::
  "string \<Rightarrow> string \<Rightarrow> u32 \<Rightarrow> string \<Rightarrow> string \<Rightarrow> bool \<Rightarrow> bool \<Rightarrow> bool \<Rightarrow> runtime_environment" where
  "runtime_environment_new device_model android_version sdk fingerprint kernel_text root_ready hook_ready
      freezer_ready =
    \<lparr>re_device_model = device_model, re_android_version = android_version, re_sdk = sdk,
     re_fingerprint = fingerprint, re_kernel = kernel_text, re_root_ready = root_ready,
     re_hook_ready = hook_ready, re_freezer_ready = freezer_ready, re_verified_targets = []\<rparr>"

definition with_verified_targets :: "verified_target list \<Rightarrow> runtime_environment \<Rightarrow> runtime_environment" where
  "with_verified_targets targets env = env\<lparr>re_verified_targets := targets\<rparr>"

definition env_verified_target :: "runtime_environment \<Rightarrow> bool" where
  "env_verified_target env \<longleftrightarrow>
     list_ex (\<lambda>t. eq_ignore_ascii_case (vt_device_model t) (re_device_model env) \<and> vt_sdk t = re_sdk env)
       (re_verified_targets env)"

definition trim_start_matches :: "char \<Rightarrow> string \<Rightarrow> string" where
  "trim_start_matches c s = dropWhile (\<lambda>x. x = c) s"

definition kernel_token :: "string \<Rightarrow> bool" where
  "kernel_token token \<longleftrightarrow>
     (case split_on (CHR ''.'') (trim_start_matches (CHR ''v'') token) of
        major # minor # _ \<Rightarrow>
          parse_u32 major \<noteq> None \<and>
          (let value = takeWhile is_digit minor in value \<noteq> [] \<and> parse_u32 value \<noteq> None)
      | _ \<Rightarrow> False)"

definition has_kernel_release :: "string \<Rightarrow> bool" where
  "has_kernel_release kernel_text \<longleftrightarrow> list_ex kernel_token (split_whitespace kernel_text)"

definition runtime_compatible :: "runtime_environment \<Rightarrow> bool" where
  "runtime_compatible env \<longleftrightarrow> re_sdk env \<ge> 31 \<and> has_kernel_release (re_kernel env)"

definition allows_control :: "runtime_environment \<Rightarrow> control_capability list \<Rightarrow> bool" where
  "allows_control env capabilities \<longleftrightarrow>
     env_verified_target env \<and> runtime_compatible env \<and> re_root_ready env \<and> re_hook_ready env \<and>
     re_freezer_ready env \<and>
     list_all (\<lambda>c. cc_name c \<noteq> CN_CgroupV2Freezer \<or>
        (cc_status c = CS_Available \<and> cc_risk_level c \<noteq> RL_Disabled)) capabilities"

definition env_limitations :: "runtime_environment \<Rightarrow> control_capability list \<Rightarrow> string list" where
  "env_limitations env capabilities =
     unless_ready (env_verified_target env) ''runtime is not present in the module verified target list''
     @ unless_ready (runtime_compatible env) ''runtime requires Android API 31+ and a detected kernel''
     @ unless_ready (re_root_ready env) ''root capability unavailable''
     @ unless_ready (re_hook_ready env) ''hook bridge unavailable''
     @ unless_ready (re_freezer_ready env) ''freezer capability unavailable''
     @ map cc_evidence (filter (\<lambda>c. cc_status c \<noteq> CS_Available) capabilities)"

subsection \<open>Loading the verified targets\<close>

fun find_map :: "('a \<Rightarrow> 'b option) \<Rightarrow> 'a list \<Rightarrow> 'b option" where
  "find_map f [] = None"
| "find_map f (x # xs) = (case f x of Some y \<Rightarrow> Some y | None \<Rightarrow> find_map f xs)"

definition property_of :: "string \<Rightarrow> string list \<Rightarrow> string option" where
  "property_of text keys =
     find_map (\<lambda>line.
        case split_once ''='' line of
          None \<Rightarrow> None
        | Some (key, value) \<Rightarrow> if str_trim key \<in> set keys then Some (str_trim value) else None)
       (str_lines text)"

definition android_version_sdk :: "string \<Rightarrow> u32 option" where
  "android_version_sdk version =
     map_of [(''12'', 31), (''12.1'', 32), (''13'', 33), (''14'', 34), (''15'', 35), (''16'', 36)]
       (str_trim version)"

definition baseline_targets :: "string \<Rightarrow> verified_target list" where
  "baseline_targets text =
     (let model = property_of text [''rom.product'', ''ro.product.model'', ''ro.product.device''];
          sdk = (case Option.bind (property_of text [''rom.sdk'', ''ro.build.version.sdk'']) parse_u32 of
                   Some s \<Rightarrow> Some s
                 | None \<Rightarrow> Option.bind (property_of text [''rom.android.version'']) android_version_sdk)
      in case (model, sdk) of (Some m, Some s) \<Rightarrow> [Verified_Target m s] | _ \<Rightarrow> [])"

definition allowlist_line :: "string \<Rightarrow> verified_target list" where
  "allowlist_line raw =
     (let line = str_trim (hd (split_on (CHR ''#'') raw))
      in if line = [] then []
         else
           case split_whitespace (map (\<lambda>c. if c = CHR '','' then CHR '' '' else c) line) of
             [] \<Rightarrow> []
           | model # rest \<Rightarrow>
               (case find_map (\<lambda>field.
                   parse_u32 (case strip_prefix ''sdk='' field of Some v \<Rightarrow> v | None \<Rightarrow> field)) rest of
                  Some sdk \<Rightarrow> [Verified_Target model sdk]
                | None \<Rightarrow> []))"

definition load_verified_targets ::
  "io_error + string \<Rightarrow> bool \<Rightarrow> io_error + string \<Rightarrow> verified_target list res" where
  "load_verified_targets baseline allowlist_exists allowlist =
     (let targets = (case baseline of Inr text \<Rightarrow> baseline_targets text | Inl _ \<Rightarrow> [])
      in if \<not> allowlist_exists then Inr (remdups_adj (sort targets))
         else
           case allowlist of
             Inl e \<Rightarrow> Inl (Io_Error e)
           | Inr text \<Rightarrow>
               Inr (remdups_adj (sort (targets @ concat (map allowlist_line (str_lines text))))))"

subsection \<open>Reports\<close>

definition capability_name_text :: "capability_name \<Rightarrow> string" where
  "capability_name_text name =
     (case name of
        CN_Root \<Rightarrow> ''root'' | CN_PackageInventory \<Rightarrow> ''package_inventory''
      | CN_LsposedSystemServer \<Rightarrow> ''lsposed_system_server'' | CN_CgroupV2Freezer \<Rightarrow> ''cgroup_v2_freezer''
      | CN_BinderFreezer \<Rightarrow> ''binder_freezer'' | CN_SignalControl \<Rightarrow> ''signal_control''
      | CN_NetworkBreak \<Rightarrow> ''network_break'' | CN_WakelockControl \<Rightarrow> ''wakelock_control'')"

definition capability_status_text :: "capability_status \<Rightarrow> string" where
  "capability_status_text status =
     (case status of
        CS_Available \<Rightarrow> ''available'' | CS_Missing \<Rightarrow> ''missing'' | CS_Degraded \<Rightarrow> ''degraded''
      | CS_Untested \<Rightarrow> ''untested'')"

definition compatibility_json :: "runtime_environment \<Rightarrow> control_capability list \<Rightarrow> string" where
  "compatibility_json env capabilities =
     ''{'' @ str_join '',''
       [json_raw ''schema'' ''2'',
        json_str ''deviceModel'' (escape_json (re_device_model env)),
        json_str ''androidVersion'' (escape_json (re_android_version env)),
        json_raw ''sdk'' (show_u32 (re_sdk env)),
        json_str ''fingerprint'' (escape_json (re_fingerprint env)),
        json_str ''kernel'' (escape_json (re_kernel env)),
        json_raw ''rootReady'' (show_bool (re_root_ready env)),
        json_raw ''hookReady'' (show_bool (re_hook_ready env)),
        json_raw ''freezerReady'' (show_bool (re_freezer_ready env)),
        json_raw ''verifiedTarget'' (show_bool (env_verified_target env)),
        json_raw ''runtimeCompatible'' (show_bool (runtime_compatible env)),
        json_raw ''controlAllowed'' (show_bool (allows_control env capabilities)),
        json_raw ''limitations'' (json_string_list (env_limitations env capabilities)),
        json_raw ''capabilities''
          (''['' @ str_join '',''
             (map (\<lambda>c. ''{'' @ str_join '',''
                 [json_str ''name'' (capability_name_text (cc_name c)),
                  json_str ''status'' (capability_status_text (cc_status c)),
                  json_str ''evidence'' (escape_json (cc_evidence c))] @ ''}'') capabilities) @ '']'')] @ ''}''"

definition capability_report_json :: "control_capability list \<Rightarrow> string" where
  "capability_report_json capabilities =
     ''{'' @ json_raw ''capabilities''
       (''['' @ str_join '',''
          (map (\<lambda>c. ''{'' @ str_join '',''
              [json_str ''name'' (capability_name_text (cc_name c)),
               json_str ''status'' (capability_status_text (cc_status c)),
               json_str ''reason'' (escape_json (cc_evidence c))] @ ''}'') capabilities) @ '']'') @ ''}''"

definition self_check_json_with_control_allowed ::
  "module_health \<Rightarrow> control_capability list \<Rightarrow> bool \<Rightarrow> string" where
  "self_check_json_with_control_allowed health capabilities control_allowed =
     ''{'' @ str_join '',''
       [json_raw ''controlAllowed'' (show_bool control_allowed),
        json_raw ''health'' (health_report_json health),
        json_raw ''capabilities'' (capability_report_json capabilities)] @ ''}''"

definition self_check_json :: "module_health \<Rightarrow> control_capability list \<Rightarrow> string" where
  "self_check_json health capabilities = self_check_json_with_control_allowed health capabilities False"

definition self_check_json_for_runtime ::
  "module_health \<Rightarrow> control_capability list \<Rightarrow> runtime_environment \<Rightarrow> string" where
  "self_check_json_for_runtime health capabilities env =
     self_check_json_with_control_allowed health capabilities
       (is_safe_for_control health \<and> allows_control env capabilities)"

subsection \<open>What the gate promises\<close>

lemma find_map_Some:
  "find_map f xs = Some y \<Longrightarrow> \<exists>x \<in> set xs. f x = Some y"
  by (induction xs) (auto split: option.splits)

lemma sorted_distinct_adj_distinct: "sorted (xs :: 'a::linorder list) \<Longrightarrow> distinct_adj xs \<Longrightarrow> distinct xs"
proof (induction xs)
  case (Cons x xs)
  then show ?case
    by (cases xs) (auto simp: distinct_adj_Cons)
qed simp

text \<open>The targets named by the two files, in any order.\<close>

definition listed_targets :: "io_error + string \<Rightarrow> bool \<Rightarrow> io_error + string \<Rightarrow> verified_target set" where
  "listed_targets baseline allowlist_exists allowlist =
     (case baseline of Inr text \<Rightarrow> set (baseline_targets text) | Inl _ \<Rightarrow> {}) \<union>
     (if allowlist_exists then
        (case allowlist of Inr text \<Rightarrow> (\<Union>l \<in> set (str_lines text). set (allowlist_line l)) | Inl _ \<Rightarrow> {})
      else {})"

lemma load_targets_shape:
  assumes "load_verified_targets baseline allowlist_exists allowlist = Inr targets"
  obtains raw where "targets = remdups_adj (sort raw)"
    and "set raw = listed_targets baseline allowlist_exists allowlist"
  using assms
  by (auto simp: load_verified_targets_def listed_targets_def Let_def split: sum.splits if_splits)

text \<open>
  Loading the verified targets returns exactly the targets the baseline file and the allow list
  name, each once and in ascending order.
\<close>

lemma verified_targets_loaded:
  assumes "load_verified_targets baseline allowlist_exists allowlist = Inr targets"
  shows "set targets = listed_targets baseline allowlist_exists allowlist \<and> sorted targets \<and> distinct targets"
proof -
  from load_targets_shape [OF assms] obtain raw where "targets = remdups_adj (sort raw)"
    and "set raw = listed_targets baseline allowlist_exists allowlist" by blast
  then show ?thesis by (simp add: sorted_distinct_adj_distinct)
qed

lemma verified_targets_loaded_witness:
  "\<exists>targets. load_verified_targets (Inl \<lparr>io_kind = NotFound, io_message = []\<rparr>)
       True (Inr ''A 31'') = Inr targets \<and> distinct targets \<and> sorted targets"
proof -
  have "load_verified_targets (Inl \<lparr>io_kind = NotFound, io_message = []\<rparr>)
          True (Inr ''A 31'') = Inr [Verified_Target ''A'' 31]"
    by code_simp
  with verified_targets_loaded [OF this] show ?thesis by blast
qed

text \<open>
  With the capabilities the backend discovers, the compatibility gate opens exactly when the
  device is on the verified list for its sdk, runs API 31 or later with a recognisable kernel, root,
  hook and freezer are ready, and the cgroup freezer probe succeeded with a writable freeze file.
\<close>

lemma control_gate_exact:
  "allows_control env (discover_capabilities be cgroup_result binder_capability) \<longleftrightarrow>
     env_verified_target env \<and> re_sdk env \<ge> 31 \<and> has_kernel_release (re_kernel env) \<and>
     re_root_ready env \<and> re_hook_ready env \<and> re_freezer_ready env \<and>
     (\<exists>c. cgroup_result = Inr c \<and> gc_status c = CS_Available)"
  by (auto simp: allows_control_def runtime_compatible_def discover_capabilities_def Let_def
      capability_with_status_def capability_of_def split: sum.splits)

lemma no_limitations_allow_control:
  assumes "env_limitations env capabilities = []"
    and "\<forall>c \<in> set capabilities. cc_name c = CN_CgroupV2Freezer \<longrightarrow> cc_risk_level c \<noteq> RL_Disabled"
  shows "allows_control env capabilities"
  using assms by (auto simp: env_limitations_def allows_control_def list_all_iff filter_empty_conv)

lemma legacy_self_check_fails_closed:
  "starts_with (self_check_json health capabilities) (''{'' @ [quote] @ ''controlAllowed'' @ [quote] @ '':false'')"
  by (simp add: self_check_json_def self_check_json_with_control_allowed_def json_raw_def show_bool_def
      starts_with_def)

lemma runtime_self_check_safe:
  assumes "self_check_json_for_runtime health capabilities env =
             self_check_json_with_control_allowed health capabilities True"
  shows "is_safe_for_control health \<and> allows_control env capabilities"
  using assms
  by (auto simp: self_check_json_for_runtime_def self_check_json_with_control_allowed_def json_raw_def
      show_bool_def split: if_splits)

end
