(* ===== verification/Inventory.thy ===== *)
theory Inventory
  imports Domain
begin

text \<open>
  \<^verbatim>\<open>app/package_inventory.rs\<close> (which packages exist, under which uid, and which are
  protected), \<^verbatim>\<open>config/migration.rs\<close> (the text format of the policy files) and
  \<^verbatim>\<open>config/loader.rs\<close> (where the files are and how they are read).  The file system is
  an argument of the loaders.
\<close>

subsection \<open>Packages\<close>

definition android_per_user_range :: u32 where "android_per_user_range = 100000"
definition android_first_application_uid :: u32 where "android_first_application_uid = 10000"

record package_record =
  pk_package_name :: string
  pk_user_id :: u32
  pk_uid :: u32
  pk_label :: string
  pk_is_system_app :: bool

record protected_context =
  px_launcher_packages :: "string list"
  px_input_method_packages :: "string list"
  px_root_manager_packages :: "string list"
  px_hook_manager_packages :: "string list"

definition empty_context :: protected_context where
  "empty_context =
    \<lparr>px_launcher_packages = [], px_input_method_packages = [], px_root_manager_packages = [],
     px_hook_manager_packages = []\<rparr>"

definition parse_package_line :: "string \<Rightarrow> package_record option" where
  "parse_package_line raw =
     (let line = str_trim raw
      in case strip_prefix ''package:'' line of
           None \<Rightarrow> None
         | Some package \<Rightarrow>
             (case split_once '' uid:'' package of
                None \<Rightarrow> None
              | Some (package_name, uid_text) \<Rightarrow>
                  (case split_whitespace uid_text of
                     [] \<Rightarrow> None
                   | token # _ \<Rightarrow>
                       (case parse_u32 token of
                          None \<Rightarrow> None
                        | Some uid \<Rightarrow>
                            Some \<lparr>pk_package_name = package_name, pk_user_id = uid div android_per_user_range,
                                  pk_uid = uid, pk_label = package_name,
                                  pk_is_system_app =
                                    (uid mod android_per_user_range < android_first_application_uid)\<rparr>))))"

definition parse_cmd_package_list :: "string \<Rightarrow> package_record list" where
  "parse_cmd_package_list output = List.map_filter parse_package_line (str_lines output)"

definition protected_reason_for_with_context ::
  "string \<Rightarrow> bool \<Rightarrow> protected_context \<Rightarrow> protected_reason option" where
  "protected_reason_for_with_context package_name is_system_app ctx =
     (if package_name \<in> set (px_launcher_packages ctx) then Some PR_Launcher
      else if package_name \<in> set (px_input_method_packages ctx) then Some PR_InputMethod
      else if package_name \<in> set (px_root_manager_packages ctx) then Some PR_RootManager
      else if package_name \<in> set (px_hook_manager_packages ctx) then Some PR_HookManager
      else if package_name = ''io.github.jark006.freezeit'' then Some PR_Manager
      else if package_name \<in> {''com.topjohnwu.magisk'', ''io.github.huskydg.magisk''} then Some PR_RootManager
      else if package_name \<in> {''org.lsposed.manager'', ''io.github.lsposed.manager''} then Some PR_HookManager
      else if package_name \<in> {''android'', ''com.android.systemui'', ''com.android.phone''}
        then Some PR_SystemCritical
      else if is_system_app then Some PR_SystemCritical
      else None)"

definition protected_reason_for :: "string \<Rightarrow> bool \<Rightarrow> protected_reason option" where
  "protected_reason_for package_name is_system_app =
     protected_reason_for_with_context package_name is_system_app empty_context"

definition managed_app_of :: "protected_context \<Rightarrow> package_record \<Rightarrow> managed_app" where
  "managed_app_of ctx r =
    \<lparr>ma_package_name = pk_package_name r, ma_user_id = pk_user_id r, ma_uid = pk_uid r,
     ma_label = pk_label r, ma_is_system_app = pk_is_system_app r,
     ma_protected_reason = protected_reason_for_with_context (pk_package_name r) (pk_is_system_app r) ctx,
     ma_policy_id = show_u32 (pk_user_id r) @ '':'' @ pk_package_name r,
     ma_last_seen_baseline = []\<rparr>"

definition build_inventory_with_context ::
  "package_record list \<Rightarrow> protected_context \<Rightarrow> (string \<times> u32, managed_app) btree" where
  "build_inventory_with_context records ctx =
     bt_of_list (map (\<lambda>r. ((pk_package_name r, pk_user_id r), managed_app_of ctx r)) records)"

definition build_inventory :: "package_record list \<Rightarrow> (string \<times> u32, managed_app) btree" where
  "build_inventory records = build_inventory_with_context records empty_context"

definition reconcile_uid :: "managed_app \<Rightarrow> package_record \<Rightarrow> string + unit" where
  "reconcile_uid app current =
     (if ma_package_name app \<noteq> pk_package_name current \<or> ma_user_id app \<noteq> pk_user_id current
        then Inl ''package identity mismatch''
      else if ma_uid app \<noteq> pk_uid current
        then Inl ''uid changed; package inventory reconciliation required''
      else Inr ())"

lemma build_inventory_wf [simp, wf_intros]: "bt_wf (build_inventory_with_context records ctx)"
  by (simp add: build_inventory_with_context_def)

lemma build_inventory_get:
  assumes "bt_get (build_inventory_with_context records ctx) (p, u) = Some app"
  obtains r where "r \<in> set records" and "pk_package_name r = p" and "pk_user_id r = u"
    and "app = managed_app_of ctx r"
  using assms by (auto simp: build_inventory_with_context_def dest!: map_of_SomeD)

lemma parsed_line_facts:
  "parse_package_line raw = Some r \<Longrightarrow>
     pk_user_id r = pk_uid r div 100000 \<and> (pk_is_system_app r \<longleftrightarrow> pk_uid r mod 100000 < 10000)"
  unfolding parse_package_line_def Let_def android_per_user_range_def android_first_application_uid_def
  by (auto split: option.splits list.splits prod.splits)

lemma parsed_record_facts:
  assumes "r \<in> set (parse_cmd_package_list output)"
  shows "pk_user_id r = pk_uid r div 100000 \<and> (pk_is_system_app r \<longleftrightarrow> pk_uid r mod 100000 < 10000)"
  using assms parsed_line_facts by (auto simp: parse_cmd_package_list_def mem_map_filter)

lemma system_app_protected: "protected_reason_for_with_context p True ctx \<noteq> None"
  by (simp add: protected_reason_for_with_context_def)

definition named_protected :: "protected_context \<Rightarrow> string \<Rightarrow> bool" where
  "named_protected ctx p \<longleftrightarrow>
     p \<in> set (px_launcher_packages ctx) \<union> set (px_input_method_packages ctx)
       \<union> set (px_root_manager_packages ctx) \<union> set (px_hook_manager_packages ctx)
     \<or> p \<in> {''io.github.jark006.freezeit'', ''com.topjohnwu.magisk'', ''io.github.huskydg.magisk'',
            ''org.lsposed.manager'', ''io.github.lsposed.manager'', ''android'', ''com.android.systemui'',
            ''com.android.phone''}"

lemma named_protected_reason:
  "protected_reason_for_with_context p s ctx \<noteq> None \<longleftrightarrow> named_protected ctx p \<or> s"
proof -
  have *: "(if b then Some x else y) \<noteq> None \<longleftrightarrow> b \<or> y \<noteq> None" for b and x :: protected_reason and y
    by simp
  show ?thesis
    unfolding protected_reason_for_with_context_def named_protected_def by (simp only: * Un_iff insert_iff empty_iff simp_thms disj_assoc)
qed

text \<open>
  C39.  The inventory built from the package manager's answer is keyed by what it holds, an entry
  belongs to the user its uid says, and no policy controls an entry whose app id is below the first
  application uid, nor a launcher, input method, root, hook or manager package, nor the system.
\<close>

theorem inventory_protects:
  assumes "bt_get (build_inventory_with_context (parse_cmd_package_list output) ctx) (p, u) = Some app"
  shows "ma_package_name app = p \<and> ma_user_id app = u \<and> u = ma_uid app div 100000 \<and>
    (is_control_allowed_for policy app \<longrightarrow>
       ma_uid app mod 100000 \<ge> 10000 \<and> \<not> named_protected ctx p \<and> policy_control_method policy \<noteq> None)"
proof -
  from build_inventory_get [OF assms] obtain r where r: "r \<in> set (parse_cmd_package_list output)"
    "pk_package_name r = p" "pk_user_id r = u" "app = managed_app_of ctx r" by blast
  from parsed_record_facts [OF r(1)]
  have f: "pk_user_id r = pk_uid r div 100000" "pk_is_system_app r \<longleftrightarrow> pk_uid r mod 100000 < 10000"
    by simp_all
  have blocked: "\<not> is_control_allowed_for policy app" if "pk_is_system_app r \<or> named_protected ctx p"
  proof -
    from that named_protected_reason [of p "pk_is_system_app r" ctx]
    have "protected_reason_for_with_context p (pk_is_system_app r) ctx \<noteq> None" by blast
    with r show ?thesis by (simp add: is_control_allowed_for_def managed_app_of_def is_protected_def)
  qed
  have app: "ma_package_name app = p" "ma_user_id app = u" "ma_uid app = pk_uid r"
    using r by (simp_all add: managed_app_of_def)
  have "policy_control_method policy \<noteq> None" if "is_control_allowed_for policy app"
    using that by (simp add: is_control_allowed_for_def split: if_splits)
  with blocked app f r show ?thesis by (auto simp only: not_less)
qed

theorem inventory_protects_witness:
  "bt_get (build_inventory_with_context (parse_cmd_package_list ''package:a uid:10123'') empty_context)
     (''a'', 0) = Some (managed_app_of empty_context
        \<lparr>pk_package_name = ''a'', pk_user_id = 0, pk_uid = 10123, pk_label = ''a'', pk_is_system_app = False\<rparr>)
   \<and> (0 :: u32) = 10123 div 100000"
proof -
  have e: "bt_get (build_inventory_with_context (parse_cmd_package_list ''package:a uid:10123'') empty_context)
     (''a'', 0) = Some (managed_app_of empty_context
        \<lparr>pk_package_name = ''a'', pk_user_id = 0, pk_uid = 10123, pk_label = ''a'', pk_is_system_app = False\<rparr>)"
    by code_simp
  from inventory_protects [OF e] e show ?thesis by (simp add: managed_app_of_def)
qed

subsection \<open>Policy files\<close>

definition normalize_legacy_line :: "string \<Rightarrow> string option" where
  "normalize_legacy_line line =
     (let trimmed = str_trim line
      in if trimmed = [] \<or> starts_with trimmed ''#'' then None else Some trimmed)"

record legacy_policy_record =
  lp_package_or_uid :: string
  lp_mode :: i32
  lp_permissive :: bool

datatype legacy_policy_target = LT_Uid u32 | LT_PackageName string

record legacy_label_record =
  ll_package_name :: string
  ll_label :: string

record migrated_legacy_config =
  ml_policies :: "(legacy_policy_record \<times> freeze_policy) list"
  ml_labels :: "legacy_label_record list"
  ml_settings :: bytes

definition parse_legacy_policy_line :: "string \<Rightarrow> legacy_policy_record option" where
  "parse_legacy_policy_line raw =
     (case normalize_legacy_line raw of
        None \<Rightarrow> None
      | Some line \<Rightarrow>
          (case split_whitespace line of
             package_or_uid # mode_text # rest \<Rightarrow>
               (case parse_i32 mode_text of
                  None \<Rightarrow> None
                | Some mode \<Rightarrow>
                    Some \<lparr>lp_package_or_uid = package_or_uid, lp_mode = mode,
                          lp_permissive = ((case rest of [] \<Rightarrow> ''1'' | t # _ \<Rightarrow> t) \<noteq> ''0'')\<rparr>)
           | _ \<Rightarrow> None))"

definition parse_legacy_policy_target :: "string \<Rightarrow> legacy_policy_target option" where
  "parse_legacy_policy_target raw =
     (let token = str_trim raw
      in if token = [] then None
         else
           case parse_u32 token of
             Some uid \<Rightarrow> Some (LT_Uid uid)
           | None \<Rightarrow>
               (case split_once ''uid'' token of
                  None \<Rightarrow> Some (LT_PackageName token)
                | Some (legacy_uid, encoded_uid) \<Rightarrow>
                    if \<not> list_all is_digit legacy_uid then Some (LT_PackageName token)
                    else
                      case parse_u32 legacy_uid of
                        None \<Rightarrow> None
                      | Some l \<Rightarrow>
                          (case parse_u32 encoded_uid of
                             None \<Rightarrow> None
                           | Some e \<Rightarrow> if l = e then Some (LT_Uid l) else None)))"

definition legacy_target :: "legacy_policy_record \<Rightarrow> legacy_policy_target option" where
  "legacy_target r = parse_legacy_policy_target (lp_package_or_uid r)"

definition parse_legacy_label_line :: "string \<Rightarrow> legacy_label_record option" where
  "parse_legacy_label_line raw =
     (case normalize_legacy_line raw of
        None \<Rightarrow> None
      | Some line \<Rightarrow>
          (case split_once ''####'' line of
             None \<Rightarrow> None
           | Some (name, lab) \<Rightarrow>
               (let package_name = str_trim name; label = str_trim lab
                in if package_name = [] \<or> label = [] then None
                   else Some \<lparr>ll_package_name = package_name, ll_label = label\<rparr>)))"

definition migrate_legacy_policy :: "legacy_policy_record \<Rightarrow> freeze_policy" where
  "migrate_legacy_policy r = from_legacy_mode (lp_mode r) (lp_permissive r)"

definition migrate_legacy_files :: "string \<Rightarrow> string \<Rightarrow> bytes \<Rightarrow> migrated_legacy_config" where
  "migrate_legacy_files app_config app_label settings =
    \<lparr>ml_policies =
       map (\<lambda>r. (r, migrate_legacy_policy r))
         (filter (\<lambda>r. legacy_target r \<noteq> None)
           (List.map_filter parse_legacy_policy_line (str_lines app_config))),
     ml_labels = List.map_filter parse_legacy_label_line (str_lines app_label),
     ml_settings = settings\<rparr>"

subsection \<open>Locating and reading the files\<close>

definition default_module_dir :: string where "default_module_dir = ''/data/adb/modules/freezeit''"
definition max_settings_db_bytes :: usize where "max_settings_db_bytes = 1024 * 1024"

fun module_dir_argument :: "string list \<Rightarrow> string option res" where
  "module_dir_argument [] = Inr None"
| "module_dir_argument (argument # args) =
     (if argument = ''--module-dir'' then
        (case args of
           [] \<Rightarrow> Inl (Config_Error ''--module-dir requires a non-empty path'')
         | v # _ \<Rightarrow>
             (let trimmed = str_trim v
              in if trimmed = [] then Inl (Config_Error ''--module-dir requires a non-empty path'')
                 else Inr (Some trimmed)))
      else module_dir_argument args)"

definition resolve_module_dir :: "string list \<Rightarrow> string option \<Rightarrow> string res" where
  "resolve_module_dir args env_module_dir =
     (case module_dir_argument (drop 1 args) of
        Inl e \<Rightarrow> Inl e
      | Inr (Some dir) \<Rightarrow> Inr dir
      | Inr None \<Rightarrow>
          (case map_option str_trim env_module_dir of
             Some v \<Rightarrow> Inr (if v = [] then default_module_dir else v)
           | None \<Rightarrow> Inr default_module_dir))"

record daemon_paths =
  dp_module_dir :: string
  dp_app_config :: string
  dp_app_label :: string
  dp_settings_db :: string
  dp_rom_baseline :: string
  dp_verified_targets :: string

definition paths_from_module_dir :: "string \<Rightarrow> daemon_paths" where
  "paths_from_module_dir module_dir =
    \<lparr>dp_module_dir = module_dir, dp_app_config = module_dir @ ''/appcfg.txt'',
     dp_app_label = module_dir @ ''/applabel.txt'', dp_settings_db = module_dir @ ''/settings.db'',
     dp_rom_baseline = module_dir @ ''/rom_baseline.prop'',
     dp_verified_targets = module_dir @ ''/verified_targets.txt''\<rparr>"

text \<open>What the operating system answers about one path: its metadata, its text, and its size and
  bytes once opened.\<close>

record file_view =
  fv_metadata :: "io_error + unit"
  fv_text :: "io_error + string"
  fv_size :: "io_error + u64"
  fv_bytes :: "io_error + bytes"

definition optional_metadata :: "file_view \<Rightarrow> unit option res" where
  "optional_metadata f =
     (case fv_metadata f of
        Inr _ \<Rightarrow> Inr (Some ())
      | Inl e \<Rightarrow> if io_kind e = NotFound then Inr None else Inl (Io_Error e))"

definition read_optional_text :: "file_view \<Rightarrow> string option res" where
  "read_optional_text f =
     (case optional_metadata f of
        Inl e \<Rightarrow> Inl e
      | Inr None \<Rightarrow> Inr None
      | Inr (Some _) \<Rightarrow> (case fv_text f of Inl e \<Rightarrow> Inl (Io_Error e) | Inr text \<Rightarrow> Inr (Some text)))"

definition settings_too_large :: daemon_error where
  "settings_too_large =
     Config_Error (''settings database exceeds '' @ show_nat max_settings_db_bytes @ '' byte limit'')"

definition read_optional_bytes :: "file_view \<Rightarrow> bytes option res" where
  "read_optional_bytes f =
     (case optional_metadata f of
        Inl e \<Rightarrow> Inl e
      | Inr None \<Rightarrow> Inr None
      | Inr (Some _) \<Rightarrow>
          (case fv_size f of
             Inl e \<Rightarrow> Inl (Io_Error e)
           | Inr n \<Rightarrow>
               if n > max_settings_db_bytes then Inl settings_too_large
               else
                 case fv_bytes f of
                   Inl e \<Rightarrow> Inl (Io_Error e)
                 | Inr content \<Rightarrow>
                     (let bs = take (max_settings_db_bytes + 1) content
                      in if length bs > max_settings_db_bytes then Inl settings_too_large
                         else Inr (Some bs))))"

record loaded_policy_files =
  lf_app_config :: "string option"
  lf_app_label :: "string option"
  lf_settings :: "bytes option"

definition policy_files_available :: "loaded_policy_files \<Rightarrow> bool" where
  "policy_files_available f \<longleftrightarrow> lf_app_config f \<noteq> None \<or> lf_app_label f \<noteq> None \<or> lf_settings f \<noteq> None"

definition load_policy_files :: "(string \<Rightarrow> file_view) \<Rightarrow> daemon_paths \<Rightarrow> loaded_policy_files res" where
  "load_policy_files fs paths =
     (case read_optional_text (fs (dp_app_config paths)) of
        Inl e \<Rightarrow> Inl e
      | Inr app_config \<Rightarrow>
          (case read_optional_text (fs (dp_app_label paths)) of
             Inl e \<Rightarrow> Inl e
           | Inr app_label \<Rightarrow>
               (case read_optional_bytes (fs (dp_settings_db paths)) of
                  Inl e \<Rightarrow> Inl e
                | Inr settings \<Rightarrow>
                    Inr \<lparr>lf_app_config = app_config, lf_app_label = app_label, lf_settings = settings\<rparr>)))"

definition ok_flatten :: "'a option res \<Rightarrow> 'a option" where
  "ok_flatten r = (case r of Inl _ \<Rightarrow> None | Inr v \<Rightarrow> v)"

definition load_policy_files_recovering :: "(string \<Rightarrow> file_view) \<Rightarrow> daemon_paths \<Rightarrow> loaded_policy_files" where
  "load_policy_files_recovering fs paths =
    \<lparr>lf_app_config = ok_flatten (read_optional_text (fs (dp_app_config paths))),
     lf_app_label = ok_flatten (read_optional_text (fs (dp_app_label paths))),
     lf_settings = ok_flatten (read_optional_bytes (fs (dp_settings_db paths)))\<rparr>"

definition serialize_manager_app_config :: "string list \<Rightarrow> bytes" where
  "serialize_manager_app_config lines = text_bytes (str_join [newline] lines)"

definition parse_manager_app_config :: "bytes \<Rightarrow> string list res" where
  "parse_manager_app_config payload =
     (case utf8_error (bytes_text payload) of
        Some e \<Rightarrow> Inl (Config_Error (''app config is not utf-8: '' @ show_utf8_error e))
      | None \<Rightarrow> Inr (List.map_filter normalize_legacy_line (str_lines (bytes_text payload))))"

subsection \<open>What reading and parsing promise\<close>

lemma settings_bounded: "read_optional_bytes f = Inr (Some bs) \<Longrightarrow> length bs \<le> max_settings_db_bytes"
  by (auto simp: read_optional_bytes_def Let_def split: sum.splits option.splits if_splits)

lemma recovering_agrees:
  "load_policy_files fs paths = Inr f \<Longrightarrow> load_policy_files_recovering fs paths = f"
  by (auto simp: load_policy_files_def load_policy_files_recovering_def ok_flatten_def split: sum.splits)

text \<open>
  C37.  The recovering loader of the daemon never fails: each of the three files is read
  independently, a file that cannot be read counts as absent, and when nothing fails it returns what
  the strict loader returns.  A settings file it returns is never longer than the limit.
\<close>

theorem recovering_loader_exact:
  "load_policy_files_recovering fs paths =
     (case load_policy_files fs paths of
        Inr f \<Rightarrow> f
      | Inl _ \<Rightarrow>
          \<lparr>lf_app_config = ok_flatten (read_optional_text (fs (dp_app_config paths))),
           lf_app_label = ok_flatten (read_optional_text (fs (dp_app_label paths))),
           lf_settings = ok_flatten (read_optional_bytes (fs (dp_settings_db paths)))\<rparr>) \<and>
   (case lf_settings (load_policy_files_recovering fs paths) of
      Some bs \<Rightarrow> length bs \<le> max_settings_db_bytes | None \<Rightarrow> True)"
  using recovering_agrees [of fs paths] settings_bounded [of "fs (dp_settings_db paths)"]
  by (auto simp: load_policy_files_recovering_def ok_flatten_def split: sum.splits option.splits)

text \<open>A policy line as the manager writes it.\<close>

definition policy_line :: "legacy_policy_record \<Rightarrow> string" where
  "policy_line r =
     str_join '' '' [lp_package_or_uid r, show_int (lp_mode r), if lp_permissive r then ''1'' else ''0'']"

definition policy_token :: "string \<Rightarrow> bool" where
  "policy_token t \<longleftrightarrow> t \<noteq> [] \<and> plain_text t \<and> hd t \<noteq> CHR ''#''"

lemma plain_digit_flags: "plain_text ''0''" "plain_text ''1''" "solid_byte (CHR ''0'')" "solid_byte (CHR ''1'')"
  by (simp_all add: plain_text_def plain_byte_def solid_byte_def ascii_ws_def wide_ws_def)

lemma policy_line_trim:
  assumes "policy_token (lp_package_or_uid r)"
  shows "str_trim (policy_line r) = policy_line r" and "\<not> starts_with (policy_line r) ''#''"
    and "policy_line r \<noteq> []"
proof -
  obtain c t where c: "lp_package_or_uid r = c # t" "plain_byte c" "c \<noteq> CHR ''#''"
    using assms by (cases "lp_package_or_uid r") (auto simp: policy_token_def)
  have line: "policy_line r = c # (t @ '' '' @ show_int (lp_mode r) @ '' '') @ (if lp_permissive r then ''1'' else ''0'')"
    by (simp add: policy_line_def c)
  show "str_trim (policy_line r) = policy_line r"
    unfolding line using c plain_digit_flags by (cases "lp_permissive r") (simp_all only: if_True if_False str_trim_solid)
  show "\<not> starts_with (policy_line r) ''#''" "policy_line r \<noteq> []"
    unfolding line using c(3) by (auto simp: starts_with_def)
qed

lemma policy_line_parses:
  assumes "policy_token (lp_package_or_uid r)" and "is_i32 (lp_mode r)"
  shows "parse_legacy_policy_line (policy_line r) = Some r"
proof -
  have "normalize_legacy_line (policy_line r) = Some (policy_line r)"
    using policy_line_trim [OF assms(1)] by (simp add: normalize_legacy_line_def Let_def)
  moreover have "split_whitespace (policy_line r) =
      [lp_package_or_uid r, show_int (lp_mode r), if lp_permissive r then ''1'' else ''0'']"
    unfolding policy_line_def
    by (rule split_whitespace_join) (use assms plain_digit_flags in \<open>auto simp: policy_token_def\<close>)
  ultimately show ?thesis
    using assms(2) by (cases r) (simp add: parse_legacy_policy_line_def parse_i32_show)
qed

text \<open>
  C38.  The policy file round trips: writing policy records as lines and migrating the file back gives
  every record whose target parses, in order, each with the policy of its mode.
\<close>

theorem policy_file_roundtrip:
  assumes "list_all (\<lambda>r. policy_token (lp_package_or_uid r) \<and> is_i32 (lp_mode r)) rs"
  shows "ml_policies (migrate_legacy_files (str_join [newline] (map policy_line rs)) labels settings) =
    map (\<lambda>r. (r, from_legacy_mode (lp_mode r) (lp_permissive r))) (filter (\<lambda>r. legacy_target r \<noteq> None) rs)"
proof -
  have ok: "line_ok (policy_line r) \<and> policy_line r \<noteq> []" if "r \<in> set rs" for r
  proof -
    from that assms have "policy_token (lp_package_or_uid r)" by (auto simp: list_all_iff)
    then show ?thesis
      unfolding policy_line_def using policy_line_trim(3) [of r] plain_digit_flags
      by (intro conjI line_ok_join_space) (auto simp: policy_token_def policy_line_def)
  qed
  then have "str_lines (str_join [newline] (map policy_line rs)) = map policy_line rs"
    by (intro str_lines_join_open) (auto simp: list_all_iff)
  moreover have "List.map_filter parse_legacy_policy_line (map policy_line rs) = rs"
    using assms by (induction rs) (auto simp: List.map_filter_def policy_line_parses)
  ultimately show ?thesis by (simp add: migrate_legacy_files_def migrate_legacy_policy_def)
qed

theorem policy_file_roundtrip_witness:
  "ml_policies (migrate_legacy_files (str_join [newline] (map policy_line
      [\<lparr>lp_package_or_uid = ''a.b'', lp_mode = 30, lp_permissive = False\<rparr>])) [] []) =
   map (\<lambda>r. (r, from_legacy_mode (lp_mode r) (lp_permissive r)))
     (filter (\<lambda>r. legacy_target r \<noteq> None)
       [\<lparr>lp_package_or_uid = ''a.b'', lp_mode = 30, lp_permissive = False\<rparr>])"
  by (rule policy_file_roundtrip)
    (simp add: policy_token_def plain_text_def plain_byte_def ascii_ws_def wide_ws_def is_i32_def)

lemma show_nat_no_letter: "\<not> is_digit c \<Longrightarrow> c \<notin> set (show_nat n)"
  using show_nat_digits [of n] by (auto simp: list_all_iff)

lemma split_once_digits:
  assumes "list_all is_digit s"
  shows "split_once ''uid'' (s @ ''uid'' @ t) = Some (s, t)"
  using assms by (induction s) (auto simp: is_digit_def)

lemma parse_u32_letter: "\<not> is_digit c \<Longrightarrow> c \<noteq> CHR ''+'' \<Longrightarrow> c \<in> set s \<Longrightarrow> parse_u32 s = None"
  by (cases s) (auto simp: parse_u32_def parse_unsigned_def parse_digits_def strip_plus_def list_all_iff)

text \<open>
  A uid names itself in both forms the legacy files use, \<^verbatim>\<open>10123\<close> and
  \<^verbatim>\<open>10123uid10123\<close>, and a pair that disagrees is refused rather than guessed.
\<close>

lemma legacy_uid_target:
  "parse_legacy_policy_target (show_u32 a) = Some (LT_Uid a) \<and>
   parse_legacy_policy_target (show_u32 a @ ''uid'' @ show_u32 b) = (if a = b then Some (LT_Uid a) else None)"
proof
  show "parse_legacy_policy_target (show_u32 a) = Some (LT_Uid a)"
    using parse_u32_show [of a] by (simp add: parse_legacy_policy_target_def Let_def show_u32_def)
  have t: "str_trim (show_u32 a @ ''uid'' @ show_u32 b) = show_u32 a @ ''uid'' @ show_u32 b"
    using show_nat_digits [of "unat a"] show_nat_digits [of "unat b"]
    by (intro str_trim_id) (auto simp: show_u32_def list_all_iff is_digit_plain is_digit_solid)
  have "parse_u32 (show_u32 a @ ''uid'' @ show_u32 b) = None"
    by (rule parse_u32_letter [of "CHR ''u''"]) (auto simp: is_digit_def)
  moreover have "split_once ''uid'' (show_u32 a @ ''uid'' @ show_u32 b) = Some (show_u32 a, show_u32 b)"
    unfolding show_u32_def by (rule split_once_digits [OF show_nat_digits])
  ultimately show "parse_legacy_policy_target (show_u32 a @ ''uid'' @ show_u32 b) =
      (if a = b then Some (LT_Uid a) else None)"
    unfolding parse_legacy_policy_target_def t Let_def
    using show_nat_digits [of "unat a"] parse_u32_show [of a] parse_u32_show [of b]
    by (simp add: show_u32_def)
qed

end
