(* ===== verification/Procfs.thy ===== *)
theory Procfs
  imports Domain
begin

text \<open>
  \<^verbatim>\<open>sys/procfs.rs\<close>, first part: reading \<^verbatim>\<open>/proc\<close>.  A snapshot of the
  file system is an argument: the directory listing, the text of each file or the error of reading
  it, which cgroup files exist, and the Binder debug files.  A non-ASCII state character is
  represented by its first byte; the code compares it with \<^verbatim>\<open>T\<close> only.
\<close>

record proc_fs =
  pf_root_exists :: bool
  pf_entries :: "io_error + (io_error + string option) list"
  pf_exists :: "string \<Rightarrow> bool"
  pf_read :: "string \<Rightarrow> string \<Rightarrow> io_error + string"
  pf_cgroup_exists :: "string \<Rightarrow> bool"
  pf_binder :: "string \<Rightarrow> i32 \<Rightarrow> string option"

definition io_res :: "io_error + 'a \<Rightarrow> 'a res" where
  "io_res r = (case r of Inl e \<Rightarrow> Inl (Io_Error e) | Inr v \<Rightarrow> Inr v)"

subsection \<open>Parsing\<close>

definition nul :: char where "nul = CHR 0x00"

definition status_field :: "(string \<Rightarrow> 'a option) \<Rightarrow> string \<Rightarrow> string \<Rightarrow> 'a option" where
  "status_field parse field line =
     (case strip_prefix field line of
        None \<Rightarrow> None
      | Some rest \<Rightarrow> (case split_whitespace rest of [] \<Rightarrow> None | value # _ \<Rightarrow> parse value))"

definition first_some :: "('a \<Rightarrow> 'b option) \<Rightarrow> 'a list \<Rightarrow> 'b option" where
  "first_some f xs = (case List.map_filter f xs of [] \<Rightarrow> None | y # _ \<Rightarrow> Some y)"

definition read_uid_from_status :: "string \<Rightarrow> u32 res" where
  "read_uid_from_status status_text =
     (case first_some (status_field parse_u32 ''Uid:'') (str_lines status_text) of
        Some uid \<Rightarrow> Inr uid
      | None \<Rightarrow> Inl (System_Error ''proc status did not contain a readable Uid line''))"

definition read_status_u64 :: "string \<Rightarrow> string \<Rightarrow> u64 option" where
  "read_status_u64 status_text field = first_some (status_field parse_u64 field) (str_lines status_text)"

text \<open>The text after the last closing parenthesis, which ends the command name.\<close>

definition after_command :: "string \<Rightarrow> string option" where
  "after_command stat_text =
     (if CHR '')'' \<in> set stat_text
      then Some (rev (takeWhile (\<lambda>c. c \<noteq> CHR '')'') (rev stat_text)))
      else None)"

definition no_command_end :: daemon_error where
  "no_command_end = System_Error ''proc stat did not contain a command terminator''"

definition parse_process_start_time :: "string \<Rightarrow> u64 res" where
  "parse_process_start_time stat_text =
     (case after_command stat_text of
        None \<Rightarrow> Inl no_command_end
      | Some rest \<Rightarrow>
          (let fields = split_whitespace rest
           in case (if 19 < length fields then parse_u64 (fields ! 19) else None) of
                Some t \<Rightarrow> Inr t
              | None \<Rightarrow> Inl (System_Error ''proc stat did not contain a readable start time'')))"

definition parse_proc_state_char :: "string \<Rightarrow> char res" where
  "parse_proc_state_char stat_text =
     (case after_command stat_text of
        None \<Rightarrow> Inl no_command_end
      | Some rest \<Rightarrow>
          (case split_whitespace rest of
             (c # _) # _ \<Rightarrow> Inr c
           | _ \<Rightarrow> Inl (System_Error ''proc stat did not contain a readable state field'')))"

definition parse_process_pid :: "string \<Rightarrow> i32 option" where
  "parse_process_pid stat_text =
     (case split_whitespace stat_text of [] \<Rightarrow> None | t # _ \<Rightarrow> parse_i32 t)"

text \<open>The sum wraps in a release build (and panics in a debug build) past \<^verbatim>\<open>u64\<close>.\<close>

definition process_context_switch_evidence :: "string \<Rightarrow> string option" where
  "process_context_switch_evidence status_text =
     (case read_status_u64 status_text ''voluntary_ctxt_switches:'' of
        None \<Rightarrow> None
      | Some voluntary \<Rightarrow>
          (case read_status_u64 status_text ''nonvoluntary_ctxt_switches:'' of
             None \<Rightarrow> None
           | Some nonvoluntary \<Rightarrow>
               Some (''context_switches voluntary='' @ show_nat voluntary @ '' nonvoluntary=''
                 @ show_nat nonvoluntary @ '' total='' @ show_nat ((voluntary + nonvoluntary) mod 2 ^ 64))))"

definition classify_binder_transaction_snapshot :: "string \<Rightarrow> string" where
  "classify_binder_transaction_snapshot snapshot =
     (let normalized = to_ascii_lowercase snapshot
      in if str_contains normalized ''transaction stack'' \<or> str_contains normalized ''transaction_stack''
            \<or> str_contains normalized ''sync_txn''
         then ''binder_queue active_sync_transaction''
         else if str_contains normalized ''proc '' \<or> str_contains normalized ''thread ''
         then ''binder_queue idle''
         else ''binder_queue unknown'')"

subsection \<open>Reading one process\<close>

definition read_process_uid :: "proc_fs \<Rightarrow> i32 \<Rightarrow> u32 res" where
  "read_process_uid fs pid =
     (case io_res (pf_read fs (show_int pid) ''status'') of
        Inl e \<Rightarrow> Inl e | Inr status \<Rightarrow> read_uid_from_status status)"

definition before_nul :: "string \<Rightarrow> string" where
  "before_nul s = takeWhile (\<lambda>c. c \<noteq> nul) s"

definition read_process_cmdline :: "proc_fs \<Rightarrow> i32 \<Rightarrow> string res" where
  "read_process_cmdline fs pid =
     (case io_res (pf_read fs (show_int pid) ''cmdline'') of
        Inl e \<Rightarrow> Inl e | Inr text \<Rightarrow> Inr (before_nul text))"

definition read_process_start_time :: "proc_fs \<Rightarrow> i32 \<Rightarrow> u64 res" where
  "read_process_start_time fs pid =
     (case io_res (pf_read fs (show_int pid) ''stat'') of
        Inl e \<Rightarrow> Inl e | Inr stat \<Rightarrow> parse_process_start_time stat)"

definition read_proc_state_char :: "proc_fs \<Rightarrow> i32 \<Rightarrow> char res" where
  "read_proc_state_char fs pid =
     (case io_res (pf_read fs (show_int pid) ''stat'') of
        Inl e \<Rightarrow> Inl e | Inr stat \<Rightarrow> parse_proc_state_char stat)"

definition is_disappeared_process_error :: "daemon_error \<Rightarrow> bool" where
  "is_disappeared_process_error e = (case e of Io_Error io \<Rightarrow> io_kind io = NotFound | _ \<Rightarrow> False)"

definition gone_is_false :: "daemon_error \<Rightarrow> bool res" where
  "gone_is_false e = (if is_disappeared_process_error e then Inr False else Inl e)"

definition recheck_process_identity :: "proc_fs \<Rightarrow> runtime_process \<Rightarrow> bool res" where
  "recheck_process_identity fs p =
     (if \<not> pf_exists fs (show_int (rp_pid p)) then Inr False
      else
        case read_process_uid fs (rp_pid p) of
          Inl e \<Rightarrow> gone_is_false e
        | Inr actual_uid \<Rightarrow>
            if actual_uid \<noteq> rp_uid p then Inr False
            else
              case read_process_cmdline fs (rp_pid p) of
                Inl e \<Rightarrow> gone_is_false e
              | Inr cmdline \<Rightarrow>
                  if cmdline \<noteq> rp_process_name p \<or>
                     \<not> (cmdline = rp_package_name p \<or> starts_with cmdline (rp_package_name p @ '':''))
                  then Inr False
                  else
                    case rp_start_time_ticks p of
                      None \<Rightarrow> Inr False
                    | Some expected \<Rightarrow>
                        (case read_process_start_time fs (rp_pid p) of
                           Inr actual \<Rightarrow> Inr (actual = expected)
                         | Inl e \<Rightarrow> gone_is_false e))"

subsection \<open>Discovery\<close>

definition binder_debug_proc_root :: string where "binder_debug_proc_root = ''/sys/kernel/debug/binder/proc''"
definition binderfs_proc_root :: string where "binderfs_proc_root = ''/dev/binderfs/proc''"

definition binder_transaction_evidence :: "proc_fs \<Rightarrow> i32 \<Rightarrow> string option" where
  "binder_transaction_evidence fs pid =
     map_option classify_binder_transaction_snapshot
       (first_some (\<lambda>root. pf_binder fs root pid) [binder_debug_proc_root, binderfs_proc_root])"

definition binder_control_evidence :: "proc_fs \<Rightarrow> i32 \<Rightarrow> string \<Rightarrow> string" where
  "binder_control_evidence fs pid status_text =
     (case binder_transaction_evidence fs pid of
        Some e \<Rightarrow> e
      | None \<Rightarrow>
          ''binder_queue unknown '' @
            (case process_context_switch_evidence status_text of
               Some c \<Rightarrow> c | None \<Rightarrow> ''context_switches unavailable''))"

definition runtime_cgroup_roots :: "string list" where
  "runtime_cgroup_roots = [''/sys/fs/cgroup/apps'', ''/sys/fs/cgroup/system'', ''/sys/fs/cgroup'']"

definition cgroup_freeze_path :: "proc_fs \<Rightarrow> string list \<Rightarrow> u32 \<Rightarrow> i32 \<Rightarrow> string option" where
  "cgroup_freeze_path fs roots uid pid =
     find (pf_cgroup_exists fs)
       (map (\<lambda>root. root @ ''/uid_'' @ show_u32 uid @ ''/pid_'' @ show_int pid @ ''/cgroup.freeze'') roots)"

text \<open>The entries of \<^verbatim>\<open>/proc\<close> in directory order; an entry that cannot be read fails
  the whole scan.\<close>

fun entry_names :: "(io_error + string option) list \<Rightarrow> string option list res" where
  "entry_names [] = Inr []"
| "entry_names (Inl e # es) = Inl (Io_Error e)"
| "entry_names (Inr n # es) = (case entry_names es of Inl e \<Rightarrow> Inl e | Inr ns \<Rightarrow> Inr (n # ns))"

definition scan_names :: "proc_fs \<Rightarrow> string option list res" where
  "scan_names fs = (case pf_entries fs of Inl e \<Rightarrow> Inl (Io_Error e) | Inr es \<Rightarrow> entry_names es)"

text \<open>A numeric directory with a readable uid: its name, pid, uid and status text.\<close>

definition scanned_process :: "proc_fs \<Rightarrow> string option \<Rightarrow> (string \<times> i32 \<times> u32 \<times> string) option" where
  "scanned_process fs entry =
     (case entry of
        None \<Rightarrow> None
      | Some name \<Rightarrow>
          (case parse_i32 name of
             None \<Rightarrow> None
           | Some pid \<Rightarrow>
               (case pf_read fs name ''status'' of
                  Inl _ \<Rightarrow> None
                | Inr status_text \<Rightarrow>
                    (case read_uid_from_status status_text of
                       Inl _ \<Rightarrow> None
                     | Inr uid \<Rightarrow> Some (name, pid, uid, status_text)))))"

definition entry_process_name :: "proc_fs \<Rightarrow> string \<Rightarrow> string" where
  "entry_process_name fs name = before_nul (case pf_read fs name ''cmdline'' of Inl _ \<Rightarrow> [] | Inr t \<Rightarrow> t)"

definition ok_option :: "'a res \<Rightarrow> 'a option" where
  "ok_option r = (case r of Inl _ \<Rightarrow> None | Inr v \<Rightarrow> Some v)"

definition package_process :: "proc_fs \<Rightarrow> string \<Rightarrow> u32 \<Rightarrow> string option \<Rightarrow> runtime_process option" where
  "package_process fs package_name uid entry =
     (case scanned_process fs entry of
        None \<Rightarrow> None
      | Some (name, pid, process_uid, status_text) \<Rightarrow>
          let process_name = entry_process_name fs name
          in if process_uid = uid \<and>
                (process_name = package_name \<or> starts_with process_name (package_name @ '':''))
             then Some \<lparr>rp_pid = pid, rp_uid = uid, rp_package_name = package_name,
                        rp_process_name = process_name, rp_proc_state = PS_Unknown,
                        rp_control_state = CT_Unknown, rp_cgroup_freeze_path = None,
                        rp_binder_state = Some (binder_control_evidence fs pid status_text),
                        rp_start_time_ticks = ok_option (read_process_start_time fs pid),
                        rp_last_seen_at_ms = 0\<rparr>
             else None)"

definition discover_package_processes :: "proc_fs \<Rightarrow> string \<Rightarrow> u32 \<Rightarrow> runtime_process list res" where
  "discover_package_processes fs package_name uid =
     (if \<not> pf_root_exists fs then Inr []
      else case scan_names fs of
             Inl e \<Rightarrow> Inl e
           | Inr names \<Rightarrow> Inr (List.map_filter (package_process fs package_name uid) names))"

definition uid_process ::
  "proc_fs \<Rightarrow> string list \<Rightarrow> (u32 \<Rightarrow> bool) \<Rightarrow> string option \<Rightarrow> runtime_process option" where
  "uid_process fs roots wanted entry =
     (case scanned_process fs entry of
        None \<Rightarrow> None
      | Some (name, pid, uid, status_text) \<Rightarrow>
          let process_name = entry_process_name fs name
          in if \<not> wanted uid \<or> process_name = [] then None
             else Some \<lparr>rp_pid = pid, rp_uid = uid,
                        rp_package_name = takeWhile (\<lambda>c. c \<noteq> CHR '':'') process_name,
                        rp_process_name = process_name, rp_proc_state = PS_Cached,
                        rp_control_state = CT_Running,
                        rp_cgroup_freeze_path = cgroup_freeze_path fs roots uid pid,
                        rp_binder_state = Some (binder_control_evidence fs pid status_text),
                        rp_start_time_ticks = ok_option (read_process_start_time fs pid),
                        rp_last_seen_at_ms = 0\<rparr>)"

definition discover_uid_processes_with_cgroup_roots ::
  "proc_fs \<Rightarrow> string list \<Rightarrow> u32 \<Rightarrow> runtime_process list res" where
  "discover_uid_processes_with_cgroup_roots fs roots uid =
     (if \<not> pf_root_exists fs then Inr []
      else case scan_names fs of
             Inl e \<Rightarrow> Inl e
           | Inr names \<Rightarrow> Inr (List.map_filter (uid_process fs roots (\<lambda>u. u = uid)) names))"

definition discover_uid_processes :: "proc_fs \<Rightarrow> u32 \<Rightarrow> runtime_process list res" where
  "discover_uid_processes fs uid = discover_uid_processes_with_cgroup_roots fs runtime_cgroup_roots uid"

definition push_by_uid ::
  "runtime_process \<Rightarrow> (u32, runtime_process list) btree \<Rightarrow> (u32, runtime_process list) btree" where
  "push_by_uid p m =
     bt_insert (rp_uid p) ((case bt_get m (rp_uid p) of Some ps \<Rightarrow> ps | None \<Rightarrow> []) @ [p]) m"

definition discover_managed_uid_processes_with_cgroup_roots ::
  "proc_fs \<Rightarrow> string list \<Rightarrow> u32 bset \<Rightarrow> (u32, runtime_process list) btree res" where
  "discover_managed_uid_processes_with_cgroup_roots fs roots managed_uids =
     (if managed_uids = [] \<or> \<not> pf_root_exists fs then Inr []
      else case scan_names fs of
             Inl e \<Rightarrow> Inl e
           | Inr names \<Rightarrow>
               Inr (fold push_by_uid (List.map_filter (uid_process fs roots (\<lambda>u. u \<in> set managed_uids)) names) []))"

definition discover_managed_uid_processes ::
  "proc_fs \<Rightarrow> u32 bset \<Rightarrow> (u32, runtime_process list) btree res" where
  "discover_managed_uid_processes fs managed_uids =
     discover_managed_uid_processes_with_cgroup_roots fs runtime_cgroup_roots managed_uids"

subsection \<open>What discovery and rechecking promise\<close>

lemma push_by_uid_get:
  "bt_get (fold push_by_uid ps m) u =
     (if filter (\<lambda>p. rp_uid p = u) ps = [] then bt_get m u
      else Some ((case bt_get m u of Some qs \<Rightarrow> qs | None \<Rightarrow> []) @ filter (\<lambda>p. rp_uid p = u) ps))"
  by (induction ps arbitrary: m) (auto simp: push_by_uid_def split: option.splits)

lemma push_by_uid_wf: "bt_wf m \<Longrightarrow> bt_wf (fold push_by_uid ps m)"
  by (induction ps arbitrary: m) (auto simp: push_by_uid_def)

lemma uid_process_uid: "uid_process fs roots wanted e = Some p \<Longrightarrow> wanted (rp_uid p)"
  by (auto simp: uid_process_def Let_def split: option.splits if_splits prod.splits)

lemma uid_process_narrow:
  "uid_process fs roots (\<lambda>u. u = uid) e =
     (case uid_process fs roots wanted e of
        Some p \<Rightarrow> if rp_uid p = uid then Some p else None
      | None \<Rightarrow> None)" if "wanted uid"
  using that by (auto simp: uid_process_def Let_def split: option.splits prod.splits)

lemma map_filter_uid_process:
  assumes "wanted uid"
  shows "List.map_filter (uid_process fs roots (\<lambda>u. u = uid)) names =
    filter (\<lambda>p. rp_uid p = uid) (List.map_filter (uid_process fs roots wanted) names)"
  by (induction names)
    (auto simp: List.map_filter_def uid_process_narrow [where wanted = wanted, OF assms] split: option.splits)

text \<open>
  C32.  The single scan of \<^verbatim>\<open>/proc\<close> for all managed uids finds for each uid exactly what
  a scan for that uid alone finds, in the same order, and nothing for a uid that is not managed.
\<close>

theorem managed_scan_equals_uid_scans:
  assumes "discover_managed_uid_processes_with_cgroup_roots fs roots uids = Inr m"
  shows "bt_wf m \<and> bt_get m u =
      (if u \<notin> set uids then None
       else case discover_uid_processes_with_cgroup_roots fs roots u of
              Inr [] \<Rightarrow> None | Inr ps \<Rightarrow> Some ps | Inl _ \<Rightarrow> None)"
proof -
  consider (none) "uids = [] \<or> \<not> pf_root_exists fs" "m = []"
    | (some) names where "pf_root_exists fs" "scan_names fs = Inr names" "uids \<noteq> []"
        "m = fold push_by_uid (List.map_filter (uid_process fs roots (\<lambda>u. u \<in> set uids)) names) []"
    using assms
    by (auto simp: discover_managed_uid_processes_with_cgroup_roots_def split: if_splits sum.splits)
  then show ?thesis
  proof cases
    case none
    then show ?thesis by (auto simp: discover_uid_processes_with_cgroup_roots_def)
  next
    case some
    let ?ps = "List.map_filter (uid_process fs roots (\<lambda>u. u \<in> set uids)) names"
    have "u \<notin> set uids \<Longrightarrow> filter (\<lambda>p. rp_uid p = u) ?ps = []"
      using uid_process_uid by (fastforce simp: filter_empty_conv mem_map_filter)
    with some show ?thesis
      by (auto simp: push_by_uid_get push_by_uid_wf discover_uid_processes_with_cgroup_roots_def
          map_filter_uid_process [where wanted = "\<lambda>u. u \<in> set uids"] split: list.splits)
  qed
qed

text \<open>A snapshot with one process, for the examples.\<close>

definition missing_file :: io_error where
  "missing_file = \<lparr>io_kind = NotFound, io_message = ''not found''\<rparr>"

definition sample_proc_fs :: proc_fs where
  "sample_proc_fs =
    \<lparr>pf_root_exists = True, pf_entries = Inr [Inr (Some ''7''), Inr (Some ''self'')],
     pf_exists = (\<lambda>name. name = ''7''),
     pf_read = (\<lambda>name file.
       if name = ''7'' then
         (if file = ''status'' then Inr (''Uid:'' @ [tab] @ ''10123'')
          else if file = ''cmdline'' then Inr (''a.b'' @ [nul])
          else if file = ''stat'' then Inr ''7 (x) T 1 2 3 4 5 6 7 8 9 10 11 12 13 14 15 16 17 18 99''
          else Inl missing_file)
       else Inl missing_file),
     pf_cgroup_exists = (\<lambda>_. False), pf_binder = (\<lambda>_ _. None)\<rparr>"

definition sample_process :: runtime_process where
  "sample_process =
    \<lparr>rp_pid = 7, rp_uid = 10123, rp_package_name = ''a.b'', rp_process_name = ''a.b'',
     rp_proc_state = PS_Cached, rp_control_state = CT_Running, rp_cgroup_freeze_path = None,
     rp_binder_state = Some ''binder_queue unknown context_switches unavailable'',
     rp_start_time_ticks = Some 99, rp_last_seen_at_ms = 0\<rparr>"

theorem managed_scan_equals_uid_scans_witness:
  "\<exists>m. discover_managed_uid_processes_with_cgroup_roots sample_proc_fs [] [10123] = Inr m \<and>
       bt_get m 10123 = Some [sample_process] \<and> bt_get m 10124 = None"
proof -
  have "discover_managed_uid_processes_with_cgroup_roots sample_proc_fs [] [10123] =
      Inr [(10123, [sample_process])]"
    by code_simp
  from managed_scan_equals_uid_scans [OF this, of 10124] this show ?thesis by simp
qed

text \<open>The identity of a live process: what each of its files must say.\<close>

definition process_is :: "proc_fs \<Rightarrow> runtime_process \<Rightarrow> bool" where
  "process_is fs p \<longleftrightarrow>
     pf_exists fs (show_int (rp_pid p)) \<and>
     read_process_uid fs (rp_pid p) = Inr (rp_uid p) \<and>
     read_process_cmdline fs (rp_pid p) = Inr (rp_process_name p) \<and>
     (rp_process_name p = rp_package_name p \<or> starts_with (rp_process_name p) (rp_package_name p @ '':'')) \<and>
     (\<exists>t. rp_start_time_ticks p = Some t \<and> read_process_start_time fs (rp_pid p) = Inr t)"

text \<open>
  The recheck answers yes exactly for the process it was given: same uid, same command line, a
  command line of the package, and the recorded start time; a process without a recorded start time
  is never confirmed, and a file that has vanished means no, not an error.
\<close>

lemma identity_recheck_exact:
  "(recheck_process_identity fs p = Inr True \<longleftrightarrow> process_is fs p) \<and>
   (recheck_process_identity fs p = Inl e \<longrightarrow> \<not> is_disappeared_process_error e)"
proof (intro conjI impI)
  have gone: "gone_is_false e \<noteq> Inr True" for e by (simp add: gone_is_false_def)
  show "recheck_process_identity fs p = Inr True \<longleftrightarrow> process_is fs p"
    using gone by (auto simp: recheck_process_identity_def process_is_def split: sum.splits option.splits if_splits)
  show "\<not> is_disappeared_process_error e" if "recheck_process_identity fs p = Inl e"
    using that by (auto simp: recheck_process_identity_def gone_is_false_def split: sum.splits option.splits if_splits)
qed

lemma identity_recheck_exact_witness:
  "recheck_process_identity sample_proc_fs sample_process = Inr True \<and>
   recheck_process_identity (sample_proc_fs\<lparr>pf_read := \<lambda>_ _. Inl \<lparr>io_kind = PermissionDenied, io_message = []\<rparr>\<rparr>)
     sample_process = Inl (Io_Error \<lparr>io_kind = PermissionDenied, io_message = []\<rparr>) \<and>
   \<not> is_disappeared_process_error (Io_Error \<lparr>io_kind = PermissionDenied, io_message = []\<rparr>)"
proof -
  have denied: "recheck_process_identity
      (sample_proc_fs\<lparr>pf_read := \<lambda>_ _. Inl \<lparr>io_kind = PermissionDenied, io_message = []\<rparr>\<rparr>) sample_process =
      Inl (Io_Error \<lparr>io_kind = PermissionDenied, io_message = []\<rparr>)"
    by code_simp
  moreover have "recheck_process_identity sample_proc_fs sample_process = Inr True" by code_simp
  ultimately show ?thesis using identity_recheck_exact [of _ sample_process] denied by blast
qed

lemma discovered_uid_processes_match:
  assumes "discover_uid_processes_with_cgroup_roots fs roots uid = Inr ps" and "p \<in> set ps"
  shows "rp_uid p = uid \<and> prefix (rp_package_name p) (rp_process_name p) \<and> rp_process_name p \<noteq> []"
proof -
  from assms obtain e where "uid_process fs roots (\<lambda>u. u = uid) e = Some p"
    by (auto simp: discover_uid_processes_with_cgroup_roots_def mem_map_filter split: if_splits sum.splits)
  then show ?thesis
    by (auto simp: uid_process_def Let_def prefix_def split: option.splits if_splits prod.splits)
      (metis takeWhile_dropWhile_id)
qed

end
