(* ===== verification/Ledger.thy ===== *)
theory Ledger
  imports Procfs
begin

text \<open>
  \<^verbatim>\<open>sys/procfs.rs\<close>, second part: the persistent ledger of the processes the daemon
  has stopped with \<^verbatim>\<open>SIGSTOP\<close>.  The main file lists the identities (pid and start
  time); a sidecar file may promote an identity to \<open>SO_SignalOnly\<close>, for one generation (device and
  inode) of the main file.  Every file system call may fail: a disk carries the faults that its next
  calls meet, so that a crash after some call is a disk whose next call fails.
\<close>

subsection \<open>Records\<close>

type_synonym stop_identity = "i32 \<times> u64"

datatype signal_stop_ownership = SO_SignalOnly | SO_ResidualUnknown

datatype ledger_record = LR_Canonical | LR_ResidualUnknown

datatype ledger_generation = Generation (g_device: u64) (g_inode: u64)

datatype provenance_record = PV_SignalOnly ledger_generation | PV_Invalid

record provenance_ledger =
  pl_records :: "(stop_identity, provenance_record) btree"
  pl_globally_untrusted :: bool

definition empty_provenance :: provenance_ledger where
  "empty_provenance = \<lparr>pl_records = [], pl_globally_untrusted = False\<rparr>"

definition sidecar_token :: "ledger_generation \<Rightarrow> string" where
  "sidecar_token g = show_nat (g_device g) @ '':'' @ show_nat (g_inode g)"

definition from_sidecar_token :: "string \<Rightarrow> ledger_generation option" where
  "from_sidecar_token token =
     (case split_once '':'' token of
        None \<Rightarrow> None
      | Some (device, inode) \<Rightarrow>
          if CHR '':'' \<in> set inode then None
          else
            case parse_u64 device of
              None \<Rightarrow> None
            | Some d \<Rightarrow> (case parse_u64 inode of None \<Rightarrow> None | Some i \<Rightarrow> Some (Generation d i)))"

definition is_signal_only :: "provenance_ledger \<Rightarrow> stop_identity \<Rightarrow> ledger_generation \<Rightarrow> bool" where
  "is_signal_only p identity generation \<longleftrightarrow>
     \<not> pl_globally_untrusted p \<and> bt_get (pl_records p) identity = Some (PV_SignalOnly generation)"

definition discard_untrusted_records :: "provenance_ledger \<Rightarrow> provenance_ledger" where
  "discard_untrusted_records p =
    \<lparr>pl_records = filter (\<lambda>(_, r). case r of PV_SignalOnly _ \<Rightarrow> True | PV_Invalid \<Rightarrow> False)
       (if pl_globally_untrusted p then [] else pl_records p),
     pl_globally_untrusted = False\<rparr>"

definition retain_current_generation ::
  "ledger_generation option \<Rightarrow> provenance_ledger \<Rightarrow> provenance_ledger" where
  "retain_current_generation generation p =
     (let p' = discard_untrusted_records p
      in p'\<lparr>pl_records := filter (\<lambda>(_, r). case r of PV_SignalOnly g \<Rightarrow> Some g = generation | PV_Invalid \<Rightarrow> False)
              (pl_records p')\<rparr>)"

definition rebind_to_generation :: "ledger_generation \<Rightarrow> provenance_ledger \<Rightarrow> provenance_ledger" where
  "rebind_to_generation generation p =
     p\<lparr>pl_records := map (\<lambda>(k, r). (k, case r of PV_SignalOnly _ \<Rightarrow> PV_SignalOnly generation
                                              | PV_Invalid \<Rightarrow> PV_Invalid)) (pl_records p)\<rparr>"

definition retain_canonical_main_provenance ::
  "(stop_identity, ledger_record) btree \<Rightarrow> provenance_ledger \<Rightarrow> provenance_ledger" where
  "retain_canonical_main_provenance records p =
     p\<lparr>pl_records := bt_retain (\<lambda>identity. bt_get records identity = Some LR_Canonical) (pl_records p)\<rparr>"

subsection \<open>Text format\<close>

definition ledger_line :: "string \<Rightarrow> (stop_identity \<times> ledger_record) option" where
  "ledger_line line =
     (case split_whitespace line of
        pid_text # start_text # rest \<Rightarrow>
          (case (parse_i32 pid_text, parse_u64 start_text) of
             (Some pid, Some start) \<Rightarrow>
               Some ((pid, start), if rest = [] then LR_Canonical else LR_ResidualUnknown)
           | _ \<Rightarrow> None)
      | _ \<Rightarrow> None)"

definition add_ledger_line ::
  "string \<Rightarrow> (stop_identity, ledger_record) btree \<Rightarrow> (stop_identity, ledger_record) btree" where
  "add_ledger_line line records =
     (case ledger_line line of
        None \<Rightarrow> records
      | Some (identity, r) \<Rightarrow>
          bt_insert identity (if bt_has records identity then LR_ResidualUnknown else r) records)"

definition parse_ledger :: "string \<Rightarrow> (stop_identity, ledger_record) btree" where
  "parse_ledger text = fold add_ledger_line (str_lines text) []"

definition provenance_line_record :: "string list \<Rightarrow> provenance_record" where
  "provenance_line_record rest =
     (case rest of
        [kind, generation] \<Rightarrow>
          if kind = ''SignalOnly''
          then (case from_sidecar_token generation of Some g \<Rightarrow> PV_SignalOnly g | None \<Rightarrow> PV_Invalid)
          else PV_Invalid
      | _ \<Rightarrow> PV_Invalid)"

definition add_provenance_line :: "string \<Rightarrow> provenance_ledger \<Rightarrow> provenance_ledger" where
  "add_provenance_line line p =
     (case split_whitespace line of
        pid_text # start_text # rest \<Rightarrow>
          (case (parse_i32 pid_text, parse_u64 start_text) of
             (Some pid, Some start) \<Rightarrow>
               p\<lparr>pl_records := bt_insert (pid, start)
                   (if bt_has (pl_records p) (pid, start) then PV_Invalid else provenance_line_record rest)
                   (pl_records p)\<rparr>
           | _ \<Rightarrow> p\<lparr>pl_globally_untrusted := True\<rparr>)
      | _ \<Rightarrow> p\<lparr>pl_globally_untrusted := True\<rparr>)"

definition parse_provenance :: "string \<Rightarrow> provenance_ledger" where
  "parse_provenance text = fold add_provenance_line (str_lines text) empty_provenance"

definition ledger_lines :: "(stop_identity, ledger_record) btree \<Rightarrow> string list" where
  "ledger_lines records = map (\<lambda>(pid, start). show_int pid @ '' '' @ show_nat start) (bt_keys records)"

definition provenance_lines :: "(stop_identity, provenance_record) btree \<Rightarrow> string list" where
  "provenance_lines records =
     List.map_filter (\<lambda>((pid, start), r).
       case r of
         PV_SignalOnly g \<Rightarrow>
           Some (show_int pid @ '' '' @ show_nat start @ '' SignalOnly '' @ sidecar_token g)
       | PV_Invalid \<Rightarrow> None) records"

subsection \<open>The disk\<close>

datatype ledger_file = Main_Ledger | Side_Ledger

text \<open>
  For each of the two files, its text and generation, and those of its temporary file; the faults the
  next calls meet (none once the list is used up); and how the file system picks the generation of a
  new file from the number of files made so far.
\<close>

record disk =
  dk_file :: "ledger_file \<Rightarrow> (string \<times> ledger_generation) option"
  dk_temp :: "ledger_file \<Rightarrow> (string \<times> ledger_generation) option"
  dk_faults :: "io_error option list"
  dk_alloc :: "nat \<Rightarrow> ledger_generation"
  dk_made :: nat

definition next_fault :: "disk \<Rightarrow> io_error option \<times> disk" where
  "next_fault d =
     (case dk_faults d of [] \<Rightarrow> (None, d) | f # fs \<Rightarrow> (f, d\<lparr>dk_faults := fs\<rparr>))"

definition no_such_file :: io_error where
  "no_such_file = \<lparr>io_kind = NotFound, io_message = ''No such file or directory (os error 2)''\<rparr>"

definition fs_read :: "ledger_file \<Rightarrow> disk \<Rightarrow> (io_error + string) \<times> disk" where
  "fs_read f d =
     (case next_fault d of
        (Some e, d') \<Rightarrow> (Inl e, d')
      | (None, d') \<Rightarrow> ((case dk_file d f of None \<Rightarrow> Inl no_such_file | Some (t, _) \<Rightarrow> Inr t), d'))"

definition fs_generation :: "ledger_file \<Rightarrow> disk \<Rightarrow> (io_error + ledger_generation) \<times> disk" where
  "fs_generation f d =
     (case next_fault d of
        (Some e, d') \<Rightarrow> (Inl e, d')
      | (None, d') \<Rightarrow> ((case dk_file d f of None \<Rightarrow> Inl no_such_file | Some (_, g) \<Rightarrow> Inr g), d'))"

definition fs_remove :: "ledger_file \<Rightarrow> disk \<Rightarrow> (io_error + unit) \<times> disk" where
  "fs_remove f d =
     (case next_fault d of
        (Some e, d') \<Rightarrow> (Inl e, d')
      | (None, d') \<Rightarrow>
          (case dk_file d f of
             None \<Rightarrow> (Inl no_such_file, d')
           | Some _ \<Rightarrow> (Inr (), d'\<lparr>dk_file := (dk_file d')(f := None)\<rparr>)))"

definition fs_create_dir_all :: "disk \<Rightarrow> (io_error + unit) \<times> disk" where
  "fs_create_dir_all d =
     (case next_fault d of (Some e, d') \<Rightarrow> (Inl e, d') | (None, d') \<Rightarrow> (Inr (), d'))"

text \<open>\<^verbatim>\<open>fs::write\<close> truncates an existing temporary file, which keeps its
  generation, or makes a new one.\<close>

definition fs_write_temp :: "ledger_file \<Rightarrow> string \<Rightarrow> disk \<Rightarrow> (io_error + unit) \<times> disk" where
  "fs_write_temp f text d =
     (case next_fault d of
        (Some e, d') \<Rightarrow> (Inl e, d')
      | (None, d') \<Rightarrow>
          (case dk_temp d f of
             Some (_, g) \<Rightarrow> (Inr (), d'\<lparr>dk_temp := (dk_temp d')(f \<mapsto> (text, g))\<rparr>)
           | None \<Rightarrow> (Inr (), d'\<lparr>dk_temp := (dk_temp d')(f \<mapsto> (text, dk_alloc d (dk_made d))),
                               dk_made := dk_made d + 1\<rparr>)))"

definition fs_rename_temp :: "ledger_file \<Rightarrow> disk \<Rightarrow> (io_error + unit) \<times> disk" where
  "fs_rename_temp f d =
     (case next_fault d of
        (Some e, d') \<Rightarrow> (Inl e, d')
      | (None, d') \<Rightarrow>
          (case dk_temp d f of
             None \<Rightarrow> (Inl no_such_file, d')
           | Some content \<Rightarrow>
               (Inr (), d'\<lparr>dk_file := (dk_file d')(f \<mapsto> content), dk_temp := (dk_temp d')(f := None)\<rparr>)))"

subsection \<open>Ledger operations\<close>

definition write_signal_stop_ledger_file :: "ledger_file \<Rightarrow> string list \<Rightarrow> disk \<Rightarrow> unit res \<times> disk" where
  "write_signal_stop_ledger_file f lines d =
     (if lines = [] then
        (case fs_remove f d of
           (Inr _, d1) \<Rightarrow> (Inr (), d1)
         | (Inl e, d1) \<Rightarrow> (if io_kind e = NotFound then Inr () else Inl (Io_Error e), d1))
      else
        (case fs_create_dir_all d of
           (Inl e, d1) \<Rightarrow> (Inl (Io_Error e), d1)
         | (Inr _, d1) \<Rightarrow>
             (case fs_write_temp f (str_join [newline] lines @ [newline]) d1 of
                (Inl e, d2) \<Rightarrow> (Inl (Io_Error e), d2)
              | (Inr _, d2) \<Rightarrow>
                  (case fs_rename_temp f d2 of
                     (Inl e, d3) \<Rightarrow> (Inl (Io_Error e), d3)
                   | (Inr _, d3) \<Rightarrow> (Inr (), d3)))))"

definition read_signal_stop_ledger :: "disk \<Rightarrow> (stop_identity, ledger_record) btree res \<times> disk" where
  "read_signal_stop_ledger d =
     (case fs_read Main_Ledger d of
        (Inr text, d1) \<Rightarrow> (Inr (parse_ledger text), d1)
      | (Inl e, d1) \<Rightarrow> (if io_kind e = NotFound then Inr [] else Inl (Io_Error e), d1))"

definition read_signal_stop_provenance :: "disk \<Rightarrow> provenance_ledger \<times> disk" where
  "read_signal_stop_provenance d =
     (case fs_read Side_Ledger d of
        (Inr text, d1) \<Rightarrow> (parse_provenance text, d1)
      | (Inl e, d1) \<Rightarrow>
          (if io_kind e = NotFound then empty_provenance
           else empty_provenance\<lparr>pl_globally_untrusted := True\<rparr>, d1))"

definition signal_stop_ledger_generation :: "disk \<Rightarrow> ledger_generation res \<times> disk" where
  "signal_stop_ledger_generation d =
     (case fs_generation Main_Ledger d of
        (Inr g, d1) \<Rightarrow> (Inr g, d1) | (Inl e, d1) \<Rightarrow> (Inl (Io_Error e), d1))"

definition rewrite_main_ledger_with_rebound_provenance ::
  "(stop_identity, ledger_record) btree \<Rightarrow> provenance_ledger \<Rightarrow> disk \<Rightarrow> unit res \<times> disk" where
  "rewrite_main_ledger_with_rebound_provenance records provenance d =
     (case write_signal_stop_ledger_file Side_Ledger [] d of
        (Inl e, d1) \<Rightarrow> (Inl e, d1)
      | (Inr _, d1) \<Rightarrow>
          (case write_signal_stop_ledger_file Main_Ledger (ledger_lines records) d1 of
             (Inl e, d2) \<Rightarrow> (Inl e, d2)
           | (Inr _, d2) \<Rightarrow>
               if pl_records provenance = [] then (Inr (), d2)
               else
                 case signal_stop_ledger_generation d2 of
                   (Inl e, d3) \<Rightarrow> (Inl e, d3)
                 | (Inr g, d3) \<Rightarrow>
                     write_signal_stop_ledger_file Side_Ledger
                       (provenance_lines (pl_records (rebind_to_generation g provenance))) d3))"

definition without_identity :: "stop_identity \<Rightarrow> provenance_ledger \<Rightarrow> provenance_ledger" where
  "without_identity identity p = p\<lparr>pl_records := bt_remove identity (pl_records p)\<rparr>"

definition record_freezeit_signal_stop_at_path :: "stop_identity \<Rightarrow> disk \<Rightarrow> unit res \<times> disk" where
  "record_freezeit_signal_stop_at_path identity d =
     (case read_signal_stop_ledger d of
        (Inl e, d1) \<Rightarrow> (Inl e, d1)
      | (Inr old, d1) \<Rightarrow>
          (case read_signal_stop_provenance d1 of
             (p0, d2) \<Rightarrow>
               (case signal_stop_ledger_generation d2 of
                  (generation, d3) \<Rightarrow>
                    let p1 = retain_current_generation (ok_option generation) p0;
                        records = bt_insert identity LR_Canonical old;
                        p2 = without_identity identity (retain_canonical_main_provenance records p1)
                    in rewrite_main_ledger_with_rebound_provenance records p2 d3)))"

definition take_freezeit_signal_stop_at_path :: "stop_identity \<Rightarrow> disk \<Rightarrow> bool res \<times> disk" where
  "take_freezeit_signal_stop_at_path identity d =
     (case read_signal_stop_ledger d of
        (Inl e, d1) \<Rightarrow> (Inl e, d1)
      | (Inr old, d1) \<Rightarrow>
          (case read_signal_stop_provenance d1 of
             (p0, d2) \<Rightarrow>
               let removed = bt_has old identity; records = bt_remove identity old
               in (case signal_stop_ledger_generation d2 of
                     (generation, d3) \<Rightarrow>
                       let p1 = retain_current_generation (ok_option generation) p0;
                           p2 = without_identity identity (retain_canonical_main_provenance records p1)
                       in (case rewrite_main_ledger_with_rebound_provenance records p2 d3 of
                             (Inl e, d4) \<Rightarrow> (Inl e, d4)
                           | (Inr _, d4) \<Rightarrow> (Inr removed, d4)))))"

definition sidecar_allows_promotion ::
  "provenance_ledger \<Rightarrow> stop_identity \<Rightarrow> ledger_generation \<Rightarrow> bool" where
  "sidecar_allows_promotion p identity generation \<longleftrightarrow>
     \<not> pl_globally_untrusted p \<and>
     (case bt_get (pl_records p) identity of
        Some PV_Invalid \<Rightarrow> False
      | Some (PV_SignalOnly g) \<Rightarrow> g = generation
      | None \<Rightarrow> True)"

definition promote_freezeit_signal_stop_at_path :: "stop_identity \<Rightarrow> disk \<Rightarrow> bool res \<times> disk" where
  "promote_freezeit_signal_stop_at_path identity d =
     (case read_signal_stop_ledger d of
        (Inl e, d1) \<Rightarrow> (Inl e, d1)
      | (Inr records, d1) \<Rightarrow>
          if bt_get records identity \<noteq> Some LR_Canonical then (Inr False, d1)
          else
            (case signal_stop_ledger_generation d1 of
               (Inl _, d2) \<Rightarrow> (Inr False, d2)
             | (Inr generation, d2) \<Rightarrow>
                 (case read_signal_stop_provenance d2 of
                    (p0, d3) \<Rightarrow>
                      if \<not> sidecar_allows_promotion p0 identity generation then (Inr False, d3)
                      else
                        let p1 = retain_canonical_main_provenance records
                                   (retain_current_generation (Some generation) p0);
                            promoted = bt_insert identity (PV_SignalOnly generation) (pl_records p1)
                        in (case write_signal_stop_ledger_file Side_Ledger (provenance_lines promoted) d3 of
                              (Inl e, d4) \<Rightarrow> (Inl e, d4)
                            | (Inr _, d4) \<Rightarrow> (Inr True, d4)))))"

definition recorded_signal_stop_ownership_from_ledger ::
  "stop_identity \<Rightarrow> disk \<Rightarrow> signal_stop_ownership option res \<times> disk" where
  "recorded_signal_stop_ownership_from_ledger identity d =
     (case read_signal_stop_ledger d of
        (Inl e, d1) \<Rightarrow> (Inl e, d1)
      | (Inr records, d1) \<Rightarrow>
          (case bt_get records identity of
             None \<Rightarrow> (Inr None, d1)
           | Some r \<Rightarrow>
               (case signal_stop_ledger_generation d1 of
                  (generation, d2) \<Rightarrow>
                    (case (r = LR_Canonical, ok_option generation) of
                       (True, Some g) \<Rightarrow>
                         (case read_signal_stop_provenance d2 of
                            (p, d3) \<Rightarrow>
                              (Inr (Some (if is_signal_only p identity g then SO_SignalOnly
                                          else SO_ResidualUnknown)), d3))
                     | _ \<Rightarrow> (Inr (Some SO_ResidualUnknown), d2)))))"

definition signal_stop_ownership_from_ledger ::
  "string \<Rightarrow> disk \<Rightarrow> signal_stop_ownership option \<times> disk" where
  "signal_stop_ownership_from_ledger stat_text d =
     (if parse_proc_state_char stat_text \<noteq> Inr (CHR ''T'') then (None, d)
      else
        case parse_process_pid stat_text of
          None \<Rightarrow> (None, d)
        | Some pid \<Rightarrow>
            (case parse_process_start_time stat_text of
               Inl _ \<Rightarrow> (None, d)
             | Inr start \<Rightarrow>
                 (case recorded_signal_stop_ownership_from_ledger (pid, start) d of
                    (r, d1) \<Rightarrow> (case r of Inl _ \<Rightarrow> None | Inr v \<Rightarrow> v, d1))))"

definition proc_state_is_stopped :: "string \<Rightarrow> disk \<Rightarrow> bool" where
  "proc_state_is_stopped stat_text d \<longleftrightarrow> fst (signal_stop_ownership_from_ledger stat_text d) \<noteq> None"

end
