(* ===== verification/Ledger_Laws.thy ===== *)
theory Ledger_Laws
  imports Ledger
begin

text \<open>
  The laws of the stop ledger: its text format round trips, the operations refine updates of an
  abstract map from identities to ownership when no call fails, and under any schedule of failing
  calls a rewrite never upgrades an identity and never loses another one.
\<close>

subsection \<open>The format round trips\<close>

definition valid_identity :: "stop_identity \<Rightarrow> bool" where
  "valid_identity k \<longleftrightarrow> is_i32 (fst k) \<and> snd k < 2 ^ 64"

definition valid_generation :: "ledger_generation \<Rightarrow> bool" where
  "valid_generation g \<longleftrightarrow> g_device g < 2 ^ 64 \<and> g_inode g < 2 ^ 64"

lemma parse_u64_less: "parse_u64 s = Some n \<Longrightarrow> n < 2 ^ 64"
  by (auto simp: parse_u64_def parse_unsigned_def split: option.splits if_splits)

lemma parse_i32_range: "parse_i32 s = Some i \<Longrightarrow> is_i32 i"
proof -
  have a: "int n \<le> 2 ^ 31" if "n \<le> 2 ^ 31" for n
    using that by (metis of_nat_le_iff of_nat_numeral of_nat_power)
  have b: "int n < 2 ^ 31" if "n < 2 ^ 31" for n
    using that by (metis of_nat_less_iff of_nat_numeral of_nat_power)
  show "parse_i32 s = Some i \<Longrightarrow> is_i32 i"
    using a b
    by (auto simp: parse_i32_def parse_signed_def is_i32_def split: list.splits if_splits option.splits)
qed

lemma not_digit_colon [simp]: "\<not> is_digit (CHR '':'')" "CHR '':'' \<notin> set (show_nat n)"
  using show_nat_digits [of n] by (auto simp: is_digit_def list_all_iff)

lemma split_once_colon: "CHR '':'' \<notin> set s \<Longrightarrow> split_once '':'' (s @ '':'' @ t) = Some (s, t)"
  by (induction s) auto

lemma sidecar_token_roundtrip: "valid_generation g \<Longrightarrow> from_sidecar_token (sidecar_token g) = Some g"
  using split_once_colon [of "show_nat (g_device g)" "show_nat (g_inode g)"]
  by (cases g) (simp add: sidecar_token_def from_sidecar_token_def parse_u64_show valid_generation_def)

lemma plain_colon [simp]: "plain_byte (CHR '':'')"
  by (simp add: plain_byte_def ascii_ws_def wide_ws_def)

lemma plain_token [simp]: "plain_text (sidecar_token g)"
  by (simp add: sidecar_token_def)

lemma plain_signal_only: "plain_text ''SignalOnly''"
  by (simp add: plain_text_def plain_byte_def ascii_ws_def wide_ws_def)

lemma ledger_line_parses:
  "valid_identity (pid, start) \<Longrightarrow>
     ledger_line (show_int pid @ '' '' @ show_nat start) = Some ((pid, start), LR_Canonical)"
  using split_whitespace_join [of "[show_int pid, show_nat start]"]
  by (simp add: ledger_line_def valid_identity_def parse_i32_show parse_u64_show)

lemma provenance_line_tokens:
  "split_whitespace (show_int pid @ '' '' @ show_nat start @ '' SignalOnly '' @ sidecar_token g) =
     [show_int pid, show_nat start, ''SignalOnly'', sidecar_token g]"
  using split_whitespace_join [of "[show_int pid, show_nat start, ''SignalOnly'', sidecar_token g]"]
    plain_signal_only
  by (simp add: sidecar_token_def)

lemma fold_ledger_lines:
  assumes "distinct ks" and "\<forall>k \<in> set ks. valid_identity k" and "\<forall>k \<in> set ks. bt_get m k = None"
  shows "bt_get (fold add_ledger_line (map (\<lambda>(pid, start). show_int pid @ '' '' @ show_nat start) ks) m) j =
    (if j \<in> set ks then Some LR_Canonical else bt_get m j)"
  using assms
proof (induction ks arbitrary: m)
  case (Cons k ks)
  obtain pid start where k: "k = (pid, start)" by (cases k)
  with Cons.prems have "add_ledger_line (show_int pid @ '' '' @ show_nat start) m = bt_insert (pid, start) LR_Canonical m"
    using ledger_line_parses [of pid start] by (simp add: add_ledger_line_def bt_has_dom domIff)
  moreover have "\<forall>x \<in> set ks. bt_get (bt_insert (pid, start) LR_Canonical m) x = None"
    using Cons.prems k by auto
  ultimately show ?case
    using Cons.IH [of "bt_insert (pid, start) LR_Canonical m"] Cons.prems k by simp
qed simp

lemma ledger_lines_ok: "list_all line_ok (ledger_lines records)"
proof -
  have "line_ok (show_int pid @ '' '' @ show_nat start)" for pid start
    using line_ok_join_space [of "[show_int pid, show_nat start]"] by simp
  then show ?thesis by (auto simp: ledger_lines_def list_all_iff)
qed

lemma provenance_lines_ok: "list_all line_ok (provenance_lines records)"
proof -
  have "line_ok (show_int pid @ '' '' @ show_nat start @ '' SignalOnly '' @ sidecar_token g)" for pid start g
    using line_ok_join_space [of "[show_int pid, show_nat start, ''SignalOnly'', sidecar_token g]"]
      plain_signal_only by simp
  then show ?thesis
    by (auto simp: provenance_lines_def list_all_iff mem_map_filter split: provenance_record.splits)
qed

definition valid_keys :: "(stop_identity, 'v) btree \<Rightarrow> bool" where
  "valid_keys m \<longleftrightarrow> (\<forall>k \<in> dom (map_of m). valid_identity k)"

lemma ledger_roundtrip:
  assumes "bt_wf records" and "valid_keys records" and "records \<noteq> []"
  shows "bt_get (parse_ledger (str_join [newline] (ledger_lines records) @ [newline])) j =
    (if bt_get records j = None then None else Some LR_Canonical)"
proof -
  from assms(3) have "ledger_lines records \<noteq> []" by (simp add: ledger_lines_def bt_keys_def)
  then have "str_lines (str_join [newline] (ledger_lines records) @ [newline]) = ledger_lines records"
    by (intro str_lines_join ledger_lines_ok)
  moreover from assms have "distinct (bt_keys records)" "\<forall>k \<in> set (bt_keys records). valid_identity k"
    by (simp_all add: bt_keys_def bt_wf_distinct [unfolded bt_keys_def] valid_keys_def dom_map_of_conv_image_fst)
  ultimately show ?thesis
    using fold_ledger_lines [of "bt_keys records" "[]" j]
    by (auto simp: parse_ledger_def ledger_lines_def)
qed

lemma provenance_fold:
  assumes "distinct (map fst rs)" and "\<forall>(k, r) \<in> set rs. valid_identity k" and
    "\<forall>k \<in> fst ` set rs. bt_get (pl_records p) k = None" and
    "\<forall>(k, r) \<in> set rs. \<exists>g. r = PV_SignalOnly g \<and> valid_generation g"
  shows "pl_globally_untrusted (fold add_provenance_line (provenance_lines rs) p) = pl_globally_untrusted p \<and>
    bt_get (pl_records (fold add_provenance_line (provenance_lines rs) p)) j =
      (case map_of rs j of Some r \<Rightarrow> Some r | None \<Rightarrow> bt_get (pl_records p) j)"
  using assms
proof (induction rs arbitrary: p)
  case Nil
  then show ?case by (simp add: provenance_lines_def List.map_filter_def)
next
  case (Cons e rs)
  obtain pid start g where e: "e = ((pid, start), PV_SignalOnly g)" and g: "valid_generation g"
    using Cons.prems(4) by (cases e) auto
  let ?line = "show_int pid @ '' '' @ show_nat start @ '' SignalOnly '' @ sidecar_token g"
  let ?p = "p\<lparr>pl_records := bt_insert (pid, start) (PV_SignalOnly g) (pl_records p)\<rparr>"
  have step: "add_provenance_line ?line p = ?p"
    using Cons.prems e g provenance_line_tokens [of pid start g]
    by (simp add: add_provenance_line_def provenance_line_record_def
        sidecar_token_roundtrip parse_i32_show parse_u64_show valid_identity_def bt_has_dom domIff)
  have lines: "provenance_lines (e # rs) = ?line # provenance_lines rs"
    by (simp only: provenance_lines_def map_filter_simps e prod.case provenance_record.case option.case)
  have "pl_globally_untrusted (fold add_provenance_line (provenance_lines rs) ?p) = pl_globally_untrusted ?p \<and>
    bt_get (pl_records (fold add_provenance_line (provenance_lines rs) ?p)) j =
      (case map_of rs j of Some r \<Rightarrow> Some r | None \<Rightarrow> bt_get (pl_records ?p) j)"
  proof (rule Cons.IH)
    show "\<forall>k \<in> fst ` set rs. bt_get (pl_records ?p) k = None"
      using Cons.prems(1,3) e by (auto simp del: image_iff) (metis fst_conv image_eqI)+
  qed (use Cons.prems e in auto)
  moreover have "map_of rs (pid, start) = None"
    using Cons.prems(1) e by (auto simp: map_of_eq_None_iff)
  ultimately show ?case
    using e step lines by (auto split: option.splits)
qed

definition all_signal_only :: "(stop_identity, provenance_record) btree \<Rightarrow> bool" where
  "all_signal_only rs \<longleftrightarrow> (\<forall>(k, r) \<in> set rs. \<exists>g. r = PV_SignalOnly g \<and> valid_generation g)"

lemma provenance_roundtrip:
  assumes "bt_wf rs" and "valid_keys rs" and "all_signal_only rs" and "rs \<noteq> []"
  shows "\<not> pl_globally_untrusted (parse_provenance (str_join [newline] (provenance_lines rs) @ [newline])) \<and>
    bt_get (pl_records (parse_provenance (str_join [newline] (provenance_lines rs) @ [newline]))) j = bt_get rs j"
proof -
  obtain k r rs' where "rs = (k, r) # rs'" using assms(4) by (cases rs) auto
  with assms(3) have "provenance_lines rs \<noteq> []"
    by (cases k) (auto simp: provenance_lines_def map_filter_simps all_signal_only_def)
  then have "str_lines (str_join [newline] (provenance_lines rs) @ [newline]) = provenance_lines rs"
    by (intro str_lines_join provenance_lines_ok)
  moreover have "distinct (map fst rs)" using assms(1) by (rule bt_wf_distinct)
  moreover have "\<forall>(k, r) \<in> set rs. valid_identity k"
    using assms(2) by (auto simp: valid_keys_def dom_map_of_conv_image_fst)
  ultimately show ?thesis
    using provenance_fold [of rs empty_provenance j] assms(3)
    by (auto simp: parse_provenance_def all_signal_only_def empty_provenance_def split: option.splits)
qed

subsection \<open>What parsing yields\<close>

lemma add_ledger_line_inv:
  "bt_wf m \<Longrightarrow> valid_keys m \<Longrightarrow> bt_wf (add_ledger_line l m) \<and> valid_keys (add_ledger_line l m)"
  by (auto simp: add_ledger_line_def ledger_line_def valid_keys_def valid_identity_def
      dest: parse_i32_range parse_u64_less split: option.splits list.splits prod.splits)

lemma parse_ledger_inv: "bt_wf (parse_ledger t) \<and> valid_keys (parse_ledger t)"
proof -
  have "bt_wf m \<Longrightarrow> valid_keys m \<Longrightarrow> bt_wf (fold add_ledger_line ls m) \<and> valid_keys (fold add_ledger_line ls m)" for ls m
    using add_ledger_line_inv by (induction ls arbitrary: m) auto
  moreover have "valid_keys []" by (simp add: valid_keys_def)
  ultimately show ?thesis unfolding parse_ledger_def using bt_wf_Nil by blast
qed

definition provenance_inv :: "provenance_ledger \<Rightarrow> bool" where
  "provenance_inv p \<longleftrightarrow>
     bt_wf (pl_records p) \<and> valid_keys (pl_records p) \<and>
     (\<forall>j g. bt_get (pl_records p) j = Some (PV_SignalOnly g) \<longrightarrow> valid_generation g)"

lemma from_sidecar_token_valid: "from_sidecar_token t = Some g \<Longrightarrow> valid_generation g"
  by (auto simp: from_sidecar_token_def valid_generation_def dest: parse_u64_less
      split: option.splits if_splits prod.splits)

lemma provenance_line_record_valid: "provenance_line_record r = PV_SignalOnly g \<Longrightarrow> valid_generation g"
  by (auto simp: provenance_line_record_def dest: from_sidecar_token_valid
      split: list.splits if_splits option.splits)

lemma add_provenance_line_inv:
  assumes "provenance_inv p"
  shows "provenance_inv (add_provenance_line l p)"
proof -
  have untrusted: "provenance_inv (p\<lparr>pl_globally_untrusted := True\<rparr>)"
    using assms by (simp add: provenance_inv_def)
  have insert: "provenance_inv (p\<lparr>pl_records := bt_insert (pid, start)
      (if bt_has (pl_records p) (pid, start) then PV_Invalid else provenance_line_record rest) (pl_records p)\<rparr>)"
    if "parse_i32 a = Some pid" "parse_u64 b = Some start" for pid start rest a b
    using assms parse_i32_range [OF that(1)] parse_u64_less [OF that(2)] provenance_line_record_valid
    by (auto simp: provenance_inv_def valid_keys_def valid_identity_def split: if_splits)
  show ?thesis
  proof (cases "split_whitespace l")
    case (Cons a ts)
    note a = Cons
    show ?thesis
    proof (cases ts)
      case (Cons b rest)
      with a untrusted insert show ?thesis
        by (cases "parse_i32 a"; cases "parse_u64 b") (simp_all add: add_provenance_line_def)
    qed (simp add: add_provenance_line_def a untrusted)
  qed (simp add: add_provenance_line_def untrusted)
qed

lemma empty_provenance_inv [simp]:
  "provenance_inv empty_provenance" "provenance_inv (empty_provenance\<lparr>pl_globally_untrusted := True\<rparr>)"
  by (simp_all add: empty_provenance_def provenance_inv_def valid_keys_def)

lemma parse_provenance_inv: "provenance_inv (parse_provenance t)"
proof -
  have "provenance_inv p \<Longrightarrow> provenance_inv (fold add_provenance_line ls p)" for ls p
    using add_provenance_line_inv by (induction ls arbitrary: p) auto
  then show ?thesis by (simp only: parse_provenance_def empty_provenance_inv)
qed

lemma map_of_filter_value:
  "bt_wf m \<Longrightarrow> map_of (filter (\<lambda>(_, r). P r) m) j = (case map_of m j of Some r \<Rightarrow> if P r then Some r else None | None \<Rightarrow> None)"
proof (induction m)
  case (Cons e m)
  obtain k r where e: "e = (k, r)" by (cases e)
  from Cons.prems have "k \<notin> fst ` set m" using bt_wf_distinct [of "e # m"] e by simp
  then have "map_of m k = None" by (simp add: map_of_eq_None_iff)
  with Cons.IH [OF bt_wf_tl [OF Cons.prems]] e show ?case by (auto split: option.splits)
qed simp

text \<open>The sidecar records that survive a rewrite on behalf of an identity.\<close>

definition kept_provenance ::
  "stop_identity \<Rightarrow> (stop_identity, ledger_record) btree \<Rightarrow> ledger_generation option \<Rightarrow> provenance_ledger \<Rightarrow>
   provenance_ledger" where
  "kept_provenance identity records generation p =
     without_identity identity
       (retain_canonical_main_provenance records (retain_current_generation generation p))"

lemma retain_current_get:
  assumes "provenance_inv p"
  shows "bt_get (pl_records (retain_current_generation generation p)) j =
    (case bt_get (pl_records p) j of
       Some (PV_SignalOnly g) \<Rightarrow>
         if \<not> pl_globally_untrusted p \<and> Some g = generation then Some (PV_SignalOnly g) else None
     | _ \<Rightarrow> None)"
proof -
  let ?rs = "if pl_globally_untrusted p then [] else pl_records p"
  have wf: "bt_wf ?rs" using assms by (simp add: provenance_inv_def)
  note f1 = map_of_filter_value [OF wf, of "\<lambda>r. case r of PV_SignalOnly _ \<Rightarrow> True | PV_Invalid \<Rightarrow> False" j]
  note f2 = map_of_filter_value [OF bt_wf_filter [OF wf],
      where P = "\<lambda>r. case r of PV_SignalOnly g \<Rightarrow> Some g = generation | PV_Invalid \<Rightarrow> False" and j = j]
  show ?thesis
    unfolding retain_current_generation_def discard_untrusted_records_def Let_def
    by (simp add: f1 f2 del: filter_filter split: option.splits provenance_record.splits)
qed

lemma kept_provenance_get:
  assumes "provenance_inv p"
  shows "bt_get (pl_records (kept_provenance identity records generation p)) j =
    (if j \<noteq> identity \<and> bt_get records j = Some LR_Canonical \<and> (\<exists>g. generation = Some g \<and> is_signal_only p j g)
     then bt_get (pl_records p) j else None)"
  using retain_current_get [OF assms, of generation j]
  by (auto simp: kept_provenance_def without_identity_def retain_canonical_main_provenance_def is_signal_only_def
      split: option.splits provenance_record.splits if_splits)

lemma retain_current_wf:
  "provenance_inv p \<Longrightarrow> bt_wf (pl_records (retain_current_generation generation p))"
  by (simp add: retain_current_generation_def discard_untrusted_records_def Let_def provenance_inv_def bt_wf_filter)

lemma kept_provenance_wf:
  "provenance_inv p \<Longrightarrow> bt_wf (pl_records (kept_provenance identity records generation p))"
  by (simp add: kept_provenance_def without_identity_def retain_canonical_main_provenance_def retain_current_wf)

subsection \<open>Disks\<close>

text \<open>A disk is in order when a fault never pretends that a file is missing and device and inode
  numbers fit their type; it is quiet when no further call fails.\<close>

definition disk_ok :: "disk \<Rightarrow> bool" where
  "disk_ok d \<longleftrightarrow>
     (\<forall>e. Some e \<in> set (dk_faults d) \<longrightarrow> io_kind e \<noteq> NotFound) \<and>
     (\<forall>n. valid_generation (dk_alloc d n)) \<and>
     (\<forall>f t g. dk_file d f = Some (t, g) \<longrightarrow> valid_generation g) \<and>
     (\<forall>f t g. dk_temp d f = Some (t, g) \<longrightarrow> valid_generation g)"

definition quiet :: "disk \<Rightarrow> bool" where "quiet d \<longleftrightarrow> dk_faults d = []"

definition follows :: "disk \<Rightarrow> disk \<Rightarrow> bool" where
  "follows d d' \<longleftrightarrow> (disk_ok d \<longrightarrow> disk_ok d') \<and> (quiet d \<longrightarrow> quiet d')"

lemma follows_refl [simp]: "follows d d" by (simp add: follows_def)

lemma follows_trans: "follows d d' \<Longrightarrow> follows d' d'' \<Longrightarrow> follows d d''" by (simp add: follows_def)

lemma next_fault_cases:
  assumes "next_fault d = (x, d')"
  shows "follows d d' \<and> dk_file d' = dk_file d \<and> dk_temp d' = dk_temp d \<and> dk_alloc d' = dk_alloc d \<and>
    (\<forall>e. x = Some e \<longrightarrow> disk_ok d \<longrightarrow> io_kind e \<noteq> NotFound) \<and> (quiet d \<longrightarrow> x = None)"
  using assms
  by (auto simp: next_fault_def follows_def disk_ok_def quiet_def split: list.splits)

definition main_records :: "disk \<Rightarrow> (stop_identity, ledger_record) btree" where
  "main_records d = (case dk_file d Main_Ledger of None \<Rightarrow> [] | Some (t, _) \<Rightarrow> parse_ledger t)"

definition side_provenance :: "disk \<Rightarrow> provenance_ledger" where
  "side_provenance d = (case dk_file d Side_Ledger of None \<Rightarrow> empty_provenance | Some (t, _) \<Rightarrow> parse_provenance t)"

definition main_generation :: "disk \<Rightarrow> ledger_generation option" where
  "main_generation d = map_option snd (dk_file d Main_Ledger)"

lemma main_records_inv: "bt_wf (main_records d) \<and> valid_keys (main_records d)"
  using parse_ledger_inv by (auto simp: main_records_def valid_keys_def split: option.splits)

lemma side_provenance_inv: "provenance_inv (side_provenance d)"
  using parse_provenance_inv by (auto simp: side_provenance_def split: option.splits)

lemma read_ledger_cases:
  assumes "read_signal_stop_ledger d = (r, d')"
  shows "follows d d' \<and> dk_file d' = dk_file d \<and>
    (disk_ok d \<longrightarrow> r = Inr (main_records d) \<or> (\<exists>e. r = Inl e)) \<and> (quiet d \<longrightarrow> r = Inr (main_records d))"
  using assms
  by (auto simp: read_signal_stop_ledger_def fs_read_def main_records_def no_such_file_def
      dest!: next_fault_cases split: prod.splits option.splits if_splits sum.splits)

lemma read_provenance_cases:
  assumes "read_signal_stop_provenance d = (p, d')"
  shows "follows d d' \<and> dk_file d' = dk_file d \<and> provenance_inv p \<and>
    (disk_ok d \<longrightarrow> p = side_provenance d \<or> pl_globally_untrusted p) \<and> (quiet d \<longrightarrow> p = side_provenance d)"
  using assms parse_provenance_inv
  by (auto simp: read_signal_stop_provenance_def fs_read_def side_provenance_def no_such_file_def
      dest!: next_fault_cases split: prod.splits option.splits if_splits sum.splits)

lemma generation_cases:
  assumes "signal_stop_ledger_generation d = (r, d')"
  shows "follows d d' \<and> dk_file d' = dk_file d \<and>
    (\<forall>g. r = Inr g \<longrightarrow> main_generation d = Some g) \<and> (quiet d \<longrightarrow> ok_option r = main_generation d)"
  using assms
  by (auto simp: signal_stop_ledger_generation_def fs_generation_def main_generation_def ok_option_def
      dest!: next_fault_cases split: prod.splits option.splits sum.splits)

subsection \<open>Writing one file\<close>

lemma disk_ok_alloc: "disk_ok d \<Longrightarrow> valid_generation (dk_alloc d n)"
  by (simp add: disk_ok_def)

lemma disk_ok_temp: "disk_ok d \<Longrightarrow> dk_temp d f = Some (t, g) \<Longrightarrow> valid_generation g"
  by (auto simp: disk_ok_def)

lemma remove_cases:
  assumes "fs_remove f d = (r, d')"
  shows "follows d d' \<and> (\<forall>f'. f' \<noteq> f \<longrightarrow> dk_file d' f' = dk_file d f') \<and>
    (\<forall>e. r = Inl e \<longrightarrow> dk_file d' f = dk_file d f) \<and>
    (disk_ok d \<longrightarrow> (\<forall>e. r = Inl e \<longrightarrow> io_kind e = NotFound \<longrightarrow> dk_file d f = None)) \<and>
    (r = Inr () \<longrightarrow> dk_file d' f = None) \<and>
    (quiet d \<longrightarrow> (\<forall>e. r = Inl e \<longrightarrow> io_kind e = NotFound))"
proof (cases "next_fault d")
  case (Pair x d1)
  from next_fault_cases [OF Pair]
  have n: "follows d d1" "dk_file d1 = dk_file d" "quiet d \<Longrightarrow> x = None"
    "\<And>e. x = Some e \<Longrightarrow> disk_ok d \<Longrightarrow> io_kind e \<noteq> NotFound" by simp_all
  show ?thesis
  proof (cases x)
    case (Some e)
    with assms Pair n show ?thesis by (simp add: fs_remove_def) blast
  next
    case None
    show ?thesis
    proof (cases "dk_file d f")
      case None
      with assms Pair n \<open>x = None\<close> show ?thesis by (auto simp: fs_remove_def no_such_file_def)
    next
      case (Some c)
      with assms Pair \<open>x = None\<close>
      have r: "r = Inr ()" "d' = d1\<lparr>dk_file := (dk_file d1)(f := None)\<rparr>" by (simp_all add: fs_remove_def)
      have "follows d1 d'" unfolding r(2) by (auto simp: follows_def disk_ok_def quiet_def)
      with n(1) have "follows d d'" by (rule follows_trans)
      with r n(2) show ?thesis by simp
    qed
  qed
qed

lemma create_dir_cases:
  assumes "fs_create_dir_all d = (r, d')"
  shows "follows d d' \<and> dk_file d' = dk_file d \<and> (quiet d \<longrightarrow> r = Inr ())"
  using assms by (auto simp: fs_create_dir_all_def dest!: next_fault_cases split: prod.splits option.splits)

lemma write_temp_cases:
  assumes "fs_write_temp f text d = (r, d')"
  shows "follows d d' \<and> dk_file d' = dk_file d \<and> (r = Inr () \<longrightarrow> (\<exists>g. dk_temp d' f = Some (text, g))) \<and>
    (quiet d \<longrightarrow> r = Inr ())"
proof (cases "next_fault d")
  case (Pair x d1)
  from next_fault_cases [OF Pair]
  have n: "follows d d1" "dk_file d1 = dk_file d" "dk_temp d1 = dk_temp d" "dk_alloc d1 = dk_alloc d"
    "quiet d \<Longrightarrow> x = None" by simp_all
  show ?thesis
  proof (cases x)
    case (Some e)
    with assms Pair n show ?thesis by (auto simp: fs_write_temp_def)
  next
    case None
    have ok: "follows d1 (d1\<lparr>dk_temp := (dk_temp d1)(f \<mapsto> (text, g)), dk_made := m\<rparr>)"
      if "disk_ok d1 \<longrightarrow> valid_generation g" for g m
      using that by (auto simp: follows_def disk_ok_def quiet_def)
    have ok': "follows d1 (d1\<lparr>dk_temp := (dk_temp d1)(f \<mapsto> (text, g))\<rparr>)"
      if "disk_ok d1 \<longrightarrow> valid_generation g" for g
      using that by (auto simp: follows_def disk_ok_def quiet_def)
    show ?thesis
    proof (cases "dk_temp d f")
      case None
      with assms Pair \<open>x = None\<close> n(3)
      have "r = Inr ()" "d' = d1\<lparr>dk_temp := (dk_temp d1)(f \<mapsto> (text, dk_alloc d (dk_made d))), dk_made := dk_made d + 1\<rparr>"
        by (auto simp: fs_write_temp_def)
      moreover have "disk_ok d1 \<longrightarrow> valid_generation (dk_alloc d (dk_made d))"
        using disk_ok_alloc [of d1 "dk_made d"] n(4) by simp
      ultimately show ?thesis using n ok follows_trans [OF n(1) ok] by auto
    next
      case (Some tg)
      obtain t g where tg: "tg = (t, g)" by (cases tg)
      with Some assms Pair \<open>x = None\<close> n(3)
      have "r = Inr ()" "d' = d1\<lparr>dk_temp := (dk_temp d1)(f \<mapsto> (text, g))\<rparr>"
        by (auto simp: fs_write_temp_def)
      moreover have "disk_ok d1 \<longrightarrow> valid_generation g"
        using disk_ok_temp [of d1 f t g] Some tg n(3) by simp
      ultimately show ?thesis using n follows_trans [OF n(1) ok'] by auto
    qed
  qed
qed

lemma rename_cases:
  assumes "fs_rename_temp f d = (r, d')"
  shows "follows d d' \<and> (\<forall>f'. f' \<noteq> f \<longrightarrow> dk_file d' f' = dk_file d f') \<and>
    (\<forall>e. r = Inl e \<longrightarrow> dk_file d' f = dk_file d f) \<and>
    (r = Inr () \<longrightarrow> dk_file d' f = dk_temp d f) \<and>
    (quiet d \<longrightarrow> dk_temp d f \<noteq> None \<longrightarrow> r = Inr ())"
proof (cases "next_fault d")
  case (Pair x d1)
  from next_fault_cases [OF Pair]
  have n: "follows d d1" "dk_file d1 = dk_file d" "dk_temp d1 = dk_temp d" "quiet d \<Longrightarrow> x = None" by simp_all
  show ?thesis
  proof (cases x)
    case (Some e)
    with assms Pair n show ?thesis by (simp add: fs_rename_temp_def) blast
  next
    case None
    show ?thesis
    proof (cases "dk_temp d f")
      case None
      with assms Pair n \<open>x = None\<close> show ?thesis by (auto simp: fs_rename_temp_def)
    next
      case (Some c)
      with assms Pair \<open>x = None\<close>
      have r: "r = Inr ()" "d' = d1\<lparr>dk_file := (dk_file d1)(f \<mapsto> c), dk_temp := (dk_temp d1)(f := None)\<rparr>"
        by (simp_all add: fs_rename_temp_def)
      have "valid_generation g" if "disk_ok d1" "c = (t, g)" for t g
        using that Some n(3) disk_ok_temp [of d1 f t g] by simp
      then have "follows d1 d'"
        unfolding r(2) by (cases c) (auto simp: follows_def disk_ok_def quiet_def)
      with n(1) have "follows d d'" by (rule follows_trans)
      with r n(2) Some show ?thesis by simp
    qed
  qed
qed

definition file_holds :: "disk \<Rightarrow> ledger_file \<Rightarrow> string list \<Rightarrow> bool" where
  "file_holds d f lines \<longleftrightarrow>
     (if lines = [] then dk_file d f = None
      else \<exists>g. dk_file d f = Some (str_join [newline] lines @ [newline], g))"

lemma write_file_cases:
  assumes "write_signal_stop_ledger_file f lines d = (r, d')"
  shows "follows d d' \<and> (\<forall>f'. f' \<noteq> f \<longrightarrow> dk_file d' f' = dk_file d f') \<and>
    (\<forall>e. r = Inl e \<longrightarrow> dk_file d' f = dk_file d f) \<and>
    (disk_ok d \<longrightarrow> r = Inr () \<longrightarrow> file_holds d' f lines) \<and>
    (quiet d \<longrightarrow> r = Inr ())"
proof (cases "lines = []")
  case True
  obtain r1 d1 where rm: "fs_remove f d = (r1, d1)" by (cases "fs_remove f d")
  from remove_cases [OF rm] assms True rm show ?thesis
    by (cases r1) (auto simp: write_signal_stop_ledger_file_def file_holds_def)
next
  case False
  let ?text = "str_join [newline] lines @ [newline]"
  obtain r1 d1 where c: "fs_create_dir_all d = (r1, d1)" by (cases "fs_create_dir_all d")
  obtain r2 d2 where w: "fs_write_temp f ?text d1 = (r2, d2)" by (cases "fs_write_temp f ?text d1")
  obtain r3 d3 where m: "fs_rename_temp f d2 = (r3, d3)" by (cases "fs_rename_temp f d2")
  note cases = create_dir_cases [OF c] write_temp_cases [OF w] rename_cases [OF m]
  from cases have tr: "follows d d1" "follows d d2" "follows d d3"
    by (blast intro: follows_trans)+
  have q: "quiet d \<Longrightarrow> quiet d1" "quiet d \<Longrightarrow> quiet d2" using tr by (simp_all add: follows_def)
  show ?thesis
  proof (cases r1)
    case (Inl e)
    with assms False c cases show ?thesis by (auto simp: write_signal_stop_ledger_file_def)
  next
    case (Inr u)
    note r1 = Inr
    show ?thesis
    proof (cases r2)
      case (Inl e)
      with assms False c w r1 cases tr q show ?thesis by (auto simp: write_signal_stop_ledger_file_def)
    next
      case (Inr v)
      note r2 = Inr
      show ?thesis
      proof (cases r3)
        case (Inl e)
        with assms False c w m r1 r2 cases tr q show ?thesis
          by (auto simp: write_signal_stop_ledger_file_def)
      next
        case (Inr x)
        with assms False c w m r1 r2 cases tr q show ?thesis
          by (auto simp: write_signal_stop_ledger_file_def file_holds_def)
      qed
    qed
  qed
qed

subsection \<open>The abstract ledger\<close>

text \<open>What the two files say about an identity, read without faults.\<close>

definition ledger_view :: "disk \<Rightarrow> stop_identity \<Rightarrow> signal_stop_ownership option" where
  "ledger_view d j =
     (case bt_get (main_records d) j of
        None \<Rightarrow> None
      | Some r \<Rightarrow>
          Some (if r = LR_Canonical \<and>
                   (case main_generation d of None \<Rightarrow> False | Some g \<Rightarrow> is_signal_only (side_provenance d) j g)
                then SO_SignalOnly else SO_ResidualUnknown))"

definition degraded :: "(stop_identity \<Rightarrow> signal_stop_ownership option) \<Rightarrow> stop_identity \<Rightarrow> signal_stop_ownership option" where
  "degraded v j = map_option (\<lambda>_. SO_ResidualUnknown) (v j)"

definition stored ::
  "(stop_identity, ledger_record) btree \<Rightarrow> (stop_identity \<Rightarrow> bool) \<Rightarrow> stop_identity \<Rightarrow>
   signal_stop_ownership option" where
  "stored records keep j =
     (if bt_get records j = None then None else Some (if keep j then SO_SignalOnly else SO_ResidualUnknown))"

lemma view_dom: "ledger_view d j = None \<longleftrightarrow> bt_get (main_records d) j = None"
  by (simp add: ledger_view_def split: option.splits)

lemma view_signal_only_iff:
  "ledger_view d j = Some SO_SignalOnly \<longleftrightarrow>
     bt_get (main_records d) j = Some LR_Canonical \<and>
     (\<exists>g. main_generation d = Some g \<and> is_signal_only (side_provenance d) j g)"
  by (auto simp: ledger_view_def split: option.splits)

lemma view_without_side:
  assumes "dk_file d Side_Ledger = None"
  shows "ledger_view d j = map_option (\<lambda>_. SO_ResidualUnknown) (bt_get (main_records d) j)"
  using assms
  by (auto simp: ledger_view_def side_provenance_def empty_provenance_def is_signal_only_def split: option.splits)

lemma view_same_files: "dk_file d' = dk_file d \<Longrightarrow> ledger_view d' = ledger_view d"
proof -
  assume "dk_file d' = dk_file d"
  then have "main_records d' = main_records d" "side_provenance d' = side_provenance d"
      "main_generation d' = main_generation d"
    by (simp_all add: main_records_def side_provenance_def main_generation_def)
  then show ?thesis by (intro ext) (simp add: ledger_view_def split: option.split)
qed

lemma side_removed_degrades:
  assumes "dk_file d' Side_Ledger = None" and "dk_file d' Main_Ledger = dk_file d Main_Ledger"
  shows "ledger_view d' = degraded (ledger_view d)"
proof
  fix j
  have "main_records d' = main_records d" using assms(2) by (simp add: main_records_def)
  then show "ledger_view d' j = degraded (ledger_view d) j"
    using view_without_side [OF assms(1), of j] by (simp add: degraded_def ledger_view_def split: option.splits)
qed

lemma holds_main:
  assumes "file_holds d Main_Ledger (ledger_lines records)" and "bt_wf records" and "valid_keys records"
  shows "bt_get (main_records d) j = (if bt_get records j = None then None else Some LR_Canonical)"
proof (cases "records = []")
  case True
  with assms(1) show ?thesis by (simp add: file_holds_def ledger_lines_def bt_keys_def main_records_def)
next
  case False
  then have "ledger_lines records \<noteq> []" by (simp add: ledger_lines_def bt_keys_def)
  with assms(1) obtain g where "dk_file d Main_Ledger = Some (str_join [newline] (ledger_lines records) @ [newline], g)"
    by (auto simp: file_holds_def)
  with ledger_roundtrip [OF assms(2,3) False, of j] show ?thesis by (simp add: main_records_def)
qed

lemma holds_side:
  assumes "file_holds d Side_Ledger (provenance_lines rs)" and "bt_wf rs" and "valid_keys rs"
    and "all_signal_only rs" and "rs \<noteq> []"
  shows "\<not> pl_globally_untrusted (side_provenance d) \<and> bt_get (pl_records (side_provenance d)) j = bt_get rs j"
proof -
  obtain k r rs' where "rs = (k, r) # rs'" using assms(5) by (cases rs) auto
  with assms(4) have "provenance_lines rs \<noteq> []"
    by (cases k) (auto simp: provenance_lines_def map_filter_simps all_signal_only_def)
  with assms(1) obtain g where "dk_file d Side_Ledger = Some (str_join [newline] (provenance_lines rs) @ [newline], g)"
    by (auto simp: file_holds_def)
  with provenance_roundtrip [OF assms(2-5), of j] show ?thesis by (simp add: side_provenance_def)
qed

definition rebindable :: "(stop_identity, ledger_record) btree \<Rightarrow> provenance_ledger \<Rightarrow> bool" where
  "rebindable records p \<longleftrightarrow>
     bt_wf (pl_records p) \<and> valid_keys (pl_records p) \<and>
     (\<forall>(k, r) \<in> set (pl_records p). (\<exists>g. r = PV_SignalOnly g) \<and> bt_get records k \<noteq> None)"

lemma rebind_get:
  assumes "rebindable records p"
  shows "bt_get (pl_records (rebind_to_generation g p)) j = map_option (\<lambda>_. PV_SignalOnly g) (bt_get (pl_records p) j)"
proof -
  have "map_of (map (\<lambda>(k, r). (k, case r of PV_SignalOnly _ \<Rightarrow> PV_SignalOnly g | PV_Invalid \<Rightarrow> PV_Invalid)) m) j =
      map_option (\<lambda>_. PV_SignalOnly g) (map_of m j)" if "\<forall>(k, r) \<in> set m. \<exists>g. r = PV_SignalOnly g" for m
    using that by (induction m) auto
  moreover from assms have "\<forall>(k, r) \<in> set (pl_records p). \<exists>g. r = PV_SignalOnly g"
    by (auto simp: rebindable_def)
  ultimately show ?thesis by (simp add: rebind_to_generation_def)
qed

lemma rebind_keys: "map fst (pl_records (rebind_to_generation g p)) = map fst (pl_records p)"
  by (auto simp: rebind_to_generation_def)

lemma rebind_facts:
  assumes "rebindable records p" and "valid_generation g"
  shows "bt_wf (pl_records (rebind_to_generation g p))" and "valid_keys (pl_records (rebind_to_generation g p))"
    and "all_signal_only (pl_records (rebind_to_generation g p))"
proof -
  show "bt_wf (pl_records (rebind_to_generation g p))"
    using assms(1) rebind_keys [of g p] by (simp add: bt_wf_def rebindable_def)
  show "valid_keys (pl_records (rebind_to_generation g p))"
    using assms(1) rebind_get [OF assms(1), of g] by (auto simp: valid_keys_def rebindable_def)
  show "all_signal_only (pl_records (rebind_to_generation g p))"
    using assms by (fastforce simp: all_signal_only_def rebind_to_generation_def rebindable_def)
qed

lemma disk_ok_main_generation: "disk_ok d \<Longrightarrow> main_generation d = Some g \<Longrightarrow> valid_generation g"
  by (auto simp: disk_ok_def main_generation_def)

text \<open>
  A rewrite that returns has stored the records with exactly the given promotions; one that fails
  leaves the old view, the old view without promotions, or the new records without promotions.
\<close>

lemma rewrite_views:
  assumes ok: "disk_ok d" and run: "rewrite_main_ledger_with_rebound_provenance records p d = (r, d')"
    and recs: "bt_wf records" "valid_keys records" and p: "rebindable records p"
  shows "follows d d' \<and>
    (r = Inr () \<longrightarrow> ledger_view d' = stored records (\<lambda>j. bt_get (pl_records p) j \<noteq> None)) \<and>
    (r \<noteq> Inr () \<longrightarrow> ledger_view d' \<in> {ledger_view d, degraded (ledger_view d), stored records (\<lambda>_. False)}) \<and>
    (quiet d \<longrightarrow> r = Inr ())"
proof -
  obtain r1 d1 where w1: "write_signal_stop_ledger_file Side_Ledger [] d = (r1, d1)"
    by (cases "write_signal_stop_ledger_file Side_Ledger [] d")
  obtain r2 d2 where w2: "write_signal_stop_ledger_file Main_Ledger (ledger_lines records) d1 = (r2, d2)"
    by (cases "write_signal_stop_ledger_file Main_Ledger (ledger_lines records) d1")
  note c1 = write_file_cases [OF w1] and c2 = write_file_cases [OF w2]
  have ok1: "disk_ok d1" and ok2: "disk_ok d2" and f2: "follows d d2"
    using ok c1 c2 by (auto simp: follows_def)
  show ?thesis
  proof (cases r1)
    case (Inl e)
    with run w1 have "r = Inl e" "d' = d1" by (simp_all add: rewrite_main_ledger_with_rebound_provenance_def)
    moreover from c1 Inl have "dk_file d1 = dk_file d" by (metis ext)
    ultimately show ?thesis using c1 Inl view_same_files [of d1 d] by auto
  next
    case (Inr u)
    then have r1: "r1 = Inr ()" by simp
    with c1 ok have side1: "dk_file d1 Side_Ledger = None" "dk_file d1 Main_Ledger = dk_file d Main_Ledger"
      by (auto simp: file_holds_def)
    show ?thesis
    proof (cases r2)
      case (Inl e)
      with run w1 w2 r1 have "r = Inl e" "d' = d2"
        by (simp_all add: rewrite_main_ledger_with_rebound_provenance_def)
      moreover from c2 Inl side1 have "dk_file d2 Side_Ledger = None" "dk_file d2 Main_Ledger = dk_file d Main_Ledger"
        by auto
      then have "ledger_view d2 = degraded (ledger_view d)" by (rule side_removed_degrades)
      moreover have "\<not> quiet d" using Inl c1 c2 by (auto simp: follows_def)
      ultimately show ?thesis using f2 by simp
    next
      case (Inr v)
      then have r2: "r2 = Inr ()" by simp
      with c2 ok1 have main2: "file_holds d2 Main_Ledger (ledger_lines records)" by blast
      from c2 side1 have side2: "dk_file d2 Side_Ledger = None" by auto
      have plain: "ledger_view x = stored records (\<lambda>_. False)"
        if "dk_file x Side_Ledger = None" "dk_file x Main_Ledger = dk_file d2 Main_Ledger" for x
      proof
        fix j
        have "main_records x = main_records d2" using that(2) by (simp add: main_records_def)
        then show "ledger_view x j = stored records (\<lambda>_. False) j"
          using view_without_side [OF that(1), of j] holds_main [OF main2 recs, of j] by (simp add: stored_def)
      qed
      show ?thesis
      proof (cases "pl_records p = []")
        case True
        with run w1 w2 r1 r2 have "r = Inr ()" "d' = d2"
          by (simp_all add: rewrite_main_ledger_with_rebound_provenance_def)
        with plain [OF side2 refl] f2 True show ?thesis by (simp add: stored_def fun_eq_iff)
      next
        case False
        obtain rg d3 where gen: "signal_stop_ledger_generation d2 = (rg, d3)"
          by (cases "signal_stop_ledger_generation d2")
        note c3 = generation_cases [OF gen]
        have f3: "follows d d3" using f2 c3 follows_trans by blast
        show ?thesis
        proof (cases rg)
          case (Inl e)
          with run w1 w2 r1 r2 False gen have "r = Inl e" "d' = d3"
            by (simp_all add: rewrite_main_ledger_with_rebound_provenance_def)
          moreover have "ledger_view d3 = stored records (\<lambda>_. False)" using plain c3 side2 by simp
          moreover have "\<not> quiet d"
          proof
            assume "quiet d"
            with f2 c3 Inl have none: "main_generation d2 = None" by (simp add: follows_def ok_option_def)
            from False p obtain k rec rest where "pl_records p = (k, rec) # rest" "bt_get records k \<noteq> None"
              by (cases "pl_records p") (auto simp: rebindable_def)
            then have "records \<noteq> []" by auto
            with main2 none show False
              by (auto simp: file_holds_def main_generation_def ledger_lines_def bt_keys_def)
          qed
          ultimately show ?thesis using f3 by simp
        next
          case (Inr g)
          let ?rs = "pl_records (rebind_to_generation g p)"
          obtain r4 d4 where w4: "write_signal_stop_ledger_file Side_Ledger (provenance_lines ?rs) d3 = (r4, d4)"
            by (cases "write_signal_stop_ledger_file Side_Ledger (provenance_lines ?rs) d3")
          note c4 = write_file_cases [OF w4]
          from run w1 w2 r1 r2 False gen Inr w4 have res: "r = r4" "d' = d4"
            by (simp_all add: rewrite_main_ledger_with_rebound_provenance_def)
          have f4: "follows d d4" using f3 c4 follows_trans by blast
          from c3 Inr have g: "main_generation d2 = Some g" by simp
          with ok2 have vg: "valid_generation g" by (rule disk_ok_main_generation)
          show ?thesis
          proof (cases r4)
            case (Inl e)
            with c4 c3 side2 have "ledger_view d4 = stored records (\<lambda>_. False)" by (intro plain) auto
            moreover have "\<not> quiet d" using Inl c4 f3 by (auto simp: follows_def)
            ultimately show ?thesis using res Inl f4 by simp
          next
            case (Inr u)
            have ok3: "disk_ok d3" using ok f3 by (simp add: follows_def)
            have ne: "?rs \<noteq> []" using False rebind_keys [of g p] by (metis list.map_disc_iff)
            from Inr c4 ok3 have side4: "file_holds d4 Side_Ledger (provenance_lines ?rs)" by simp
            have main4: "dk_file d4 Main_Ledger = dk_file d2 Main_Ledger" using c4 c3 by auto
            have "ledger_view d4 j = stored records (\<lambda>j. bt_get (pl_records p) j \<noteq> None) j" for j
            proof -
              have "main_records d4 = main_records d2" "main_generation d4 = Some g"
                using main4 g by (simp_all add: main_records_def main_generation_def)
              moreover note holds_main [OF main2 recs, of j]
              moreover note holds_side [OF side4 rebind_facts [OF p vg] ne, of j]
              ultimately show ?thesis
                using rebind_get [OF p, of g j]
                by (auto simp: ledger_view_def stored_def is_signal_only_def)
            qed
            then show ?thesis using res Inr f4 by auto
          qed
        qed
      qed
    qed
  qed
qed

subsection \<open>Recording, taking and promoting\<close>

lemma kept_rebindable:
  assumes "provenance_inv p"
  shows "rebindable records (kept_provenance identity records generation p)"
proof -
  let ?k = "kept_provenance identity records generation p"
  note wf = kept_provenance_wf [OF assms, of identity records generation]
  have get: "map_of (pl_records ?k) j = Some r \<Longrightarrow>
      (\<exists>g. r = PV_SignalOnly g) \<and> bt_get records j \<noteq> None \<and> bt_get (pl_records p) j = Some r" for j r
    unfolding kept_provenance_get [OF assms] by (auto simp: is_signal_only_def split: if_splits)
  have "valid_keys (pl_records ?k)"
    using get assms by (fastforce simp: valid_keys_def provenance_inv_def)
  moreover have "(\<exists>g. r = PV_SignalOnly g) \<and> bt_get records j \<noteq> None" if "(j, r) \<in> set (pl_records ?k)" for j r
    using get [of j r] that bt_wf_distinct [OF wf] by (simp add: map_of_is_SomeI)
  ultimately show ?thesis using wf by (auto simp: rebindable_def)
qed

lemma kept_signal_only:
  assumes "provenance_inv p" and "p = side_provenance d \<or> pl_globally_untrusted p"
    and "\<forall>g. generation = Some g \<longrightarrow> main_generation d = Some g"
    and "\<And>j. j \<noteq> identity \<Longrightarrow> bt_get records j = bt_get (main_records d) j"
    and "bt_get (pl_records (kept_provenance identity records generation p)) j \<noteq> None"
  shows "j \<noteq> identity \<and> ledger_view d j = Some SO_SignalOnly"
  using assms unfolding kept_provenance_get [OF assms(1)]
  by (auto simp: view_signal_only_iff is_signal_only_def split: if_splits)

lemma kept_signal_only_quiet:
  assumes "p = side_provenance d" and "generation = main_generation d"
    and "\<And>j. j \<noteq> identity \<Longrightarrow> bt_get records j = bt_get (main_records d) j"
  shows "bt_get (pl_records (kept_provenance identity records generation p)) j \<noteq> None \<longleftrightarrow>
    j \<noteq> identity \<and> ledger_view d j = Some SO_SignalOnly"
  unfolding kept_provenance_get [OF side_provenance_inv [of d], folded assms(1)]
  using assms(1,2) assms(3) [of j]
  by (cases "j = identity") (auto simp: view_signal_only_iff is_signal_only_def)

text \<open>The common part of recording and taking: a rewrite whose records differ from the main file's
  at the identity only.\<close>

lemma rewrite_for_identity:
  assumes ok: "disk_ok d" and files: "dk_file d3 = dk_file d" and f3: "follows d d3"
    and recs: "bt_wf records" "valid_keys records"
    and same': "\<forall>j. j \<noteq> identity \<longrightarrow> bt_get records j = bt_get (main_records d) j"
    and p: "provenance_inv p" "p = side_provenance d \<or> pl_globally_untrusted p"
    and gen: "\<forall>g. generation = Some g \<longrightarrow> main_generation d = Some g"
    and quiet': "quiet d \<longrightarrow> p = side_provenance d \<and> generation = main_generation d"
    and run: "rewrite_main_ledger_with_rebound_provenance records
                (kept_provenance identity records generation p) d3 = (r, d')"
  shows "follows d d' \<and> (quiet d \<longrightarrow> r = Inr ()) \<and>
    (quiet d \<longrightarrow> ledger_view d' =
       (ledger_view d)(identity := map_option (\<lambda>_. SO_ResidualUnknown) (bt_get records identity))) \<and>
    (\<forall>j. ledger_view d' j = Some SO_SignalOnly \<longrightarrow> ledger_view d j = Some SO_SignalOnly) \<and>
    (r = Inr () \<longrightarrow> ledger_view d' identity = map_option (\<lambda>_. SO_ResidualUnknown) (bt_get records identity)) \<and>
    (\<forall>j. j \<noteq> identity \<longrightarrow> (ledger_view d' j = None \<longleftrightarrow> ledger_view d j = None)) \<and>
    (ledger_view d identity = None \<longrightarrow> bt_get records identity = None \<longrightarrow> ledger_view d' identity = None)"
proof -
  have same: "j \<noteq> identity \<Longrightarrow> bt_get records j = bt_get (main_records d) j" for j using same' by blast
  have quiet: "quiet d \<Longrightarrow> p = side_provenance d \<and> generation = main_generation d" using quiet' by blast
  let ?k = "kept_provenance identity records generation p"
  have ok3: "disk_ok d3" using ok f3 by (simp add: follows_def)
  note v = rewrite_views [OF ok3 run recs kept_rebindable [OF p(1)]]
  have view3: "ledger_view d3 = ledger_view d" using files by (rule view_same_files)
  have keep: "bt_get (pl_records ?k) j \<noteq> None \<Longrightarrow> j \<noteq> identity \<and> ledger_view d j = Some SO_SignalOnly" for j
    using kept_signal_only [OF p gen same] by blast
  have follows: "follows d d'" using f3 v follows_trans by blast
  have stored_dom: "stored records keep j = None \<longleftrightarrow> ledger_view d j = None" if "j \<noteq> identity" for keep j
    using same [OF that] by (simp add: stored_def view_dom)
  have stored_id: "stored records (\<lambda>j. bt_get (pl_records ?k) j \<noteq> None) identity =
      map_option (\<lambda>_. SO_ResidualUnknown) (bt_get records identity)"
    using keep [of identity] by (auto simp: stored_def)
  show ?thesis
  proof (cases "r = Inr ()")
    case True
    with v have d': "ledger_view d' = stored records (\<lambda>j. bt_get (pl_records ?k) j \<noteq> None)" by simp
    have quiet_view: "ledger_view d' =
        (ledger_view d)(identity := map_option (\<lambda>_. SO_ResidualUnknown) (bt_get records identity))" if "quiet d"
    proof
      fix j
      show "ledger_view d' j =
          ((ledger_view d)(identity := map_option (\<lambda>_. SO_ResidualUnknown) (bt_get records identity))) j"
      proof (cases "j = identity")
        case False
        from kept_signal_only_quiet [of p d generation identity records j] quiet [OF that] same False
        have iff: "bt_get (pl_records ?k) j \<noteq> None \<longleftrightarrow> ledger_view d j = Some SO_SignalOnly" by blast
        show ?thesis
        proof (cases "ledger_view d j")
          case None
          then have "bt_get records j = None" using same [OF False] by (simp only: view_dom)
          with None False show ?thesis by (simp add: d' stored_def)
        next
          case (Some w)
          with same [OF False] have "bt_get records j \<noteq> None" by (metis view_dom option.distinct(1))
          with iff Some False show ?thesis by (cases w) (simp_all add: d' stored_def)
        qed
      qed (simp only: d' stored_id fun_upd_same)
    qed
    have only: "ledger_view d j = Some SO_SignalOnly" if "ledger_view d' j = Some SO_SignalOnly" for j
      using that keep [of j] unfolding d' stored_def by (simp split: if_splits)
    show ?thesis
      using True follows quiet_view only stored_id stored_dom unfolding d' by (intro conjI) simp_all
  next
    case False
    with v view3 have d': "ledger_view d' \<in> {ledger_view d, degraded (ledger_view d), stored records (\<lambda>_. False)}"
      by simp
    have nq: "\<not> quiet d" using False v f3 by (auto simp: follows_def)
    have only: "ledger_view d j = Some SO_SignalOnly" if "ledger_view d' j = Some SO_SignalOnly" for j
      using that d' by (auto simp: degraded_def stored_def split: if_splits)
    have dom: "ledger_view d' j = None \<longleftrightarrow> ledger_view d j = None" if "j \<noteq> identity" for j
      using d' stored_dom [OF that] by (auto simp: degraded_def)
    have "ledger_view d' identity = None"
      if "ledger_view d identity = None" "bt_get records identity = None"
      using d' that by (auto simp: degraded_def stored_def)
    with False nq follows only dom show ?thesis by (intro conjI) simp_all
  qed
qed

lemma record_views:
  assumes ok: "disk_ok d" and valid: "valid_identity identity"
    and run: "record_freezeit_signal_stop_at_path identity d = (r, d')"
  shows "follows d d' \<and> (quiet d \<longrightarrow> r = Inr ()) \<and>
    (quiet d \<longrightarrow> ledger_view d' = (ledger_view d)(identity \<mapsto> SO_ResidualUnknown)) \<and>
    (\<forall>j. ledger_view d' j = Some SO_SignalOnly \<longrightarrow> ledger_view d j = Some SO_SignalOnly) \<and>
    (r = Inr () \<longrightarrow> ledger_view d' identity = Some SO_ResidualUnknown) \<and>
    (\<forall>j. j \<noteq> identity \<longrightarrow> (ledger_view d' j = None \<longleftrightarrow> ledger_view d j = None))"
proof -
  obtain r1 d1 where rl: "read_signal_stop_ledger d = (r1, d1)" by (cases "read_signal_stop_ledger d")
  note c1 = read_ledger_cases [OF rl]
  show ?thesis
  proof (cases r1)
    case (Inl e)
    with run rl have "r = Inl e" "d' = d1" by (simp_all add: record_freezeit_signal_stop_at_path_def)
    with c1 Inl view_same_files [of d1 d] show ?thesis by auto
  next
    case (Inr old)
    with c1 ok have old: "old = main_records d" by auto
    obtain p0 d2 where rp: "read_signal_stop_provenance d1 = (p0, d2)" by (cases "read_signal_stop_provenance d1")
    obtain rg d3 where gn: "signal_stop_ledger_generation d2 = (rg, d3)" by (cases "signal_stop_ledger_generation d2")
    note c2 = read_provenance_cases [OF rp] and c3 = generation_cases [OF gn]
    have ok1: "disk_ok d1" using ok c1 by (simp add: follows_def)
    have same_side: "side_provenance d1 = side_provenance d" using c1 by (simp add: side_provenance_def)
    have same_gen: "main_generation d2 = main_generation d" using c1 c2 by (simp add: main_generation_def)
    have rw: "rewrite_main_ledger_with_rebound_provenance (bt_insert identity LR_Canonical old)
        (kept_provenance identity (bt_insert identity LR_Canonical old) (ok_option rg) p0) d3 = (r, d')"
      using run rl Inr rp gn by (simp add: record_freezeit_signal_stop_at_path_def kept_provenance_def Let_def)
    have f3: "follows d d3" using c1 c2 c3 by (blast intro: follows_trans)
    have files: "dk_file d3 = dk_file d" using c1 c2 c3 by simp
    have trust: "p0 = side_provenance d \<or> pl_globally_untrusted p0" using c2 ok1 same_side by simp
    have gen: "\<forall>g. ok_option rg = Some g \<longrightarrow> main_generation d = Some g"
      using c3 same_gen by (cases rg) (simp_all add: ok_option_def)
    have q: "quiet d \<longrightarrow> p0 = side_provenance d \<and> ok_option rg = main_generation d"
      using c1 c2 c3 same_side same_gen by (simp add: follows_def)
    have keys: "bt_wf (bt_insert identity LR_Canonical old)" "valid_keys (bt_insert identity LR_Canonical old)"
      using main_records_inv [of d] valid old by (simp_all add: valid_keys_def)
    have same: "\<forall>j. j \<noteq> identity \<longrightarrow> bt_get (bt_insert identity LR_Canonical old) j = bt_get (main_records d) j"
      by (simp add: old)
    have pinv: "provenance_inv p0" using c2 by simp
    show ?thesis
      using rewrite_for_identity [OF ok files f3 keys same pinv trust gen q rw]
      unfolding map_of_bt_insert fun_upd_same option.map by blast
  qed
qed

lemma take_views:
  assumes ok: "disk_ok d" and run: "take_freezeit_signal_stop_at_path identity d = (r, d')"
  shows "follows d d' \<and> (quiet d \<longrightarrow> r = Inr (ledger_view d identity \<noteq> None)) \<and>
    (quiet d \<longrightarrow> ledger_view d' = (ledger_view d)(identity := None)) \<and>
    (\<forall>j. ledger_view d' j = Some SO_SignalOnly \<longrightarrow> ledger_view d j = Some SO_SignalOnly) \<and>
    (\<forall>b. r = Inr b \<longrightarrow> ledger_view d' identity = None \<and> b = (ledger_view d identity \<noteq> None)) \<and>
    (\<forall>j. j \<noteq> identity \<longrightarrow> (ledger_view d' j = None \<longleftrightarrow> ledger_view d j = None)) \<and>
    (ledger_view d identity = None \<longrightarrow> ledger_view d' identity = None)"
proof -
  obtain r1 d1 where rl: "read_signal_stop_ledger d = (r1, d1)" by (cases "read_signal_stop_ledger d")
  note c1 = read_ledger_cases [OF rl]
  show ?thesis
  proof (cases r1)
    case (Inl e)
    with run rl have "r = Inl e" "d' = d1" by (simp_all add: take_freezeit_signal_stop_at_path_def)
    with c1 Inl view_same_files [of d1 d] show ?thesis by auto
  next
    case (Inr old)
    with c1 ok have old: "old = main_records d" by auto
    obtain p0 d2 where rp: "read_signal_stop_provenance d1 = (p0, d2)" by (cases "read_signal_stop_provenance d1")
    obtain rg d3 where gn: "signal_stop_ledger_generation d2 = (rg, d3)" by (cases "signal_stop_ledger_generation d2")
    note c2 = read_provenance_cases [OF rp] and c3 = generation_cases [OF gn]
    have ok1: "disk_ok d1" using ok c1 by (simp add: follows_def)
    have same_side: "side_provenance d1 = side_provenance d" using c1 by (simp add: side_provenance_def)
    have same_gen: "main_generation d2 = main_generation d" using c1 c2 by (simp add: main_generation_def)
    obtain r4 where rw4: "rewrite_main_ledger_with_rebound_provenance (bt_remove identity old)
        (kept_provenance identity (bt_remove identity old) (ok_option rg) p0) d3 = (r4, d')"
      and r4: "r = (case r4 of Inl e \<Rightarrow> Inl e | Inr _ \<Rightarrow> Inr (bt_has old identity))"
      using run rl Inr rp gn
      by (auto simp: take_freezeit_signal_stop_at_path_def kept_provenance_def Let_def split: prod.splits sum.splits)
    have f3: "follows d d3" using c1 c2 c3 by (blast intro: follows_trans)
    have files: "dk_file d3 = dk_file d" using c1 c2 c3 by simp
    have trust: "p0 = side_provenance d \<or> pl_globally_untrusted p0" using c2 ok1 same_side by simp
    have gen: "\<forall>g. ok_option rg = Some g \<longrightarrow> main_generation d = Some g"
      using c3 same_gen by (cases rg) (simp_all add: ok_option_def)
    have q: "quiet d \<longrightarrow> p0 = side_provenance d \<and> ok_option rg = main_generation d"
      using c1 c2 c3 same_side same_gen by (simp add: follows_def)
    have keys: "bt_wf (bt_remove identity old)" "valid_keys (bt_remove identity old)"
      using main_records_inv [of d] old by (auto simp: valid_keys_def)
    have same: "\<forall>j. j \<noteq> identity \<longrightarrow> bt_get (bt_remove identity old) j = bt_get (main_records d) j"
      by (simp add: old)
    have had: "bt_has old identity = (ledger_view d identity \<noteq> None)"
      using old by (simp add: bt_has_dom domIff view_dom)
    have pinv: "provenance_inv p0" using c2 by simp
    have rw: "follows d d' \<and> (quiet d \<longrightarrow> r4 = Inr ()) \<and>
      (quiet d \<longrightarrow> ledger_view d' = (ledger_view d)(identity := None)) \<and>
      (\<forall>j. ledger_view d' j = Some SO_SignalOnly \<longrightarrow> ledger_view d j = Some SO_SignalOnly) \<and>
      (r4 = Inr () \<longrightarrow> ledger_view d' identity = None) \<and>
      (\<forall>j. j \<noteq> identity \<longrightarrow> (ledger_view d' j = None \<longleftrightarrow> ledger_view d j = None)) \<and>
    (ledger_view d identity = None \<longrightarrow> ledger_view d' identity = None)"
      using rewrite_for_identity [OF ok files f3 keys same pinv trust gen q rw4]
      unfolding map_of_bt_remove fun_upd_same option.map by blast
    show ?thesis
    proof (cases r4)
      case (Inl e)
      with rw r4 show ?thesis by simp
    next
      case (Inr u)
      with rw r4 had show ?thesis by simp
    qed
  qed
qed

lemma retained_get:
  assumes "provenance_inv p"
  shows "bt_get (pl_records (retain_canonical_main_provenance records (retain_current_generation (Some g) p))) j =
    (if bt_get records j = Some LR_Canonical \<and> is_signal_only p j g then Some (PV_SignalOnly g) else None)"
  using retain_current_get [OF assms, of "Some g" j]
  by (auto simp: retain_canonical_main_provenance_def is_signal_only_def split: option.splits provenance_record.splits if_splits)

lemma retained_wf:
  "provenance_inv p \<Longrightarrow> bt_wf (pl_records (retain_canonical_main_provenance records (retain_current_generation g p)))"
  by (simp add: retain_canonical_main_provenance_def retain_current_wf)

lemma all_signal_only_map_of:
  assumes "bt_wf rs" and "\<And>j r. bt_get rs j = Some r \<Longrightarrow> \<exists>g. r = PV_SignalOnly g \<and> valid_generation g"
  shows "all_signal_only rs"
  unfolding all_signal_only_def using assms(2) bt_wf_distinct [OF assms(1)] by (fastforce dest: map_of_is_SomeI)

lemma promote_views:
  assumes ok: "disk_ok d" and run: "promote_freezeit_signal_stop_at_path identity d = (r, d')"
  shows "follows d d' \<and>
    (quiet d \<longrightarrow> (\<exists>b. r = Inr b)) \<and>
    (r = Inr True \<longrightarrow> ledger_view d identity \<noteq> None \<and> ledger_view d' = (ledger_view d)(identity \<mapsto> SO_SignalOnly)) \<and>
    (r \<noteq> Inr True \<longrightarrow> ledger_view d' = ledger_view d)"
proof -
  obtain r1 d1 where rl: "read_signal_stop_ledger d = (r1, d1)" by (cases "read_signal_stop_ledger d")
  note c1 = read_ledger_cases [OF rl]
  show ?thesis
  proof (cases "\<exists>records. r1 = Inr records \<and> bt_get records identity = Some LR_Canonical")
    case False
    with run rl have "d' = d1" "r = (case r1 of Inl e \<Rightarrow> Inl e | Inr _ \<Rightarrow> Inr False)"
      by (cases r1; simp add: promote_freezeit_signal_stop_at_path_def)+
    with c1 view_same_files [of d1 d] show ?thesis by (auto split: sum.splits)
  next
    case True
    then obtain records where r1: "r1 = Inr records" and canon: "bt_get records identity = Some LR_Canonical"
      by blast
    with c1 ok have records: "records = main_records d" by auto
    obtain rg d2 where gn: "signal_stop_ledger_generation d1 = (rg, d2)" by (cases "signal_stop_ledger_generation d1")
    note c2 = generation_cases [OF gn]
    have f2: "follows d d2" using c1 c2 by (blast intro: follows_trans)
    have files2: "dk_file d2 = dk_file d" using c1 c2 by simp
    show ?thesis
    proof (cases rg)
      case (Inl e)
      with run rl r1 canon gn have "r = Inr False" "d' = d2"
        by (simp_all add: promote_freezeit_signal_stop_at_path_def)
      with f2 files2 view_same_files [of d2 d] show ?thesis by auto
    next
      case (Inr g)
      note rg = Inr
      obtain p0 d3 where rp: "read_signal_stop_provenance d2 = (p0, d3)" by (cases "read_signal_stop_provenance d2")
      note c3 = read_provenance_cases [OF rp]
      have f3: "follows d d3" using f2 c3 by (blast intro: follows_trans)
      have files3: "dk_file d3 = dk_file d" using files2 c3 by simp
      have ok3: "disk_ok d3" using ok f3 by (simp add: follows_def)
      show ?thesis
      proof (cases "sidecar_allows_promotion p0 identity g")
        case False
        with run rl r1 canon gn rg rp have "r = Inr False" "d' = d3"
          by (simp_all add: promote_freezeit_signal_stop_at_path_def)
        with f3 files3 view_same_files [of d3 d] show ?thesis by auto
      next
        case True
        let ?p1 = "retain_canonical_main_provenance records (retain_current_generation (Some g) p0)"
        let ?rs = "bt_insert identity (PV_SignalOnly g) (pl_records ?p1)"
        obtain r4 d4 where w4: "write_signal_stop_ledger_file Side_Ledger (provenance_lines ?rs) d3 = (r4, d4)"
          by (cases "write_signal_stop_ledger_file Side_Ledger (provenance_lines ?rs) d3")
        note c4 = write_file_cases [OF w4]
        from run rl r1 canon gn rg rp True w4
        have r: "r = (case r4 of Inl e \<Rightarrow> Inl e | Inr _ \<Rightarrow> Inr True)" "d' = d4"
          by (auto simp: promote_freezeit_signal_stop_at_path_def Let_def split: sum.splits)
        have f4: "follows d d4" using f3 c4 by (blast intro: follows_trans)
        show ?thesis
        proof (cases r4)
          case (Inl e)
          have "dk_file d4 f = dk_file d f" for f
            using c4 Inl files3 by (cases "f = Side_Ledger") auto
          then have "ledger_view d4 = ledger_view d" by (intro view_same_files ext)
          moreover have "\<not> quiet d" using Inl c4 f3 by (auto simp: follows_def)
          ultimately show ?thesis using r Inl f4 by simp
        next
          case (Inr u)
          have p0: "p0 = side_provenance d"
            using c3 True ok f2 files2 by (auto simp: sidecar_allows_promotion_def side_provenance_def follows_def)
          have inv: "provenance_inv p0" using c3 by simp
          have g: "main_generation d = Some g" using c2 rg c1 by (simp add: main_generation_def)
          have vg: "valid_generation g" using disk_ok_main_generation [OF ok g] .
          have get: "bt_get ?rs j = (if j = identity \<or> (bt_get records j = Some LR_Canonical \<and> is_signal_only p0 j g)
              then Some (PV_SignalOnly g) else None)" for j
            by (simp add: retained_get [OF inv])
          have wf: "bt_wf ?rs" by (simp add: retained_wf [OF inv])
          have keys: "valid_keys ?rs"
            using main_records_inv [of d] records canon get by (auto simp: valid_keys_def dom_def split: if_splits)
          have sigs: "all_signal_only ?rs"
            using get vg by (intro all_signal_only_map_of [OF wf]) (auto split: if_splits)
          have ne: "?rs \<noteq> []"
          proof
            assume "?rs = []"
            then have "bt_get ?rs identity = None" by (simp only: map_of.simps)
            with get [of identity] show False by simp
          qed
          have side: "file_holds d4 Side_Ledger (provenance_lines ?rs)" using c4 ok3 Inr by simp
          have main: "main_records d4 = main_records d" "main_generation d4 = main_generation d"
            using c4 files3 by (simp_all add: main_records_def main_generation_def)
          have "ledger_view d4 j = ((ledger_view d)(identity \<mapsto> SO_SignalOnly)) j" for j
            using holds_side [OF side wf keys sigs ne, of j] get [of j] main g p0 records canon
            by (auto simp: ledger_view_def is_signal_only_def split: option.split)
          then have "ledger_view d4 = (ledger_view d)(identity \<mapsto> SO_SignalOnly)" by blast
          moreover have "ledger_view d identity \<noteq> None" using canon records by (simp add: view_dom)
          ultimately show ?thesis using r Inr f4 by auto
        qed
      qed
    qed
  qed
qed

lemma recorded_ownership_view:
  assumes ok: "disk_ok d" and run: "recorded_signal_stop_ownership_from_ledger identity d = (r, d')"
  shows "follows d d' \<and> dk_file d' = dk_file d \<and> (quiet d \<longrightarrow> r = Inr (ledger_view d identity)) \<and>
    (r = Inr (Some SO_SignalOnly) \<longrightarrow> ledger_view d identity = Some SO_SignalOnly)"
proof -
  obtain r1 d1 where rl: "read_signal_stop_ledger d = (r1, d1)" by (cases "read_signal_stop_ledger d")
  note c1 = read_ledger_cases [OF rl]
  show ?thesis
  proof (cases r1)
    case (Inl e)
    with run rl c1 show ?thesis by (auto simp: recorded_signal_stop_ownership_from_ledger_def)
  next
    case (Inr records)
    with c1 ok have records: "records = main_records d" by auto
    show ?thesis
    proof (cases "bt_get records identity")
      case None
      with run rl c1 Inr records show ?thesis
        by (auto simp: recorded_signal_stop_ownership_from_ledger_def ledger_view_def)
    next
      case (Some rec)
      obtain rg d2 where gn: "signal_stop_ledger_generation d1 = (rg, d2)" by (cases "signal_stop_ledger_generation d1")
      note c2 = generation_cases [OF gn]
      have f2: "follows d d2" using c1 c2 by (blast intro: follows_trans)
      have gen1: "main_generation d1 = main_generation d" using c1 by (simp add: main_generation_def)
      obtain p d3 where rp: "read_signal_stop_provenance d2 = (p, d3)" by (cases "read_signal_stop_provenance d2")
      note c3 = read_provenance_cases [OF rp]
      have f3: "follows d d3" using f2 c3 by (blast intro: follows_trans)
      have side2: "side_provenance d2 = side_provenance d" using c1 c2 by (simp add: side_provenance_def)
      have ok2: "disk_ok d2" using ok f2 by (simp add: follows_def)
      have quiet1: "quiet d \<Longrightarrow> quiet d1" "quiet d \<Longrightarrow> quiet d2" using c1 f2 by (simp_all add: follows_def)
      show ?thesis
      proof (cases "rec = LR_Canonical \<and> (\<exists>g. rg = Inr g)")
        case False
        with run rl Inr Some gn have "r = Inr (Some SO_ResidualUnknown)" "d' = d2"
          by (auto simp: recorded_signal_stop_ownership_from_ledger_def ok_option_def split: sum.splits bool.splits)
        moreover have "ledger_view d identity = Some SO_ResidualUnknown" if "quiet d"
        proof -
          have "ok_option rg = main_generation d" using c2 quiet1 that gen1 by simp
          with False Some records show ?thesis
            by (cases rg) (auto simp: ledger_view_def ok_option_def)
        qed
        ultimately show ?thesis using f2 c1 c2 by auto
      next
        case True
        then obtain g where g: "rg = Inr g" and canon: "rec = LR_Canonical" by blast
        with run rl Inr Some gn rp
        have r: "r = Inr (Some (if is_signal_only p identity g then SO_SignalOnly else SO_ResidualUnknown))" "d' = d3"
          by (auto simp: recorded_signal_stop_ownership_from_ledger_def ok_option_def)
        have "main_generation d = Some g" using c2 g gen1 by simp
        with canon Some records
        have view: "ledger_view d identity =
            Some (if is_signal_only (side_provenance d) identity g then SO_SignalOnly else SO_ResidualUnknown)"
          by (simp add: ledger_view_def)
        have "p = side_provenance d \<or> pl_globally_untrusted p" using c3 ok2 side2 by simp
        moreover have "quiet d \<Longrightarrow> p = side_provenance d" using c3 quiet1 side2 by simp
        ultimately show ?thesis using r view f3 c1 c2 c3 by (auto simp: is_signal_only_def split: if_splits)
      qed
    qed
  qed
qed

end
