(* ===== verification/Stop_Ledger.thy ===== *)
theory Stop_Ledger
  imports Ledger_Laws
begin

text \<open>
  The contract of the stop ledger, which its clients (\<^verbatim>\<open>sys/signal.rs\<close> and the
  controller) rely on, as a locale interpreted on the file operations; and
  \<^verbatim>\<open>sys/signal.rs\<close> itself, with \<^verbatim>\<open>kill(2)\<close> as a parameter.
\<close>

datatype 'k ledger_command = Record_Stop 'k | Promote_Stop 'k | Take_Stop 'k

fun command_key :: "'k ledger_command \<Rightarrow> 'k" where
  "command_key (Record_Stop k) = k"
| "command_key (Promote_Stop k) = k"
| "command_key (Take_Stop k) = k"

fun ledger_step ::
  "('k \<Rightarrow> 'd \<Rightarrow> 'd) \<Rightarrow> ('k \<Rightarrow> 'd \<Rightarrow> 'd) \<Rightarrow> ('k \<Rightarrow> 'd \<Rightarrow> 'd) \<Rightarrow> 'k ledger_command \<Rightarrow> 'd \<Rightarrow> 'd" where
  "ledger_step rec promote tak (Record_Stop k) = rec k"
| "ledger_step rec promote tak (Promote_Stop k) = promote k"
| "ledger_step rec promote tak (Take_Stop k) = tak k"

text \<open>
  Recording and taking never promote an identity, whatever fails on the way; they change at most the
  presence of the identity they are about; promoting either does nothing or promotes an identity that
  is already recorded.
\<close>

locale stop_ledger =
  fixes view :: "'d \<Rightarrow> 'k \<Rightarrow> signal_stop_ownership option"
    and ok :: "'d \<Rightarrow> bool"
    and valid :: "'k \<Rightarrow> bool"
    and rec :: "'k \<Rightarrow> 'd \<Rightarrow> 'd"
    and promote :: "'k \<Rightarrow> 'd \<Rightarrow> 'd"
    and tak :: "'k \<Rightarrow> 'd \<Rightarrow> 'd"
  assumes rec_ok: "ok d \<Longrightarrow> valid k \<Longrightarrow> ok (rec k d)"
    and promote_ok: "ok d \<Longrightarrow> valid k \<Longrightarrow> ok (promote k d)"
    and tak_ok: "ok d \<Longrightarrow> valid k \<Longrightarrow> ok (tak k d)"
    and rec_only: "ok d \<Longrightarrow> valid k \<Longrightarrow> view (rec k d) j = Some SO_SignalOnly \<Longrightarrow> view d j = Some SO_SignalOnly"
    and tak_only: "ok d \<Longrightarrow> valid k \<Longrightarrow> view (tak k d) j = Some SO_SignalOnly \<Longrightarrow> view d j = Some SO_SignalOnly"
    and rec_frame: "ok d \<Longrightarrow> valid k \<Longrightarrow> j \<noteq> k \<Longrightarrow> view (rec k d) j = None \<longleftrightarrow> view d j = None"
    and tak_frame: "ok d \<Longrightarrow> valid k \<Longrightarrow> j \<noteq> k \<Longrightarrow> view (tak k d) j = None \<longleftrightarrow> view d j = None"
    and tak_absent: "ok d \<Longrightarrow> valid k \<Longrightarrow> view d k = None \<Longrightarrow> view (tak k d) k = None"
    and promote_law: "ok d \<Longrightarrow> valid k \<Longrightarrow>
      view (promote k d) = view d \<or> (view d k \<noteq> None \<and> view (promote k d) = (view d)(k \<mapsto> SO_SignalOnly))"
begin

lemma step_ok: "ok d \<Longrightarrow> valid (command_key c) \<Longrightarrow> ok (ledger_step rec promote tak c d)"
  by (cases c) (simp_all add: rec_ok promote_ok tak_ok)

lemma step_frame:
  assumes "ok d" and "valid (command_key c)" and "command_key c \<noteq> j"
  shows "view (ledger_step rec promote tak c d) j = None \<longleftrightarrow> view d j = None"
proof (cases c)
  case (Promote_Stop k)
  with assms promote_law [of d k] show ?thesis by auto
qed (use assms rec_frame tak_frame in simp_all)

lemma step_only:
  assumes "ok d" and "valid (command_key c)" and "view (ledger_step rec promote tak c d) j = Some SO_SignalOnly"
    and "c \<noteq> Promote_Stop j"
  shows "view d j = Some SO_SignalOnly"
proof (cases c)
  case (Promote_Stop k)
  with assms promote_law [of d k] show ?thesis by auto
next
  case (Record_Stop k)
  with assms rec_only [of d k j] show ?thesis by simp
next
  case (Take_Stop k)
  with assms tak_only [of d k j] show ?thesis by simp
qed

lemma step_presence:
  assumes "ok d" and "valid (command_key c)" and "view (ledger_step rec promote tak c d) j \<noteq> None"
    and "view d j = None"
  shows "c = Record_Stop j"
proof (cases "command_key c = j")
  case True
  show ?thesis
  proof (cases c)
    case (Promote_Stop k)
    with True assms promote_law [of d k] show ?thesis by auto
  next
    case (Take_Stop k)
    with True assms tak_absent [of d k] show ?thesis by simp
  qed (use True in simp)
next
  case False
  from step_frame [OF assms(1,2) False] assms(3,4) show ?thesis by blast
qed

lemma run_frame:
  assumes "ok d" and "\<forall>c \<in> set cs. valid (command_key c)" and "\<forall>c \<in> set cs. command_key c \<noteq> j"
  shows "view (fold (ledger_step rec promote tak) cs d) j = None \<longleftrightarrow> view d j = None"
  using assms
proof (induction cs arbitrary: d)
  case (Cons c cs)
  then show ?case using step_frame [of d c j] step_ok [of d c] by simp
qed simp

text \<open>A promoted identity was recorded and later promoted during the run.\<close>

lemma run_promoted:
  assumes "ok d" and "\<forall>c \<in> set cs. valid (command_key c)"
    and "view (fold (ledger_step rec promote tak) cs d) j = Some SO_SignalOnly"
    and "view d j \<noteq> Some SO_SignalOnly"
  shows "if view d j = None then subseq [Record_Stop j, Promote_Stop j] cs else Promote_Stop j \<in> set cs"
  using assms
proof (induction cs arbitrary: d)
  case (Cons c cs)
  let ?d = "ledger_step rec promote tak c d"
  have ok: "ok ?d" using Cons.prems step_ok by simp
  show ?case
  proof (cases "view ?d j = Some SO_SignalOnly")
    case True
    with Cons.prems step_only [of d c j] have c: "c = Promote_Stop j" by auto
    with True Cons.prems promote_law [of d j] have "view d j \<noteq> None" by auto
    with c show ?thesis by (cases "view d j") simp_all
  next
    case False
    note IH = Cons.IH [OF ok _ _ False]
    show ?thesis
    proof (cases "view d j = None")
      case absent: True
      show ?thesis
      proof (cases "view ?d j = None")
        case True
        with IH Cons.prems have "subseq [Record_Stop j, Promote_Stop j] cs" by simp
        then have "subseq [Record_Stop j, Promote_Stop j] (c # cs)" by (rule list_emb_Cons)
        with absent show ?thesis by simp
      next
        case False
        with Cons.prems absent step_presence [of d c j] have "c = Record_Stop j" by simp
        moreover from IH False Cons.prems have "Promote_Stop j \<in> set cs" by simp
        ultimately show ?thesis using absent by (simp add: subseq_singleton_left)
      qed
    next
      case False
      have "Promote_Stop j \<in> set cs"
      proof (cases "view ?d j = None")
        case True
        with IH Cons.prems have "subseq [Record_Stop j, Promote_Stop j] cs" by simp
        from list_emb_set [OF this, of "Promote_Stop j"] show ?thesis by auto
      qed (use IH Cons.prems in simp)
      with False show ?thesis by (simp only: if_False list.set insert_iff simp_thms)
    qed
  qed
qed simp

end

subsection \<open>The files provide the contract\<close>

definition record_stop :: "stop_identity \<Rightarrow> disk \<Rightarrow> disk" where
  "record_stop k d = snd (record_freezeit_signal_stop_at_path k d)"

definition promote_stop :: "stop_identity \<Rightarrow> disk \<Rightarrow> disk" where
  "promote_stop k d = snd (promote_freezeit_signal_stop_at_path k d)"

definition take_stop :: "stop_identity \<Rightarrow> disk \<Rightarrow> disk" where
  "take_stop k d = snd (take_freezeit_signal_stop_at_path k d)"

lemma record_stop_views:
  "disk_ok d \<Longrightarrow> valid_identity k \<Longrightarrow> follows d (record_stop k d) \<and>
    (\<forall>j. ledger_view (record_stop k d) j = Some SO_SignalOnly \<longrightarrow> ledger_view d j = Some SO_SignalOnly) \<and>
    (\<forall>j. j \<noteq> k \<longrightarrow> (ledger_view (record_stop k d) j = None \<longleftrightarrow> ledger_view d j = None))"
  unfolding record_stop_def
  by (cases "record_freezeit_signal_stop_at_path k d") (use record_views in auto)

lemma take_stop_views:
  "disk_ok d \<Longrightarrow> follows d (take_stop k d) \<and>
    (\<forall>j. ledger_view (take_stop k d) j = Some SO_SignalOnly \<longrightarrow> ledger_view d j = Some SO_SignalOnly) \<and>
    (\<forall>j. j \<noteq> k \<longrightarrow> (ledger_view (take_stop k d) j = None \<longleftrightarrow> ledger_view d j = None)) \<and>
    (ledger_view d k = None \<longrightarrow> ledger_view (take_stop k d) k = None)"
  unfolding take_stop_def
  by (cases "take_freezeit_signal_stop_at_path k d") (use take_views in auto)

lemma promote_stop_views:
  "disk_ok d \<Longrightarrow> follows d (promote_stop k d) \<and>
    (ledger_view (promote_stop k d) = ledger_view d \<or>
     ledger_view d k \<noteq> None \<and> ledger_view (promote_stop k d) = (ledger_view d)(k \<mapsto> SO_SignalOnly))"
  unfolding promote_stop_def
  by (cases "promote_freezeit_signal_stop_at_path k d") (use promote_views in fastforce)

interpretation sigstop: stop_ledger ledger_view disk_ok valid_identity record_stop promote_stop take_stop
proof unfold_locales
  fix d k j
  assume ok: "disk_ok d"
  show "disk_ok (promote_stop k d)" "disk_ok (take_stop k d)"
    using ok promote_stop_views [OF ok, of k] take_stop_views [OF ok, of k] by (simp_all add: follows_def)
  show "ledger_view (take_stop k d) j = Some SO_SignalOnly \<Longrightarrow> ledger_view d j = Some SO_SignalOnly"
    "j \<noteq> k \<Longrightarrow> (ledger_view (take_stop k d) j = None) = (ledger_view d j = None)"
    "ledger_view d k = None \<Longrightarrow> ledger_view (take_stop k d) k = None"
    using take_stop_views [OF ok, of k] by blast+
  show "ledger_view (promote_stop k d) = ledger_view d \<or>
      ledger_view d k \<noteq> None \<and> ledger_view (promote_stop k d) = (ledger_view d)(k \<mapsto> SO_SignalOnly)"
    using promote_stop_views [OF ok, of k] by simp
  assume v: "valid_identity k"
  show "disk_ok (record_stop k d)" using ok record_stop_views [OF ok v] by (simp add: follows_def)
  show "ledger_view (record_stop k d) j = Some SO_SignalOnly \<Longrightarrow> ledger_view d j = Some SO_SignalOnly"
    "j \<noteq> k \<Longrightarrow> (ledger_view (record_stop k d) j = None) = (ledger_view d j = None)"
    using record_stop_views [OF ok v] by blast+
qed

text \<open>A disk without ledger files, whose calls meet the given faults.\<close>

definition fresh_disk :: "io_error option list \<Rightarrow> disk" where
  "fresh_disk faults =
    \<lparr>dk_file = (\<lambda>_. None), dk_temp = (\<lambda>_. None), dk_faults = faults,
     dk_alloc = (\<lambda>n. Generation 1 (n mod 2 ^ 32)), dk_made = 0\<rparr>"

definition disk_full :: io_error where
  "disk_full = \<lparr>io_kind = OtherIo, io_message = ''No space left on device (os error 28)''\<rparr>"

lemma fresh_disk_ok:
  assumes "\<forall>e. Some e \<in> set faults \<longrightarrow> io_kind e \<noteq> NotFound"
  shows "disk_ok (fresh_disk faults)"
proof -
  have "n mod 2 ^ 32 < 2 ^ 64" for n :: nat
    by (rule less_le_trans [of _ "2 ^ 32"]) simp_all
  with assms show ?thesis by (simp add: disk_ok_def fresh_disk_def valid_generation_def)
qed

lemma fresh_disk_view [simp]: "ledger_view (fresh_disk faults) j = None"
  by (simp add: ledger_view_def main_records_def fresh_disk_def)

text \<open>
  C7.  The ledger never promotes by accident.  Whatever sequence of record, promote and take runs, and
  whichever of their file system calls fail, an identity that was not in the ledger before is found
  \<open>SO_SignalOnly\<close> afterwards only when it was recorded and then promoted in that order; an identity no
  operation is about keeps its presence.
\<close>

theorem ledger_never_promotes_by_accident:
  assumes "disk_ok d" and "\<forall>c \<in> set cs. valid_identity (command_key c)"
    and "d' = fold (ledger_step record_stop promote_stop take_stop) cs d"
  shows "(ledger_view d j = None \<longrightarrow> ledger_view d' j = Some SO_SignalOnly \<longrightarrow>
           subseq [Record_Stop j, Promote_Stop j] cs) \<and>
         (j \<notin> command_key ` set cs \<longrightarrow> (ledger_view d' j = None \<longleftrightarrow> ledger_view d j = None))"
proof (intro conjI impI)
  show "subseq [Record_Stop j, Promote_Stop j] cs"
    if "ledger_view d j = None" "ledger_view d' j = Some SO_SignalOnly"
    using sigstop.run_promoted [OF assms(1,2), of j] that by (simp add: assms(3))
  show "ledger_view d' j = None \<longleftrightarrow> ledger_view d j = None" if "j \<notin> command_key ` set cs"
    unfolding assms(3) by (rule sigstop.run_frame [OF assms(1,2)]) (use that in blast)
qed

theorem ledger_never_promotes_by_accident_witness:
  "ledger_view (fold (ledger_step record_stop promote_stop take_stop)
      [Record_Stop (7, 99), Promote_Stop (8, 5)] (fresh_disk [None, None, Some disk_full])) (9, 1) = None"
proof -
  have "disk_ok (fresh_disk [None, None, Some disk_full])"
    by (rule fresh_disk_ok) (simp add: disk_full_def)
  moreover have "\<forall>c \<in> set [Record_Stop (7, 99), Promote_Stop (8, 5)]. valid_identity (command_key c)"
    by (simp add: valid_identity_def is_i32_def)
  ultimately show ?thesis
    using ledger_never_promotes_by_accident
      [of "fresh_disk [None, None, Some disk_full]" "[Record_Stop (7, 99), Promote_Stop (8, 5)]" _ "(9, 1)", OF _ _ refl]
    by simp
qed

lemma ledger_map_laws:
  assumes "disk_ok d" and "quiet d" and "valid_identity k"
  shows "fst (record_freezeit_signal_stop_at_path k d) = Inr () \<and>
         ledger_view (record_stop k d) = (ledger_view d)(k \<mapsto> SO_ResidualUnknown)"
    and "fst (take_freezeit_signal_stop_at_path k d) = Inr (ledger_view d k \<noteq> None) \<and>
         ledger_view (take_stop k d) = (ledger_view d)(k := None)"
    and "ledger_view (promote_stop k d) =
         (if fst (promote_freezeit_signal_stop_at_path k d) = Inr True
          then (ledger_view d)(k \<mapsto> SO_SignalOnly) else ledger_view d)"
    and "fst (recorded_signal_stop_ownership_from_ledger k d) = Inr (ledger_view d k)"
proof -
  show "fst (record_freezeit_signal_stop_at_path k d) = Inr () \<and>
         ledger_view (record_stop k d) = (ledger_view d)(k \<mapsto> SO_ResidualUnknown)"
    unfolding record_stop_def
    by (cases "record_freezeit_signal_stop_at_path k d") (use record_views [OF assms(1,3)] assms(2) in auto)
  show "fst (take_freezeit_signal_stop_at_path k d) = Inr (ledger_view d k \<noteq> None) \<and>
         ledger_view (take_stop k d) = (ledger_view d)(k := None)"
    unfolding take_stop_def
    by (cases "take_freezeit_signal_stop_at_path k d") (use take_views [OF assms(1)] assms(2) in auto)
  show "ledger_view (promote_stop k d) =
         (if fst (promote_freezeit_signal_stop_at_path k d) = Inr True
          then (ledger_view d)(k \<mapsto> SO_SignalOnly) else ledger_view d)"
    unfolding promote_stop_def
    by (cases "promote_freezeit_signal_stop_at_path k d") (use promote_views [OF assms(1)] in auto)
  show "fst (recorded_signal_stop_ownership_from_ledger k d) = Inr (ledger_view d k)"
    by (cases "recorded_signal_stop_ownership_from_ledger k d")
      (use recorded_ownership_view [OF assms(1)] assms(2) in auto)
qed

text \<open>
  C8.  When no file system call fails the three operations refine updates of a map from identities to
  ownership: recording makes an identity \<open>SO_ResidualUnknown\<close>, taking removes it and tells whether it
  was there, promoting makes a recorded identity \<open>SO_SignalOnly\<close> or refuses and changes nothing, and
  every other identity keeps its ownership although each rewrite replaces the main file.
\<close>

theorem ledger_refines_map:
  assumes "disk_ok d" and "quiet d" and "valid_identity k"
  shows "(fst (record_freezeit_signal_stop_at_path k d) = Inr () \<and>
         ledger_view (record_stop k d) = (ledger_view d)(k \<mapsto> SO_ResidualUnknown)) \<and>
         (fst (take_freezeit_signal_stop_at_path k d) = Inr (ledger_view d k \<noteq> None) \<and>
         ledger_view (take_stop k d) = (ledger_view d)(k := None)) \<and>
         ledger_view (promote_stop k d) =
         (if fst (promote_freezeit_signal_stop_at_path k d) = Inr True
          then (ledger_view d)(k \<mapsto> SO_SignalOnly) else ledger_view d) \<and>
         fst (recorded_signal_stop_ownership_from_ledger k d) = Inr (ledger_view d k)"
  using ledger_map_laws [OF assms] by blast

theorem ledger_refines_map_witness:
  "ledger_view (record_stop (7, 99) (fresh_disk [])) = [(7, 99) \<mapsto> SO_ResidualUnknown]"
proof -
  have "disk_ok (fresh_disk [])" by (rule fresh_disk_ok) simp
  moreover have "quiet (fresh_disk [])" by (simp add: quiet_def fresh_disk_def)
  moreover have "valid_identity (7, 99)" by (simp add: valid_identity_def is_i32_def)
  ultimately have "ledger_view (record_stop (7, 99) (fresh_disk [])) =
      (ledger_view (fresh_disk []))((7, 99) \<mapsto> SO_ResidualUnknown)"
    using ledger_refines_map by blast
  then show ?thesis by (simp add: fun_eq_iff)
qed

subsection \<open>Signals\<close>

definition sigstop_number :: i32 where "sigstop_number = 19"
definition sigcont_number :: i32 where "sigcont_number = 18"

datatype signal_action = SA_Stop | SA_Continue

definition signal_number :: "signal_action \<Rightarrow> i32" where
  "signal_number action = (case action of SA_Stop \<Rightarrow> sigstop_number | SA_Continue \<Rightarrow> sigcont_number)"

definition is_signal_allowed :: "bool \<Rightarrow> i32 \<Rightarrow> bool" where
  "is_signal_allowed test_mode pid \<longleftrightarrow> test_mode \<and> pid > 0"

text \<open>The kernel as a signal sender sees it: what \<^verbatim>\<open>kill\<close> answers for a pid and a signal
  number, and what successive reads of the process's \<^verbatim>\<open>stat\<close> file return.\<close>

record signal_env =
  sg_kill :: "i32 \<Rightarrow> i32 \<Rightarrow> io_error option"
  sg_stat :: "nat \<Rightarrow> io_error + string"

definition send_raw_signal :: "signal_env \<Rightarrow> i32 \<Rightarrow> signal_action \<Rightarrow> unit res" where
  "send_raw_signal env pid action =
     (case sg_kill env pid (signal_number action) of None \<Rightarrow> Inr () | Some e \<Rightarrow> Inl (Io_Error e))"

definition start_time_read :: "signal_env \<Rightarrow> nat \<Rightarrow> u64 res" where
  "start_time_read env n =
     (case io_res (sg_stat env n) of Inl e \<Rightarrow> Inl e | Inr stat \<Rightarrow> parse_process_start_time stat)"

definition record_freezeit_signal_stop :: "signal_env \<Rightarrow> nat \<Rightarrow> i32 \<Rightarrow> disk \<Rightarrow> unit res \<times> disk" where
  "record_freezeit_signal_stop env n pid d =
     (case start_time_read env n of
        Inl e \<Rightarrow> (Inl e, d) | Inr start \<Rightarrow> record_freezeit_signal_stop_at_path (pid, start) d)"

definition take_freezeit_signal_stop :: "signal_env \<Rightarrow> nat \<Rightarrow> i32 \<Rightarrow> disk \<Rightarrow> bool res \<times> disk" where
  "take_freezeit_signal_stop env n pid d =
     (case start_time_read env n of
        Inl e \<Rightarrow> (Inl e, d) | Inr start \<Rightarrow> take_freezeit_signal_stop_at_path (pid, start) d)"

definition clear_freezeit_signal_stop :: "signal_env \<Rightarrow> nat \<Rightarrow> i32 \<Rightarrow> disk \<Rightarrow> unit res \<times> disk" where
  "clear_freezeit_signal_stop env n pid d =
     (case take_freezeit_signal_stop env n pid d of
        (Inl e, d') \<Rightarrow> (Inl e, d') | (Inr _, d') \<Rightarrow> (Inr (), d'))"

text \<open>The result, the disk, and the signals that were attempted in order.\<close>

definition send_stop :: "signal_env \<Rightarrow> i32 \<Rightarrow> disk \<Rightarrow> unit res \<times> disk \<times> signal_action list" where
  "send_stop env pid d =
     (case send_raw_signal env pid SA_Stop of
        Inl e \<Rightarrow> (Inl e, d, [SA_Stop])
      | Inr _ \<Rightarrow>
          (case record_freezeit_signal_stop env 0 pid d of
             (Inr _, d') \<Rightarrow> (Inr (), d', [SA_Stop])
           | (Inl ledger_error, d') \<Rightarrow>
               (Inl (System_Error
                  (case send_raw_signal env pid SA_Continue of
                     Inl rollback_error \<Rightarrow>
                       ''SIGSTOP succeeded but ownership ledger failed: '' @ show_error ledger_error
                       @ ''; SIGCONT rollback failed: '' @ show_error rollback_error
                   | Inr _ \<Rightarrow>
                       ''SIGSTOP succeeded but ownership ledger failed: '' @ show_error ledger_error
                       @ ''; SIGCONT rollback succeeded'')),
                d', [SA_Stop, SA_Continue])))"

definition send_continue :: "signal_env \<Rightarrow> i32 \<Rightarrow> disk \<Rightarrow> unit res \<times> disk \<times> signal_action list" where
  "send_continue env pid d =
     (case take_freezeit_signal_stop env 0 pid d of
        (Inl e, d1) \<Rightarrow> (Inl e, d1, [])
      | (Inr was_owned_stop, d1) \<Rightarrow>
          (case send_raw_signal env pid SA_Continue of
             Inr _ \<Rightarrow> (Inr (), d1, [SA_Continue])
           | Inl signal_error \<Rightarrow>
               if was_owned_stop then
                 (case record_freezeit_signal_stop env 1 pid d1 of
                    (Inr _, d2) \<Rightarrow> (Inl signal_error, d2, [SA_Continue])
                  | (Inl restore_error, d2) \<Rightarrow>
                      (Inl (System_Error (''SIGCONT failed: '' @ show_error signal_error
                         @ ''; failed to restore ownership ledger: '' @ show_error restore_error)),
                       d2, [SA_Continue]))
               else (Inl signal_error, d1, [SA_Continue])))"

definition send_signal ::
  "signal_env \<Rightarrow> i32 \<Rightarrow> signal_action \<Rightarrow> disk \<Rightarrow> unit res \<times> disk \<times> signal_action list" where
  "send_signal env pid action d =
     (if pid \<le> 0 then (Inl (System_Error ''refusing to signal non-positive pid''), d, [])
      else case action of SA_Stop \<Rightarrow> send_stop env pid d | SA_Continue \<Rightarrow> send_continue env pid d)"

lemma start_time_less: "start_time_read env n = Inr t \<Longrightarrow> t < 2 ^ 64"
  by (auto simp: start_time_read_def parse_process_start_time_def Let_def io_res_def
      dest: parse_u64_less split: sum.splits option.splits if_splits)

lemma identity_valid: "is_i32 pid \<Longrightarrow> start_time_read env n = Inr t \<Longrightarrow> valid_identity (pid, t)"
  using start_time_less [of env n t] by (simp add: valid_identity_def)


definition sample_signal_env :: signal_env where
  "sample_signal_env =
    \<lparr>sg_kill = (\<lambda>_ _. None),
     sg_stat = (\<lambda>_. Inr ''7 (x) S 1 2 3 4 5 6 7 8 9 10 11 12 13 14 15 16 17 18 99'')\<rparr>"

lemma sample_start: "start_time_read sample_signal_env n = Inr 99"
proof -
  have "parse_process_start_time ''7 (x) S 1 2 3 4 5 6 7 8 9 10 11 12 13 14 15 16 17 18 99'' = Inr 99"
    by code_simp
  then show ?thesis by (simp add: start_time_read_def sample_signal_env_def io_res_def)
qed

lemma sample_kill: "sg_kill sample_signal_env pid signal = None"
  by (simp add: sample_signal_env_def)


lemma continue_releases:
  assumes "disk_ok d" and "send_continue env pid d = (Inr (), d', sent)"
  shows "sg_kill env pid 18 = None \<and> sent = [SA_Continue] \<and>
    (\<exists>start. start_time_read env 0 = Inr start \<and> ledger_view d' (pid, start) = None)"
proof (cases "start_time_read env 0")
  case (Inl e)
  with assms(2) show ?thesis by (simp add: send_continue_def take_freezeit_signal_stop_def)
next
  case (Inr start)
  obtain r1 d1 where tk: "take_freezeit_signal_stop_at_path (pid, start) d = (r1, d1)"
    by (cases "take_freezeit_signal_stop_at_path (pid, start) d")
  note v = take_views [OF assms(1) tk]
  show ?thesis
    using assms(2) Inr tk v
    by (auto simp: send_continue_def take_freezeit_signal_stop_def send_raw_signal_def signal_number_def
        sigcont_number_def split: sum.splits option.splits if_splits prod.splits)
qed

end
