(* ===== verification/Frames.thy ===== *)
theory Frames
  imports Domain
begin

text \<open>
  The wire formats of the daemon: manager frames and the binary tables they carry
  (\<^verbatim>\<open>protocol/manager_v1.rs\<close>), and the frames of the hook bridge
  (\<^verbatim>\<open>protocol/xposed.rs\<close>).  The contract \<open>frame_codec\<close> states what a
  reader of a byte stream needs of a framing; both protocols provide it.
\<close>

subsection \<open>The framing contract\<close>

locale frame_codec =
  fixes encode :: "'c \<Rightarrow> bytes \<Rightarrow> bytes res"
    and parse :: "bytes \<Rightarrow> 'f res"
    and frame :: "'c \<Rightarrow> bytes \<Rightarrow> 'f"
    and limit :: nat
  assumes encode_limit: "is_ok (encode c p) \<longleftrightarrow> length p \<le> limit"
    and parse_encode: "encode c p = Inr b \<Longrightarrow> parse b = Inr (frame c p)"
    and parse_canonical: "parse b = Inr f \<Longrightarrow> \<exists>c p. f = frame c p \<and> encode c p = Inr b"
    and parse_prefix: "parse b = Inr f \<Longrightarrow> parse (b @ x) = Inr g \<Longrightarrow> x = []"
    and frame_inject: "frame c p = frame c' p' \<longleftrightarrow> c = c' \<and> p = p'"
begin

text \<open>A frame is accepted exactly when it is the encoding of the command and payload it yields.\<close>

lemma parse_iff: "parse b = Inr (frame c p) \<longleftrightarrow> encode c p = Inr b"
  using parse_encode parse_canonical frame_inject by metis

lemma parse_inject: "parse b = Inr f \<Longrightarrow> parse b' = Inr f \<Longrightarrow> b = b'"
  using parse_canonical frame_inject by (metis sum.inject(2))

lemma encode_inject: "encode c p = Inr b \<Longrightarrow> encode c' p' = Inr b \<Longrightarrow> c = c' \<and> p = p'"
  using parse_encode frame_inject by (metis sum.inject(2))

lemma parse_payload_bounded: "parse b = Inr (frame c p) \<Longrightarrow> length p \<le> limit"
  using parse_iff encode_limit by (metis is_ok_simps(1))

text \<open>No encoding is a proper prefix of another: cutting a frame short or reading past its end is
  always detected.\<close>

lemma encode_prefix_free: "encode c p = Inr b \<Longrightarrow> encode c' p' = Inr (b @ x) \<Longrightarrow> x = []"
  using parse_encode parse_prefix by blast

lemma truncation_rejected: "encode c p = Inr (b @ x) \<Longrightarrow> x \<noteq> [] \<Longrightarrow> \<not> is_ok (parse b)"
  using parse_encode parse_prefix by (metis is_ok_simps(2) obj_sumE)

lemma trailing_rejected: "encode c p = Inr b \<Longrightarrow> x \<noteq> [] \<Longrightarrow> \<not> is_ok (parse (b @ x))"
  using parse_encode parse_prefix by (metis is_ok_simps(2) obj_sumE)

end

subsection \<open>Manager frames\<close>

definition manager_header_len :: usize where "manager_header_len = 6"
definition manager_max_payload_len :: usize where "manager_max_payload_len = 1024 * 1024"

datatype manager_command =
    GetPropInfo | GetChangelog | GetLog | GetAppCfg | GetRealTimeInfo | GetSettings | GetUidTime
  | GetXpLog | GetFreezeStatus | SetAppCfg | SetAppLabel | SetSettingsVar | ClearLog | GetProcState
  | GetHealthReport | GetCapabilityReport | GetCompatibilityBaseline | GetOperationLogJson
  | RunSelfCheck

definition command_code :: "manager_command \<Rightarrow> u8" where
  "command_code command =
     (case command of
        GetPropInfo \<Rightarrow> 2 | GetChangelog \<Rightarrow> 3 | GetLog \<Rightarrow> 4 | GetAppCfg \<Rightarrow> 5
      | GetRealTimeInfo \<Rightarrow> 6 | GetSettings \<Rightarrow> 8 | GetUidTime \<Rightarrow> 9 | GetXpLog \<Rightarrow> 10
      | GetFreezeStatus \<Rightarrow> 11 | SetAppCfg \<Rightarrow> 21 | SetAppLabel \<Rightarrow> 22 | SetSettingsVar \<Rightarrow> 23
      | ClearLog \<Rightarrow> 61 | GetProcState \<Rightarrow> 62 | GetHealthReport \<Rightarrow> 71 | GetCapabilityReport \<Rightarrow> 72
      | GetCompatibilityBaseline \<Rightarrow> 73 | GetOperationLogJson \<Rightarrow> 74 | RunSelfCheck \<Rightarrow> 75)"

definition command_of_u8 :: "u8 \<Rightarrow> manager_command res" where
  "command_of_u8 v =
     (if v = 2 then Inr GetPropInfo
      else if v = 3 then Inr GetChangelog
      else if v = 4 then Inr GetLog
      else if v = 5 then Inr GetAppCfg
      else if v = 6 then Inr GetRealTimeInfo
      else if v = 8 then Inr GetSettings
      else if v = 9 then Inr GetUidTime
      else if v = 10 then Inr GetXpLog
      else if v = 11 then Inr GetFreezeStatus
      else if v = 21 then Inr SetAppCfg
      else if v = 22 then Inr SetAppLabel
      else if v = 23 then Inr SetSettingsVar
      else if v = 61 then Inr ClearLog
      else if v = 62 then Inr GetProcState
      else if v = 71 then Inr GetHealthReport
      else if v = 72 then Inr GetCapabilityReport
      else if v = 73 then Inr GetCompatibilityBaseline
      else if v = 74 then Inr GetOperationLogJson
      else if v = 75 then Inr RunSelfCheck
      else Inl (Protocol_Error (''unknown manager command '' @ show_nat (unat v))))"

record manager_frame =
  mf_command :: manager_command
  mf_payload :: bytes

definition checksum :: "bytes \<Rightarrow> u8" where
  "checksum payload = foldl (\<lambda>accumulator byte. Bit_Operations.xor accumulator byte) 0 payload"

definition payload_checksum :: "bytes \<Rightarrow> u8" where
  "payload_checksum payload = (if payload = [] then 0 else checksum payload)"

definition parse_manager_frame :: "bytes \<Rightarrow> manager_frame res" where
  "parse_manager_frame bytes =
     (if length bytes < manager_header_len
        then Inl (Protocol_Error ''manager frame header is incomplete'')
      else
        let payload_len = unat (u32_of_le [bytes ! 0, bytes ! 1, bytes ! 2, bytes ! 3])
        in if payload_len > manager_max_payload_len
             then Inl (Protocol_Error ''manager frame payload is too large'')
           else
             let expected_len = manager_header_len + payload_len
             in if length bytes \<noteq> expected_len
                  then Inl (Protocol_Error
                    (''manager frame length mismatch: expected '' @ show_nat expected_len
                      @ '', got '' @ show_nat (length bytes)))
                else
                  let payload = drop manager_header_len bytes
                  in if bytes ! 5 \<noteq> payload_checksum payload
                       then Inl (Protocol_Error ''manager frame checksum mismatch'')
                     else
                       case command_of_u8 (bytes ! 4) of
                         Inl e \<Rightarrow> Inl e
                       | Inr command \<Rightarrow> Inr \<lparr>mf_command = command, mf_payload = payload\<rparr>)"

definition encode_manager_frame :: "manager_command \<Rightarrow> bytes \<Rightarrow> bytes res" where
  "encode_manager_frame command payload =
     (if length payload > manager_max_payload_len
        then Inl (Protocol_Error ''manager frame payload is too large'')
      else Inr (u32_to_le (of_nat (length payload)) @ [command_code command, payload_checksum payload]
                @ payload))"

lemma command_code_roundtrip [simp]: "command_of_u8 (command_code c) = Inr c"
  by (cases c) (simp_all add: command_code_def command_of_u8_def)

lemma command_of_u8_Inr: "command_of_u8 v = Inr c \<longleftrightarrow> v = command_code c"
proof
  show "command_of_u8 v = Inr c \<Longrightarrow> v = command_code c"
    by (auto simp: command_of_u8_def command_code_def split: if_splits)
qed simp

lemma le_nat_inject: "length xs = length ys \<Longrightarrow> le_nat xs = le_nat ys \<Longrightarrow> xs = ys"
proof (induction xs ys rule: list_induct2)
  case (Cons x xs y ys)
  from Cons.prems have eq: "unat x + 256 * le_nat xs = unat y + 256 * le_nat ys" by simp
  have "unat x = unat y"
    using arg_cong [OF eq, of "\<lambda>n. n mod 256"] by simp
  with eq Cons.IH show ?case by (simp add: word_unat_eq_iff)
qed simp

lemma u32_to_le_of_le: "u32_to_le (u32_of_le [a, b, c, d]) = [a, b, c, d]"
proof (rule le_nat_inject)
  have "unat (of_nat (le_nat [a, b, c, d]) :: u32) = le_nat [a, b, c, d]"
    using le_nat_four_less [of a b c d] by (simp add: unat_of_nat del: le_nat_simps)
  then show "le_nat (u32_to_le (u32_of_le [a, b, c, d])) = le_nat [a, b, c, d]"
    unfolding le_nat_u32 by (simp add: u32_of_le_def)
qed simp

lemma unat_small_length: "n \<le> 1024 * 1024 \<Longrightarrow> unat (of_nat n :: u32) = n"
  by (simp add: unat_of_nat)

lemma four_bytes: "length b = 4 \<Longrightarrow> b = [b ! 0, b ! 1, b ! 2, b ! 3]"
  by (intro nth_equalityI) (auto simp: less_Suc_eq numeral_eq_Suc)

lemma parse_manager_frame_iff:
  "parse_manager_frame b = Inr f \<longleftrightarrow>
     length (mf_payload f) \<le> manager_max_payload_len \<and>
     b = u32_to_le (of_nat (length (mf_payload f)))
           @ [command_code (mf_command f), payload_checksum (mf_payload f)] @ mf_payload f"
    (is "?P \<longleftrightarrow> ?Q")
proof
  assume ?P
  then have len: "\<not> length b < 6"
    by (auto simp: parse_manager_frame_def manager_header_len_def split: if_splits)
  define n where "n = u32_of_le [b ! 0, b ! 1, b ! 2, b ! 3]"
  from \<open>?P\<close> len have l: "unat n \<le> manager_max_payload_len" "length b = 6 + unat n"
      "b ! 5 = payload_checksum (drop 6 b)" "command_of_u8 (b ! 4) = Inr (mf_command f)"
      "mf_payload f = drop 6 b"
    by (auto simp: parse_manager_frame_def manager_header_len_def Let_def n_def
        split: if_splits sum.splits)
  have "take 4 b = [take 4 b ! 0, take 4 b ! 1, take 4 b ! 2, take 4 b ! 3]"
    by (rule four_bytes) (use len in simp)
  then have head: "take 4 b = u32_to_le n"
    unfolding n_def by (simp add: u32_to_le_of_le)
  have "b = take 4 b @ [b ! 4, b ! 5] @ drop 6 b"
  proof -
    have "drop 4 b = b ! 4 # b ! 5 # drop 6 b"
      using len Cons_nth_drop_Suc [of 4 b] Cons_nth_drop_Suc [of 5 b] by simp
    then show ?thesis by (metis append_Cons append_Nil append_take_drop_id)
  qed
  with head l show ?Q by (simp add: command_of_u8_Inr)
next
  assume q: ?Q
  define p where "p = mf_payload f"
  define n :: u32 where "n = of_nat (length p)"
  from q have plen: "length p \<le> 1024 * 1024"
    by (simp add: manager_max_payload_len_def p_def)
  have n: "unat n = length p"
    unfolding n_def using plen by (rule unat_small_length)
  from q have b: "b = u32_to_le n @ [command_code (mf_command f), payload_checksum p] @ p"
    by (simp add: p_def n_def)
  obtain a1 a2 a3 a4 where a: "u32_to_le n = [a1, a2, a3, a4]"
    by (simp add: u32_to_le_def)
  have "u32_of_le [a1, a2, a3, a4] = n"
    using u32_le_roundtrip' [of n] by (simp add: a)
  then show ?P
    unfolding b a parse_manager_frame_def using plen n p_def
    by (simp add: manager_header_len_def manager_max_payload_len_def Let_def)
qed

definition manager_frame_of :: "manager_command \<Rightarrow> bytes \<Rightarrow> manager_frame" where
  "manager_frame_of command payload = \<lparr>mf_command = command, mf_payload = payload\<rparr>"

interpretation mgr: frame_codec encode_manager_frame parse_manager_frame manager_frame_of manager_max_payload_len
proof unfold_locales
  fix c p b
  show "is_ok (encode_manager_frame c p) \<longleftrightarrow> length p \<le> manager_max_payload_len"
    by (simp add: encode_manager_frame_def)
  show "encode_manager_frame c p = Inr b \<Longrightarrow> parse_manager_frame b = Inr (manager_frame_of c p)"
    by (auto simp: encode_manager_frame_def parse_manager_frame_iff manager_frame_of_def split: if_splits)
next
  fix b f x g
  assume f: "parse_manager_frame b = Inr f"
  then have "f = manager_frame_of (mf_command f) (mf_payload f)"
      "encode_manager_frame (mf_command f) (mf_payload f) = Inr b"
    by (auto simp: encode_manager_frame_def parse_manager_frame_iff manager_frame_of_def)
  then show "\<exists>c p. f = manager_frame_of c p \<and> encode_manager_frame c p = Inr b"
    by blast
  assume g: "parse_manager_frame (b @ x) = Inr g"
  define n m where "n = length (mf_payload f)" and "m = length (mf_payload g)"
  from f have b: "length b = 6 + n" "take 4 b = u32_to_le (of_nat n)" "n \<le> 1024 * 1024"
    by (auto simp: parse_manager_frame_iff manager_max_payload_len_def n_def)
  from g have bx: "length (b @ x) = 6 + m" "take 4 (b @ x) = u32_to_le (of_nat m)" "m \<le> 1024 * 1024"
    using arg_cong [where f = length and x = "b @ x"]
    by (auto simp: parse_manager_frame_iff manager_max_payload_len_def m_def)
  have "take 4 (b @ x) = take 4 b" using b(1) by simp
  with b(2) bx(2) have "u32_to_le (of_nat n) = u32_to_le (of_nat m)" by simp
  then have "(of_nat n :: u32) = of_nat m" by (metis u32_le_roundtrip')
  with unat_small_length [OF b(3)] unat_small_length [OF bx(3)] have "n = m" by metis
  with b(1) bx(1) show "x = []" by simp
qed (auto simp: manager_frame_of_def)

lemma foldl_xor: "foldl Bit_Operations.xor (a :: u8) xs = Bit_Operations.xor a (foldl Bit_Operations.xor 0 xs)"
proof (induction xs arbitrary: a)
  case (Cons x xs)
  show ?case
    using Cons.IH [of "Bit_Operations.xor a x"] Cons.IH [of x] by (simp add: xor.assoc)
qed simp

lemma checksum_Cons: "checksum (b # bs) = Bit_Operations.xor b (checksum bs)"
  using foldl_xor [of b bs] by (simp add: checksum_def)

lemma checksum_update:
  "i < length p \<Longrightarrow>
   checksum (p[i := v]) = Bit_Operations.xor (checksum p) (Bit_Operations.xor (p ! i) v)"
proof (induction p arbitrary: i)
  case (Cons b p)
  then show ?case
    by (cases i) (simp_all add: checksum_Cons ac_simps xor.left_commute)
qed simp

lemma corrupted_payload_rejected:
  assumes e: "encode_manager_frame c p = Inr b" and i: "i < length p" and v: "v \<noteq> p ! i"
  shows "\<not> is_ok (parse_manager_frame (b[6 + i := v]))"
proof
  assume "is_ok (parse_manager_frame (b[6 + i := v]))"
  then obtain f where f: "parse_manager_frame (b[6 + i := v]) = Inr f"
    by (cases "parse_manager_frame (b[6 + i := v])") auto
  from e have b: "b = u32_to_le (of_nat (length p)) @ [command_code c, payload_checksum p] @ p"
    by (simp add: encode_manager_frame_def split: if_splits)
  have upd: "b[6 + i := v] = u32_to_le (of_nat (length p)) @ [command_code c, payload_checksum p] @ p[i := v]"
    unfolding b by (simp add: list_update_append)
  from f have "payload_checksum (mf_payload f) = payload_checksum p" "mf_payload f = p[i := v]"
    unfolding parse_manager_frame_iff upd by auto
  then have "payload_checksum (p[i := v]) = payload_checksum p" by simp
  moreover have "p \<noteq> []" using i by auto
  ultimately have "checksum (p[i := v]) = checksum p" by (simp add: payload_checksum_def)
  then have "Bit_Operations.xor (checksum p) (Bit_Operations.xor (p ! i) v) = checksum p"
    by (simp add: checksum_update [OF i])
  then have "Bit_Operations.xor (p ! i) v = 0"
    by (metis xor.assoc xor_self_eq xor.left_neutral)
  then have "p ! i = v"
    by (metis xor.assoc xor_self_eq xor.left_neutral xor.right_neutral)
  with v show False by simp
qed

text \<open>
  C34.  The manager protocol is an exact framing: a byte string is accepted as a command with a
  payload precisely when it is the encoding of them; a payload is encodable precisely up to one
  mebibyte; bytes after a complete frame are refused; and a change of any single payload byte is
  caught by the checksum.
\<close>

theorem manager_frame_exact:
  "(parse_manager_frame b = Inr \<lparr>mf_command = c, mf_payload = p\<rparr> \<longleftrightarrow> encode_manager_frame c p = Inr b) \<and>
   (is_ok (encode_manager_frame c p) \<longleftrightarrow> length p \<le> 1048576) \<and>
   (encode_manager_frame c p = Inr b \<longrightarrow>
      (x \<noteq> [] \<longrightarrow> \<not> is_ok (parse_manager_frame (b @ x))) \<and>
      (i < length p \<and> v \<noteq> p ! i \<longrightarrow> \<not> is_ok (parse_manager_frame (b[6 + i := v]))))"
  using mgr.parse_iff [of b c p] mgr.encode_limit [of c p] mgr.trailing_rejected [of c p b x]
    corrupted_payload_rejected [of c p b i v]
  by (simp add: manager_frame_of_def manager_max_payload_len_def)

theorem manager_frame_exact_witness:
  "\<not> is_ok (parse_manager_frame ([2, 0, 0, 0, 23, 14, 5, 11] @ [0])) \<and>
   \<not> is_ok (parse_manager_frame ([2, 0, 0, 0, 23, 14, 5, 11][6 + 1 := 12]))"
proof -
  have "encode_manager_frame SetSettingsVar [5, 11] = Inr [2, 0, 0, 0, 23, 14, 5, 11]"
    by code_simp
  then show ?thesis
    using manager_frame_exact [of "[2, 0, 0, 0, 23, 14, 5, 11]" SetSettingsVar "[5, 11]" "[0]" 1 12]
    by simp
qed

subsection \<open>Application records\<close>

record manager_app_config_record =
  ac_uid :: u32
  ac_mode :: i32
  ac_permissive :: bool

record manager_freeze_status_record =
  fr_uid :: u32
  fr_foreground :: bool
  fr_state :: i32
  fr_seconds :: i32
  fr_process_count :: i32

definition u32_max :: u32 where "u32_max = 4294967295"

definition bool_i32 :: "bool \<Rightarrow> i32" where
  "bool_i32 b = (if b then 1 else 0)"

definition app_config_bytes :: "manager_app_config_record \<Rightarrow> bytes" where
  "app_config_bytes r =
     u32_to_le (ac_uid r) @ i32_to_le (ac_mode r) @ i32_to_le (bool_i32 (ac_permissive r))"

definition encode_app_config :: "manager_app_config_record list \<Rightarrow> bytes" where
  "encode_app_config records = concat (map app_config_bytes records)"

definition app_config_of_bytes :: "bytes \<Rightarrow> manager_app_config_record" where
  "app_config_of_bytes chunk =
    \<lparr>ac_uid = u32_of_le (take 4 chunk), ac_mode = i32_of_le (take 4 (drop 4 chunk)),
     ac_permissive = (i32_of_le (take 4 (drop 8 chunk)) \<noteq> 0)\<rparr>"

definition decode_app_config :: "bytes \<Rightarrow> manager_app_config_record list res" where
  "decode_app_config payload =
     (if length payload mod 12 \<noteq> 0
        then Inl (Protocol_Error ''app config payload length is not a multiple of 12'')
      else Inr (map app_config_of_bytes (chunks_exact 12 payload)))"

definition encode_app_config_for_manager :: "manager_app_config_record list \<Rightarrow> bytes" where
  "encode_app_config_for_manager records =
     (if records = []
        then encode_app_config [\<lparr>ac_uid = u32_max, ac_mode = 50, ac_permissive = False\<rparr>]
      else encode_app_config records)"

definition freeze_status_bytes :: "manager_freeze_status_record \<Rightarrow> bytes" where
  "freeze_status_bytes r =
     u32_to_le (fr_uid r) @ i32_to_le (bool_i32 (fr_foreground r)) @ i32_to_le (fr_state r)
       @ i32_to_le (max (fr_seconds r) 0) @ i32_to_le (max (fr_process_count r) 0)"

definition encode_freeze_status :: "manager_freeze_status_record list \<Rightarrow> bytes" where
  "encode_freeze_status records = concat (map freeze_status_bytes records)"

definition record_ok :: "manager_app_config_record \<Rightarrow> bool" where
  "record_ok r \<longleftrightarrow> is_i32 (ac_mode r)"

lemma app_config_bytes_length [simp]: "length (app_config_bytes r) = 12"
  by (simp add: app_config_bytes_def)

lemma encode_app_config_length: "length (encode_app_config rs) = 12 * length rs"
  unfolding encode_app_config_def
  by (subst length_concat_const [of 12]) (simp_all add: list_all_iff)

lemma bool_i32_range: "is_i32 (bool_i32 b)"
  by (simp add: bool_i32_def is_i32_def)

lemma app_config_of_bytes_inverse: "record_ok r \<Longrightarrow> app_config_of_bytes (app_config_bytes r) = r"
  using i32_le_roundtrip [OF bool_i32_range, of "ac_permissive r" "[]"]
    i32_le_roundtrip [of "ac_mode r" "[]"]
  by (simp add: app_config_of_bytes_def app_config_bytes_def record_ok_def bool_i32_def
      split: if_splits)

lemma decode_app_config_bounds: "decode_app_config p = Inr rs \<Longrightarrow> list_all record_ok rs"
  by (auto simp: decode_app_config_def list_all_iff record_ok_def app_config_of_bytes_def
      i32_of_le_range split: if_splits)

lemma decode_app_config_length: "decode_app_config p = Inr rs \<Longrightarrow> length p = 12 * length rs"
proof -
  assume d: "decode_app_config p = Inr rs"
  then have dvd: "12 dvd length p"
    and rs: "rs = map app_config_of_bytes (chunks_exact 12 p)"
    by (auto simp: decode_app_config_def split: if_splits)
  have "length (concat (chunks_exact 12 p)) = 12 * length (chunks_exact 12 p)"
    by (rule length_concat_const) (auto simp: list_all_iff dest: chunks_exact_elem_length)
  with rs show ?thesis
    by (simp add: concat_chunks_exact [OF _ dvd])
qed

lemma decode_encode_app_config:
  assumes "list_all record_ok rs"
  shows "decode_app_config (encode_app_config rs) = Inr rs"
proof -
  have "chunks_exact 12 (encode_app_config rs) = map app_config_bytes rs"
    unfolding encode_app_config_def by (rule chunks_exact_concat) (simp_all add: list_all_iff)
  then show ?thesis
    using assms
    by (simp add: decode_app_config_def encode_app_config_length list_all_iff map_idI
        app_config_of_bytes_inverse)
qed

text \<open>
  C35.  The application table survives the wire: whatever records are sent come back unchanged,
  every accepted payload has one record per twelve bytes with a mode in the range of an
  \<^verbatim>\<open>i32\<close>, and encoding a decoded table and decoding it again changes nothing.
\<close>

theorem app_config_roundtrip:
  "(list_all record_ok rs \<longrightarrow> decode_app_config (encode_app_config rs) = Inr rs) \<and>
   (\<forall>rs'. decode_app_config p = Inr rs' \<longrightarrow>
      length p = 12 * length rs' \<and> list_all record_ok rs' \<and>
      decode_app_config (encode_app_config rs') = Inr rs')"
  using decode_encode_app_config decode_app_config_length decode_app_config_bounds by blast

theorem app_config_roundtrip_witness:
  "decode_app_config (encode_app_config [\<lparr>ac_uid = 10123, ac_mode = 30, ac_permissive = True\<rparr>])
     = Inr [\<lparr>ac_uid = 10123, ac_mode = 30, ac_permissive = True\<rparr>]"
  using app_config_roundtrip [of "[\<lparr>ac_uid = 10123, ac_mode = 30, ac_permissive = True\<rparr>]"]
  by (simp add: record_ok_def is_i32_def)

subsection \<open>The configuration sent to the hook\<close>

definition legacy_xposed_max_uid :: u32 where "legacy_xposed_max_uid = 99999"

definition uid_token :: "u32 \<Rightarrow> string" where
  "uid_token uid = show_padded 5 (unat uid) @ ''uid'' @ show_u32 uid"

fun managed_tokens :: "manager_app_config_record list \<Rightarrow> string list res" where
  "managed_tokens [] = Inr []"
| "managed_tokens (r # rs) =
     (if ac_uid r > legacy_xposed_max_uid
        then Inl (Protocol_Error (''uid '' @ show_u32 (ac_uid r)
               @ '' exceeds the legacy hook five-digit UID format''))
      else case managed_tokens rs of
        Inl e \<Rightarrow> Inl e
      | Inr tokens \<Rightarrow> Inr (uid_token (ac_uid r) # tokens))"

definition hook_managed :: "manager_app_config_record \<Rightarrow> bool" where
  "hook_managed r \<longleftrightarrow> ac_mode r \<noteq> 40 \<and> ac_mode r \<noteq> 50"

definition or_space :: "string \<Rightarrow> string" where
  "or_space line = (if line = [] then '' '' else line)"

definition encode_xposed_config_payload :: "bytes \<Rightarrow> bytes \<Rightarrow> bytes res" where
  "encode_xposed_config_payload settings app_config_payload =
     (case decode_app_config app_config_payload of
        Inl e \<Rightarrow> Inl e
      | Inr records \<Rightarrow>
          let settings_line = str_join '' '' (map (\<lambda>v. show_nat (unat v)) settings)
          in case managed_tokens (filter hook_managed records) of
               Inl e \<Rightarrow> Inl e
             | Inr tokens \<Rightarrow>
                 let managed_line = or_space (str_join '' '' tokens);
                     permissive_line = or_space (str_join '' ''
                       (map (\<lambda>r. show_u32 (ac_uid r))
                         (filter (\<lambda>r. ac_permissive r \<and> hook_managed r) records)))
                 in Inr (text_bytes (settings_line @ [newline] @ managed_line @ [newline]
                           @ permissive_line)))"

lemma managed_tokens_ok:
  "is_ok (managed_tokens rs) \<longleftrightarrow> list_all (\<lambda>r. ac_uid r \<le> legacy_xposed_max_uid) rs"
  by (induction rs) (auto simp: not_less split: sum.splits)

lemma managed_tokens_value:
  "managed_tokens rs = Inr tokens \<Longrightarrow> tokens = map (\<lambda>r. uid_token (ac_uid r)) rs"
  by (induction rs arbitrary: tokens) (auto split: if_splits sum.splits)

lemma xposed_payload_ok_iff:
  assumes "list_all record_ok rs"
  shows "is_ok (encode_xposed_config_payload settings (encode_app_config rs)) \<longleftrightarrow>
    (\<forall>r \<in> set rs. hook_managed r \<longrightarrow> ac_uid r \<le> legacy_xposed_max_uid)"
proof -
  have "is_ok (encode_xposed_config_payload settings (encode_app_config rs)) \<longleftrightarrow>
      is_ok (managed_tokens (filter hook_managed rs))"
    by (cases "managed_tokens (filter hook_managed rs)")
      (simp_all add: encode_xposed_config_payload_def decode_encode_app_config [OF assms] Let_def)
  then show ?thesis
    by (auto simp: managed_tokens_ok list_all_iff)
qed

end
