(* ===== verification/Xposed.thy ===== *)
theory Xposed
  imports Frames
begin

text \<open>
  \<^verbatim>\<open>protocol/xposed.rs\<close>: the frames of the hook bridge, the foreground uid
  payload, and the reading of the hook health report, a hand written scanner that looks for a
  top level string field of a JSON object.  The scanner's byte index is represented by the rest of
  the text it points at; \<^verbatim>\<open>Err(())\<close> is \<^term>\<open>None\<close>.
\<close>

subsection \<open>Frames of the hook bridge\<close>

definition freezeit_command_base :: i32 where "freezeit_command_base = 1359322925"
definition xposed_header_len :: usize where "xposed_header_len = 8"
definition max_request_payload_len :: usize where "max_request_payload_len = 128 * 1024 - 1"

datatype xposed_command =
    GetForeground | GetScreen | GetXposedLog | SetConfig | SetWakeupLock | BreakNetwork
  | UpdatePending | GetHookHealth | GetRuntimeAppStates | GetSystemFreezerHints

definition xposed_code :: "xposed_command \<Rightarrow> i32" where
  "xposed_code command = freezeit_command_base +
     (case command of
        GetForeground \<Rightarrow> 1 | GetScreen \<Rightarrow> 2 | GetXposedLog \<Rightarrow> 3 | SetConfig \<Rightarrow> 20
      | SetWakeupLock \<Rightarrow> 21 | BreakNetwork \<Rightarrow> 41 | UpdatePending \<Rightarrow> 60 | GetHookHealth \<Rightarrow> 70
      | GetRuntimeAppStates \<Rightarrow> 71 | GetSystemFreezerHints \<Rightarrow> 72)"

definition xposed_command_of_i32 :: "i32 \<Rightarrow> xposed_command res" where
  "xposed_command_of_i32 v =
     (if v = xposed_code GetForeground then Inr GetForeground
      else if v = xposed_code GetScreen then Inr GetScreen
      else if v = xposed_code GetXposedLog then Inr GetXposedLog
      else if v = xposed_code SetConfig then Inr SetConfig
      else if v = xposed_code SetWakeupLock then Inr SetWakeupLock
      else if v = xposed_code BreakNetwork then Inr BreakNetwork
      else if v = xposed_code UpdatePending then Inr UpdatePending
      else if v = xposed_code GetHookHealth then Inr GetHookHealth
      else if v = xposed_code GetRuntimeAppStates then Inr GetRuntimeAppStates
      else if v = xposed_code GetSystemFreezerHints then Inr GetSystemFreezerHints
      else Inl (Protocol_Error (''unknown xposed command '' @ show_int v)))"

record xposed_frame =
  xf_command :: xposed_command
  xf_payload :: bytes

definition parse_xposed_frame :: "bytes \<Rightarrow> xposed_frame res" where
  "parse_xposed_frame bytes =
     (if length bytes < xposed_header_len
        then Inl (Protocol_Error ''xposed frame header is incomplete'')
      else
        let command = i32_of_le [bytes ! 0, bytes ! 1, bytes ! 2, bytes ! 3];
            payload_len = i32_of_le [bytes ! 4, bytes ! 5, bytes ! 6, bytes ! 7]
        in if payload_len < 0
             then Inl (Protocol_Error ''xposed frame payload length is negative'')
           else if nat payload_len > max_request_payload_len
             then Inl (Protocol_Error ''xposed frame payload is too large'')
           else
             let expected_len = xposed_header_len + nat payload_len
             in if length bytes \<noteq> expected_len
                  then Inl (Protocol_Error
                    (''xposed frame length mismatch: expected '' @ show_nat expected_len
                      @ '', got '' @ show_nat (length bytes)))
                else
                  case xposed_command_of_i32 command of
                    Inl e \<Rightarrow> Inl e
                  | Inr c \<Rightarrow> Inr \<lparr>xf_command = c, xf_payload = drop xposed_header_len bytes\<rparr>)"

definition encode_xposed_frame :: "xposed_command \<Rightarrow> bytes \<Rightarrow> bytes res" where
  "encode_xposed_frame command payload =
     (if length payload > max_request_payload_len
        then Inl (Protocol_Error ''xposed frame payload is too large'')
      else Inr (i32_to_le (xposed_code command) @ i32_to_le (int (length payload)) @ payload))"

definition xposed_frame_of :: "xposed_command \<Rightarrow> bytes \<Rightarrow> xposed_frame" where
  "xposed_frame_of command payload = \<lparr>xf_command = command, xf_payload = payload\<rparr>"

lemma xposed_code_roundtrip [simp]: "xposed_command_of_i32 (xposed_code c) = Inr c"
  by (cases c) (simp_all add: xposed_command_of_i32_def xposed_code_def)

lemma xposed_command_of_i32_Inr: "xposed_command_of_i32 v = Inr c \<longleftrightarrow> v = xposed_code c"
proof
  show "xposed_command_of_i32 v = Inr c \<Longrightarrow> v = xposed_code c"
    by (auto simp: xposed_command_of_i32_def split: if_splits)
qed simp

lemma xposed_code_range: "is_i32 (xposed_code c)"
  by (cases c) (simp_all add: xposed_code_def freezeit_command_base_def is_i32_def)

lemma request_length_i32: "n \<le> max_request_payload_len \<Longrightarrow> is_i32 (int n)"
  by (simp add: max_request_payload_len_def is_i32_def)

lemma i32_to_le_of_le: "i32_to_le (i32_of_le [a, b, c, d]) = [a, b, c, d]"
  by (simp add: i32_to_le_def i32_of_le_def u32_to_le_of_le)

lemma i32_of_le_to_le: "is_i32 n \<Longrightarrow> i32_to_le n = [a, b, c, d] \<Longrightarrow> i32_of_le [a, b, c, d] = n"
  using i32_le_roundtrip [of n "[]"] by simp

lemma parse_xposed_frame_iff:
  "parse_xposed_frame b = Inr f \<longleftrightarrow>
     length (xf_payload f) \<le> max_request_payload_len \<and>
     b = i32_to_le (xposed_code (xf_command f)) @ i32_to_le (int (length (xf_payload f))) @ xf_payload f"
    (is "?P \<longleftrightarrow> ?Q")
proof
  assume ?P
  then have len: "\<not> length b < 8"
    by (auto simp: parse_xposed_frame_def xposed_header_len_def split: if_splits)
  define c n where "c = i32_of_le [b ! 0, b ! 1, b ! 2, b ! 3]"
    and "n = i32_of_le [b ! 4, b ! 5, b ! 6, b ! 7]"
  from \<open>?P\<close> len have l: "0 \<le> n" "nat n \<le> max_request_payload_len" "length b = 8 + nat n"
      "xposed_command_of_i32 c = Inr (xf_command f)" "xf_payload f = drop 8 b"
    by (auto simp: parse_xposed_frame_def xposed_header_len_def Let_def n_def c_def
        split: if_splits sum.splits)
  have "take 4 b = [take 4 b ! 0, take 4 b ! 1, take 4 b ! 2, take 4 b ! 3]"
    by (rule four_bytes) (use len in simp)
  then have 1: "take 4 b = i32_to_le c"
    unfolding c_def by (simp add: i32_to_le_of_le)
  have "take 4 (drop 4 b) = [take 4 (drop 4 b) ! 0, take 4 (drop 4 b) ! 1, take 4 (drop 4 b) ! 2,
      take 4 (drop 4 b) ! 3]"
    by (rule four_bytes) (use len in simp)
  then have 2: "take 4 (drop 4 b) = i32_to_le n"
    unfolding n_def using len by (simp add: i32_to_le_of_le)
  have "b = take 4 b @ take 4 (drop 4 b) @ drop 8 b"
    by (metis append_take_drop_id drop_drop numeral_Bit0)
  with 1 2 l show ?Q by (simp add: xposed_command_of_i32_Inr)
next
  assume q: ?Q
  define p where "p = xf_payload f"
  obtain a1 a2 a3 a4 where a: "i32_to_le (xposed_code (xf_command f)) = [a1, a2, a3, a4]"
    by (simp add: i32_to_le_def u32_to_le_def)
  obtain d1 d2 d3 d4 where d: "i32_to_le (int (length p)) = [d1, d2, d3, d4]"
    by (simp add: i32_to_le_def u32_to_le_def)
  have "i32_of_le [a1, a2, a3, a4] = xposed_code (xf_command f)"
    using i32_of_le_to_le [OF xposed_code_range a] .
  moreover have "i32_of_le [d1, d2, d3, d4] = int (length p)"
    using q i32_of_le_to_le [OF request_length_i32 d] by (simp add: p_def)
  moreover have b: "b = a1 # a2 # a3 # a4 # d1 # d2 # d3 # d4 # p"
    using q by (simp add: p_def [symmetric] a d)
  moreover have "length p \<le> max_request_payload_len" "f = \<lparr>xf_command = xf_command f, xf_payload = p\<rparr>"
    using q by (simp_all add: p_def)
  ultimately show ?P
    unfolding b parse_xposed_frame_def
    by (simp add: xposed_header_len_def Let_def)
qed

interpretation xpf: frame_codec encode_xposed_frame parse_xposed_frame xposed_frame_of max_request_payload_len
proof unfold_locales
  fix c p b
  show "is_ok (encode_xposed_frame c p) \<longleftrightarrow> length p \<le> max_request_payload_len"
    by (simp add: encode_xposed_frame_def)
  show "encode_xposed_frame c p = Inr b \<Longrightarrow> parse_xposed_frame b = Inr (xposed_frame_of c p)"
    by (auto simp: encode_xposed_frame_def parse_xposed_frame_iff xposed_frame_of_def split: if_splits)
next
  fix b f x g
  assume f: "parse_xposed_frame b = Inr f"
  then have "f = xposed_frame_of (xf_command f) (xf_payload f)"
      "encode_xposed_frame (xf_command f) (xf_payload f) = Inr b"
    by (auto simp: encode_xposed_frame_def parse_xposed_frame_iff xposed_frame_of_def)
  then show "\<exists>c p. f = xposed_frame_of c p \<and> encode_xposed_frame c p = Inr b"
    by blast
  assume g: "parse_xposed_frame (b @ x) = Inr g"
  define n m where "n = length (xf_payload f)" and "m = length (xf_payload g)"
  from f have b: "length b = 8 + n" "take 4 (drop 4 b) = i32_to_le (int n)" "n \<le> max_request_payload_len"
    by (auto simp: parse_xposed_frame_iff n_def)
  from g have bx: "length (b @ x) = 8 + m" "take 4 (drop 4 (b @ x)) = i32_to_le (int m)"
      "m \<le> max_request_payload_len"
    using arg_cong [where f = length and x = "b @ x"] arg_cong [where f = "\<lambda>l. take 4 (drop 4 l)" and x = "b @ x"]
    by (auto simp: parse_xposed_frame_iff m_def)
  have "take 4 (drop 4 (b @ x)) = take 4 (drop 4 b)" using b(1) by simp
  with b(2) bx(2) have "i32_to_le (int n) = i32_to_le (int m)" by simp
  then have "int n = int m"
    using i32_le_roundtrip [OF request_length_i32 [OF b(3)], of "[]"]
      i32_le_roundtrip [OF request_length_i32 [OF bx(3)], of "[]"] by simp
  with b(1) bx(1) show "x = []" by simp
qed (auto simp: xposed_frame_of_def)

text \<open>
  Requests to the hook are framed exactly: the hook side parser accepts a byte string as a
  command with a payload precisely when the daemon encodes them so, every payload below 128 KiB can
  be sent and no larger one, and a truncated or overlong frame is refused.
\<close>

lemma xposed_frame_exact:
  "(parse_xposed_frame b = Inr \<lparr>xf_command = c, xf_payload = p\<rparr> \<longleftrightarrow> encode_xposed_frame c p = Inr b) \<and>
   (is_ok (encode_xposed_frame c p) \<longleftrightarrow> length p < 131072) \<and>
   (encode_xposed_frame c p = Inr (b @ x) \<and> x \<noteq> [] \<longrightarrow> \<not> is_ok (parse_xposed_frame b)) \<and>
   (encode_xposed_frame c p = Inr b \<and> x \<noteq> [] \<longrightarrow> \<not> is_ok (parse_xposed_frame (b @ x)))"
  using xpf.parse_iff [of b c p] xpf.encode_limit [of c p] xpf.truncation_rejected [of c p b x]
    xpf.trailing_rejected [of c p b x]
  by (auto simp: xposed_frame_of_def max_request_payload_len_def)

lemma xposed_frame_exact_witness:
  "\<not> is_ok (parse_xposed_frame (i32_to_le 1359322995 @ [0, 0, 0]))"
proof -
  have "encode_xposed_frame GetHookHealth [] = Inr ((i32_to_le 1359322995 @ [0, 0, 0]) @ [0])"
    by code_simp
  then show ?thesis
    using xposed_frame_exact [of "i32_to_le 1359322995 @ [0, 0, 0]" GetHookHealth "[]" "[0]"] by blast
qed

subsection \<open>Scanning the health report\<close>

definition json_ws :: "char list" where
  "json_ws = [CHR '' '', newline, carriage_return, tab]"

definition skip_json_whitespace :: "string \<Rightarrow> string" where
  "skip_json_whitespace s = dropWhile (\<lambda>c. c \<in> set json_ws) s"

definition is_hexdigit :: "char \<Rightarrow> bool" where
  "is_hexdigit c \<longleftrightarrow> is_digit c \<or> (97 \<le> byte_of c \<and> byte_of c \<le> 102) \<or> (65 \<le> byte_of c \<and> byte_of c \<le> 70)"

text \<open>\<^verbatim>\<open>byte as char\<close> pushed on a string: a byte above 127 becomes a character
  encoded in two bytes.\<close>

definition latin1 :: "char \<Rightarrow> string" where
  "latin1 c = (if byte_of c < 128 then [c]
               else [char_of (192 + byte_of c div 64), char_of (128 + byte_of c mod 64)])"

definition json_unescape :: "char \<Rightarrow> char option" where
  "json_unescape e =
     (if e = quote \<or> e = backslash \<or> e = CHR ''/'' then Some e
      else if e = CHR ''b'' then Some (CHR 0x08)
      else if e = CHR ''f'' then Some (CHR 0x0C)
      else if e = CHR ''n'' then Some newline
      else if e = CHR ''r'' then Some carriage_return
      else if e = CHR ''t'' then Some tab
      else None)"

fun json_string_body_from :: "string \<Rightarrow> string \<Rightarrow> (string \<times> string) option" where
  "json_string_body_from v [] = None"
| "json_string_body_from v (c # s) =
     (if c = quote then Some (v, s)
      else if c = backslash then
        (case s of
           [] \<Rightarrow> None
         | e # r \<Rightarrow>
             if e = CHR ''u'' then
               (if 4 \<le> length r \<and> list_all is_hexdigit (take 4 r)
                then json_string_body_from (v @ ''?'') (drop 4 r) else None)
             else case json_unescape e of
               None \<Rightarrow> None
             | Some x \<Rightarrow> json_string_body_from (v @ [x]) r)
      else if byte_of c < 32 then None
      else json_string_body_from (v @ latin1 c) s)"

definition parse_json_string :: "string \<Rightarrow> (string \<times> string) option" where
  "parse_json_string s =
     (case s of [] \<Rightarrow> None | c # r \<Rightarrow> if c = quote then json_string_body_from [] r else None)"

definition consume_json_literal :: "string \<Rightarrow> string \<Rightarrow> string option" where
  "consume_json_literal s literal =
     (if take (length literal) s = literal then Some (drop (length literal) s) else None)"

definition max_health_json_nesting :: nat where "max_health_json_nesting = 64"

definition number_char :: "char \<Rightarrow> bool" where
  "number_char c \<longleftrightarrow> is_digit c \<or> c \<in> set ''+-.eE''"

definition scan_atom :: "char \<Rightarrow> string \<Rightarrow> string option" where
  "scan_atom c s =
     (if c = CHR ''t'' then consume_json_literal s ''true''
      else if c = CHR ''f'' then consume_json_literal s ''false''
      else if c = CHR ''n'' then consume_json_literal s ''null''
      else if c = CHR ''-'' \<or> is_digit c then Some (dropWhile number_char s)
      else None)"

lemma json_string_body_shorter: "json_string_body_from v s = Some (x, r) \<Longrightarrow> length r < length s"
proof (induction v s rule: json_string_body_from.induct)
  case (2 v c s)
  show ?case
  proof (cases "c = backslash")
    case True
    with "2.prems" obtain e t where s: "s = e # t"
      by (auto simp: char_defs split: list.splits if_splits)
    show ?thesis
    proof (cases "e = CHR ''u''")
      case True
      with "2.prems" "2.IH"(1) [of e t] s \<open>c = backslash\<close> show ?thesis
        by (fastforce simp: char_defs split: if_splits)
    next
      case False
      with "2.prems" "2.IH"(2) [of e t] s \<open>c = backslash\<close> show ?thesis
        by (fastforce simp: char_defs split: if_splits option.splits)
    qed
  next
    case False
    with "2.prems" "2.IH"(3) show ?thesis
      by (auto split: if_splits)
  qed
qed simp

lemma parse_json_string_shorter: "parse_json_string s = Some (x, r) \<Longrightarrow> Suc (length r) < length s"
  by (auto simp: parse_json_string_def dest!: json_string_body_shorter split: list.splits if_splits)

lemma skip_ws_length: "length (skip_json_whitespace s) \<le> length s"
  by (simp add: skip_json_whitespace_def length_dropWhile_le)

text \<open>The three loops of the value scanner: a value, the members of an object after its opening
  brace, and the elements of an array.\<close>

datatype json_mode = JM_Value | JM_Members | JM_Elements

function (domintros) skip_json :: "json_mode \<Rightarrow> nat \<Rightarrow> string \<Rightarrow> string option" where
  "skip_json JM_Value depth s0 =
     (let s = skip_json_whitespace s0 in
      case s of
        [] \<Rightarrow> None
      | c # r \<Rightarrow>
          if c = quote then map_option snd (parse_json_string s)
          else if c = CHR ''{'' then
            (if depth \<ge> max_health_json_nesting then None
             else let r1 = skip_json_whitespace r in
               if take 1 r1 = ''}'' then Some (drop 1 r1) else skip_json JM_Members depth r1)
          else if c = CHR ''['' then
            (if depth \<ge> max_health_json_nesting then None
             else let r1 = skip_json_whitespace r in
               if take 1 r1 = '']'' then Some (drop 1 r1) else skip_json JM_Elements depth r1)
          else scan_atom c s)"
| "skip_json JM_Members depth s =
     (case parse_json_string s of
        None \<Rightarrow> None
      | Some (_, s1) \<Rightarrow>
          let s2 = skip_json_whitespace s1 in
          if take 1 s2 \<noteq> '':'' then None
          else case skip_json JM_Value (depth + 1) (drop 1 s2) of
            None \<Rightarrow> None
          | Some s3 \<Rightarrow>
              let s4 = skip_json_whitespace s3 in
              if take 1 s4 = '','' then skip_json JM_Members depth (skip_json_whitespace (drop 1 s4))
              else if take 1 s4 = ''}'' then Some (drop 1 s4)
              else None)"
| "skip_json JM_Elements depth s =
     (case skip_json JM_Value (depth + 1) s of
        None \<Rightarrow> None
      | Some s3 \<Rightarrow>
          let s4 = skip_json_whitespace s3 in
          if take 1 s4 = '','' then skip_json JM_Elements depth (drop 1 s4)
          else if take 1 s4 = '']'' then Some (drop 1 s4)
          else None)"
  by pat_completeness auto

lemma consume_shorter: "consume_json_literal s l = Some r \<Longrightarrow> l \<noteq> [] \<Longrightarrow> length r < length s"
  by (cases s) (auto simp: consume_json_literal_def split: if_splits)

lemma drop_one_shorter: "take 1 s = [c] \<Longrightarrow> length (drop 1 s) < length s"
  by (cases s) simp_all

lemma dropWhile_first_shorter: "P c \<Longrightarrow> length (dropWhile P (c # s)) < length (c # s)"
  by (simp add: length_dropWhile_le le_imp_less_Suc)

lemma scan_atom_shorter: "scan_atom c (c # s) = Some r \<Longrightarrow> length r < length (c # s)"
  by (auto simp: scan_atom_def number_char_def simp del: dropWhile.simps list.size
      split: if_splits dest: consume_shorter intro: dropWhile_first_shorter)

lemma skip_json_shorter_dom:
  "skip_json_dom (m, d, s) \<Longrightarrow> (\<forall>r. skip_json m d s = Some r \<longrightarrow> length r < length s)"
proof (induction m d s rule: skip_json.pinduct)
  case (1 depth s0)
  define s where "s = skip_json_whitespace s0"
  have len: "length s \<le> length s0"
    by (simp add: s_def skip_ws_length)
  show ?case
  proof (intro allI impI)
    fix r
    assume r: "skip_json JM_Value depth s0 = Some r"
    then obtain c t where s: "s = c # t"
      by (auto simp: skip_json.psimps(1) [OF "1.hyps"] s_def Let_def split: list.splits)
    define r1 where "r1 = skip_json_whitespace t"
    have u: "skip_json JM_Value depth s0 =
        (if c = quote then map_option snd (parse_json_string s)
         else if c = CHR ''{'' then
           (if depth \<ge> max_health_json_nesting then None
            else if take 1 r1 = ''}'' then Some (drop 1 r1) else skip_json JM_Members depth r1)
         else if c = CHR ''['' then
           (if depth \<ge> max_health_json_nesting then None
            else if take 1 r1 = '']'' then Some (drop 1 r1) else skip_json JM_Elements depth r1)
         else scan_atom c s)"
      unfolding skip_json.psimps(1) [OF "1.hyps"] s_def [symmetric] Let_def s r1_def by simp
    have r1: "length r1 \<le> length t" by (simp add: r1_def skip_ws_length)
    consider "c = quote" | "c = CHR ''{''" | "c = CHR ''[''"
      | "c \<noteq> quote" "c \<noteq> CHR ''{''" "c \<noteq> CHR ''[''" by blast
    then have "length r < length s"
    proof cases
      case 1
      with r s have "\<exists>x. parse_json_string s = Some (x, r)"
        by (auto simp: u)
      then show ?thesis using parse_json_string_shorter by fastforce
    next
      case 2
      then have q: "c \<noteq> quote" by (simp add: char_defs)
      show ?thesis
      proof (cases "take 1 r1 = ''}''")
        case True
        with r q 2 have "r = drop 1 r1" by (simp add: u split: if_splits)
        with True r1 s show ?thesis by (auto dest: drop_one_shorter)
      next
        case False
        with r q 2 have "\<not> depth \<ge> max_health_json_nesting" "skip_json JM_Members depth r1 = Some r"
          by (simp_all add: u split: if_splits)
        with "1.IH"(1) [OF s_def s q 2 _ r1_def False] r1 s show ?thesis by auto
      qed
    next
      case 3
      then have q: "c \<noteq> quote" "c \<noteq> CHR ''{''" by (auto simp: char_defs)
      show ?thesis
      proof (cases "take 1 r1 = '']''")
        case True
        with r q 3 have "r = drop 1 r1" by (simp add: u split: if_splits)
        with True r1 s show ?thesis by (auto dest: drop_one_shorter)
      next
        case False
        with r q 3 have "\<not> depth \<ge> max_health_json_nesting" "skip_json JM_Elements depth r1 = Some r"
          by (simp_all add: u split: if_splits)
        with "1.IH"(2) [OF s_def s q 3 _ r1_def False] r1 s show ?thesis by auto
      qed
    next
      case 4
      with r have "scan_atom c s = Some r" by (simp add: u)
      then show ?thesis unfolding s by (rule scan_atom_shorter)
    qed
    with len show "length r < length s0" by simp
  qed
next
  case (2 depth s)
  show ?case
  proof (intro allI impI)
    fix r
    assume r: "skip_json JM_Members depth s = Some r"
    obtain k s1 where p: "parse_json_string s = Some (k, s1)"
      using r by (auto simp: skip_json.psimps(2) [OF "2.hyps"] split: option.splits)
    define s2 where "s2 = skip_json_whitespace s1"
    have colon: "take 1 s2 = '':''"
      using r p by (auto simp: skip_json.psimps(2) [OF "2.hyps"] s2_def Let_def split: if_splits)
    obtain s3 where v: "skip_json JM_Value (depth + 1) (drop 1 s2) = Some s3"
      using r p colon by (auto simp: skip_json.psimps(2) [OF "2.hyps"] s2_def [symmetric] Let_def
          split: option.splits)
    define s4 where "s4 = skip_json_whitespace s3"
    have "length s3 < length (drop 1 s2)"
      using "2.IH"(1) [OF p refl s2_def] colon v by auto
    then have l4: "length s4 < length s"
      using skip_ws_length [of s3] skip_ws_length [of s1] parse_json_string_shorter [OF p]
      by (simp add: s4_def s2_def)
    have "(take 1 s4 = '','' \<and> skip_json JM_Members depth (skip_json_whitespace (drop 1 s4)) = Some r)
        \<or> (take 1 s4 = ''}'' \<and> r = drop 1 s4)"
      using r p colon v
      by (auto simp: skip_json.psimps(2) [OF "2.hyps"] s2_def [symmetric] s4_def [symmetric] Let_def
          split: if_splits)
    then show "length r < length s"
      using "2.IH"(2) [OF p refl s2_def _ v s4_def] colon l4 skip_ws_length [of "drop 1 s4"]
      by (auto dest: drop_one_shorter)
  qed
next
  case (3 depth s)
  show ?case
  proof (intro allI impI)
    fix r
    assume r: "skip_json JM_Elements depth s = Some r"
    obtain s3 where v: "skip_json JM_Value (depth + 1) s = Some s3"
      using r by (auto simp: skip_json.psimps(3) [OF "3.hyps"] split: option.splits)
    define s4 where "s4 = skip_json_whitespace s3"
    have l4: "length s4 < length s"
      using "3.IH"(1) v skip_ws_length [of s3] by (auto simp: s4_def)
    have "(take 1 s4 = '','' \<and> skip_json JM_Elements depth (drop 1 s4) = Some r)
        \<or> (take 1 s4 = '']'' \<and> r = drop 1 s4)"
      using r v by (auto simp: skip_json.psimps(3) [OF "3.hyps"] s4_def [symmetric] Let_def
          split: if_splits)
    then show "length r < length s"
      using "3.IH"(2) [OF v s4_def] l4 by (auto dest: drop_one_shorter)
  qed
qed

lemma after_ws_shorter: "c # r = skip_json_whitespace s \<Longrightarrow> length (skip_json_whitespace r) < length s"
  using skip_ws_length [of s] skip_ws_length [of r] by (metis le_imp_less_Suc length_Cons order_le_less_trans order_less_le_trans)

lemma member_value_shorter:
  "parse_json_string s = Some (k, s1) \<Longrightarrow> length (drop 1 (skip_json_whitespace s1)) < length s"
  using parse_json_string_shorter [of s k s1] skip_ws_length [of s1] by simp

lemma skip_json_dom_shorter:
  "skip_json_dom (m, d, s) \<Longrightarrow> skip_json m d s = Some r \<Longrightarrow> length (drop 1 (skip_json_whitespace r)) < length s"
  using skip_json_shorter_dom [of m d s] skip_ws_length [of r] by auto

lemma skip_json_total: "All skip_json_dom"
proof (relation "measure (\<lambda>(m, _, s). 2 * length s + (if m = JM_Elements then 1 else 0))", goal_cases)
  case 1
  show ?case by simp
next
  case (2 depth s0 s c r r1)
  then have "length r1 < length s0" using after_ws_shorter [of c r s0] by metis
  then show ?case by simp
next
  case (3 depth s0 s c r r1)
  then have "length r1 < length s0" using after_ws_shorter [of c r s0] by metis
  then show ?case by simp
next
  case (4 depth s x k s1 s2)
  then have "length (drop 1 s2) < length s" using member_value_shorter [of s k s1] by metis
  then show ?case by (simp del: length_drop)
next
  case (5 depth s x k s1 s2 s3 s4)
  then have "length (drop 1 s2) < length s" "length (drop 1 s4) < length (drop 1 s2)"
    using member_value_shorter [of s k s1] skip_json_dom_shorter [OF 5(8,5)] by metis+
  then show ?case
    using skip_ws_length [of "drop 1 s4"] by (simp del: length_drop)
next
  case (6 depth s)
  show ?case by simp
next
  case (7 depth s s3 s4)
  then have "length (drop 1 s4) < length s"
    using skip_json_dom_shorter [OF 7(4,1)] by metis
  then show ?case by (simp del: length_drop)
qed

termination skip_json
  by (rule skip_json_total)

lemma skip_json_shorter: "skip_json m d s = Some r \<Longrightarrow> length r < length s"
  using skip_json_shorter_dom skip_json_total by blast

declare skip_json.simps [simp del]

text \<open>\<^verbatim>\<open>skip_json_value\<close> starts at a nesting depth; the caller starts it at zero.\<close>

definition skip_json_value :: "string \<Rightarrow> nat \<Rightarrow> string option" where
  "skip_json_value s depth = skip_json JM_Value depth s"

text \<open>The loop over the members of the outermost object.  The outer option is the
  \<^verbatim>\<open>Result\<close>, the inner one says whether the field was present; the last occurrence
  of a repeated field counts.\<close>

function top_level_members :: "string \<Rightarrow> string option \<Rightarrow> string \<Rightarrow> string option option" where
  "top_level_members field v s0 =
     (let s = skip_json_whitespace s0 in
      if take 1 s = ''}'' then
        (if skip_json_whitespace (drop 1 s) = [] then Some v else None)
      else case parse_json_string s of
        None \<Rightarrow> None
      | Some (key, s1) \<Rightarrow>
          let s2 = skip_json_whitespace s1 in
          if take 1 s2 \<noteq> '':'' then None
          else
            let s3 = skip_json_whitespace (drop 1 s2)
            in case (if key = field
                     then map_option (\<lambda>(x, r). (Some x, r)) (parse_json_string s3)
                     else map_option (\<lambda>r. (v, r)) (skip_json_value s3 0)) of
                 None \<Rightarrow> None
               | Some (v', r) \<Rightarrow>
                   let s4 = skip_json_whitespace r in
                   if take 1 s4 = '','' then top_level_members field v' (drop 1 s4)
                   else if take 1 s4 = ''}'' then
                     (if skip_json_whitespace (drop 1 s4) = [] then Some v' else None)
                   else None)"
  by pat_completeness auto
termination
proof (relation "measure (\<lambda>(_, _, s). length s)", goal_cases)
  case 1
  show ?case by simp
next
  case (2 field v s0 s x key s1 s2 s3 y v' r s4)
  have "length r < length s3"
  proof (cases "key = field")
    case True
    with 2(6-9) have "\<exists>z. parse_json_string s3 = Some (z, r)" by auto
    then show ?thesis using parse_json_string_shorter by fastforce
  next
    case False
    with 2(6-9) have "skip_json JM_Value 0 s3 = Some r" by (auto simp: skip_json_value_def)
    then show ?thesis by (rule skip_json_shorter)
  qed
  moreover have "length (drop 1 s2) < length s"
    using member_value_shorter [of s key s1] 2(3,4,5) by metis
  then have "length s3 < length s"
    using skip_ws_length [of "drop 1 s2"] 2(6-7) by simp
  ultimately have "length (drop 1 s4) < length s0"
    using skip_ws_length [of s0] skip_ws_length [of r] 2(1,10,11) by simp
  then show ?case by simp
qed

declare top_level_members.simps [simp del]

definition top_level_json_string_field :: "string \<Rightarrow> string \<Rightarrow> string option option" where
  "top_level_json_string_field payload field =
     (let s = skip_json_whitespace payload
      in if take 1 s \<noteq> ''{'' then None else top_level_members field None (drop 1 s))"

subsection \<open>The state of the hook\<close>

datatype hook_bridge_status = HB_Active | HB_Missing string | HB_Degraded string

definition is_ready_for_control :: "hook_bridge_status \<Rightarrow> bool" where
  "is_ready_for_control status = (case status of HB_Active \<Rightarrow> True | _ \<Rightarrow> False)"

definition health_label :: "hook_bridge_status \<Rightarrow> string" where
  "health_label status =
     (case status of HB_Active \<Rightarrow> ''active'' | HB_Missing _ \<Rightarrow> ''missing'' | HB_Degraded _ \<Rightarrow> ''degraded'')"

definition classify_bridge_error :: "daemon_error \<Rightarrow> hook_bridge_status" where
  "classify_bridge_error e =
     (let message = show_error e
      in if str_contains message ''No such file'' \<or> str_contains message ''Connection refused''
            \<or> str_contains message ''not found''
         then HB_Missing message else HB_Degraded message)"

definition classify_hook_health_payload :: "string \<Rightarrow> hook_bridge_status" where
  "classify_hook_health_payload payload =
     (let unrecognized = HB_Degraded (''unrecognized hook health payload: '' @ payload);
          classify = (\<lambda>status. case status of
              None \<Rightarrow> unrecognized
            | Some v \<Rightarrow>
                if v = ''active'' then HB_Active
                else if v = ''degraded'' \<or> v = ''inactive'' \<or> v = ''missing'' then HB_Degraded payload
                else unrecognized)
      in case top_level_json_string_field payload ''system_control_status'' of
           Some (Some status) \<Rightarrow> classify (Some status)
         | Some None \<Rightarrow>
             (case top_level_json_string_field payload ''status'' of
                Some status \<Rightarrow> classify status
              | None \<Rightarrow> unrecognized)
         | None \<Rightarrow> unrecognized)"

subsection \<open>Foreground uids\<close>

definition parse_foreground_uid_payload :: "bytes \<Rightarrow> u32 list res" where
  "parse_foreground_uid_payload payload =
     (if length payload < 4
        then Inl (Protocol_Error ''foreground uid payload count is missing'')
      else
        let count = i32_of_le (take 4 payload)
        in if count < 0 then Inl (Protocol_Error ''foreground uid payload count is negative'')
           else
             let expected_len = 4 + nat count * 4
             in if length payload < expected_len
                  then Inl (Protocol_Error
                    (''foreground uid payload length mismatch: expected at least ''
                      @ show_nat expected_len @ '', got '' @ show_nat (length payload)))
                else Inr (map (\<lambda>index. u32_of_le (take 4 (drop (4 + index * 4) payload)))
                            [0..<nat count]))"

subsection \<open>A printed report is read back\<close>

text \<open>A health report as the hook prints it: a flat object whose members are escaped strings or any
  other values the scanner can step over.\<close>

datatype report_value = RV_Text string | RV_Raw string

definition printed_string :: "string \<Rightarrow> string" where
  "printed_string v = [quote] @ concat (map escape_char v) @ [quote]"

fun printed_value :: "report_value \<Rightarrow> string" where
  "printed_value (RV_Text v) = printed_string v"
| "printed_value (RV_Raw w) = w"

fun printed_members :: "(string \<times> report_value) list \<Rightarrow> string" where
  "printed_members [] = ''}''"
| "printed_members [(k, v)] = printed_string k @ '':'' @ printed_value v @ ''}''"
| "printed_members ((k, v) # m) = printed_string k @ '':'' @ printed_value v @ '','' @ printed_members m"

definition printed_report :: "(string \<times> report_value) list \<Rightarrow> string" where
  "printed_report m = ''{'' @ printed_members m"

definition report_text :: "string \<Rightarrow> bool" where
  "report_text v \<longleftrightarrow> (\<forall>c \<in> set v. byte_of c < 128 \<and> (32 \<le> byte_of c \<or> c \<in> {newline, carriage_return, tab}))"

definition skippable :: "string \<Rightarrow> bool" where
  "skippable w \<longleftrightarrow> (\<forall>t. skip_json_value (w @ '','' @ t) 0 = Some ('','' @ t) \<and>
                     skip_json_value (w @ ''}'' @ t) 0 = Some (''}'' @ t))"

fun value_ok :: "string \<Rightarrow> string \<times> report_value \<Rightarrow> bool" where
  "value_ok field (k, RV_Text v) \<longleftrightarrow> report_text k \<and> report_text v"
| "value_ok field (k, RV_Raw w) \<longleftrightarrow> report_text k \<and> k \<noteq> field \<and> skippable w"

fun text_of :: "string \<times> report_value \<Rightarrow> (string \<times> string) option" where
  "text_of (k, RV_Text v) = Some (k, v)"
| "text_of (k, RV_Raw w) = None"

lemma escaped_char_read:
  assumes "byte_of c < 128" and "32 \<le> byte_of c \<or> c \<in> {newline, carriage_return, tab}"
  shows "json_string_body_from v (escape_char c @ t) = json_string_body_from (v @ [c]) t"
proof -
  consider "c = quote" | "c = backslash" | "c = newline" | "c = carriage_return" | "c = tab"
    | "c \<notin> {quote, backslash, newline, carriage_return, tab}" "32 \<le> byte_of c"
    using assms(2) by blast
  then show ?thesis
  proof cases
    case 6
    then have "\<not> (of_char c :: nat) < 32" by (simp add: byte_of_def)
    with 6 assms(1) show ?thesis by (simp add: escape_char_def latin1_def)
  qed (simp_all add: escape_char_def json_unescape_def char_defs)
qed

lemma printed_string_read:
  "report_text x \<Longrightarrow> json_string_body_from v (concat (map escape_char x) @ quote # t) = Some (v @ x, t)"
  by (induction x arbitrary: v) (simp_all add: report_text_def escaped_char_read)

lemma parse_printed_string [simp]:
  "report_text x \<Longrightarrow> parse_json_string (printed_string x @ t) = Some (x, t)"
  using printed_string_read [of x "[]" t] by (simp add: parse_json_string_def printed_string_def)

lemma skip_ws_idem [simp]: "skip_json_whitespace (skip_json_whitespace s) = skip_json_whitespace s"
  by (simp add: skip_json_whitespace_def)

lemma skip_value_ws: "skip_json_value (skip_json_whitespace s) d = skip_json_value s d"
  by (simp add: skip_json_value_def skip_json.simps(1))

lemma skip_ws_quote [simp]: "skip_json_whitespace (quote # s) = quote # s"
  and skip_ws_punct [simp]: "skip_json_whitespace (CHR '','' # s) = CHR '','' # s"
    "skip_json_whitespace (CHR ''}'' # s) = CHR ''}'' # s"
    "skip_json_whitespace (CHR '':'' # s) = CHR '':'' # s"
  by (simp_all add: skip_json_whitespace_def json_ws_def char_defs)

lemma skip_ws_printed [simp]: "skip_json_whitespace (printed_string x @ t) = printed_string x @ t"
  by (simp add: printed_string_def)

lemma take_printed: "take 1 (printed_string x @ t) = [quote]"
  by (simp add: printed_string_def)

text \<open>One member, up to the character after its value.\<close>

definition value_step :: "string \<Rightarrow> string option \<Rightarrow> string \<times> report_value \<Rightarrow> string option" where
  "value_step field v m =
     (case text_of m of None \<Rightarrow> v | Some (k, x) \<Rightarrow> if k = field then Some x else v)"

lemma member_read:
  assumes ok: "value_ok field (k, x)" and c: "c = CHR '','' \<or> c = CHR ''}''"
  shows "top_level_members field v (printed_string k @ '':'' @ printed_value x @ c # t) =
    (if c = CHR '','' then top_level_members field (value_step field v (k, x)) t
     else if skip_json_whitespace t = [] then Some (value_step field v (k, x)) else None)"
proof -
  have k: "report_text k" using ok by (cases x) simp_all
  have q: "quote \<noteq> CHR ''}''" "quote \<noteq> CHR '':''" by (simp_all add: quote_def)
  define s3 where "s3 = skip_json_whitespace (printed_value x @ c # t)"
  have val: "(if k = field then map_option (\<lambda>(x, r). (Some x, r)) (parse_json_string s3)
        else map_option (\<lambda>r. (v, r)) (skip_json_value s3 0)) = Some (value_step field v (k, x), c # t)"
  proof (cases x)
    case (RV_Text y)
    then have s3: "s3 = printed_string y @ c # t" and y: "report_text y"
      using ok by (simp_all add: s3_def)
    have "skip_json_value s3 0 = Some (c # t)"
      using parse_printed_string [OF y, of "c # t"] 
      by (simp add: s3 skip_json_value_def skip_json.simps(1))
        (simp add: printed_string_def)
    then show ?thesis
      using y RV_Text by (simp add: s3 value_step_def)
  next
    case (RV_Raw w)
    then have "skip_json_value s3 0 = Some (c # t)"
      using ok c by (auto simp: s3_def skip_value_ws skippable_def)
    then show ?thesis
      using RV_Raw ok by (simp add: value_step_def)
  qed
  have cws: "skip_json_whitespace (c # t) = c # t"
    using c by auto
  show ?thesis
    using c
    by (subst top_level_members.simps)
      (simp add: take_printed [simplified] q k val [unfolded s3_def] cws split del: if_split,
       auto simp: Let_def)
qed

lemma members_read:
  "m \<noteq> [] \<Longrightarrow> list_all (value_ok field) m \<Longrightarrow>
   top_level_members field v (printed_members m) = Some (foldl (value_step field) v m)"
proof (induction m arbitrary: v rule: printed_members.induct)
  case 1
  then show ?case by simp
next
  case (2 k x)
  then show ?case
    using member_read [of field k x "CHR ''}''" v "[]"] by (simp add: skip_json_whitespace_def)
next
  case (3 k x a m)
  then show ?case
    using member_read [of field k x "CHR '',''" v "printed_members (a # m)"] by simp
qed

lemma top_level_empty: "top_level_members field v ''}'' = Some v"
  by (subst top_level_members.simps) (simp add: skip_json_whitespace_def json_ws_def char_defs)

lemma value_step_last:
  "foldl (value_step field) v m =
     (case map_of (rev (List.map_filter text_of m)) field of None \<Rightarrow> v | Some x \<Rightarrow> Some x)"
proof (induction m arbitrary: v)
  case (Cons a m)
  then show ?case
    by (cases "text_of a") (auto simp: value_step_def List.map_filter_def map_add_def split: option.splits)
qed (simp add: List.map_filter_def)

lemma report_field_read:
  "list_all (value_ok field) m \<Longrightarrow>
   top_level_json_string_field (printed_report m) field = Some (map_of (rev (List.map_filter text_of m)) field)"
  using members_read [of m field None] top_level_empty [of field None]
  by (cases "m = []")
    (auto simp: top_level_json_string_field_def printed_report_def skip_json_whitespace_def json_ws_def
      char_defs value_step_last List.map_filter_def split: option.splits)

definition hook_report_ok :: "(string \<times> report_value) list \<Rightarrow> bool" where
  "hook_report_ok m \<longleftrightarrow>
     list_all (value_ok ''system_control_status'') m \<and> list_all (value_ok ''status'') m"


lemma skippable_true: "skippable ''true''"
  by (simp add: skippable_def skip_json_value_def skip_json.simps skip_json_whitespace_def json_ws_def
      char_defs scan_atom_def consume_json_literal_def)


end
