(* ===== verification/World.thy ===== *)
theory World
  imports Frames Logging
begin

text \<open>
  What the manager state reaches outside itself: the configuration files, the hook that takes
  over a new configuration, and the clock.  Each primitive file operation consumes one entry of
  the fault list, so a proof about all fault lists covers a failure at every step of
  \<^verbatim>\<open>atomic_write\<close>.  The answer of the hook may depend on all its earlier calls.
\<close>

record world =
  wd_files :: "string \<Rightarrow> bytes option"
  wd_faults :: "io_error option list"
  wd_hook :: "(bytes \<times> bool res) list"
  wd_answer :: "(bytes \<times> bool res) list \<Rightarrow> bytes \<Rightarrow> bool res"
  wd_clock :: "nat \<Rightarrow> u128"
  wd_ticks :: nat

subsection \<open>Primitive operations\<close>

definition world_fault :: "world \<Rightarrow> io_error option \<times> world" where
  "world_fault w =
     (case wd_faults w of [] \<Rightarrow> (None, w) | f # fs \<Rightarrow> (f, w\<lparr>wd_faults := fs\<rparr>))"

definition set_file :: "string \<Rightarrow> bytes option \<Rightarrow> world \<Rightarrow> world" where
  "set_file path content w = w\<lparr>wd_files := (wd_files w)(path := content)\<rparr>"

definition absent :: io_error where
  "absent = \<lparr>io_kind = NotFound, io_message = ''No such file or directory (os error 2)''\<rparr>"

definition file_read :: "string \<Rightarrow> world \<Rightarrow> (io_error + bytes) \<times> world" where
  "file_read path w =
     (case world_fault w of
        (Some e, w1) \<Rightarrow> (Inl e, w1)
      | (None, w1) \<Rightarrow> ((case wd_files w1 path of None \<Rightarrow> Inl absent | Some b \<Rightarrow> Inr b), w1))"

text \<open>An operation that succeeds unless it is made to fail: opening with create and truncate,
  writing (a failed write leaves the truncated file), and syncing.\<close>

definition file_step :: "(world \<Rightarrow> world) \<Rightarrow> world \<Rightarrow> unit res \<times> world" where
  "file_step effect w =
     (case world_fault w of
        (Some e, w1) \<Rightarrow> (Inl (Io_Error e), w1)
      | (None, w1) \<Rightarrow> (Inr (), effect w1))"

definition file_rename :: "string \<Rightarrow> string \<Rightarrow> world \<Rightarrow> world" where
  "file_rename from to w = set_file from None (set_file to (wd_files w from) w)"

definition file_remove :: "string \<Rightarrow> world \<Rightarrow> (io_error + unit) \<times> world" where
  "file_remove path w =
     (case world_fault w of
        (Some e, w1) \<Rightarrow> (Inl e, w1)
      | (None, w1) \<Rightarrow>
          (case wd_files w1 path of
             None \<Rightarrow> (Inl absent, w1)
           | Some _ \<Rightarrow> (Inr (), set_file path None w1)))"

definition hook_call :: "bytes \<Rightarrow> world \<Rightarrow> bool res \<times> world" where
  "hook_call payload w =
     (let r = wd_answer w (wd_hook w) payload in (r, w\<lparr>wd_hook := (payload, r) # wd_hook w\<rparr>))"

definition read_clock :: "world \<Rightarrow> u128 \<times> world" where
  "read_clock w = (wd_clock w (wd_ticks w), w\<lparr>wd_ticks := wd_ticks w + 1\<rparr>)"

subsection \<open>Paths\<close>

definition path_components :: "string \<Rightarrow> string list" where
  "path_components path = filter (\<lambda>c. c \<noteq> [] \<and> c \<noteq> ''.'') (split_on (CHR ''/'') path)"

definition path_file_name :: "string \<Rightarrow> string option" where
  "path_file_name path =
     (case rev (path_components path) of
        [] \<Rightarrow> None
      | c # _ \<Rightarrow> if c = ''..'' then None else Some c)"

text \<open>\<^verbatim>\<open>with_file_name\<close> for a path that ends in its file name.\<close>

definition with_file_name :: "string \<Rightarrow> string \<Rightarrow> string" where
  "with_file_name path name = rev (dropWhile (\<lambda>c. c \<noteq> CHR ''/'') (rev path)) @ name"

definition temp_path :: "string \<Rightarrow> string \<Rightarrow> string" where
  "temp_path path file_name = with_file_name path (''.'' @ file_name @ ''.tmp'')"

subsection \<open>Replacing a file\<close>

text \<open>A chain of operations stops at the first error.\<close>

definition and_then :: "'a res \<times> world \<Rightarrow> (world \<Rightarrow> 'b res \<times> world) \<Rightarrow> 'b res \<times> world" where
  "and_then r k = (case r of (Inl e, w) \<Rightarrow> (Inl e, w) | (Inr _, w) \<Rightarrow> k w)"

definition sync_parent :: "string \<Rightarrow> world \<Rightarrow> unit res \<times> world" where
  "sync_parent path w =
     (if path_components path = []
        then (Inl (Config_Error ''persistence path has no parent directory''), w)
      else if CHR ''/'' \<notin> set path then (Inl (Io_Error absent), snd (world_fault w))
      else and_then (file_step (\<lambda>w. w) w) (file_step (\<lambda>w. w)))"

definition atomic_write :: "string \<Rightarrow> bytes \<Rightarrow> world \<Rightarrow> unit res \<times> world" where
  "atomic_write path payload w =
     (case path_file_name path of
        None \<Rightarrow> (Inl (Config_Error ''persistence path has no valid file name''), w)
      | Some file_name \<Rightarrow>
          let temp = temp_path path file_name
          in and_then (file_step (set_file temp (Some [])) w)
               (\<lambda>w. and_then (file_step (set_file temp (Some payload)) w)
               (\<lambda>w. and_then (file_step (\<lambda>w. w) w)
               (\<lambda>w. and_then (file_step (file_rename temp path) w)
               (sync_parent path)))))"

definition read_existing_file :: "string option \<Rightarrow> world \<Rightarrow> bytes option res \<times> world" where
  "read_existing_file path w =
     (case path of
        None \<Rightarrow> (Inl (Config_Error ''persistence path is not configured''), w)
      | Some p \<Rightarrow>
          (case file_read p w of
             (Inr b, w1) \<Rightarrow> (Inr (Some b), w1)
           | (Inl e, w1) \<Rightarrow> (if io_kind e = NotFound then Inr None else Inl (Io_Error e), w1)))"

definition restore_file :: "string option \<Rightarrow> bytes option \<Rightarrow> world \<Rightarrow> unit res \<times> world" where
  "restore_file path previous w =
     (case path of
        None \<Rightarrow> (Inl (Config_Error ''persistence path is not configured''), w)
      | Some p \<Rightarrow>
          (case previous of
             Some b \<Rightarrow> atomic_write p b w
           | None \<Rightarrow>
               (case file_remove p w of
                  (Inr _, w1) \<Rightarrow> sync_parent p w1
                | (Inl e, w1) \<Rightarrow> (if io_kind e = NotFound then Inr () else Inl (Io_Error e), w1))))"

definition persisted_bytes_match :: "string \<Rightarrow> bytes \<Rightarrow> world \<Rightarrow> bool \<times> world" where
  "persisted_bytes_match path expected w =
     (case file_read path w of
        (Inr b, w1) \<Rightarrow> (b = expected, w1)
      | (Inl _, w1) \<Rightarrow> (False, w1))"

subsection \<open>What the operations change\<close>

text \<open>\<open>world_frame w w'\<close>: apart from the files and the consumed faults, nothing changed.\<close>

definition world_frame :: "world \<Rightarrow> world \<Rightarrow> bool" where
  "world_frame w w' \<longleftrightarrow>
     wd_hook w' = wd_hook w \<and> wd_answer w' = wd_answer w \<and> wd_clock w' = wd_clock w \<and>
     wd_ticks w' = wd_ticks w \<and> suffix (wd_faults w') (wd_faults w)"

lemma world_frame_refl [simp]: "world_frame w w"
  by (simp add: world_frame_def)

lemma world_frame_trans: "world_frame w1 w2 \<Longrightarrow> world_frame w2 w3 \<Longrightarrow> world_frame w1 w3"
  unfolding world_frame_def by (metis suffix_order.trans)

lemma world_fault_frame: "world_fault w = (f, w') \<Longrightarrow> world_frame w w' \<and> wd_files w' = wd_files w"
  by (auto simp: world_fault_def world_frame_def suffix_ConsI split: list.splits)

lemma set_file_frame [simp]: "world_frame (set_file p c w) = world_frame w" "world_frame v (set_file p c w) = world_frame v w"
  by (auto simp: set_file_def world_frame_def fun_eq_iff)

lemma set_file_files [simp]: "wd_files (set_file p c w) = (wd_files w)(p := c)"
  by (simp add: set_file_def)

lemma file_read_frame: "file_read p w = (r, w') \<Longrightarrow> world_frame w w' \<and> wd_files w' = wd_files w \<and>
    (r = Inr b \<longrightarrow> wd_files w p = Some b)"
  by (auto simp: file_read_def dest!: world_fault_frame split: prod.splits option.splits)

lemma file_step_cases:
  assumes "file_step effect w = (r, w')"
  obtains (ok) w1 where "r = Inr ()" "w' = effect w1" "world_frame w w1" "wd_files w1 = wd_files w"
    | (failed) e where "r = Inl (Io_Error e)" "world_frame w w'" "wd_files w' = wd_files w"
  using assms by (auto simp: file_step_def dest!: world_fault_frame split: prod.splits option.splits)

lemma split_on_nonempty [simp]: "split_on c s \<noteq> []"
  by (induction s) (auto split: list.splits)

lemma split_on_last: "last (split_on c s) = rev (takeWhile (\<lambda>x. x \<noteq> c) (rev s))"
proof (induction s)
  case (Cons x s)
  show ?case
  proof (cases "c \<in> set s")
    case True
    then have "takeWhile (\<lambda>y. y \<noteq> c) (rev s @ [x]) = takeWhile (\<lambda>y. y \<noteq> c) (rev s)"
      by (induction s rule: rev_induct) auto
    moreover have "length (split_on c s) > 1"
      using True by (induction s) (auto split: list.splits)
    ultimately show ?thesis using Cons.IH
      by (auto split: list.splits)
  next
    case False
    then have "split_on c s = [s]" by (induction s) auto
    with False show ?thesis by (auto simp: takeWhile_append)
  qed
qed simp

lemma temp_is_not_the_file:
  assumes "path_file_name path = Some n"
  shows "temp_path path n \<noteq> path"
proof
  let ?base = "\<lambda>p. rev (takeWhile (\<lambda>c. c \<noteq> CHR ''/'') (rev p)) :: string"
  assume same: "temp_path path n = path"
  have cut: "path = rev (dropWhile (\<lambda>c. c \<noteq> CHR ''/'') (rev path)) @ ?base path"
    by (metis rev_append rev_rev_ident takeWhile_dropWhile_id)
  with same have base: "?base path = ''.'' @ n @ ''.tmp''"
    unfolding temp_path_def with_file_name_def by (metis same_append_eq)
  then have "last (split_on (CHR ''/'') path) = ''.'' @ n @ ''.tmp''"
    by (simp add: split_on_last)
  then obtain cs where "split_on (CHR ''/'') path = cs @ [''.'' @ n @ ''.tmp'']"
    by (metis append_butlast_last_id split_on_nonempty)
  then have "path_components path = filter (\<lambda>c. c \<noteq> [] \<and> c \<noteq> ''.'') cs @ [''.'' @ n @ ''.tmp'']"
    by (simp add: path_components_def)
  with assms have "n = ''.'' @ n @ ''.tmp''"
    by (simp add: path_file_name_def split: if_splits)
  then have "length n = length (''.'' @ n @ ''.tmp'')" by (rule arg_cong)
  then show False by simp
qed

lemma and_then_cases:
  assumes "and_then r k = (x, w')"
  obtains (stop) e where "fst r = Inl e" "x = Inl e" "w' = snd r"
    | (go) v w where "r = (Inr v, w)" "k w = (x, w')"
  using assms by (cases r; cases "fst r") (auto simp: and_then_def)

lemma sync_parent_frame:
  assumes "sync_parent path w = (r, w')"
  shows "world_frame w w' \<and> wd_files w' = wd_files w"
proof (cases "path_components path = [] \<or> CHR ''/'' \<notin> set path")
  case True
  then show ?thesis
    using assms world_fault_frame [of w "fst (world_fault w)" "snd (world_fault w)"]
    by (auto simp: sync_parent_def split: if_splits)
next
  case False
  with assms have run: "and_then (file_step (\<lambda>w. w) w) (file_step (\<lambda>w. w)) = (r, w')"
    by (simp add: sync_parent_def)
  then show ?thesis
  proof (cases rule: and_then_cases)
    case (stop e)
    then have "file_step (\<lambda>w. w) w = (Inl e, w')" by (cases "file_step (\<lambda>w. w) w") simp
    then show ?thesis by (cases rule: file_step_cases) auto
  next
    case (go v w1)
    from go(1) have "world_frame w w1 \<and> wd_files w1 = wd_files w" by (cases rule: file_step_cases) auto
    moreover from go(2) have "world_frame w1 w' \<and> wd_files w' = wd_files w1" by (cases rule: file_step_cases) auto
    ultimately show ?thesis using world_frame_trans by auto
  qed
qed

text \<open>A replacement either leaves the file as it was or puts the whole payload there; it reports
  success only in the second case.\<close>

definition only_file :: "string \<Rightarrow> world \<Rightarrow> world \<Rightarrow> bool" where
  "only_file path w w' \<longleftrightarrow> world_frame w w' \<and>
     (\<exists>temp. temp \<noteq> path \<and> (\<forall>p. p \<noteq> path \<longrightarrow> p \<noteq> temp \<longrightarrow> wd_files w' p = wd_files w p))"

lemma atomic_write_effect:
  assumes "atomic_write path payload w = (r, w')"
  shows "only_file path w w' \<and> wd_files w' path \<in> {wd_files w path, Some payload} \<and>
    (is_ok r \<longrightarrow> wd_files w' path = Some payload)"
proof (cases "path_file_name path")
  case None
  with assms show ?thesis by (auto simp: atomic_write_def only_file_def)
next
  case (Some n)
  let ?t = "temp_path path n"
  define pre where "pre v \<longleftrightarrow> world_frame w v \<and> wd_files v path = wd_files w path \<and>
      (\<forall>p. p \<noteq> path \<longrightarrow> p \<noteq> ?t \<longrightarrow> wd_files v p = wd_files w p)" for v
  have t: "?t \<noteq> path" by (rule temp_is_not_the_file [OF Some])
  have pre_ok: "pre v \<Longrightarrow> only_file path w v \<and> wd_files v path \<in> {wd_files w path, Some payload}" for v
    using t unfolding pre_def only_file_def by blast
  have step: "pre v'" if "file_step effect v = (x, v')" "pre v"
      "\<And>u. effect u = u \<or> (\<exists>c. effect u = set_file ?t c u)" for effect v x v'
    using that(1)
  proof (cases rule: file_step_cases)
    case (ok v1)
    with that(2) have "pre v1" by (auto simp: pre_def intro: world_frame_trans)
    with that(3) [of v1] t ok(2) show ?thesis by (auto simp: pre_def)
  next
    case failed
    with that(2) show ?thesis by (auto simp: pre_def intro: world_frame_trans)
  qed
  have halt: ?thesis if "file_step effect v = (x, u)" "pre v" "r = Inl e" "w' = u"
      "\<And>u. effect u = u \<or> (\<exists>c. effect u = set_file ?t c u)" for effect v x u e
    using step [OF that(1,2,5)] pre_ok that(3,4) by (simp add: is_ok_def)
  have w: "pre w" by (simp add: pre_def)
  from assms have "and_then (file_step (set_file ?t (Some [])) w)
       (\<lambda>w. and_then (file_step (set_file ?t (Some payload)) w)
       (\<lambda>w. and_then (file_step (\<lambda>w. w) w)
       (\<lambda>w. and_then (file_step (file_rename ?t path) w) (sync_parent path)))) = (r, w')"
    by (simp add: atomic_write_def Some Let_def)
  then show ?thesis
  proof (cases rule: and_then_cases)
    case (stop e)
    then show ?thesis by (intro halt [of "set_file ?t (Some [])" w "Inl e" w']) (auto simp: w prod_eq_iff)
  next
    case (go v1 w1)
    note g1 = go
    have w1: "pre w1" using step [OF g1(1) w] by auto
    from g1(2) show ?thesis
    proof (cases rule: and_then_cases)
      case (stop e)
      then show ?thesis by (intro halt [of "set_file ?t (Some payload)" w1 "Inl e" w']) (auto simp: w1 prod_eq_iff)
    next
      case (go v2 w2)
      note g2 = go
      have w2: "pre w2" using step [OF g2(1) w1] by auto
      have temp2: "wd_files w2 ?t = Some payload"
        using g2(1) by (cases rule: file_step_cases) auto
      from g2(2) show ?thesis
      proof (cases rule: and_then_cases)
        case (stop e)
        then show ?thesis by (intro halt [of "\<lambda>w. w" w2 "Inl e" w']) (auto simp: w2 prod_eq_iff)
      next
        case (go v3 w3)
        note g3 = go
        have w3: "pre w3" using step [OF g3(1) w2] by auto
        have temp3: "wd_files w3 ?t = Some payload"
          using g3(1) temp2 by (cases rule: file_step_cases) auto
        from g3(2) show ?thesis
        proof (cases rule: and_then_cases)
          case (stop e)
          then have "file_step (file_rename ?t path) w3 = (Inl e, w')" by (simp add: prod_eq_iff)
          then have "world_frame w3 w'" "wd_files w' = wd_files w3" by (cases rule: file_step_cases; simp)+
          with w3 have "pre w'" by (auto simp: pre_def intro: world_frame_trans)
          with pre_ok stop show ?thesis by (simp add: is_ok_def)
        next
          case (go v4 w4)
          note g4 = go
          from g4(1) have "world_frame w3 w4 \<and> wd_files w4 = (wd_files w3)(path := Some payload, ?t := None)"
            by (cases rule: file_step_cases) (auto simp: file_rename_def temp3)
          with sync_parent_frame [OF g4(2)] w3 t show ?thesis
            by (auto simp: only_file_def pre_def intro: world_frame_trans)
        qed
      qed
    qed
  qed
qed

text \<open>The operating system reports a missing file only when there is none.\<close>

definition honest_faults :: "world \<Rightarrow> bool" where
  "honest_faults w \<longleftrightarrow> (\<forall>e. Some e \<in> set (wd_faults w) \<longrightarrow> io_kind e \<noteq> NotFound)"

lemma honest_frame: "honest_faults w \<Longrightarrow> world_frame w w' \<Longrightarrow> honest_faults w'"
  unfolding honest_faults_def world_frame_def by (meson set_mono_suffix subsetD)

lemma only_file_refl [simp]: "only_file p w w"
proof -
  have "\<exists>t. t \<noteq> p" by (rule exI [of _ "CHR ''x'' # p"]) simp
  then show ?thesis by (auto simp: only_file_def)
qed

lemma only_file_same: "world_frame w w' \<Longrightarrow> wd_files w' = wd_files w \<Longrightarrow> only_file p w w'"
  using only_file_refl [of p w] by (auto simp: only_file_def)

lemma file_remove_effect:
  assumes "file_remove p w = (r, w')"
  shows "world_frame w w' \<and> (case r of Inr _ \<Rightarrow> wd_files w' = (wd_files w)(p := None)
    | Inl e \<Rightarrow> wd_files w' = wd_files w \<and> (honest_faults w \<longrightarrow> io_kind e = NotFound \<longrightarrow> wd_files w p = None))"
  using assms
  by (auto simp: file_remove_def world_fault_def honest_faults_def world_frame_def suffix_ConsI
      set_file_def fun_eq_iff split: prod.splits option.splits list.splits)

lemma restore_file_effect:
  assumes "restore_file (Some p) previous w = (r, w')"
  shows "only_file p w w' \<and> wd_files w' p \<in> {wd_files w p, previous} \<and>
    (honest_faults w \<longrightarrow> is_ok r \<longrightarrow> wd_files w' p = previous)"
proof (cases previous)
  case (Some b)
  with assms have "atomic_write p b w = (r, w')" by (simp add: restore_file_def)
  from atomic_write_effect [OF this] show ?thesis by (simp add: Some)
next
  case None
  obtain x w1 where 1: "file_remove p w = (x, w1)" by fastforce
  note eff = file_remove_effect [OF 1]
  show ?thesis
  proof (cases x)
    case (Inl e)
    with assms None 1 have "w' = w1" "is_ok r \<longleftrightarrow> io_kind e = NotFound"
      by (auto simp: restore_file_def split: if_splits)
    with eff Inl None only_file_same [of w w1 p] show ?thesis by auto
  next
    case (Inr u)
    with assms None 1 have "sync_parent p w1 = (r, w')" by (simp add: restore_file_def)
    from sync_parent_frame [OF this] eff Inr None
    have "world_frame w w'" "wd_files w' = (wd_files w)(p := None)"
      by (auto intro: world_frame_trans)
    moreover have "only_file p w w'"
      using calculation only_file_refl [of p w] by (auto simp: only_file_def)
    ultimately show ?thesis using None by simp
  qed
qed

lemma persisted_match_effect:
  assumes "persisted_bytes_match p expected w = (b, w')"
  shows "world_frame w w' \<and> wd_files w' = wd_files w \<and> (b \<longrightarrow> wd_files w p = Some expected) \<and>
    (wd_faults w = [] \<longrightarrow> b = (wd_files w p = Some expected))"
  using assms
  by (auto simp: persisted_bytes_match_def file_read_def world_fault_def world_frame_def suffix_ConsI
      split: prod.splits option.splits list.splits)

end
