(* ===== verification/Manager_State.thy ===== *)
theory Manager_State
  imports World Inventory
begin

text \<open>
  \<^verbatim>\<open>protocol/manager_v1.rs\<close>: the state the manager reads and changes, its settings,
  the commands that only read it, and the settings command.
\<close>

subsection \<open>State\<close>

record read_only_state =
  ro_module_id :: string
  ro_module_name :: string
  ro_version :: string
  ro_version_code :: u32
  ro_author :: string
  ro_cluster_num :: u32
  ro_manager_log :: manager_log
  ro_changelog :: string
  ro_settings :: bytes
  ro_xp_log :: string
  ro_app_config :: "manager_app_config_record list"
  ro_config_revision :: u64
  ro_app_config_source_tokens :: "(u32, string) btree"
  ro_freeze_status :: "manager_freeze_status_record list"
  ro_module_env :: string
  ro_work_mode :: string
  ro_android_version :: string
  ro_kernel_version :: string
  ro_ext_memory_mib :: u32
  ro_daemon_health :: string
  ro_hook_health :: string
  ro_health_report_json :: string
  ro_capability_report_json :: string
  ro_compatibility_report_json :: string
  ro_operation_log_json :: string
  ro_self_check_json :: string
  ro_control_allowed :: bool
  ro_verified_targets :: "(string \<times> u32) list"
  ro_hook_config_synced :: bool
  ro_settings_path :: "string option"
  ro_app_config_path :: "string option"
  ro_app_label_path :: "string option"
  ro_uid_time_path :: string
  ro_uid_time_totals :: "(u32, i32) btree"
  ro_authorized_manager_uids :: "u32 bset"

definition legacy_default_settings :: bytes where
  "legacy_default_settings =
     (replicate 256 0)[0 := 8, 2 := 10, 3 := 4, 4 := 20, 5 := 0, 6 := 2, 10 := 1, 13 := 1, 16 := 1,
        17 := 1, 19 := 1]"

definition object_of :: "string \<Rightarrow> string \<Rightarrow> string" where
  "object_of field value = ''{'' @ [quote] @ field @ [quote] @ '':'' @ value @ ''}''"

definition default_read_only_state :: read_only_state where
  "default_read_only_state =
    \<lparr>ro_module_id = ''freezeit'', ro_module_name = ''Freezeit'', ro_version = ''0.1.0-rust'',
     ro_version_code = 1, ro_author = ''jark006'', ro_cluster_num = 0,
     ro_manager_log = manager_log_new 256, ro_changelog = [], ro_settings = legacy_default_settings,
     ro_xp_log = ''hook health unknown'' @ [newline], ro_app_config = [], ro_config_revision = 0,
     ro_app_config_source_tokens = [], ro_freeze_status = [], ro_module_env = ''Magisk'',
     ro_work_mode = ''Rust daemon degraded'', ro_android_version = ''Unknown'',
     ro_kernel_version = ''Unknown'', ro_ext_memory_mib = 0, ro_daemon_health = ''degraded'',
     ro_hook_health = ''unknown'',
     ro_health_report_json = object_of ''status'' ([quote] @ ''degraded'' @ [quote]),
     ro_capability_report_json = object_of ''capabilities'' ''[]'',
     ro_compatibility_report_json = object_of ''capabilities'' ''[]'',
     ro_operation_log_json = object_of ''operations'' ''[]'',
     ro_self_check_json = object_of ''controlAllowed'' ''false'', ro_control_allowed = False,
     ro_verified_targets = [], ro_hook_config_synced = False, ro_settings_path = None,
     ro_app_config_path = None, ro_app_label_path = None,
     ro_uid_time_path = ''/proc/uid_cputime/show_uid_stat'', ro_uid_time_totals = [],
     ro_authorized_manager_uids = []\<rparr>"

definition normalize_settings :: "bytes option \<Rightarrow> bytes" where
  "normalize_settings settings =
     (case settings of
        None \<Rightarrow> legacy_default_settings
      | Some b \<Rightarrow>
          if length b = 256 \<and> hd b = 8 then b
          else (take 256 b @ drop (length (take 256 b)) legacy_default_settings)[0 := 8])"

subsection \<open>Commands that only read\<close>

definition command_debug_name :: "manager_command \<Rightarrow> string" where
  "command_debug_name command =
     (case command of
        GetPropInfo \<Rightarrow> ''GetPropInfo'' | GetChangelog \<Rightarrow> ''GetChangelog'' | GetLog \<Rightarrow> ''GetLog''
      | GetAppCfg \<Rightarrow> ''GetAppCfg'' | GetRealTimeInfo \<Rightarrow> ''GetRealTimeInfo''
      | GetSettings \<Rightarrow> ''GetSettings'' | GetUidTime \<Rightarrow> ''GetUidTime'' | GetXpLog \<Rightarrow> ''GetXpLog''
      | GetFreezeStatus \<Rightarrow> ''GetFreezeStatus'' | SetAppCfg \<Rightarrow> ''SetAppCfg''
      | SetAppLabel \<Rightarrow> ''SetAppLabel'' | SetSettingsVar \<Rightarrow> ''SetSettingsVar''
      | ClearLog \<Rightarrow> ''ClearLog'' | GetProcState \<Rightarrow> ''GetProcState''
      | GetHealthReport \<Rightarrow> ''GetHealthReport'' | GetCapabilityReport \<Rightarrow> ''GetCapabilityReport''
      | GetCompatibilityBaseline \<Rightarrow> ''GetCompatibilityBaseline''
      | GetOperationLogJson \<Rightarrow> ''GetOperationLogJson'' | RunSelfCheck \<Rightarrow> ''RunSelfCheck'')"

definition prop_info :: "read_only_state \<Rightarrow> string" where
  "prop_info s =
     str_join [newline]
       [ro_module_id s, ro_module_name s, ro_version s, show_u32 (ro_version_code s), ro_author s,
        show_u32 (ro_cluster_num s), ro_module_env s, ro_work_mode s, ro_android_version s,
        ro_kernel_version s, show_u32 (ro_ext_memory_mib s), ro_daemon_health s, ro_hook_health s]"

definition not_implemented :: "manager_command \<Rightarrow> daemon_error" where
  "not_implemented command =
     Protocol_Error (''manager command '' @ command_debug_name command
       @ '' is not implemented in the compatibility handler'')"

definition handle_read_only_command :: "manager_command \<Rightarrow> read_only_state \<Rightarrow> bytes res" where
  "handle_read_only_command command s =
     (case command of
        GetPropInfo \<Rightarrow> Inr (text_bytes (prop_info s))
      | GetChangelog \<Rightarrow> Inr (text_bytes (ro_changelog s))
      | GetLog \<Rightarrow>
          (let raw = (if log_level_setting_index < length (ro_settings s)
                      then ro_settings s ! log_level_setting_index else 0)
           in Inr (text_bytes (log_render (ro_manager_log s) (fst (decode_log_view raw)))))
      | GetSettings \<Rightarrow> Inr (ro_settings s)
      | GetXpLog \<Rightarrow> Inr (text_bytes (ro_xp_log s))
      | GetAppCfg \<Rightarrow> Inr (encode_app_config_for_manager (ro_app_config s))
      | GetUidTime \<Rightarrow> Inr []
      | SetAppCfg \<Rightarrow> Inl (Protocol_Error ''write command requires mutable manager state'')
      | SetAppLabel \<Rightarrow> Inl (Protocol_Error ''write command requires mutable manager state'')
      | SetSettingsVar \<Rightarrow> Inl (Protocol_Error ''write command requires mutable manager state'')
      | GetHealthReport \<Rightarrow> Inr (text_bytes (ro_health_report_json s))
      | GetCapabilityReport \<Rightarrow> Inr (text_bytes (ro_capability_report_json s))
      | GetCompatibilityBaseline \<Rightarrow> Inr (text_bytes (ro_compatibility_report_json s))
      | GetOperationLogJson \<Rightarrow> Inr (text_bytes (ro_operation_log_json s))
      | RunSelfCheck \<Rightarrow> Inr (text_bytes (ro_self_check_json s))
      | GetRealTimeInfo \<Rightarrow> Inl (not_implemented command)
      | GetFreezeStatus \<Rightarrow> Inl (not_implemented command)
      | ClearLog \<Rightarrow> Inl (not_implemented command)
      | GetProcState \<Rightarrow> Inl (not_implemented command))"

subsection \<open>Committing a configuration\<close>

definition advance_config_revision :: "read_only_state \<Rightarrow> read_only_state" where
  "advance_config_revision s = s\<lparr>ro_config_revision := (ro_config_revision s + 1) mod 2 ^ 64\<rparr>"

definition commit_settings :: "bytes \<Rightarrow> read_only_state \<Rightarrow> read_only_state" where
  "commit_settings settings s =
     (let s1 = s\<lparr>ro_settings := settings\<rparr>
      in if ro_settings s \<noteq> settings then advance_config_revision s1 else s1)"

definition commit_app_config ::
  "manager_app_config_record list \<Rightarrow> (u32, string) btree \<Rightarrow> read_only_state \<Rightarrow> read_only_state" where
  "commit_app_config records source_tokens s =
     (let s1 = s\<lparr>ro_app_config := records, ro_app_config_source_tokens := source_tokens\<rparr>
      in if ro_app_config s \<noteq> records then advance_config_revision s1 else s1)"

definition append_legacy_log_message ::
  "string \<Rightarrow> read_only_state \<Rightarrow> world \<Rightarrow> read_only_state \<times> world" where
  "append_legacy_log_message message s w =
     (case read_clock w of
        (now, w1) \<Rightarrow>
          (s\<lparr>ro_manager_log := log_push (legacy_text now message) (ro_manager_log s)\<rparr>, w1))"

subsection \<open>Changing one setting\<close>

definition setting_allowed :: "nat \<Rightarrow> nat \<Rightarrow> bool" where
  "setting_allowed idx v \<longleftrightarrow>
     (idx = 2 \<and> 1 \<le> v \<and> v \<le> 60) \<or> (idx = 3 \<and> v \<le> 5) \<or> (idx = 4 \<and> 3 \<le> v \<and> v \<le> 120) \<or>
     (idx = 5 \<and> v \<le> 2) \<or> (idx = 6 \<and> v \<le> 3) \<or> (idx = 30 \<and> v \<le> 4) \<or>
     (10 \<le> idx \<and> idx \<le> 29 \<and> v \<le> 1)"

definition setting_error :: "nat \<Rightarrow> nat \<Rightarrow> string option" where
  "setting_error idx v =
     (if idx = 2 \<and> \<not> (1 \<le> v \<and> v \<le> 60) then Some ((utf8 [0xE8, 0xB6, 0x85,
        0xE6, 0x97, 0xB6, 0xE5, 0x86, 0xBB, 0xE7, 0xBB, 0x93, 0xE5, 0x8F, 0x82, 0xE6, 0x95, 0xB0, 0xE9, 0x94, 0x99, 0xE8, 0xAF, 0xAF, 0x2C, 0x20, 0xE6, 0xAC, 0xB2, 0xE8, 0xAE, 0xBE, 0xE4, 0xB8, 0xBA, 0x3A]) @ show_nat v)
      else if idx = 3 \<and> v > 5 then Some ((utf8 [0xE5, 0xAE, 0x9A, 0xE6, 0x97, 0xB6, 0xE8, 0xA7,
        0xA3, 0xE5, 0x86, 0xBB, 0xE5, 0x8F, 0x82, 0xE6, 0x95, 0xB0, 0xE9, 0x94, 0x99, 0xE8, 0xAF, 0xAF, 0x20, 0xE6, 0xAC, 0xB2, 0xE8, 0xAE, 0xBE, 0xE4, 0xB8, 0xBA, 0x3A]) @ show_nat v)
      else if idx = 4 \<and> \<not> (3 \<le> v \<and> v \<le> 120) then Some ((utf8 [0xE8, 0xB6,
        0x85, 0xE6, 0x97, 0xB6, 0xE6, 0x9D, 0x80, 0xE6, 0xAD, 0xBB, 0xE5, 0x8F, 0x82, 0xE6, 0x95, 0xB0, 0xE9, 0x94, 0x99, 0xE8, 0xAF, 0xAF, 0x2C, 0x20, 0xE6, 0xAC, 0xB2, 0xE8, 0xAE, 0xBE, 0xE4, 0xB8, 0xBA, 0x3A]) @ show_nat v)
      else if idx = 5 \<and> v > 2 then Some ((utf8 [0xE5, 0x86, 0xBB, 0xE7, 0xBB, 0x93, 0xE6, 0xA8,
        0xA1, 0xE5, 0xBC, 0x8F, 0xE5, 0x8F, 0x82, 0xE6, 0x95, 0xB0, 0xE9, 0x94, 0x99, 0xE8, 0xAF, 0xAF, 0x2C, 0x20, 0xE6, 0xAC, 0xB2, 0xE8, 0xAE, 0xBE, 0xE4, 0xB8, 0xBA, 0x3A]) @ show_nat v)
      else if idx = 6 \<and> v > 3 then Some ((utf8 [0xE5, 0xAE, 0x9A, 0xE6, 0x97, 0xB6, 0xE5, 0x8E,
        0x8B, 0xE5, 0x88, 0xB6, 0xE5, 0x8F, 0x82, 0xE6, 0x95, 0xB0, 0xE9, 0x94, 0x99, 0xE8, 0xAF, 0xAF, 0x2C, 0x20, 0xE6, 0xAC, 0xB2, 0xE8, 0xAE, 0xBE, 0xE4, 0xB8, 0xBA, 0x3A]) @ show_nat v)
      else if idx = 30 \<and> v > 4 then Some ((utf8 [0xE6, 0x97, 0xA5, 0xE5, 0xBF, 0x97, 0xE7, 0xBA,
        0xA7, 0xE5, 0x88, 0xAB, 0xE6, 0x97, 0xA0, 0xE6, 0x95, 0x88, 0x2C, 0x20, 0xE6, 0xAD, 0xA3, 0xE5, 0xB8, 0xB8, 0xE8, 0x8C, 0x83, 0xE5, 0x9B, 0xB4, 0x3A, 0x30, 0x2E, 0x2E, 0x34, 0x2C, 0x20, 0xE6, 0xAC, 0xB2, 0xE8, 0xAE, 0xBE, 0xE4, 0xB8, 0xBA, 0x3A]) @ show_nat v)
      else if 10 \<le> idx \<and> idx \<le> 29 \<and> v \<noteq> 0 \<and> v \<noteq> 1 then
        Some ((utf8 [0xE5, 0xBC, 0x80, 0xE5, 0x85, 0xB3, 0xE5, 0x80, 0xBC, 0xE9, 0x94, 0x99, 0xE8,
        0xAF, 0xAF, 0x2C, 0x20, 0xE6, 0xAD, 0xA3, 0xE5, 0xB8, 0xB8, 0xE8, 0x8C, 0x83, 0xE5, 0x9B, 0xB4, 0x3A, 0x30, 0x2F, 0x31, 0x2C, 0x20, 0xE6, 0xAC, 0xB2, 0xE8, 0xAE, 0xBE, 0xE4, 0xB8, 0xBA, 0x3A]) @ show_nat v)
      else if idx \<in> {2, 3, 4, 5, 6} \<or> (10 \<le> idx \<and> idx \<le> 30) then None
      else Some ((utf8 [0xE8, 0xAE, 0xBE, 0xE7, 0xBD, 0xAE, 0xE9, 0xA1, 0xB9, 0xE4, 0xB8, 0x8D, 0xE5,
        0xAD, 0x98, 0xE5, 0x9C, 0xA8, 0x2C, 0x20, 0x5B]) @ show_nat idx @ '']:['' @ show_nat v @ '']''))"

definition write_failed :: "nat \<Rightarrow> nat \<Rightarrow> string \<Rightarrow> bytes" where
  "write_failed idx v reason =
     text_bytes ((utf8 [0xE5, 0x86, 0x99, 0xE5, 0x85, 0xA5, 0xE8, 0xAE, 0xBE, 0xE7, 0xBD, 0xAE, 0xE6,
        0x96, 0x87, 0xE4, 0xBB, 0xB6, 0xE5, 0xA4, 0xB1, 0xE8, 0xB4, 0xA5, 0x2C, 0x20, 0x5B]) @ show_nat idx @ '']:'' @ show_nat v @ '': '' @ reason)"

definition success_response :: bytes where "success_response = text_bytes ''success''"
definition failure_response :: bytes where "failure_response = text_bytes ''failure''"

definition set_settings_var_with_writer ::
  "(string \<Rightarrow> bytes \<Rightarrow> world \<Rightarrow> unit res \<times> world) \<Rightarrow> bytes \<Rightarrow> read_only_state \<Rightarrow> world \<Rightarrow>
   bytes \<times> read_only_state \<times> world" where
  "set_settings_var_with_writer persist payload s w =
     (if length payload \<noteq> 2 then
        (text_bytes ((utf8 [0xE6, 0x95, 0xB0, 0xE6, 0x8D, 0xAE, 0xE9, 0x95, 0xBF, 0xE5, 0xBA, 0xA6,
        0xE4, 0xB8, 0x8D, 0xE6, 0xAD, 0xA3, 0xE7, 0xA1, 0xAE, 0x2C, 0x20, 0xE6, 0xAD, 0xA3, 0xE5, 0xB8, 0xB8, 0x3A, 0x32, 0x2C, 0x20, 0xE6, 0x94, 0xB6, 0xE5, 0x88, 0xB0, 0x3A]) @ show_nat (length payload)), s, w)
      else
        let idx = unat (payload ! 0); v = unat (payload ! 1)
        in case setting_error idx v of
             Some e \<Rightarrow> (text_bytes e, s, w)
           | None \<Rightarrow>
               let base = (if length (ro_settings s) = 256 then ro_settings s
                           else normalize_settings (Some (ro_settings s)));
                   updated = base[idx := payload ! 1]
               in case ro_settings_path s of
                    None \<Rightarrow>
                      (write_failed idx v ''persistence path missing'', s\<lparr>ro_hook_config_synced := False\<rparr>, w)
                  | Some path \<Rightarrow>
                      (case persist path updated w of
                         (Inl e, w1) \<Rightarrow>
                           (case persisted_bytes_match path updated w1 of
                              (there, w2) \<Rightarrow>
                                let s1 = (if there then commit_settings updated s else s)
                                in (write_failed idx v (show_error e), s1\<lparr>ro_hook_config_synced := False\<rparr>, w2))
                       | (Inr _, w1) \<Rightarrow> (success_response, commit_settings updated s, w1)))"

definition set_settings_var ::
  "bytes \<Rightarrow> read_only_state \<Rightarrow> world \<Rightarrow> bytes \<times> read_only_state \<times> world" where
  "set_settings_var payload s w = set_settings_var_with_writer atomic_write payload s w"

definition settings_command ::
  "bytes \<Rightarrow> read_only_state \<Rightarrow> world \<Rightarrow> bytes res \<times> read_only_state \<times> world" where
  "settings_command payload s w =
     (case set_settings_var payload s w of
        (response, s1, w1) \<Rightarrow>
          if response = success_response then
            (case append_legacy_log_message (utf8 [0xE2, 0x9A, 0x99, 0xEF, 0xB8, 0x8F, 0xE8, 0xAE,
        0xBE, 0xE7, 0xBD, 0xAE, 0xE6, 0x88, 0x90, 0xE5, 0x8A, 0x9F]) (s1\<lparr>ro_hook_config_synced := False\<rparr>) w1 of
               (s2, w2) \<Rightarrow> (Inr response, s2, w2))
          else if valid_utf8 (bytes_text response) then
            (case append_legacy_log_message ((utf8 [0xF0, 0x9F, 0x94, 0xA7, 0xE8, 0xAE, 0xBE, 0xE7,
        0xBD, 0xAE, 0xE5, 0xA4, 0xB1, 0xE8, 0xB4, 0xA5, 0xEF, 0xBC, 0x8C]) @ bytes_text response) s1 w1 of
               (s2, w2) \<Rightarrow> (Inr response, s2, w2))
          else (Inr response, s1, w1))"

subsection \<open>What a settings command promises\<close>

lemma setting_error_exact: "setting_error idx v = None \<longleftrightarrow> setting_allowed idx v"
  by (auto simp: setting_error_def setting_allowed_def)

lemma default_settings_length [simp]: "length legacy_default_settings = 256"
  by (simp add: legacy_default_settings_def)

lemma normalize_settings_shape:
  "length (normalize_settings b) = 256 \<and> hd (normalize_settings b) = 8"
proof (cases b)
  case None
  then show ?thesis by (simp add: normalize_settings_def legacy_default_settings_def hd_conv_nth)
next
  case (Some bs)
  let ?m = "take 256 bs @ drop (length (take 256 bs)) legacy_default_settings"
  have len: "length ?m = 256" by auto
  then have "?m[0 := 8] \<noteq> []" by fastforce
  then have "hd (?m[0 := 8]) = ?m[0 := 8] ! 0" by (rule hd_conv_nth)
  with len have "length (?m[0 := 8]) = 256 \<and> hd (?m[0 := 8]) = 8"
    by (metis length_list_update nth_list_update_eq zero_less_numeral)
  with Some show ?thesis by (simp add: normalize_settings_def)
qed

text \<open>The settings the daemon works with: 256 bytes, the first the format version.\<close>

definition settings_shape :: "bytes \<Rightarrow> bool" where
  "settings_shape b \<longleftrightarrow> length b = 256 \<and> hd b = 8"

definition updated_settings :: "nat \<Rightarrow> u8 \<Rightarrow> bytes \<Rightarrow> bytes" where
  "updated_settings idx v b = (if length b = 256 then b else normalize_settings (Some b))[idx := v]"

lemma updated_settings_shape:
  assumes "settings_shape b" and "setting_allowed idx n"
  shows "settings_shape (updated_settings idx v b)"
proof -
  from assms have "length b = 256" "hd b = 8" "idx \<noteq> 0"
    by (auto simp: settings_shape_def setting_allowed_def)
  then show ?thesis by (cases b; cases idx) (simp_all add: settings_shape_def updated_settings_def)
qed

lemma commit_settings_simps [simp]:
  "ro_settings (commit_settings b s) = b" "ro_app_config (commit_settings b s) = ro_app_config s"
  "ro_settings_path (commit_settings b s) = ro_settings_path s"
  "ro_config_revision (commit_settings b s) =
     (ro_config_revision s + (if ro_settings s = b then 0 else 1)) mod 2 ^ 64 \<or>
   ro_config_revision (commit_settings b s) = ro_config_revision s"
  by (simp_all add: commit_settings_def advance_config_revision_def Let_def)

lemma append_log_simps:
  assumes "append_legacy_log_message m s w = (s', w')"
  shows "ro_settings s' = ro_settings s" "ro_app_config s' = ro_app_config s"
    "ro_config_revision s' = ro_config_revision s" "ro_hook_config_synced s' = ro_hook_config_synced s"
    "ro_app_config_source_tokens s' = ro_app_config_source_tokens s"
    "ro_settings_path s' = ro_settings_path s" "ro_app_config_path s' = ro_app_config_path s"
    "ro_uid_time_totals s' = ro_uid_time_totals s"
    "wd_files w' = wd_files w" "wd_hook w' = wd_hook w" "wd_faults w' = wd_faults w"
  using assms by (auto simp: append_legacy_log_message_def read_clock_def)

lemma foreign_response:
  "text_bytes (utf8 (n # ns) @ m) \<noteq> success_response" if "n mod 256 \<noteq> 115"
proof
  assume "text_bytes (utf8 (n # ns) @ m) = success_response"
  then have "(char_of n :: char) = CHR ''s''"
    by (simp add: text_bytes_inject success_response_def utf8_def)
  then have "(of_char (char_of n :: char) :: nat) = of_char (CHR ''s'')" by (rule arg_cong)
  with that show False by simp
qed

lemma setting_error_foreign: "setting_error idx v = Some e \<Longrightarrow> text_bytes e \<noteq> success_response"
  unfolding setting_error_def by (auto simp: foreign_response split: if_splits)

lemma write_failed_foreign [simp]: "write_failed idx v m \<noteq> success_response"
  unfolding write_failed_def by (rule foreign_response) simp

lemma set_settings_cases:
  assumes "set_settings_var payload s w = (resp, s', w')"
  obtains (refused) "resp \<noteq> success_response" "ro_settings s' = ro_settings s"
      "ro_config_revision s' = ro_config_revision s" "wd_files w' = wd_files w" "world_frame w w'"
      "ro_settings_path s = None \<or> \<not> (length payload = 2 \<and> setting_allowed (unat (payload ! 0)) (unat (payload ! 1)))"
      "ro_app_config s' = ro_app_config s"
    | (stored) path where "resp = success_response" "length payload = 2"
      "setting_allowed (unat (payload ! 0)) (unat (payload ! 1))" "ro_settings_path s = Some path"
      "s' = commit_settings (updated_settings (unat (payload ! 0)) (payload ! 1) (ro_settings s)) s"
      "only_file path w w'" "wd_files w' path = Some (ro_settings s')"
    | (failed) path b where "resp \<noteq> success_response" "length payload = 2"
      "setting_allowed (unat (payload ! 0)) (unat (payload ! 1))" "ro_settings_path s = Some path"
      "b = updated_settings (unat (payload ! 0)) (payload ! 1) (ro_settings s)"
      "s' = (commit_settings b s)\<lparr>ro_hook_config_synced := False\<rparr> \<and> wd_files w' path = Some b \<or>
       s' = s\<lparr>ro_hook_config_synced := False\<rparr> \<and> wd_files w' path \<in> {wd_files w path, Some b}"
      "only_file path w w'"
proof (cases "length payload = 2")
  case False
  then show ?thesis using assms
    by (intro refused) (auto simp: set_settings_var_def set_settings_var_with_writer_def foreign_response)
next
  case two: True
  let ?i = "unat (payload ! 0)" and ?v = "unat (payload ! 1)"
  let ?b = "updated_settings ?i (payload ! 1) (ro_settings s)"
  show ?thesis
  proof (cases "setting_error ?i ?v")
    case (Some e)
    with two assms setting_error_exact [of ?i ?v] setting_error_foreign [OF Some] show ?thesis
      by (intro refused) (auto simp: set_settings_var_def set_settings_var_with_writer_def Let_def)
  next
    case None
    then have ok: "setting_allowed ?i ?v" by (simp add: setting_error_exact)
    show ?thesis
    proof (cases "ro_settings_path s")
      case no_path: None
      with two None assms show ?thesis
        by (intro refused) (auto simp: set_settings_var_def set_settings_var_with_writer_def Let_def)
    next
      case (Some path)
      obtain r w1 where 1: "atomic_write path ?b w = (r, w1)" by fastforce
      note eff = atomic_write_effect [OF 1]
      show ?thesis
      proof (cases r)
        case (Inr u)
        with two None Some assms 1 have "resp = success_response" "s' = commit_settings ?b s" "w' = w1"
          by (auto simp: set_settings_var_def set_settings_var_with_writer_def Let_def updated_settings_def)
        with two ok Some eff Inr show ?thesis by (intro stored) auto
      next
        case (Inl e)
        obtain there w2 where 2: "persisted_bytes_match path ?b w1 = (there, w2)" by fastforce
        note match = persisted_match_effect [OF 2]
        have run: "resp = write_failed ?i ?v (show_error e)" "w' = w2"
          "s' = (if there then commit_settings ?b s else s)\<lparr>ro_hook_config_synced := False\<rparr>"
          using two None Some assms 1 2 Inl
          by (auto simp: set_settings_var_def set_settings_var_with_writer_def Let_def updated_settings_def)
        have "only_file path w w2"
          using eff match by (auto simp: only_file_def intro: world_frame_trans)
        with two ok Some eff match run show ?thesis
          by (intro failed [of path ?b]) auto
      qed
    qed
  qed
qed


text \<open>A world without faults whose hook accepts everything.\<close>

definition calm_world :: "(string \<Rightarrow> bytes option) \<Rightarrow> world" where
  "calm_world files =
    \<lparr>wd_files = files, wd_faults = [], wd_hook = [], wd_answer = (\<lambda>_ _. Inr True), wd_clock = (\<lambda>n. n),
     wd_ticks = 0\<rparr>"


end
