(* ===== verification/App_Config.thy ===== *)
theory App_Config
  imports Manager_State
begin

text \<open>
  \<^verbatim>\<open>protocol/manager_v1.rs\<close>, the application policies: merging a request into the
  known records, rewriting the policy file line by line, handing the result to the hook, and going
  back when the hook does not take it.
\<close>

subsection \<open>Merging\<close>

definition real_records :: "manager_app_config_record list \<Rightarrow> manager_app_config_record list" where
  "real_records rs = filter (\<lambda>r. ac_uid r \<noteq> u32_max) rs"

definition by_uid :: "manager_app_config_record list \<Rightarrow> (u32, manager_app_config_record) btree" where
  "by_uid rs = bt_of_list (map (\<lambda>r. (ac_uid r, r)) rs)"

definition merge_app_config_records ::
  "manager_app_config_record list \<Rightarrow> manager_app_config_record list \<Rightarrow> manager_app_config_record list" where
  "merge_app_config_records previous requested =
     (let requested_by_uid = by_uid (real_records requested);
          previous_uids = map ac_uid previous
      in map (\<lambda>r. case bt_get requested_by_uid (ac_uid r) of Some new \<Rightarrow> new | None \<Rightarrow> r) previous
           @ filter (\<lambda>r. ac_uid r \<notin> set previous_uids) (real_records requested))"

subsection \<open>The policy file\<close>

definition parse_legacy_uid_token :: "string \<Rightarrow> u32 option" where
  "parse_legacy_uid_token token =
     (case parse_legacy_policy_target token of Some (LT_Uid uid) \<Rightarrow> Some uid | _ \<Rightarrow> None)"

definition source_tokens_from_legacy_config ::
  "string option \<Rightarrow> (string \<Rightarrow> u32 option) \<Rightarrow> (u32, string) btree" where
  "source_tokens_from_legacy_config app_config resolve =
     (case app_config of
        None \<Rightarrow> []
      | Some text \<Rightarrow>
          bt_of_list (List.map_filter (\<lambda>r.
            let token = lp_package_or_uid r
            in map_option (\<lambda>uid. (uid, token))
                 (case resolve token of Some uid \<Rightarrow> Some uid | None \<Rightarrow> parse_legacy_uid_token token))
            (List.map_filter parse_legacy_policy_line (str_lines text))))"

definition split_line_ending :: "string \<Rightarrow> string \<times> string" where
  "split_line_ending line =
     (case strip_suffix [carriage_return, newline] line of
        Some body \<Rightarrow> (body, [carriage_return, newline])
      | None \<Rightarrow>
          (case strip_suffix [newline] line of
             Some body \<Rightarrow> (body, [newline])
           | None \<Rightarrow> (line, [])))"

text \<open>A line of the file: its text with the ending, the ending, and the record it parses to.\<close>

record config_line =
  cl_raw :: string
  cl_ending :: string
  cl_parsed :: "legacy_policy_record option"

definition config_line_of :: "string \<Rightarrow> config_line" where
  "config_line_of raw =
     (let (line, ending) = split_line_ending raw
      in \<lparr>cl_raw = raw, cl_ending = ending, cl_parsed = parse_legacy_policy_line line\<rparr>)"

text \<open>The uid of each line, where the line belongs to a known record: first by the remembered
  token, else by a numeric token of a previous record.\<close>

fun anchor_lines ::
  "(string, u32) btree \<Rightarrow> (u32, manager_app_config_record) btree \<Rightarrow> config_line list \<Rightarrow>
   (u32, string) btree \<Rightarrow> u32 option list \<times> (u32, string) btree" where
  "anchor_lines by_token previous [] tokens = ([], tokens)"
| "anchor_lines by_token previous (l # ls) tokens =
     (let uid = (case cl_parsed l of
                   None \<Rightarrow> None
                 | Some p \<Rightarrow>
                     (case bt_get by_token (lp_package_or_uid p) of
                        Some u \<Rightarrow> Some u
                      | None \<Rightarrow>
                          (case parse_legacy_uid_token (lp_package_or_uid p) of
                             Some u \<Rightarrow> if bt_get previous u \<noteq> None then Some u else None
                           | None \<Rightarrow> None)));
          tokens1 = (case (uid, cl_parsed l) of
                       (Some u, Some p) \<Rightarrow> bt_insert u (lp_package_or_uid p) tokens
                     | _ \<Rightarrow> tokens)
      in case anchor_lines by_token previous ls tokens1 of (uids, tokens2) \<Rightarrow> (uid # uids, tokens2))"

text \<open>Without remembered tokens the remaining parsed lines belong to the remaining records, in
  order.\<close>

fun assign_positions ::
  "config_line list \<Rightarrow> u32 option list \<Rightarrow> u32 list \<Rightarrow> (u32, string) btree \<Rightarrow>
   u32 option list \<times> (u32, string) btree" where
  "assign_positions (l # ls) (uid # uids) remaining tokens =
     (case (cl_parsed l, uid, remaining) of
        (Some p, None, u # rest) \<Rightarrow>
          (case assign_positions ls uids rest (bt_insert u (lp_package_or_uid p) tokens) of
             (uids1, tokens1) \<Rightarrow> (Some u # uids1, tokens1))
      | (Some p, None, []) \<Rightarrow> (uid # uids, tokens)
      | _ \<Rightarrow>
          (case assign_positions ls uids remaining tokens of
             (uids1, tokens1) \<Rightarrow> (uid # uids1, tokens1)))"
| "assign_positions _ uids _ tokens = (uids, tokens)"

definition permissive_flag :: "manager_app_config_record \<Rightarrow> string" where
  "permissive_flag r = (if ac_permissive r then ''1'' else ''0'')"

definition rewritten_line :: "string \<Rightarrow> manager_app_config_record \<Rightarrow> string \<Rightarrow> string" where
  "rewritten_line token r ending =
     token @ '' '' @ show_int (ac_mode r) @ '' '' @ permissive_flag r @ ending"

definition rewrite_line ::
  "(u32, manager_app_config_record) btree \<Rightarrow> (u32, manager_app_config_record) btree \<Rightarrow> config_line \<Rightarrow>
   u32 option \<Rightarrow> string \<times> u32 option" where
  "rewrite_line previous records l uid =
     (case (cl_parsed l, uid) of
        (Some p, Some u) \<Rightarrow>
          (case bt_get previous u of
             None \<Rightarrow> (cl_raw l, None)
           | Some old \<Rightarrow>
               let r = (case bt_get records u of Some r \<Rightarrow> r | None \<Rightarrow> old)
               in (if ac_mode r = ac_mode old \<and> ac_permissive r = ac_permissive old then cl_raw l
                   else rewritten_line (lp_package_or_uid p) r (cl_ending l), Some u))
      | _ \<Rightarrow> (cl_raw l, None))"

fun append_records ::
  "manager_app_config_record list \<Rightarrow> string \<Rightarrow> (u32, string) btree \<Rightarrow> string \<times> (u32, string) btree" where
  "append_records [] text tokens = (text, tokens)"
| "append_records (r # rs) text tokens =
     (let text1 = (if text \<noteq> [] \<and> \<not> ends_with text [newline] then text @ [newline] else text);
          token = uid_token (ac_uid r)
      in append_records rs (text1 @ rewritten_line token r [newline])
           (bt_insert (ac_uid r) token tokens))"

definition rewrite_existing ::
  "(u32, string) btree \<Rightarrow> (u32, string) btree \<Rightarrow> manager_app_config_record list \<Rightarrow>
   manager_app_config_record list \<Rightarrow> string \<Rightarrow> (string \<times> u32 option) list \<times> (u32, string) btree" where
  "rewrite_existing state_tokens tokens previous records text =
     (let previous_by_uid = by_uid (real_records previous);
          records_by_uid = by_uid (real_records records);
          ls = map config_line_of (split_inclusive text);
          by_token = bt_of_list (map (\<lambda>(uid, token). (token, uid)) tokens);
          (uids, tokens1) = anchor_lines by_token previous_by_uid ls tokens;
          remaining = filter (\<lambda>u. Some u \<notin> set uids) (map ac_uid (real_records previous));
          (uids2, tokens2) = (if state_tokens = [] then assign_positions ls uids remaining tokens1
                              else (uids, tokens1))
      in (map2 (rewrite_line previous_by_uid records_by_uid) ls uids2, tokens2))"

text \<open>What is to be written, if anything, and the tokens to remember.\<close>

definition config_plan ::
  "(u32, string) btree \<Rightarrow> manager_app_config_record list \<Rightarrow> manager_app_config_record list \<Rightarrow>
   bytes option \<Rightarrow> (string option \<times> (u32, string) btree) res" where
  "config_plan state_tokens previous records previous_file =
     (let previous_uids = map ac_uid (real_records previous);
          tokens = bt_retain (\<lambda>uid. uid \<in> set previous_uids) state_tokens;
          finish = (\<lambda>(pieces, tokens1).
            let persisted = map snd pieces;
                (text, tokens2) = append_records
                  (filter (\<lambda>r. Some (ac_uid r) \<notin> set persisted) (real_records records))
                  (concat (map fst pieces)) tokens1
            in Inr (Some text,
                    bt_retain (\<lambda>uid. bt_get (by_uid (real_records records)) uid \<noteq> None) tokens2))
      in case previous_file of
           None \<Rightarrow> finish ([], tokens)
         | Some file \<Rightarrow>
             if records = previous then Inr (None, tokens)
             else if \<not> valid_utf8 (bytes_text file)
               then Inl (Config_Error ''existing app config is not valid UTF-8'')
             else finish (rewrite_existing state_tokens tokens previous records (bytes_text file)))"

datatype app_config_persistence_outcome =
    AP_Durable "(u32, string) btree"
  | AP_CommittedButUnconfirmed "(u32, string) btree"

definition persist_app_config_with_writer ::
  "(string \<Rightarrow> bytes \<Rightarrow> world \<Rightarrow> unit res \<times> world) \<Rightarrow> read_only_state \<Rightarrow> manager_app_config_record list \<Rightarrow>
   manager_app_config_record list \<Rightarrow> bytes option \<Rightarrow> world \<Rightarrow>
   app_config_persistence_outcome res \<times> world" where
  "persist_app_config_with_writer persist s previous records previous_file w =
     (case ro_app_config_path s of
        None \<Rightarrow> (Inl (Config_Error ''app config persistence path is not configured''), w)
      | Some path \<Rightarrow>
          (case config_plan (ro_app_config_source_tokens s) previous records previous_file of
             Inl e \<Rightarrow> (Inl e, w)
           | Inr (None, tokens) \<Rightarrow> (Inr (AP_Durable tokens), w)
           | Inr (Some text, tokens) \<Rightarrow>
               (case persist path (text_bytes text) w of
                  (Inr _, w1) \<Rightarrow> (Inr (AP_Durable tokens), w1)
                | (Inl e, w1) \<Rightarrow>
                    (case persisted_bytes_match path (text_bytes text) w1 of
                       (True, w2) \<Rightarrow> (Inr (AP_CommittedButUnconfirmed tokens), w2)
                     | (False, w2) \<Rightarrow> (Inl e, w2)))))"

subsection \<open>Changing the policies\<close>

definition rollback_failed_app_config_update ::
  "bytes option \<Rightarrow> bytes \<Rightarrow> read_only_state \<Rightarrow> world \<Rightarrow> unit res \<times> read_only_state \<times> world" where
  "rollback_failed_app_config_update previous_file previous_payload s w =
     (let s1 = s\<lparr>ro_hook_config_synced := False\<rparr>
      in case restore_file (ro_app_config_path s1) previous_file w of
           (disk_result, w1) \<Rightarrow>
             (case hook_call previous_payload w1 of
                (hook_result, w2) \<Rightarrow>
                  (case disk_result of
                     Inl disk_error \<Rightarrow>
                       (Inl (System_Error (''disk restore failed: '' @ show_error disk_error @
                          (case hook_result of
                             Inr True \<Rightarrow> []
                           | Inr False \<Rightarrow> ''; hook restore rejected the previous config''
                           | Inl hook_error \<Rightarrow> ''; hook restore failed: '' @ show_error hook_error))),
                        s1, w2)
                   | Inr _ \<Rightarrow>
                       if hook_result = Inr True then (Inr (), s1, w2)
                       else
                         case append_legacy_log_message (utf8 [0xE9, 0x85, 0x8D, 0xE7, 0xBD, 0xAE,
        0xE5, 0x9B, 0x9E, 0xE6, 0xBB, 0x9A, 0xEF, 0xBC, 0x9A, 0x58, 0x70, 0x6F, 0x73, 0x65, 0x64, 0xE6, 0x9C, 0xAA, 0xE7, 0xA1, 0xAE, 0xE8, 0xAE, 0xA4, 0xE6, 0x97, 0xA7, 0xE9, 0x85, 0x8D, 0xE7, 0xBD, 0xAE, 0xEF, 0xBC, 0x8C, 0xE5, 0xB0, 0x86, 0xE5, 0x9C, 0xA8, 0xE5, 0x90, 0x8E, 0xE5, 0x8F, 0xB0, 0xE9, 0x87, 0x8D, 0xE8, 0xAF, 0x95]) s1 w2 of
                           (s2, w3) \<Rightarrow> (Inr (), s2, w3))))"

definition permissive_change :: "manager_app_config_record \<Rightarrow> manager_app_config_record \<Rightarrow> string" where
  "permissive_change old r =
     (if ac_permissive old \<noteq> ac_permissive r
      then (utf8 [0x20, 0xE5, 0xAE, 0xBD, 0xE6, 0x9D, 0xBE,
        0x3A]) @ permissive_flag old @ ''->'' @ permissive_flag r else [])"

definition format_config_change_log ::
  "manager_app_config_record list \<Rightarrow> manager_app_config_record list \<Rightarrow> string option" where
  "format_config_change_log previous records =
     (let changes = List.map_filter (\<lambda>r.
            case bt_get (by_uid previous) (ac_uid r) of
              None \<Rightarrow> None
            | Some old \<Rightarrow>
                if ac_mode old \<noteq> ac_mode r \<or> ac_permissive old \<noteq> ac_permissive r
                then Some (show_int (ac_mode old) @ ''->'' @ show_int (ac_mode r) @ '' [''
                  @ show_u32 (ac_uid r) @ ''uid'' @ show_u32 (ac_uid r) @ '']'' @ permissive_change old r)
                else None) (real_records records)
      in if changes = [] then None
         else Some ((utf8 [0xE9, 0x85, 0x8D, 0xE7, 0xBD, 0xAE, 0xE5, 0x8F, 0x98, 0xE5, 0x8C, 0x96,
        0xEF, 0xBC, 0x9A]) @ [newline, newline] @ str_join [newline] changes))"

definition log_config_change ::
  "manager_app_config_record list \<Rightarrow> manager_app_config_record list \<Rightarrow> read_only_state \<Rightarrow> world \<Rightarrow>
   read_only_state \<times> world" where
  "log_config_change previous records s w =
     (case format_config_change_log previous records of
        Some message \<Rightarrow> append_legacy_log_message message s w
      | None \<Rightarrow> (s, w))"

definition hook_refused ::
  "bytes option \<Rightarrow> bytes \<Rightarrow> daemon_error option \<Rightarrow> read_only_state \<Rightarrow> world \<Rightarrow>
   bytes res \<times> read_only_state \<times> world" where
  "hook_refused previous_file previous_payload hook_error s w =
     (case rollback_failed_app_config_update previous_file previous_payload s w of
        (Inl rollback_error, s1, w1) \<Rightarrow>
          (case hook_error of
             None \<Rightarrow>
               (case append_legacy_log_message
                       ((utf8 [0xE9, 0x85, 0x8D, 0xE7, 0xBD, 0xAE, 0xE6, 0x9B, 0xB4, 0xE6, 0x96,
        0xB0, 0xE5, 0xA4, 0xB1, 0xE8, 0xB4, 0xA5, 0xEF, 0xBC, 0x8C, 0xE5, 0x9B, 0x9E, 0xE6, 0xBB, 0x9A, 0xE6, 0x9C, 0xAA, 0xE5, 0xAE, 0x8C, 0xE6, 0x88, 0x90, 0xEF, 0xBC, 0x9A]) @ show_error rollback_error) s1 w1 of
                  (s2, w2) \<Rightarrow> (Inl rollback_error, s2, w2))
           | Some e \<Rightarrow>
               (Inl (System_Error (''xposed config update failed: '' @ show_error e
                  @ ''; rollback failed: '' @ show_error rollback_error)), s1, w1))
      | (Inr _, s1, w1) \<Rightarrow>
          (case hook_error of
             None \<Rightarrow>
               (case append_legacy_log_message (utf8 [0xE9, 0x85, 0x8D, 0xE7, 0xBD, 0xAE, 0xE6, 0x9B,
        0xB4, 0xE6, 0x96, 0xB0, 0xE5, 0xA4, 0xB1, 0xE8, 0xB4, 0xA5, 0xEF, 0xBC, 0x9A, 0x58, 0x70, 0x6F, 0x73, 0x65, 0x64, 0xE6, 0x8B, 0x92, 0xE7, 0xBB, 0x9D, 0xE6, 0x96, 0xB0, 0xE7, 0x9A, 0x84, 0xE5, 0xBA, 0x94, 0xE7, 0x94, 0xA8, 0xE9, 0x85, 0x8D, 0xE7, 0xBD, 0xAE]) s1 w1 of
                  (s2, w2) \<Rightarrow> (Inr failure_response, s2, w2))
           | Some e \<Rightarrow> (Inl e, s1, w1)))"

definition apply_app_config ::
  "manager_app_config_record list \<Rightarrow> bytes \<Rightarrow> bytes \<Rightarrow> bytes option \<Rightarrow> (u32, string) btree \<Rightarrow>
   read_only_state \<Rightarrow> world \<Rightarrow> bytes res \<times> read_only_state \<times> world" where
  "apply_app_config records payload previous_payload previous_file source_tokens s w =
     (case hook_call payload w of
        (Inr True, w1) \<Rightarrow>
          (case log_config_change (ro_app_config s) records s w1 of
             (s1, w2) \<Rightarrow>
               (Inr success_response,
                (commit_app_config records source_tokens s1)\<lparr>ro_hook_config_synced := True\<rparr>, w2))
      | (Inr False, w1) \<Rightarrow> hook_refused previous_file previous_payload None s w1
      | (Inl e, w1) \<Rightarrow> hook_refused previous_file previous_payload (Some e) s w1)"

definition set_app_config_with_persistence_writer ::
  "(string \<Rightarrow> bytes \<Rightarrow> world \<Rightarrow> unit res \<times> world) \<Rightarrow> bytes \<Rightarrow> read_only_state \<Rightarrow> world \<Rightarrow>
   bytes res \<times> read_only_state \<times> world" where
  "set_app_config_with_persistence_writer persist payload s w =
     (let previous = ro_app_config s
      in case encode_xposed_config_payload (ro_settings s) (encode_app_config previous) of
           Inl e \<Rightarrow> (Inl e, s, w)
         | Inr previous_payload \<Rightarrow>
             (case decode_app_config payload of
                Inl e \<Rightarrow> (Inl e, s, w)
              | Inr requested \<Rightarrow>
                  let records = merge_app_config_records previous requested
                  in case encode_xposed_config_payload (ro_settings s) (encode_app_config records) of
                       Inl e \<Rightarrow> (Inl e, s, w)
                     | Inr xposed_payload \<Rightarrow>
                         (case read_existing_file (ro_app_config_path s) w of
                            (Inl e, w1) \<Rightarrow> (Inl e, s, w1)
                          | (Inr previous_file, w1) \<Rightarrow>
                              (case persist_app_config_with_writer persist s previous records
                                      previous_file w1 of
                                 (Inl e, w2) \<Rightarrow> (Inl e, s\<lparr>ro_hook_config_synced := False\<rparr>, w2)
                               | (Inr (AP_CommittedButUnconfirmed tokens), w2) \<Rightarrow>
                                   (case append_legacy_log_message
                                           (utf8 [0xE9, 0x85, 0x8D, 0xE7, 0xBD, 0xAE, 0xE5, 0x86,
        0x99, 0xE5, 0x85, 0xA5, 0xE6, 0x9C, 0xAA, 0xE7, 0xA1, 0xAE, 0xE8, 0xAE, 0xA4, 0xE5, 0xAE, 0x8C, 0xE6, 0x88, 0x90, 0xEF, 0xBC, 0x8C, 0xE4, 0xBD, 0x86, 0xE7, 0xA3, 0x81, 0xE7, 0x9B, 0x98, 0xE5, 0xB7, 0xB2, 0xE6, 0x9B, 0xB4, 0xE6, 0x96, 0xB0, 0xEF, 0xBC, 0x9B, 0x58, 0x70, 0x6F, 0x73, 0x65, 0x64, 0xE9, 0x85, 0x8D, 0xE7, 0xBD, 0xAE, 0xE5, 0xB0, 0x86, 0xE5, 0x9C, 0xA8, 0xE5, 0x90, 0x8E, 0xE5, 0x8F, 0xB0, 0xE9, 0x87, 0x8D, 0xE6, 0x96, 0xB0, 0xE5, 0x90, 0x8C, 0xE6, 0xAD, 0xA5])
                                           ((commit_app_config records tokens s)
                                              \<lparr>ro_hook_config_synced := False\<rparr>) w2 of
                                      (s1, w3) \<Rightarrow> (Inr failure_response, s1, w3))
                               | (Inr (AP_Durable tokens), w2) \<Rightarrow>
                                   apply_app_config records xposed_payload previous_payload
                                     previous_file tokens s w2))))"

subsection \<open>What merging promises\<close>

lemma real_records_set [simp]: "set (real_records rs) = {r \<in> set rs. ac_uid r \<noteq> u32_max}"
  by (auto simp: real_records_def)

lemma by_uid_get: "bt_get (by_uid rs) u = map_of (rev (map (\<lambda>r. (ac_uid r, r)) rs)) u"
  by (simp add: by_uid_def)

lemma by_uid_Some: "bt_get (by_uid rs) u = Some r \<Longrightarrow> r \<in> set rs \<and> ac_uid r = u"
  by (auto simp: by_uid_get dest!: map_of_SomeD)

lemma by_uid_None: "bt_get (by_uid rs) u = None \<longleftrightarrow> u \<notin> ac_uid ` set rs"
  by (auto simp: by_uid_get map_of_eq_None_iff image_image)

lemma merge_uids:
  "map ac_uid (merge_app_config_records previous requested) =
     map ac_uid previous @ filter (\<lambda>u. u \<notin> ac_uid ` set previous) (map ac_uid (real_records requested))"
  by (auto simp: merge_app_config_records_def Let_def filter_map comp_def dest!: by_uid_Some
      split: option.splits)

text \<open>
  Merging keeps every known application in its place and adds the requested unknown ones behind
  them; a requested application gets a requested record and every other one keeps its own, the
  placeholder uid of an empty list is never taken over, and no uid appears twice unless it did so
  before.
\<close>

lemma merge_exact:
  "map ac_uid (merge_app_config_records previous requested) =
     map ac_uid previous @ filter (\<lambda>u. u \<notin> ac_uid ` set previous) (map ac_uid (real_records requested)) \<and>
   (\<forall>r \<in> set (merge_app_config_records previous requested).
      if ac_uid r \<noteq> u32_max \<and> ac_uid r \<in> ac_uid ` set requested then r \<in> set requested
      else r \<in> set previous) \<and>
   (distinct (map ac_uid previous) \<and> distinct (map ac_uid requested) \<longrightarrow>
      distinct (map ac_uid (merge_app_config_records previous requested)))"
proof (intro conjI ballI impI)
  fix r
  assume "r \<in> set (merge_app_config_records previous requested)"
  then consider (old) p where "p \<in> set previous"
      "r = (case bt_get (by_uid (real_records requested)) (ac_uid p) of Some new \<Rightarrow> new | None \<Rightarrow> p)"
    | (new) "r \<in> set requested" "ac_uid r \<noteq> u32_max"
    by (auto simp: merge_app_config_records_def Let_def)
  then show "if ac_uid r \<noteq> u32_max \<and> ac_uid r \<in> ac_uid ` set requested then r \<in> set requested
      else r \<in> set previous"
  proof cases
    case (old p)
    show ?thesis
    proof (cases "bt_get (by_uid (real_records requested)) (ac_uid p)")
      case None
      then have "\<not> (ac_uid p \<noteq> u32_max \<and> ac_uid p \<in> ac_uid ` set requested)"
        by (auto simp: by_uid_None)
      with None old show ?thesis by auto
    next
      case (Some q)
      from by_uid_Some [OF Some] have q: "q \<in> set requested" "ac_uid q \<noteq> u32_max" by auto
      moreover have "r = q" using old(2) Some by simp
      ultimately show ?thesis by auto
    qed
  next
    case new
    then show ?thesis by auto
  qed
next
  assume d: "distinct (map ac_uid previous) \<and> distinct (map ac_uid requested)"
  then have "distinct (filter (\<lambda>u. u \<notin> ac_uid ` set previous) (map ac_uid (real_records requested)))"
    by (auto simp: real_records_def distinct_map inj_on_def)
  with d show "distinct (map ac_uid (merge_app_config_records previous requested))"
    unfolding merge_uids by auto
qed (rule merge_uids)

lemma merge_exact_witness:
  "distinct (map ac_uid (merge_app_config_records
     [\<lparr>ac_uid = 10123, ac_mode = 30, ac_permissive = False\<rparr>]
     [\<lparr>ac_uid = 10124, ac_mode = 10, ac_permissive = True\<rparr>]))"
  by (rule merge_exact [THEN conjunct2, THEN conjunct2, rule_format]) simp

subsection \<open>What a policy change promises\<close>

text \<open>The policy file holds what the plan for the records says.\<close>

definition config_on_disk ::
  "read_only_state \<Rightarrow> manager_app_config_record list \<Rightarrow> world \<Rightarrow> world \<Rightarrow> bool" where
  "config_on_disk s records w w' \<longleftrightarrow>
     (\<exists>path text tokens. ro_app_config_path s = Some path \<and>
        config_plan (ro_app_config_source_tokens s) (ro_app_config s) records (wd_files w path)
          = Inr (text, tokens) \<and>
        wd_files w' path = (case text of Some t \<Rightarrow> Some (text_bytes t) | None \<Rightarrow> wd_files w path))"

lemma commit_app_config_simps [simp]:
  "ro_app_config (commit_app_config records tokens s) = records"
  "ro_app_config_source_tokens (commit_app_config records tokens s) = tokens"
  "ro_settings (commit_app_config records tokens s) = ro_settings s"
  "ro_config_revision (commit_app_config records tokens s) =
     (if ro_app_config s = records then ro_config_revision s else (ro_config_revision s + 1) mod 2 ^ 64)"
  by (simp_all add: commit_app_config_def advance_config_revision_def Let_def)

lemma read_existing_effect:
  assumes "read_existing_file (Some path) w = (Inr file, w')" and "honest_faults w"
  shows "file = wd_files w path \<and> wd_files w' = wd_files w \<and> world_frame w w'"
  using assms
  by (auto simp: read_existing_file_def file_read_def world_fault_def honest_faults_def world_frame_def
      suffix_ConsI absent_def split: prod.splits option.splits list.splits if_splits sum.splits)

lemma persist_effect:
  assumes "persist_app_config_with_writer atomic_write s previous records file w = (r, w')"
  shows "world_frame w w' \<and>
    (\<forall>tokens. r = Inr (AP_Durable tokens) \<or> r = Inr (AP_CommittedButUnconfirmed tokens) \<longrightarrow>
      (\<exists>path text. ro_app_config_path s = Some path \<and>
        config_plan (ro_app_config_source_tokens s) previous records file = Inr (text, tokens) \<and>
        wd_files w' path = (case text of Some t \<Rightarrow> Some (text_bytes t) | None \<Rightarrow> wd_files w path)))"
proof (cases "ro_app_config_path s")
  case None
  with assms show ?thesis by (auto simp: persist_app_config_with_writer_def)
next
  case path: (Some path)
  show ?thesis
  proof (cases "config_plan (ro_app_config_source_tokens s) previous records file")
    case (Inl e)
    with assms path show ?thesis by (auto simp: persist_app_config_with_writer_def)
  next
    case planned: (Inr plan)
    obtain out tokens where plan: "plan = (out, tokens)" by fastforce
    show ?thesis
    proof (cases out)
      case None
      with assms path planned plan show ?thesis by (auto simp: persist_app_config_with_writer_def)
    next
      case (Some t)
      obtain x w1 where 1: "atomic_write path (text_bytes t) w = (x, w1)" by fastforce
      obtain there w2 where 2: "persisted_bytes_match path (text_bytes t) w1 = (there, w2)" by fastforce
      note eff = atomic_write_effect [OF 1] persisted_match_effect [OF 2]
      have run: "(r, w') = (case x of Inr _ \<Rightarrow> (Inr (AP_Durable tokens), w1)
          | Inl e \<Rightarrow> (if there then Inr (AP_CommittedButUnconfirmed tokens) else Inl e, w2))"
        using assms path planned plan Some 1 2
        by (auto simp: persist_app_config_with_writer_def split: sum.splits)
      have frames: "world_frame w w1" "world_frame w w2"
        using eff by (auto simp: only_file_def intro: world_frame_trans)
      show ?thesis
      proof (cases x)
        case (Inl e)
        with run frames eff path planned plan Some show ?thesis by (auto split: if_splits)
      next
        case (Inr u)
        with run frames eff path planned plan Some show ?thesis by auto
      qed
    qed
  qed
qed

lemma rollback_effect:
  assumes "rollback_failed_app_config_update file payload s w = (r, s', w')"
    and "ro_app_config_path s = Some path"
  shows "\<not> ro_hook_config_synced s' \<and> ro_app_config s' = ro_app_config s \<and>
    ro_settings s' = ro_settings s \<and> ro_config_revision s' = ro_config_revision s \<and>
    (\<exists>x. wd_hook w' = (payload, x) # wd_hook w) \<and> wd_files w' path \<in> {wd_files w path, file} \<and>
    (honest_faults w \<longrightarrow> is_ok r \<longrightarrow> wd_files w' path = file)"
proof -
  obtain d w1 where 1: "restore_file (Some path) file w = (d, w1)" by fastforce
  note eff = restore_file_effect [OF 1]
  obtain x w2 where 2: "hook_call payload w1 = (x, w2)" by fastforce
  then have hook: "wd_hook w2 = (payload, x) # wd_hook w1" "wd_files w2 = wd_files w1"
    by (auto simp: hook_call_def Let_def)
  have frame: "wd_hook w1 = wd_hook w" using eff by (simp add: only_file_def world_frame_def)
  show ?thesis
  proof (cases d)
    case (Inl e)
    then have "s' = s\<lparr>ro_hook_config_synced := False\<rparr>" "w' = w2" "\<not> is_ok r"
      using assms 1 2 by (auto simp: rollback_failed_app_config_update_def Let_def)
    with hook frame eff show ?thesis by auto
  next
    case (Inr u)
    then have ok: "is_ok d" by simp
    have "(s', w') = (s\<lparr>ro_hook_config_synced := False\<rparr>, w2) \<or>
        (\<exists>m. append_legacy_log_message m (s\<lparr>ro_hook_config_synced := False\<rparr>) w2 = (s', w'))"
      using assms 1 2 Inr
      by (auto simp: rollback_failed_app_config_update_def Let_def split: if_splits prod.splits)
    then have "\<not> ro_hook_config_synced s' \<and> ro_app_config s' = ro_app_config s \<and>
        ro_settings s' = ro_settings s \<and> ro_config_revision s' = ro_config_revision s \<and>
        wd_hook w' = wd_hook w2 \<and> wd_files w' = wd_files w2"
      by (auto simp: append_log_simps)
    with hook frame eff ok show ?thesis by auto
  qed
qed

lemma hook_refused_effect:
  assumes "hook_refused file payload e s w = (r, s', w')" and "ro_app_config_path s = Some path"
  shows "\<not> ro_hook_config_synced s' \<and> ro_app_config s' = ro_app_config s \<and> r \<noteq> Inr success_response \<and>
    ro_settings s' = ro_settings s \<and> ro_config_revision s' = ro_config_revision s \<and>
    (\<exists>x. wd_hook w' = (payload, x) # wd_hook w) \<and> wd_files w' path \<in> {wd_files w path, file} \<and>
    (honest_faults w \<longrightarrow> r = Inr failure_response \<longrightarrow> wd_files w' path = file)"
proof -
  obtain x s1 w1 where 1: "rollback_failed_app_config_update file payload s w = (x, s1, w1)"
    by (metis prod_cases3)
  note eff = rollback_effect [OF 1 assms(2)]
  have differ: "failure_response \<noteq> success_response"
    by (simp add: failure_response_def success_response_def text_bytes_inject)
  have keep: "ro_hook_config_synced s' = ro_hook_config_synced s1 \<and> ro_app_config s' = ro_app_config s1 \<and>
      ro_settings s' = ro_settings s1 \<and> ro_config_revision s' = ro_config_revision s1 \<and>
      wd_hook w' = wd_hook w1 \<and> wd_files w' = wd_files w1 \<and> r \<noteq> Inr success_response \<and>
      (r = Inr failure_response \<longrightarrow> is_ok x)"
    using assms(1) differ
    by (cases x; cases e) (auto simp: hook_refused_def 1 append_log_simps split: prod.splits)
  with eff show ?thesis by auto
qed

lemma apply_app_config_effect:
  assumes "apply_app_config records payload previous_payload file tokens s w = (r, s', w')"
    and "ro_app_config_path s = Some path"
  shows "(r = Inr success_response \<and> ro_app_config s' = records \<and> ro_hook_config_synced s' \<and>
      wd_files w' = wd_files w \<and> wd_hook w' = (payload, Inr True) # wd_hook w) \<or>
    (r \<noteq> Inr success_response \<and> ro_app_config s' = ro_app_config s \<and> \<not> ro_hook_config_synced s' \<and>
      (honest_faults w \<longrightarrow> r = Inr failure_response \<longrightarrow> wd_files w' path = file))"
proof -
  obtain x w1 where 1: "hook_call payload w = (x, w1)" by fastforce
  then have w1: "wd_hook w1 = (payload, x) # wd_hook w" "wd_files w1 = wd_files w" "wd_faults w1 = wd_faults w"
    by (auto simp: hook_call_def Let_def)
  show ?thesis
  proof (cases "x = Inr True")
    case True
    obtain s1 w2 where 2: "log_config_change (ro_app_config s) records s w1 = (s1, w2)" by fastforce
    then have "wd_files w2 = wd_files w1 \<and> wd_hook w2 = wd_hook w1"
      by (auto simp: log_config_change_def append_log_simps split: option.splits)
    with assms 1 2 True w1 show ?thesis
      by (auto simp: apply_app_config_def commit_app_config_def advance_config_revision_def Let_def)
  next
    case False
    then obtain e where "hook_refused file previous_payload e s w1 = (r, s', w')"
      using assms(1) 1 by (auto simp: apply_app_config_def split: sum.splits bool.splits)
    from hook_refused_effect [OF this assms(2)] w1 show ?thesis
      by (auto simp: honest_faults_def)
  qed
qed

definition untouched :: "read_only_state \<Rightarrow> world \<Rightarrow> read_only_state \<Rightarrow> world \<Rightarrow> bool" where
  "untouched s w s' w' \<longleftrightarrow> s' = s \<and> wd_files w' = wd_files w \<and> wd_hook w' = wd_hook w"

lemma untouched_refl [simp]: "untouched s w s w"
  by (simp add: untouched_def)

lemma read_existing_failed:
  "read_existing_file path w = (Inl e, w') \<Longrightarrow> wd_files w' = wd_files w \<and> wd_hook w' = wd_hook w"
  by (auto simp: read_existing_file_def file_read_def world_fault_def
      split: prod.splits option.splits list.splits if_splits sum.splits)

lemma app_config_run:
  assumes honest: "honest_faults w" and decoded: "decode_app_config payload = Inr requested"
    and new: "encode_xposed_config_payload (ro_settings s)
      (encode_app_config (merge_app_config_records (ro_app_config s) requested)) = Inr p"
    and run: "(case read_existing_file (ro_app_config_path s) w of
          (Inl e, w1) \<Rightarrow> (Inl e, s, w1)
        | (Inr previous_file, w1) \<Rightarrow>
            (case persist_app_config_with_writer atomic_write s (ro_app_config s)
                    (merge_app_config_records (ro_app_config s) requested) previous_file w1 of
               (Inl e, w2) \<Rightarrow> (Inl e, s\<lparr>ro_hook_config_synced := False\<rparr>, w2)
             | (Inr (AP_CommittedButUnconfirmed tokens), w2) \<Rightarrow>
                 (case append_legacy_log_message message
                         ((commit_app_config (merge_app_config_records (ro_app_config s) requested) tokens s)
                            \<lparr>ro_hook_config_synced := False\<rparr>) w2 of
                    (s1, w3) \<Rightarrow> (Inr failure_response, s1, w3))
             | (Inr (AP_Durable tokens), w2) \<Rightarrow>
                 apply_app_config (merge_app_config_records (ro_app_config s) requested) p
                   previous_payload previous_file tokens s w2)) = (r, s', w')"
    and differ: "failure_response \<noteq> success_response"
  shows "(r = Inr success_response \<longrightarrow>
      (\<exists>requested p. decode_app_config payload = Inr requested \<and>
        ro_app_config s' = merge_app_config_records (ro_app_config s) requested \<and>
        config_on_disk s (ro_app_config s') w w' \<and> ro_hook_config_synced s' \<and>
        encode_xposed_config_payload (ro_settings s) (encode_app_config (ro_app_config s')) = Inr p \<and>
        wd_hook w' = (p, Inr True) # wd_hook w)) \<and>
    (r \<noteq> Inr success_response \<longrightarrow>
      (ro_app_config s' = ro_app_config s \<or> config_on_disk s (ro_app_config s') w w') \<and>
      (\<not> ro_hook_config_synced s' \<or> untouched s w s' w')) \<and>
    (r = Inr failure_response \<longrightarrow> ro_app_config s' = ro_app_config s \<longrightarrow>
      wd_hook w' \<noteq> wd_hook w \<longrightarrow>
      (\<exists>path. ro_app_config_path s = Some path \<and> wd_files w' path = wd_files w path))"
proof -
  let ?records = "merge_app_config_records (ro_app_config s) requested"
  obtain x w1 where 1: "read_existing_file (ro_app_config_path s) w = (x, w1)" by fastforce
  show ?thesis
  proof (cases x)
    case (Inl e)
    with run [unfolded 1] have r: "r = Inl e" and s': "s' = s" and w': "w' = w1" by simp_all
    have "untouched s w s' w'"
      using read_existing_failed [OF 1 [unfolded Inl]] unfolding untouched_def s' w' by simp
    then show ?thesis unfolding r s' by simp
  next
    case found: (Inr prior)
    with 1 obtain path where path: "ro_app_config_path s = Some path"
      by (cases "ro_app_config_path s") (auto simp: read_existing_file_def)
    have "read_existing_file (Some path) w = (Inr prior, w1)" using 1 found path by simp
    from read_existing_effect [OF this honest]
    have prior: "prior = wd_files w path" "wd_files w1 = wd_files w" and f1: "world_frame w w1" by simp_all
    obtain y w2 where 2: "persist_app_config_with_writer atomic_write s (ro_app_config s) ?records prior w1 = (y, w2)"
      by fastforce
    note eff = persist_effect [OF 2]
    have f2: "world_frame w w2" using f1 eff [THEN conjunct1] by (rule world_frame_trans)
    then have hook: "wd_hook w2 = wd_hook w" by (simp add: world_frame_def)
    have there: "config_on_disk s ?records w v"
      if "y = Inr (AP_Durable tokens) \<or> y = Inr (AP_CommittedButUnconfirmed tokens)" "wd_files v = wd_files w2"
      for tokens v
    proof -
      from eff [THEN conjunct2, rule_format, OF that(1)] obtain path' out where "ro_app_config_path s = Some path'"
        "config_plan (ro_app_config_source_tokens s) (ro_app_config s) ?records prior = Inr (out, tokens)"
        "wd_files w2 path' = (case out of Some t \<Rightarrow> Some (text_bytes t) | None \<Rightarrow> wd_files w1 path')" by blast
      with path prior that(2) show ?thesis
        unfolding config_on_disk_def by (intro exI [of _ path] exI [of _ out] exI [of _ tokens]) (cases out; simp)
    qed
    show ?thesis
    proof (cases y)
      case (Inl e)
      with run [unfolded 1 found prod.case sum.case 2]
      have "r = Inl e" and s': "s' = s\<lparr>ro_hook_config_synced := False\<rparr>" by simp_all
      moreover have "ro_app_config s' = ro_app_config s" "\<not> ro_hook_config_synced s'" by (simp_all add: s')
      ultimately show ?thesis by simp
    next
      case settled: (Inr z)
      show ?thesis
      proof (cases z)
        case (AP_CommittedButUnconfirmed tokens)
        obtain s1 w3 where 3: "append_legacy_log_message message
            ((commit_app_config ?records tokens s)\<lparr>ro_hook_config_synced := False\<rparr>) w2 = (s1, w3)" by fastforce
        have fin: "r = Inr failure_response" "s' = s1" "w' = w3"
          using run [unfolded 1 found prod.case sum.case 2 settled AP_CommittedButUnconfirmed
              app_config_persistence_outcome.case 3] by simp_all
        have "ro_app_config s1 = ?records" "\<not> ro_hook_config_synced s1" "wd_files w3 = wd_files w2"
          "wd_hook w3 = wd_hook w2"
          by (simp_all add: append_log_simps [OF 3])
        with there [of tokens w3] settled AP_CommittedButUnconfirmed differ hook fin show ?thesis by simp
      next
        case (AP_Durable tokens)
        have "apply_app_config ?records p previous_payload prior tokens s w2 = (r, s', w')"
          using run [unfolded 1 found prod.case sum.case 2 settled AP_Durable
              app_config_persistence_outcome.case] .
        note effect = apply_app_config_effect [OF this path]
        have held: "config_on_disk s ?records w w2"
          using there [of tokens w2] settled AP_Durable by simp
        from effect show ?thesis
        proof (elim disjE conjE)
          assume "r = Inr success_response" and "ro_app_config s' = ?records" and "ro_hook_config_synced s'"
            and "wd_files w' = wd_files w2" and "wd_hook w' = (p, Inr True) # wd_hook w2"
          moreover from this have "config_on_disk s ?records w w'" using held by (simp add: config_on_disk_def)
          ultimately show ?thesis using decoded new differ hook by simp
        next
          assume "r \<noteq> Inr success_response" and "ro_app_config s' = ro_app_config s"
            and "\<not> ro_hook_config_synced s'"
            and "honest_faults w2 \<longrightarrow> r = Inr failure_response \<longrightarrow> wd_files w' path = prior"
          then show ?thesis using honest_frame [OF honest f2] path prior(1) by simp
        qed
      qed
    qed
  qed
qed



subsection \<open>What the rewritten file keeps\<close>

lemma assign_positions_length [simp]:
  "length uids = length ls \<Longrightarrow> length (fst (assign_positions ls uids remaining tokens)) = length ls"
  by (induction ls uids remaining tokens rule: assign_positions.induct)
    (auto split: option.splits list.splits prod.splits)

lemma anchor_lines_length [simp]: "length (fst (anchor_lines by_token previous ls tokens)) = length ls"
  by (induction ls arbitrary: tokens) (simp_all add: Let_def split_beta)

lemma split_inclusive_concat [simp]: "concat (split_inclusive s) = s"
  by (induction s) (auto split: list.splits)

text \<open>What may become of a line: it stays, or it parsed to a policy and now names a record's mode.\<close>

definition line_kept :: "manager_app_config_record list \<Rightarrow> string \<Rightarrow> string \<Rightarrow> bool" where
  "line_kept records raw new \<longleftrightarrow> new = raw \<or>
     (\<exists>p r. cl_parsed (config_line_of raw) = Some p \<and> r \<in> set records \<and>
        new = rewritten_line (lp_package_or_uid p) r (cl_ending (config_line_of raw)))"

lemma rewrite_line_kept:
  "set previous \<subseteq> set known \<Longrightarrow> set records \<subseteq> set known \<Longrightarrow>
   line_kept known raw (fst (rewrite_line (by_uid (real_records previous)) (by_uid (real_records records))
     (config_line_of raw) uid))"
  by (auto simp: rewrite_line_def line_kept_def Let_def config_line_of_def split: option.splits prod.splits
      dest!: by_uid_Some)

lemma append_records_extends: "prefix body (fst (append_records rs body tokens))"
proof (induction rs arbitrary: body tokens)
  case (Cons r rs)
  let ?t = "if body \<noteq> [] \<and> \<not> ends_with body [newline] then body @ [newline] else body"
  have "prefix body (?t @ rewritten_line (uid_token (ac_uid r)) r [newline])" by auto
  also have "prefix \<dots> (fst (append_records (r # rs) body tokens))"
    using Cons.IH [of "?t @ rewritten_line (uid_token (ac_uid r)) r [newline]"
        "bt_insert (ac_uid r) (uid_token (ac_uid r)) tokens"]
    by (simp add: Let_def)
  finally show ?case .
qed simp



end
