(* ===== verification/Realtime.thy ===== *)
theory Realtime
  imports Manager_State
begin

text \<open>
  \<^verbatim>\<open>protocol/manager_v1.rs\<close>, the measurements: the realtime metrics with the CPU
  history and its chart, and the CPU time per uid.  The texts of the files under
  \<^verbatim>\<open>/proc\<close> and \<^verbatim>\<open>/sys\<close> are parameters.
\<close>

definition cpu_history_buckets :: nat where "cpu_history_buckets = 32"
definition cpu_chart_cores :: nat where "cpu_chart_cores = 8"

lemmas chart_sizes = cpu_history_buckets_def cpu_chart_cores_def

subsection \<open>CPU usage\<close>

record proc_stat_sample =
  ps_total :: u64
  ps_idle :: u64

record cpu_stat_snapshot =
  cs_summary :: "proc_stat_sample option"
  cs_cores :: "proc_stat_sample option list"

text \<open>The usage in percent since the previous sample, and the sample to remember.\<close>

definition cpu_delta_usage_percent ::
  "proc_stat_sample option \<Rightarrow> proc_stat_sample option \<Rightarrow> i32 \<times> proc_stat_sample option" where
  "cpu_delta_usage_percent last_sample current_sample =
     (case current_sample of
        None \<Rightarrow> (0, last_sample)
      | Some current \<Rightarrow>
          ((case last_sample of
              None \<Rightarrow> 0
            | Some prev \<Rightarrow>
                let total_delta = ps_total current - ps_total prev;
                    idle_delta = ps_idle current - ps_idle prev
                in if total_delta = 0 \<or> idle_delta > total_delta then 0
                   else int ((total_delta - idle_delta) * 100 mod 2 ^ 64 div total_delta)),
           Some current))"

definition pad_to :: "nat \<Rightarrow> 'a \<Rightarrow> 'a list \<Rightarrow> 'a list" where
  "pad_to n x xs = xs @ replicate (n - length xs) x"

definition parse_usize :: "string \<Rightarrow> usize option" where
  "parse_usize s = parse_unsigned (2 ^ 64) s"

definition cpu_line :: "string \<Rightarrow> (string \<times> proc_stat_sample) option" where
  "cpu_line line =
     (case split_whitespace line of
        [] \<Rightarrow> None
      | label # parts \<Rightarrow>
          if label \<noteq> ''cpu'' \<and> \<not> list_all is_digit (drop 3 label) then None
          else
            let vs = List.map_filter parse_u64 (take 7 parts)
            in if length vs < 4 then None
               else Some (label, \<lparr>ps_total = sum_list vs mod 2 ^ 64, ps_idle = vs ! 3\<rparr>))"

definition add_cpu_line :: "string \<Rightarrow> cpu_stat_snapshot \<Rightarrow> cpu_stat_snapshot" where
  "add_cpu_line line snapshot =
     (case cpu_line line of
        None \<Rightarrow> snapshot
      | Some (label, smp) \<Rightarrow>
          if label = ''cpu'' then snapshot\<lparr>cs_summary := Some smp\<rparr>
          else
            case Option.bind (strip_prefix ''cpu'' label) parse_usize of
              None \<Rightarrow> snapshot
            | Some core \<Rightarrow> snapshot\<lparr>cs_cores := (pad_to (core + 1) None (cs_cores snapshot))[core := Some smp]\<rparr>)"

definition parse_proc_stat :: "string \<Rightarrow> cpu_stat_snapshot" where
  "parse_proc_stat text =
     fold add_cpu_line (filter (\<lambda>l. starts_with l ''cpu'') (str_lines text))
       \<lparr>cs_summary = None, cs_cores = []\<rparr>"

record cpu_history =
  ch_bucket_idx :: usize
  ch_summary :: "i32 list"
  ch_cores :: "i32 list list"

definition default_history :: cpu_history where
  "default_history =
    \<lparr>ch_bucket_idx = 0, ch_summary = replicate cpu_history_buckets 0,
     ch_cores = replicate cpu_history_buckets (replicate cpu_chart_cores 0)\<rparr>"

definition advance_history :: "cpu_history \<Rightarrow> cpu_history" where
  "advance_history h =
     (let idx = (ch_bucket_idx h + 1) mod cpu_history_buckets
      in \<lparr>ch_bucket_idx = idx, ch_summary = (ch_summary h)[idx := 0],
          ch_cores = (ch_cores h)[idx := replicate cpu_chart_cores 0]\<rparr>)"

record realtime_sampler =
  rs_history :: cpu_history
  rs_last_summary :: "proc_stat_sample option"
  rs_last_cores :: "proc_stat_sample option list"

definition default_sampler :: realtime_sampler where
  "default_sampler =
    \<lparr>rs_history = default_history, rs_last_summary = None, rs_last_cores = replicate cpu_chart_cores None\<rparr>"

record cpu_usage_percent =
  cu_summary :: i32
  cu_cores :: "i32 list"

definition record_core ::
  "cpu_stat_snapshot \<Rightarrow> nat \<Rightarrow> i32 list \<times> proc_stat_sample option list \<Rightarrow>
   i32 list \<times> proc_stat_sample option list" where
  "record_core snapshot core acc =
     (case acc of (usage, last_cores) \<Rightarrow>
        let smp = (if core < length (cs_cores snapshot) then cs_cores snapshot ! core else None)
        in case cpu_delta_usage_percent (last_cores ! core) smp of
             (percent, remembered) \<Rightarrow> (usage[core := percent], last_cores[core := remembered]))"

definition record_proc_stat ::
  "cpu_stat_snapshot \<Rightarrow> realtime_sampler \<Rightarrow> cpu_usage_percent \<times> realtime_sampler" where
  "record_proc_stat snapshot sampler =
     (let history = advance_history (rs_history sampler);
          idx = ch_bucket_idx history
      in case cpu_delta_usage_percent (rs_last_summary sampler) (cs_summary snapshot) of
           (summary, last_summary) \<Rightarrow>
             (case fold (record_core snapshot) [0..<cpu_chart_cores]
                     (replicate cpu_chart_cores 0, pad_to cpu_chart_cores None (rs_last_cores sampler)) of
                (usage, last_cores) \<Rightarrow>
                  (\<lparr>cu_summary = summary, cu_cores = usage\<rparr>,
                   \<lparr>rs_history = history\<lparr>ch_summary := (ch_summary history)[idx := summary],
                                         ch_cores := (ch_cores history)[idx := usage]\<rparr>,
                    rs_last_summary = last_summary, rs_last_cores = last_cores\<rparr>)))"

subsection \<open>Memory, temperature and power\<close>

record mem_info_mib =
  mi_mem_total :: i32
  mi_mem_available :: i32
  mi_swap_total :: i32
  mi_swap_free :: i32

definition default_mem_info :: mem_info_mib where
  "default_mem_info = \<lparr>mi_mem_total = 0, mi_mem_available = 0, mi_swap_total = 0, mi_swap_free = 0\<rparr>"

text \<open>Division of signed integers truncates towards zero.\<close>

definition tdiv :: "int \<Rightarrow> int \<Rightarrow> int" where
  "tdiv a b = (if (a < 0) = (b < 0) then \<bar>a\<bar> div \<bar>b\<bar> else - (\<bar>a\<bar> div \<bar>b\<bar>))"

definition add_mem_line :: "string \<Rightarrow> mem_info_mib \<Rightarrow> mem_info_mib" where
  "add_mem_line line info =
     (case split_whitespace line of
        key # v # _ \<Rightarrow>
          (case parse_i32 v of
             None \<Rightarrow> info
           | Some n \<Rightarrow>
               let mib = tdiv n 1024;
                   name = rev (dropWhile (\<lambda>c. c = CHR '':'') (rev key))
               in if name = ''MemTotal'' then info\<lparr>mi_mem_total := mib\<rparr>
                  else if name = ''MemAvailable'' then info\<lparr>mi_mem_available := mib\<rparr>
                  else if name = ''SwapTotal'' then info\<lparr>mi_swap_total := mib\<rparr>
                  else if name = ''SwapFree'' then info\<lparr>mi_swap_free := mib\<rparr>
                  else info)
      | _ \<Rightarrow> info)"

definition read_meminfo_mib :: "string option \<Rightarrow> mem_info_mib" where
  "read_meminfo_mib text =
     (case text of None \<Rightarrow> default_mem_info | Some t \<Rightarrow> fold add_mem_line (str_lines t) default_mem_info)"

text \<open>A cast to \<^verbatim>\<open>i32\<close> keeps the low 32 bits.\<close>

definition as_i32 :: "int \<Rightarrow> i32" where
  "as_i32 x = (x + 2 ^ 31) mod 2 ^ 32 - 2 ^ 31"

definition read_i64 :: "string option \<Rightarrow> int option" where
  "read_i64 text = Option.bind text (\<lambda>t. parse_i64 (str_trim t))"

definition read_cpu_frequency_mhz :: "string option \<Rightarrow> i32 option" where
  "read_cpu_frequency_mhz text = map_option (\<lambda>khz. as_i32 (tdiv khz 1000)) (read_i64 text)"

definition normalize_temperature_milli_celsius :: "int \<Rightarrow> i32 option" where
  "normalize_temperature_milli_celsius raw =
     (if raw \<le> 0 then None
      else
        let temp = (if raw < 1000 then raw * 1000 else raw)
        in if 1000 \<le> temp \<and> temp \<le> 150000 then Some temp else None)"

definition temperature_zone_priority :: "string \<Rightarrow> nat" where
  "temperature_zone_priority raw =
     (let zone_type = to_ascii_lowercase (str_trim raw)
      in if starts_with zone_type ''cpu-'' \<or> starts_with zone_type ''cpuss'' then 3
         else if str_contains zone_type ''soc'' \<or> str_contains zone_type ''gpu''
           \<or> str_contains zone_type ''gpuss'' \<or> str_contains zone_type ''aoss''
           \<or> str_contains zone_type ''ap'' then 2
         else 0)"

fun select_zone ::
  "(string \<times> int) list \<Rightarrow> (nat \<times> i32) option \<Rightarrow> i32 option \<Rightarrow> i32 option" where
  "select_zone [] preferred fallback =
     (case preferred of Some (_, temp) \<Rightarrow> Some temp | None \<Rightarrow> fallback)"
| "select_zone ((zone_type, raw) # zones) preferred fallback =
     (case normalize_temperature_milli_celsius raw of
        None \<Rightarrow> select_zone zones preferred fallback
      | Some temp \<Rightarrow>
          let priority = temperature_zone_priority zone_type
          in if priority > 0 then
               select_zone zones
                 (case preferred of
                    None \<Rightarrow> Some (priority, temp)
                  | Some (best_priority, best) \<Rightarrow>
                      if priority > best_priority \<or> priority = best_priority \<and> temp > best
                      then Some (priority, temp) else preferred)
                 fallback
             else
               select_zone zones preferred
                 (Some (case fallback of Some best \<Rightarrow> max best temp | None \<Rightarrow> temp)))"

definition select_temperature_milli_celsius :: "(string \<times> int) list \<Rightarrow> i32 option" where
  "select_temperature_milli_celsius zones = select_zone zones None None"

text \<open>A thermal directory entry: its name if it is valid text, its temperature and its type.\<close>

definition zone_reading ::
  "(string option \<times> string option \<times> string option) \<Rightarrow> (string \<times> int) option" where
  "zone_reading entry =
     (case entry of (name, temp, zone_type) \<Rightarrow>
        (case name of
           None \<Rightarrow> None
         | Some n \<Rightarrow>
             if \<not> starts_with n ''thermal_zone'' then None
             else map_option (\<lambda>t. (case zone_type of Some z \<Rightarrow> z | None \<Rightarrow> [], t)) (read_i64 temp)))"

definition read_cpu_temperature_milli_celsius ::
  "(string option \<times> string option \<times> string option) list option list \<Rightarrow> i32 option" where
  "read_cpu_temperature_milli_celsius roots =
     select_temperature_milli_celsius
       (List.map_filter zone_reading (concat (map (\<lambda>r. case r of None \<Rightarrow> [] | Some es \<Rightarrow> es) roots)))"

text \<open>Products of readings wrap in a release build.\<close>

definition as_i64 :: "int \<Rightarrow> int" where
  "as_i64 x = (x + 2 ^ 63) mod 2 ^ 64 - 2 ^ 63"

definition battery_flow_mw :: "int \<Rightarrow> int \<Rightarrow> bool \<Rightarrow> bool \<Rightarrow> int" where
  "battery_flow_mw voltage_uv current_raw enable_current_fix enable_double_cell =
     (let current_ma = (if enable_current_fix \<and> as_i64 \<bar>current_raw\<bar> \<le> 100000 then current_raw
                        else tdiv current_raw 1000);
          current_ma2 = (if enable_double_cell then as_i64 (current_ma * 2) else current_ma)
      in tdiv (as_i64 (tdiv (as_i64 \<bar>voltage_uv\<bar>) 1000 * as_i64 \<bar>current_ma2\<bar>)) 1000)"

definition usb_mw :: "int option \<Rightarrow> int option \<Rightarrow> i32 option \<Rightarrow> i32 option" where
  "usb_mw usb_voltage_uv usb_current_ua rest =
     (case (usb_voltage_uv, usb_current_ua) of
        (Some v, Some c) \<Rightarrow>
          if c \<noteq> 0 then Some (as_i32 (tdiv (as_i64 (v * as_i64 \<bar>c\<bar>)) 1000000000)) else rest
      | _ \<Rightarrow> rest)"

definition battery_or_usb_mw :: "int option \<Rightarrow> int option \<Rightarrow> int option \<Rightarrow> i32 option \<Rightarrow> i32 option" where
  "battery_or_usb_mw battery_mw usb_voltage_uv usb_current_ua rest =
     (case battery_mw of
        Some p \<Rightarrow> if p \<ge> 100 then Some (as_i32 p) else usb_mw usb_voltage_uv usb_current_ua rest
      | None \<Rightarrow> usb_mw usb_voltage_uv usb_current_ua rest)"

definition battery_power_mw_from_readings ::
  "int option \<Rightarrow> int option \<Rightarrow> int option \<Rightarrow> int option \<Rightarrow> int option \<Rightarrow> bool \<Rightarrow> bool \<Rightarrow> i32 option" where
  "battery_power_mw_from_readings battery_power_uw battery_voltage_uv battery_current_ua
       usb_voltage_uv usb_current_ua enable_current_fix enable_double_cell =
     (let battery_mw = (case (battery_voltage_uv, battery_current_ua) of
            (Some v, Some c) \<Rightarrow> Some (battery_flow_mw v c enable_current_fix enable_double_cell)
          | _ \<Rightarrow> None);
          rest = (case battery_mw of Some p \<Rightarrow> Some (as_i32 p) | None \<Rightarrow> Some 0)
      in case battery_power_uw of
           Some power_uw \<Rightarrow>
             if power_uw \<noteq> 0 then Some (as_i32 (tdiv (as_i64 \<bar>power_uw\<bar>) 1000))
             else battery_or_usb_mw battery_mw usb_voltage_uv usb_current_ua rest
         | None \<Rightarrow> battery_or_usb_mw battery_mw usb_voltage_uv usb_current_ua rest)"

definition read_battery_power_mw ::
  "string option \<Rightarrow> string option \<Rightarrow> string option \<Rightarrow> string option \<Rightarrow> string option \<Rightarrow> bytes \<Rightarrow> i32 option" where
  "read_battery_power_mw power_now voltage current usb_voltage usb_current settings =
     battery_power_mw_from_readings (read_i64 power_now) (read_i64 voltage) (read_i64 current)
       (read_i64 usb_voltage) (read_i64 usb_current)
       (14 < length settings \<and> settings ! 14 \<noteq> 0) (15 < length settings \<and> settings ! 15 \<noteq> 0)"

subsection \<open>The metrics\<close>

record realtime_sample =
  rt_meminfo :: mem_info_mib
  rt_frequencies_mhz :: "i32 list"
  rt_proc_stat :: cpu_stat_snapshot
  rt_temperature_milli_celsius :: i32
  rt_battery_power_mw :: i32

definition or_zero :: "i32 option \<Rightarrow> i32" where
  "or_zero v = (case v of Some x \<Rightarrow> x | None \<Rightarrow> 0)"

text \<open>The files a sample is read from; a missing or unreadable one is \<^term>\<open>None\<close>.\<close>

record metric_files =
  mt_meminfo :: "string option"
  mt_proc_stat :: "string option"
  mt_thermal :: "(string option \<times> string option \<times> string option) list option list"
  mt_battery_power :: "string option"
  mt_battery_voltage :: "string option"
  mt_battery_current :: "string option"
  mt_usb_voltage :: "string option"
  mt_usb_current :: "string option"
  mt_cur_freq :: "nat \<Rightarrow> string option"

definition collect_realtime_sample :: "metric_files \<Rightarrow> bytes \<Rightarrow> realtime_sample" where
  "collect_realtime_sample files settings =
    \<lparr>rt_meminfo = read_meminfo_mib (mt_meminfo files),
     rt_frequencies_mhz = map (\<lambda>core. or_zero (read_cpu_frequency_mhz (mt_cur_freq files core))) [0..<cpu_chart_cores],
     rt_proc_stat = (case mt_proc_stat files of
         Some text \<Rightarrow> parse_proc_stat text | None \<Rightarrow> \<lparr>cs_summary = None, cs_cores = []\<rparr>),
     rt_temperature_milli_celsius = or_zero (read_cpu_temperature_milli_celsius (mt_thermal files)),
     rt_battery_power_mw = or_zero (read_battery_power_mw (mt_battery_power files) (mt_battery_voltage files)
       (mt_battery_current files) (mt_usb_voltage files) (mt_usb_current files) settings)\<rparr>"

definition realtime_metrics_from_sample ::
  "i32 \<Rightarrow> realtime_sampler \<Rightarrow> realtime_sample \<Rightarrow> i32 list \<times> realtime_sampler" where
  "realtime_metrics_from_sample available_mib sampler smp =
     (let mem = rt_meminfo smp
      in case record_proc_stat (rt_proc_stat smp) sampler of
           (usage, sampler1) \<Rightarrow>
             ([mi_mem_total mem, if available_mib > 0 then available_mib else mi_mem_available mem,
               mi_swap_total mem, mi_swap_free mem]
              @ take cpu_chart_cores (rt_frequencies_mhz smp) @ take cpu_chart_cores (cu_cores usage)
              @ [cu_summary usage, rt_temperature_milli_celsius smp, rt_battery_power_mw smp], sampler1))"

subsection \<open>The chart\<close>

definition put_pixel :: "nat \<Rightarrow> nat \<Rightarrow> nat \<Rightarrow> u32 \<Rightarrow> bytes \<Rightarrow> bytes" where
  "put_pixel width x y color img =
     (if x \<ge> width then img
      else
        let offset = (y * width + x) * 4
        in if offset + 4 \<le> length img
           then take offset img @ u32_to_le color @ drop (offset + 4) img else img)"

definition line_y :: "nat \<Rightarrow> nat \<Rightarrow> nat \<Rightarrow> nat \<Rightarrow> nat" where
  "line_y y0 y1 t dx = (if y1 \<ge> y0 then y0 + (y1 - y0) * t div dx else y0 - (y0 - y1) * t div dx)"

definition draw_line :: "nat \<Rightarrow> nat \<Rightarrow> nat \<Rightarrow> nat \<Rightarrow> nat \<Rightarrow> u32 \<Rightarrow> bytes \<Rightarrow> bytes" where
  "draw_line width x0 y0 x1 y1 color img =
     (let dx = max (x1 - x0) 1
      in fold (\<lambda>x. put_pixel width x (line_y y0 y1 (x - x0) dx) color) [x0..<x1 + 1] img)"

definition fill_horizontal_bar ::
  "nat \<Rightarrow> nat \<Rightarrow> nat \<Rightarrow> nat \<Rightarrow> nat \<Rightarrow> nat \<Rightarrow> u32 \<Rightarrow> u32 \<Rightarrow> bytes \<Rightarrow> bytes" where
  "fill_horizontal_bar width y_start y_end x_start x_end used_end used_color free_color img =
     fold (\<lambda>y. fold (\<lambda>x. put_pixel width x y (if x < used_end then used_color else free_color))
                 [min x_start width..<min x_end width]) [min y_start y_end..<y_end] img"

definition clamp_percent :: "i32 \<Rightarrow> nat" where
  "clamp_percent v = nat (max 0 (min 100 v))"

definition usage_to_chart_y :: "i32 \<Rightarrow> nat \<Rightarrow> nat" where
  "usage_to_chart_y usage chart_height =
     max 1 (min ((100 - clamp_percent usage) * chart_height div 100) (chart_height - 1))"

definition history_usage :: "cpu_history \<Rightarrow> nat \<Rightarrow> nat \<Rightarrow> i32" where
  "history_usage h minute_idx core = ch_cores h ! ((ch_bucket_idx h + minute_idx) mod cpu_history_buckets) ! core"

definition draw_history_segment ::
  "nat \<Rightarrow> nat \<Rightarrow> cpu_history \<Rightarrow> u32 \<Rightarrow> nat \<Rightarrow> nat \<Rightarrow> bytes \<Rightarrow> bytes" where
  "draw_history_segment chart_height width h color core minute_idx img =
     (let y0 = usage_to_chart_y (history_usage h minute_idx core) chart_height;
          y1 = usage_to_chart_y (history_usage h (minute_idx + 1) core) chart_height;
          x0 = min (width * (minute_idx - 1) div (cpu_history_buckets - 1)) (width - 1);
          x1 = min (width * minute_idx div (cpu_history_buckets - 1)) (width - 1)
      in draw_line width x0 y0 x1 y1 color img)"

definition draw_cpu_history :: "nat \<Rightarrow> nat \<Rightarrow> cpu_history \<Rightarrow> u32 list \<Rightarrow> bytes \<Rightarrow> bytes" where
  "draw_cpu_history chart_height width h colors img =
     fold (\<lambda>(core, color). fold (draw_history_segment chart_height width h color core) [1..<cpu_history_buckets])
       (take cpu_chart_cores (enumerate 0 colors)) img"

text \<open>The width of the used part of a bar; no bar is measured against a total of zero.\<close>

definition used_width :: "nat \<Rightarrow> nat \<Rightarrow> nat \<Rightarrow> nat option" where
  "used_width bar total_mib free_mib =
     (if total_mib = 0 then None else Some (min (bar * (total_mib - free_mib)) (2 ^ 64 - 1) div total_mib))"

definition draw_memory_bars :: "nat \<Rightarrow> nat \<Rightarrow> i32 list \<Rightarrow> u32 \<Rightarrow> u32 \<Rightarrow> bytes \<Rightarrow> bytes" where
  "draw_memory_bars height width metrics used_color free_color img =
     (let mem_total = nat (metrics ! 0); mem_available = nat (metrics ! 1);
          swap_total = nat (metrics ! 2); swap_free = nat (metrics ! 3);
          bar_top = height * 218 div 256;
          physical_start = width * 5 div 100; physical_end = width * 45 div 100;
          physical_used = (case used_width (physical_end - physical_start) mem_total mem_available of
                             Some n \<Rightarrow> n | None \<Rightarrow> 0);
          image1 = fill_horizontal_bar width bar_top height physical_start physical_end
                     (physical_start + physical_used) used_color free_color img;
          swap_start = width * 55 div 100; swap_end = width * 95 div 100
      in case used_width (swap_end - swap_start) swap_total swap_free of
           None \<Rightarrow> image1
         | Some swap_used \<Rightarrow> fill_horizontal_bar width bar_top height swap_start swap_end
             (swap_start + swap_used) used_color free_color image1)"

definition color_blue :: u32 where "color_blue = 0xBBFF8000"
definition color_gray :: u32 where "color_gray = 0x01808080"
definition color_cpu :: "u32 list" where
  "color_cpu = [0xffddb822, 0xffb8dd22, 0xff6ddd22, 0xff22dd92, 0xff1ae6e6, 0xff1abde6, 0xff1a6be6, 0xff1a1ae6]"

definition draw_row :: "nat \<Rightarrow> nat \<Rightarrow> u32 \<Rightarrow> bytes \<Rightarrow> bytes" where
  "draw_row width y color = fold (\<lambda>x. put_pixel width x y color) [0..<width]"

definition draw_column :: "nat \<Rightarrow> nat \<Rightarrow> nat \<Rightarrow> u32 \<Rightarrow> bytes \<Rightarrow> bytes" where
  "draw_column width chart_height x color = fold (\<lambda>y. put_pixel width x y color) [0..<chart_height]"

definition draw_chart_body :: "nat \<Rightarrow> nat \<Rightarrow> nat \<Rightarrow> i32 list \<Rightarrow> cpu_history \<Rightarrow> bytes \<Rightarrow> bytes" where
  "draw_chart_body chart_height height width metrics h img =
     (let img1 = fold (\<lambda>y. draw_row width (min y (height - 1)) color_gray)
                     [height div 5, height * 2 div 5, height * 3 div 5] img;
          img2 = fold (\<lambda>i. draw_column width chart_height (min (width * i div 10) (width - 1)) color_gray)
                     [1..<10] img1;
          img3 = draw_memory_bars height width metrics color_blue color_gray img2
      in draw_cpu_history chart_height width h color_cpu img3)"

definition draw_chart_border :: "nat \<Rightarrow> nat \<Rightarrow> nat \<Rightarrow> bytes \<Rightarrow> bytes" where
  "draw_chart_border chart_height height width img =
     fold (\<lambda>y im. put_pixel width (width - 1) y color_blue (put_pixel width 0 y color_blue im)) [0..<chart_height]
       (fold (\<lambda>x im. put_pixel width x (min chart_height (height - 1)) color_blue
                       (put_pixel width x 0 color_blue im)) [0..<width] img)"

definition draw_realtime_chart ::
  "nat \<Rightarrow> nat \<Rightarrow> i32 list \<Rightarrow> cpu_history \<Rightarrow> bytes \<Rightarrow> bytes" where
  "draw_realtime_chart height width metrics h img =
     (let chart_height = max (height * 4 div 5) 1
      in draw_chart_border chart_height height width (draw_chart_body chart_height height width metrics h img))"

subsection \<open>The realtime command\<close>

definition le_field :: "bytes \<Rightarrow> nat \<Rightarrow> u32" where
  "le_field payload at = u32_of_le (take 4 (drop at payload))"

text \<open>A 32-bit height times a 32-bit width times four can exceed the 64-bit size.\<close>

definition realtime_request_validation_response :: "bytes \<Rightarrow> bytes option res" where
  "realtime_request_validation_response payload =
     (if length payload \<noteq> 12 then
        Inr (Some (text_bytes ((utf8 [0xE5, 0xAE, 0x9E, 0xE6, 0x97, 0xB6, 0xE4, 0xBF, 0xA1, 0xE6,
        0x81, 0xAF, 0xE9, 0x9C, 0x80, 0xE8, 0xA6, 0x81, 0x31, 0x32, 0xE5, 0xAD, 0x97, 0xE8, 0x8A, 0x82, 0x2C, 0x20, 0xE5, 0xAE, 0x9E, 0xE9, 0x99, 0x85, 0xE6, 0x94, 0xB6, 0xE5, 0x88, 0xB0, 0x5B]) @ show_nat (length payload) @ '']'')))
      else
        let height = unat (le_field payload 0); width = unat (le_field payload 4)
        in if height < 20 \<or> width < 20 then
             Inr (Some (text_bytes ((utf8 [0xE5, 0xAE, 0xBD, 0xE9, 0xAB, 0x98, 0xE4, 0xB8, 0x8D,
        0xE7, 0xAC, 0xA6, 0xE5, 0x90, 0x88, 0x2C, 0x20, 0x68, 0x65, 0x69, 0x67, 0x68, 0x74, 0x5B]) @ show_nat height @ ''] width['' @ show_nat width @ '']'')))
           else if height * width * 4 \<ge> 2 ^ 64 then
             Inl (Protocol_Error ''realtime image size overflows'')
           else if height * width * 4 + 23 * 4 \<ge> 2 ^ 64 \<or> height * width * 4 + 23 * 4 > manager_max_payload_len then
             Inr (Some (text_bytes ((utf8 [0xE5, 0xAE, 0x9E, 0xE6, 0x97, 0xB6, 0xE4, 0xBF, 0xA1,
        0xE6, 0x81, 0xAF, 0xE5, 0x93, 0x8D, 0xE5, 0xBA, 0x94, 0xE8, 0xBF, 0x87, 0xE5, 0xA4, 0xA7, 0x2C, 0x20, 0x68, 0x65, 0x69, 0x67, 0x68, 0x74, 0x5B]) @ show_nat height @ ''] width['' @ show_nat width @ '']'')))
           else Inr None)"

definition encode_realtime_info_with_sample ::
  "bytes \<Rightarrow> realtime_sampler \<Rightarrow> realtime_sample \<Rightarrow> bytes res \<times> realtime_sampler" where
  "encode_realtime_info_with_sample payload sampler smp =
     (case realtime_request_validation_response payload of
        Inl e \<Rightarrow> (Inl e, sampler)
      | Inr (Some response) \<Rightarrow> (Inr response, sampler)
      | Inr None \<Rightarrow>
          let height = unat (le_field payload 0); width = unat (le_field payload 4);
              available_mib = sint (le_field payload 8)
          in case realtime_metrics_from_sample available_mib sampler smp of
               (metrics, sampler1) \<Rightarrow>
                 (Inr (draw_realtime_chart height width metrics (rs_history sampler1)
                         (replicate (height * width * 4) 0)
                       @ concat (map i32_to_le metrics)), sampler1))"

definition encode_realtime_info_with_settings ::
  "bytes \<Rightarrow> bytes \<Rightarrow> metric_files \<Rightarrow> realtime_sampler \<Rightarrow> bytes res \<times> realtime_sampler" where
  "encode_realtime_info_with_settings payload settings files sampler =
     (case realtime_request_validation_response payload of
        Inl e \<Rightarrow> (Inl e, sampler)
      | Inr (Some response) \<Rightarrow> (Inr response, sampler)
      | Inr None \<Rightarrow>
          encode_realtime_info_with_sample payload sampler (collect_realtime_sample files settings))"

subsection \<open>CPU time per uid\<close>

definition parse_uid_cpu_time_line :: "string \<Rightarrow> (u32 \<times> i32) option" where
  "parse_uid_cpu_time_line line =
     (case split_once '':'' line of
        None \<Rightarrow> None
      | Some (uid_text, times_text) \<Rightarrow>
          (case (parse_u32 (str_trim uid_text), split_whitespace times_text) of
             (Some uid, user_text # system_text # _) \<Rightarrow>
               (case (parse_i64 user_text, parse_i64 system_text) of
                  (Some user_us, Some system_us) \<Rightarrow>
                    let sum = max (- (2 ^ 63)) (min (2 ^ 63 - 1) (user_us + system_us))
                    in Some (uid, max 0 (min (2 ^ 31 - 1) (tdiv sum 1000)))
                | _ \<Rightarrow> None)
           | _ \<Rightarrow> None))"

definition add_uid_time ::
  "u32 \<times> i32 \<Rightarrow> (u32, i32) btree \<times> (u32 \<times> i32 \<times> i32) list \<Rightarrow>
   (u32, i32) btree \<times> (u32 \<times> i32 \<times> i32) list" where
  "add_uid_time entry acc =
     (case (entry, acc) of
        ((uid, total_ms), (totals, records)) \<Rightarrow>
          let last_total = (case bt_get totals uid of Some t \<Rightarrow> t | None \<Rightarrow> 0);
              delta_ms = max (- (2 ^ 31)) (total_ms - last_total)
          in (bt_insert uid total_ms totals, records @ [(uid, delta_ms, total_ms)]))"

definition uid_time_bytes :: "u32 \<times> i32 \<times> i32 \<Rightarrow> bytes" where
  "uid_time_bytes r = (case r of (uid, delta_ms, total_ms) \<Rightarrow>
     u32_to_le uid @ i32_to_le delta_ms @ i32_to_le total_ms)"

definition uid_time_key :: "u32 \<times> i32 \<times> i32 \<Rightarrow> int \<times> nat" where
  "uid_time_key r = (case r of (uid, _, total_ms) \<Rightarrow> (- total_ms, unat uid))"

definition time_managed_uids :: "manager_app_config_record list \<Rightarrow> u32 list" where
  "time_managed_uids app_config =
     map ac_uid (filter (\<lambda>r. ac_uid r \<noteq> u32_max \<and> ac_mode r \<noteq> 40 \<and> ac_mode r \<noteq> 50) app_config)"

definition encode_uid_time :: "string option \<Rightarrow> read_only_state \<Rightarrow> bytes \<times> read_only_state" where
  "encode_uid_time file_text s =
     (let text = (case file_text of Some t \<Rightarrow> t | None \<Rightarrow> []);
          managed_uids = time_managed_uids (ro_app_config s)
      in if managed_uids = [] then ([], s\<lparr>ro_uid_time_totals := []\<rparr>)
         else
           case fold add_uid_time
                  (filter (\<lambda>(uid, total_ms). uid \<in> set managed_uids \<and> total_ms > 0)
                    (List.map_filter parse_uid_cpu_time_line (str_lines text)))
                  (ro_uid_time_totals s, []) of
             (totals, records) \<Rightarrow>
               (concat (map uid_time_bytes (sort_key uid_time_key records)),
                s\<lparr>ro_uid_time_totals := bt_retain (\<lambda>uid. uid \<in> set managed_uids) totals\<rparr>))"

subsection \<open>The sampler keeps its shape and its percentages\<close>

definition is_percent :: "i32 \<Rightarrow> bool" where
  "is_percent p = (0 \<le> p \<and> p \<le> 100)"

definition history_ok :: "cpu_history \<Rightarrow> bool" where
  "history_ok h = (ch_bucket_idx h < cpu_history_buckets \<and> length (ch_summary h) = cpu_history_buckets \<and>
     length (ch_cores h) = cpu_history_buckets \<and> list_all is_percent (ch_summary h) \<and>
     list_all (\<lambda>cs. length cs = cpu_chart_cores \<and> list_all is_percent cs) (ch_cores h))"

definition sampler_ok :: "realtime_sampler \<Rightarrow> bool" where
  "sampler_ok s = (history_ok (rs_history s) \<and> length (rs_last_cores s) \<ge> cpu_chart_cores)"

lemma default_sampler_ok: "sampler_ok default_sampler"
  by (simp add: sampler_ok_def history_ok_def default_sampler_def default_history_def is_percent_def
      list_all_iff chart_sizes)

lemma cpu_delta_percent: "is_percent (fst (cpu_delta_usage_percent lst cur))"
proof -
  have "(t - i) * 100 mod 2 ^ 64 div t \<le> 100" if "i \<le> t" for t i :: nat
  proof -
    have "(t - i) * 100 mod 2 ^ 64 \<le> (t - i) * 100" by (rule mod_less_eq_dividend)
    also have "\<dots> \<le> t * 100" by simp
    finally have "(t - i) * 100 mod 2 ^ 64 div t \<le> t * 100 div t" by (rule div_le_mono)
    also have "\<dots> \<le> 100" by (cases "t = 0") simp_all
    finally show ?thesis .
  qed
  then show ?thesis
    by (auto simp del: diff_diff_left simp: cpu_delta_usage_percent_def is_percent_def Let_def not_less
        split: option.splits)
qed

lemma list_all_update: "list_all P xs \<Longrightarrow> P x \<Longrightarrow> list_all P (xs[i := x])"
  by (auto simp: list_all_iff dest: set_update_subset_insert [THEN subsetD])

lemma advance_history_ok: "history_ok h \<Longrightarrow> history_ok (advance_history h)"
  unfolding history_ok_def advance_history_def Let_def cpu_history.simps length_list_update
  by (elim conjE, intro conjI list_all_update)
    (simp_all add: is_percent_def cpu_history_buckets_def list_all_iff)

lemma fold_record_core:
  assumes "length usage = cpu_chart_cores" "list_all is_percent usage" "length lst \<ge> cpu_chart_cores"
  shows "case fold (record_core snapshot) cores (usage, lst) of (usage', lst') \<Rightarrow>
    length usage' = cpu_chart_cores \<and> list_all is_percent usage' \<and> length lst' = length lst"
  using assms
proof (induction cores arbitrary: usage lst)
  case (Cons c cs)
  obtain p r where d: "cpu_delta_usage_percent (lst ! c)
      (if c < length (cs_cores snapshot) then cs_cores snapshot ! c else None) = (p, r)"
    by fastforce
  have "is_percent p" using cpu_delta_percent [of "lst ! c"] d by (metis fst_conv)
  then show ?case
    using Cons.IH [of "usage[c := p]" "lst[c := r]"] Cons.prems
    by (simp add: record_core_def Let_def d list_all_update)
qed simp

lemma record_proc_stat_ok:
  assumes "sampler_ok s"
  shows "sampler_ok (snd (record_proc_stat snapshot s)) \<and>
    is_percent (cu_summary (fst (record_proc_stat snapshot s))) \<and>
    length (cu_cores (fst (record_proc_stat snapshot s))) = cpu_chart_cores \<and>
    list_all is_percent (cu_cores (fst (record_proc_stat snapshot s)))"
proof -
  obtain p r where d: "cpu_delta_usage_percent (rs_last_summary s) (cs_summary snapshot) = (p, r)"
    by fastforce
  have p: "is_percent p" using cpu_delta_percent [of "rs_last_summary s"] d by (metis fst_conv)
  obtain u l where f: "fold (record_core snapshot) [0..<cpu_chart_cores]
      (replicate cpu_chart_cores 0, pad_to cpu_chart_cores None (rs_last_cores s)) = (u, l)"
    by fastforce
  have "length u = cpu_chart_cores \<and> list_all is_percent u \<and> length l \<ge> cpu_chart_cores"
    using fold_record_core [of "replicate cpu_chart_cores 0"
        "pad_to cpu_chart_cores None (rs_last_cores s)" snapshot "[0..<cpu_chart_cores]"] f
    by (simp add: is_percent_def list_all_iff pad_to_def)
  moreover have "history_ok (advance_history (rs_history s))"
    using assms by (simp add: sampler_ok_def advance_history_ok)
  ultimately show ?thesis
    using p by (simp add: record_proc_stat_def Let_def d f sampler_ok_def history_ok_def list_all_update)
qed

lemma realtime_metrics_ok:
  assumes "sampler_ok s" "length (rt_frequencies_mhz smp) = cpu_chart_cores"
  shows "sampler_ok (snd (realtime_metrics_from_sample avail s smp)) \<and>
    length (fst (realtime_metrics_from_sample avail s smp)) = 23 \<and>
    list_all is_percent (take 9 (drop 12 (fst (realtime_metrics_from_sample avail s smp))))"
  using record_proc_stat_ok [OF assms(1), of "rt_proc_stat smp"] assms(2)
  by (auto simp: realtime_metrics_from_sample_def Let_def chart_sizes take_Cons' split: prod.splits)

subsection \<open>The chart keeps the size of the image\<close>

lemma put_pixel_length [simp]: "length (put_pixel width x y color img) = length img"
  by (simp add: put_pixel_def Let_def)

lemma fold_length: "(\<And>x im. length (f x im) = length im) \<Longrightarrow> length (fold f xs img) = length img"
  by (induction xs arbitrary: img) simp_all

lemma draw_line_length [simp]: "length (draw_line width x0 y0 x1 y1 color img) = length img"
  by (simp add: draw_line_def Let_def fold_length)

lemma fill_horizontal_bar_length [simp]:
  "length (fill_horizontal_bar width ys ye xs xe u c1 c2 img) = length img"
  by (simp add: fill_horizontal_bar_def fold_length)

lemma draw_cpu_history_length [simp]: "length (draw_cpu_history ch width h colors img) = length img"
  unfolding draw_cpu_history_def
  by (rule fold_length) (auto simp: draw_history_segment_def Let_def fold_length split: prod.splits)

lemma draw_memory_bars_length [simp]: "length (draw_memory_bars height width m c1 c2 img) = length img"
  by (simp add: draw_memory_bars_def Let_def split: option.splits)

lemma draw_grid_length [simp]:
  "length (draw_row width y color img) = length img"
  "length (draw_column width ch x color img) = length img"
  by (simp_all add: draw_row_def draw_column_def fold_length)

lemma draw_chart_body_length [simp]: "length (draw_chart_body ch height width m h img) = length img"
  by (simp add: draw_chart_body_def Let_def fold_length)

lemma draw_realtime_chart_length [simp]: "length (draw_realtime_chart height width m h img) = length img"
  by (simp add: draw_realtime_chart_def draw_chart_border_def Let_def fold_length)

text \<open>The colour of a pixel, and what drawing one pixel does to the others.\<close>

definition pixel :: "nat \<Rightarrow> bytes \<Rightarrow> nat \<Rightarrow> nat \<Rightarrow> u32" where
  "pixel width img x y = le_field img ((y * width + x) * 4)"

lemma le_field_patch:
  assumes "i + 4 \<le> length img" "j + 4 \<le> length img" "i = j \<or> i + 4 \<le> j \<or> j + 4 \<le> i" "length c = 4"
  shows "le_field (take i img @ c @ drop (i + 4) img) j = (if i = j then u32_of_le c else le_field img j)"
proof -
  have "take 4 (drop j (take i img @ c @ drop (i + 4) img)) = take 4 (drop j img)"
    if "j + 4 \<le> i"
    using that assms by (simp add: drop_take take_take min_def)
  moreover have "take 4 (drop j (take i img @ c @ drop (i + 4) img)) = take 4 (drop j img)"
    if "i + 4 \<le> j"
    using that assms by (simp add: min_def)
  ultimately show ?thesis
    using assms by (auto simp: le_field_def)
qed

lemma pixel_put_pixel:
  assumes "length img = height * width * 4" "x < width" "y < height" "x' < width" "y' < height"
  shows "pixel width (put_pixel width x y color img) x' y'
    = (if x' = x \<and> y' = y then color else pixel width img x' y')"
proof -
  have fits: "(b * width + a) * 4 + 4 \<le> length img" if "a < width" "b < height" for a b
  proof -
    have "b * width + a < (b + 1) * width" using that by simp
    also have "\<dots> \<le> height * width" using that by (intro mult_right_mono) simp_all
    finally show ?thesis using assms(1) by simp
  qed
  have inj: "x' = x \<and> y' = y" if "y * width + x = y' * width + x'"
    using that assms by (metis div_mult_self3 mod_mult_self3 div_less mod_less add_0_right not_less_zero)
  show ?thesis
    using le_field_patch [OF fits [OF assms(2,3)] fits [OF assms(4,5)] _ u32_to_le_length, of color]
      fits [OF assms(2,3)] assms(2) inj
    unfolding put_pixel_def Let_def pixel_def by (cases "x' = x \<and> y' = y") (auto, force+)
qed

lemma pixel_put_same:
  assumes "length img = height * width * 4" "a < width" "b < height" "x < width" "y < height"
    and "pixel width img x y = c"
  shows "pixel width (put_pixel width a b c img) x y = c"
  using assms by (simp add: pixel_put_pixel)

text \<open>The frame around the chart, which is drawn last.\<close>

definition framed :: "nat \<Rightarrow> nat \<Rightarrow> bytes \<Rightarrow> bool" where
  "framed height width img =
     ((\<forall>x<width. pixel width img x 0 = color_blue) \<and>
      (\<forall>y<height * 4 div 5. pixel width img 0 y = color_blue \<and> pixel width img (width - 1) y = color_blue))"

lemma draw_realtime_chart_framed:
  assumes "length img = height * width * 4" "20 \<le> height" "20 \<le> width"
  shows "framed height width (draw_realtime_chart height width m h img)"
proof -
  let ?n = "height * width * 4" and ?ch = "max (height * 4 div 5) 1"
  let ?row = "\<lambda>x im. put_pixel width x (min ?ch (height - 1)) color_blue (put_pixel width x 0 color_blue im)"
  let ?col = "\<lambda>y im. put_pixel width (width - 1) y color_blue (put_pixel width 0 y color_blue im)"
  have ch: "?ch < height" using assms(2) by auto
  note px = pixel_put_pixel [of _ height width]
  let ?im4 = "draw_chart_body ?ch height width m h img"
  have im4: "length ?im4 = ?n" using assms(1) by simp
  have chart: "draw_realtime_chart height width m h img = fold ?col [0..<?ch] (fold ?row [0..<width] ?im4)"
    by (simp only: draw_realtime_chart_def draw_chart_border_def Let_def)
  let ?im5 = "fold ?row [0..<width] ?im4"
  have im5: "length ?im5 = ?n" using im4 by (simp add: fold_length)
  have stay: "pixel width (fold ?col ys im) x y = color_blue"
    if "x < width" "y < height" "length im = ?n" "pixel width im x y = color_blue" "set ys \<subseteq> {..<height}"
    for ys im x y
    using that(3-5) by (induction ys arbitrary: im) (use that(1,2) assms(3) in \<open>simp_all add: pixel_put_same [of _ height]\<close>)
  have top: "pixel width ?im5 x 0 = color_blue" if "x < width" for x
  proof -
    have "pixel width (fold ?row xs im) x 0 = color_blue"
      if "x \<in> set xs \<or> pixel width im x 0 = color_blue" "length im = ?n" "set xs \<subseteq> {..<width}" for xs im
      using that \<open>x < width\<close> ch assms(2)
      by (induction xs arbitrary: im) (auto simp: px)
    from this [of "[0..<width]" ?im4] show ?thesis using that im4 by (simp add: atLeast0LessThan)
  qed
  have side: "pixel width (fold ?col [0..<?ch] ?im5) x y = color_blue"
    if "y < ?ch" "x = 0 \<or> x = width - 1" for x y
  proof -
    have "pixel width (fold ?col ys im) x y = color_blue"
      if "y \<in> set ys \<or> pixel width im x y = color_blue" "length im = ?n" "set ys \<subseteq> {..<height}" for ys im
      using that \<open>y < ?ch\<close> \<open>x = 0 \<or> x = width - 1\<close> ch assms(3)
      by (induction ys arbitrary: im) (auto simp: px)
    from this [of "[0..<?ch]" ?im5] show ?thesis using that ch im5 by (simp add: atLeast0LessThan)
  qed
  have "set [0..<?ch] \<subseteq> {..<height}" using ch by (simp add: atLeast0LessThan)
  moreover have "0 < height" using assms(2) by simp
  ultimately have "pixel width (fold ?col [0..<?ch] ?im5) x 0 = color_blue" if "x < width" for x
    using stay [OF that _ im5 top [OF that]] by blast
  moreover have "pixel width (fold ?col [0..<?ch] ?im5) x y = color_blue"
    if "y < height * 4 div 5" "x = 0 \<or> x = width - 1" for x y
    by (rule side) (use that in auto)
  ultimately show ?thesis unfolding framed_def chart by blast
qed

lemma le_field_u32 [simp]:
  "le_field (u32_to_le a @ bs) 0 = a" "le_field (u32_to_le a @ u32_to_le b @ bs) 4 = b"
  "le_field (u32_to_le a @ u32_to_le b @ u32_to_le c) 8 = c"
  by (simp_all add: le_field_def)

definition realtime_request :: "u32 \<Rightarrow> u32 \<Rightarrow> u32 \<Rightarrow> bytes" where
  "realtime_request height width available_mib = u32_to_le height @ u32_to_le width @ u32_to_le available_mib"

lemma realtime_request_accepted:
  "20 \<le> unat h \<Longrightarrow> 20 \<le> unat w \<Longrightarrow> unat h * unat w * 4 + 92 \<le> manager_max_payload_len \<Longrightarrow>
   realtime_request_validation_response (realtime_request h w a) = Inr None"
  by (simp add: realtime_request_validation_response_def realtime_request_def manager_max_payload_len_def Let_def)

lemma collected_frequencies: "length (rt_frequencies_mhz (collect_realtime_sample files settings)) = cpu_chart_cores"
  by (simp add: collect_realtime_sample_def)

text \<open>The sampler behind the realtime command keeps its type whatever arrives.\<close>

lemma realtime_sampler_type:
  assumes "sampler_ok sampler"
  shows "sampler_ok (snd (encode_realtime_info_with_settings payload settings files sampler))"
  using realtime_metrics_ok [OF assms collected_frequencies] assms
  by (auto simp: encode_realtime_info_with_settings_def encode_realtime_info_with_sample_def Let_def
      split: sum.splits option.splits prod.splits) (metis snd_conv)


definition no_metric_files :: metric_files where
  "no_metric_files = \<lparr>mt_meminfo = None, mt_proc_stat = None, mt_thermal = [], mt_battery_power = None,
     mt_battery_voltage = None, mt_battery_current = None, mt_usb_voltage = None, mt_usb_current = None,
     mt_cur_freq = (\<lambda>_. None)\<rparr>"


end
