(* ===== verification/Manager.thy ===== *)
theory Manager
  imports App_Config Realtime
begin

text \<open>
  \<^verbatim>\<open>handle_manager_command\<close> of \<^verbatim>\<open>protocol/manager_v1.rs\<close>: every command of the
  manager, over the manager state, the realtime sampler (a static of the module) and the world.
\<close>

subsection \<open>Application labels\<close>

definition replacement_char :: string where "replacement_char = utf8 [0xEF, 0xBF, 0xBD]"

text \<open>\<^verbatim>\<open>from_utf8_lossy\<close>: \<open>good\<close> bytes to keep and \<open>bad\<close> bytes to drop are still ahead.\<close>

fun utf8_lossy_from :: "nat \<Rightarrow> nat \<Rightarrow> string \<Rightarrow> string" where
  "utf8_lossy_from good bad [] = []"
| "utf8_lossy_from (Suc good) bad (c # cs) = c # utf8_lossy_from good bad cs"
| "utf8_lossy_from 0 (Suc bad) (c # cs) = utf8_lossy_from 0 bad cs"
| "utf8_lossy_from 0 0 (c # cs) =
     (case utf8_tail c cs of
        Inl None \<Rightarrow> replacement_char
      | Inl (Some n) \<Rightarrow> replacement_char @ utf8_lossy_from 0 (n - 1) cs
      | Inr w \<Rightarrow> c # utf8_lossy_from (w - 1) 0 cs)"

definition utf8_lossy :: "string \<Rightarrow> string" where
  "utf8_lossy s = utf8_lossy_from 0 0 s"

lemma utf8_lossy_scan: "utf8_scan at g s = None \<Longrightarrow> utf8_lossy_from g 0 s = s"
  by (induction at g s rule: utf8_scan.induct) (auto split: sum.splits)

lemma utf8_lossy_valid: "valid_utf8 s \<Longrightarrow> utf8_lossy s = s"
  by (simp add: valid_utf8_def utf8_error_def utf8_lossy_def utf8_lossy_scan)

text \<open>The two parts around the first white space character.\<close>

fun split_first_ws :: "string \<Rightarrow> (string \<times> string) option" where
  "split_first_ws [] = None"
| "split_first_ws (c # cs) =
     (if ws_len (c # cs) > 0 then Some ([], drop (ws_len (c # cs)) (c # cs))
      else map_option (\<lambda>(a, b). (c # a, b)) (split_first_ws cs))"

definition label_of_line :: "string \<Rightarrow> string option" where
  "label_of_line raw =
     (let line = str_trim raw
      in if line = [] then None
         else
           case split_first_ws line of
             None \<Rightarrow> None
           | Some (_, rest) \<Rightarrow> if str_trim rest = [] then None else Some (str_trim rest))"

definition decode_app_label_payload :: "bytes \<Rightarrow> string list" where
  "decode_app_label_payload payload = List.map_filter label_of_line (str_lines (utf8_lossy (bytes_text payload)))"

definition sanitize_legacy_log_field :: "string \<Rightarrow> string" where
  "sanitize_legacy_log_field v = map sanitize_char v"

definition format_label_update_log :: "string list \<Rightarrow> string" where
  "format_label_update_log labels =
     (if labels = [] then (utf8 [0xE6, 0x9B, 0xB4, 0xE6, 0x96, 0xB0, 0x20, 0x30, 0x20, 0xE6, 0xAC,
        0xBE, 0xE5, 0xBA, 0x94, 0xE7, 0x94, 0xA8, 0xE5, 0x90, 0x8D, 0xE7, 0xA7, 0xB0])
      else (utf8 [0xE6, 0x9B, 0xB4, 0xE6, 0x96, 0xB0,
        0x20]) @ show_nat (length labels) @ (utf8 [0x20, 0xE6, 0xAC, 0xBE, 0xE5, 0xBA, 0x94, 0xE7,
        0x94, 0xA8, 0xE5, 0x90, 0x8D, 0xE7, 0xA7, 0xB0, 0x3A]) @ [newline, newline]
        @ str_join '' '' (map (\<lambda>l. ''['' @ sanitize_legacy_log_field l @ '']'') labels))"

definition label_command :: "bytes \<Rightarrow> read_only_state \<Rightarrow> world \<Rightarrow> bytes res \<times> read_only_state \<times> world" where
  "label_command payload s w =
     (let labels = decode_app_label_payload payload
      in case ro_app_label_path s of
           None \<Rightarrow> (Inl (Config_Error ''app label persistence path is not configured''), s, w)
         | Some path \<Rightarrow>
             (case atomic_write path payload w of
                (Inl e, w1) \<Rightarrow> (Inl e, s, w1)
              | (Inr _, w1) \<Rightarrow>
                  (case append_legacy_log_message (format_label_update_log labels) s w1 of
                     (s1, w2) \<Rightarrow> (Inr success_response, s1, w2))))"

subsection \<open>The freeze status as text\<close>

definition legacy_freeze_status_name :: "i32 \<Rightarrow> string" where
  "legacy_freeze_status_name state =
     (if state = 0 then (utf8 [0xE5, 0x90, 0x8E, 0xE5, 0x8F, 0xB0, 0xE8, 0xBF, 0x90, 0xE8, 0xA1,
        0x8C]) else if state = 1 then (utf8 [0xE5, 0x89, 0x8D, 0xE5, 0x8F,
        0xB0]) else if state = 2 then (utf8 [0xE7, 0xAD, 0x89, 0xE5, 0xBE, 0x85, 0xE5, 0x86, 0xBB,
        0xE7, 0xBB, 0x93])
      else if state = 3 then (utf8 [0xE5, 0xB7, 0xB2, 0xE5, 0x86, 0xBB, 0xE7, 0xBB,
        0x93]) else (utf8 [0xE6, 0x9C, 0xAA, 0xE7, 0x9F, 0xA5]))"

definition proc_state_row :: "manager_freeze_status_record \<Rightarrow> string" where
  "proc_state_row r =
     str_join '' | ''
       [show_u32 (fr_uid r), if fr_foreground r then (utf8 [0xE5, 0x89, 0x8D, 0xE5, 0x8F,
        0xB0]) else (utf8 [0xE5, 0x90, 0x8E, 0xE5, 0x8F, 0xB0]),
        legacy_freeze_status_name (fr_state r), show_int (max (fr_seconds r) 0),
        show_int (max (fr_process_count r) 0)]"

definition append_legacy_proc_state_log :: "read_only_state \<Rightarrow> world \<Rightarrow> read_only_state \<times> world" where
  "append_legacy_proc_state_log s w =
     append_legacy_log_message
       (if ro_freeze_status s = [] then
          (utf8 [0xE8, 0xBF, 0x9B, 0xE7, 0xA8, 0x8B, 0xE5, 0x86, 0xBB, 0xE7, 0xBB, 0x93, 0xE7, 0x8A,
        0xB6, 0xE6, 0x80, 0x81, 0x3A]) @ [newline, newline] @ (utf8 [0x20, 0x50, 0x49, 0x44, 0x20,
        0x7C, 0x20, 0x4D, 0x69, 0x42, 0x20, 0x7C, 0x20, 0x20, 0xE7, 0x8A, 0xB6, 0x20, 0xE6, 0x80, 0x81, 0x20, 0x20, 0x7C, 0x20, 0xE8, 0xBF, 0x9B, 0x20, 0xE7, 0xA8, 0x8B]) @ [newline]
            @ (utf8 [0xE5, 0x90, 0x8E, 0xE5, 0x8F, 0xB0, 0xE5, 0xBE, 0x88, 0xE5, 0xB9, 0xB2, 0xE5,
        0x87, 0x80, 0xEF, 0xBC, 0x8C, 0xE4, 0xB8, 0x80, 0xE4, 0xB8, 0xAA, 0xE9, 0xBB, 0x91, 0xE5, 0x90, 0x8D, 0xE5, 0x8D, 0x95, 0xE5, 0xBA, 0x94, 0xE7, 0x94, 0xA8, 0xE9, 0x83, 0xBD, 0xE6, 0xB2, 0xA1, 0xE6, 0x9C, 0x89])
        else (utf8 [0xE8, 0xBF, 0x9B, 0xE7, 0xA8, 0x8B, 0xE5, 0x86, 0xBB, 0xE7, 0xBB, 0x93, 0xE7,
        0x8A, 0xB6, 0xE6, 0x80, 0x81, 0x3A]) @ [newline, newline] @ (utf8 [0x20, 0x55, 0x49, 0x44,
        0x20, 0x7C, 0x20, 0xE5, 0x89, 0x8D, 0xE5, 0x8F, 0xB0, 0x20, 0x7C, 0x20, 0xE7, 0x8A, 0xB6, 0xE6, 0x80, 0x81, 0x20, 0x7C, 0x20, 0xE7, 0xA7, 0x92, 0x20, 0x7C, 0x20, 0xE8, 0xBF, 0x9B, 0xE7, 0xA8, 0x8B]) @ [newline]
            @ str_join [newline] (map proc_state_row (ro_freeze_status s))) s w"

subsection \<open>All commands\<close>

text \<open>\<^verbatim>\<open>read_to_string\<close>: a file that is missing, unreadable or not UTF-8 is no text.\<close>

definition text_file :: "string \<Rightarrow> world \<Rightarrow> string option \<times> world" where
  "text_file path w =
     (case file_read path w of
        (Inl _, w1) \<Rightarrow> (None, w1)
      | (Inr b, w1) \<Rightarrow> (if valid_utf8 (bytes_text b) then Some (bytes_text b) else None, w1))"

definition uid_time_command :: "read_only_state \<Rightarrow> world \<Rightarrow> bytes res \<times> read_only_state \<times> world" where
  "uid_time_command s w =
     (case text_file (ro_uid_time_path s) w of
        (text, w1) \<Rightarrow> (case encode_uid_time text s of (b, s1) \<Rightarrow> (Inr b, s1, w1)))"

definition clear_log_command :: "read_only_state \<Rightarrow> world \<Rightarrow> bytes res \<times> read_only_state \<times> world" where
  "clear_log_command s w =
     (case read_clock w of
        (now, w1) \<Rightarrow> (Inr (text_bytes [newline]), s\<lparr>ro_manager_log := log_clear now (ro_manager_log s)\<rparr>, w1))"

definition proc_state_command :: "read_only_state \<Rightarrow> world \<Rightarrow> bytes res \<times> read_only_state \<times> world" where
  "proc_state_command s w =
     (case append_legacy_proc_state_log s w of
        (s1, w1) \<Rightarrow> (Inr (text_bytes (log_render (ro_manager_log s1) LV_Info)), s1, w1))"

text \<open>The commands other than the realtime one do not touch the sampler.\<close>

definition state_command ::
  "manager_frame \<Rightarrow> read_only_state \<Rightarrow> world \<Rightarrow> bytes res \<times> read_only_state \<times> world" where
  "state_command frame s w =
     (case mf_command frame of
        SetAppCfg \<Rightarrow> set_app_config_with_persistence_writer atomic_write (mf_payload frame) s w
      | SetAppLabel \<Rightarrow> label_command (mf_payload frame) s w
      | SetSettingsVar \<Rightarrow> settings_command (mf_payload frame) s w
      | GetUidTime \<Rightarrow> uid_time_command s w
      | GetFreezeStatus \<Rightarrow> (Inr (encode_freeze_status (ro_freeze_status s)), s, w)
      | ClearLog \<Rightarrow> clear_log_command s w
      | GetProcState \<Rightarrow> proc_state_command s w
      | command \<Rightarrow> (handle_read_only_command command s, s, w))"

definition handle_manager_command ::
  "manager_frame \<Rightarrow> metric_files \<Rightarrow> read_only_state \<Rightarrow> realtime_sampler \<Rightarrow> world \<Rightarrow>
   bytes res \<times> read_only_state \<times> realtime_sampler \<times> world" where
  "handle_manager_command frame files s sampler w =
     (if mf_command frame = GetRealTimeInfo then
        (case encode_realtime_info_with_settings (mf_payload frame) (ro_settings s) files sampler of
           (r, sampler1) \<Rightarrow> (r, s, sampler1, w))
      else
        case state_command frame s w of (r, s1, w1) \<Rightarrow> (r, s1, sampler, w1))"

subsection \<open>What every command preserves\<close>

text \<open>The type of the manager state: well-formed settings, application records in range, a 64-bit
  revision, a log within its bounds and CPU times per uid in range.\<close>

definition totals_ok :: "(u32, i32) btree \<Rightarrow> bool" where
  "totals_ok m = (bt_wf m \<and> list_all (\<lambda>(uid, t). 0 \<le> t \<and> t < 2 ^ 31) m)"

definition manager_ok :: "read_only_state \<Rightarrow> bool" where
  "manager_ok s =
     (settings_shape (ro_settings s) \<and> list_all record_ok (ro_app_config s) \<and>
      ro_config_revision s < 2 ^ 64 \<and> log_wf (ro_manager_log s) \<and> totals_ok (ro_uid_time_totals s))"

text \<open>A change that is no commit of a configuration.\<close>

definition steady :: "read_only_state \<Rightarrow> read_only_state \<Rightarrow> bool" where
  "steady s s' =
     (ro_settings s' = ro_settings s \<and> ro_app_config s' = ro_app_config s \<and>
      ro_config_revision s' = ro_config_revision s \<and>
      (log_wf (ro_manager_log s) \<longrightarrow> log_wf (ro_manager_log s')) \<and>
      (totals_ok (ro_uid_time_totals s) \<longrightarrow> totals_ok (ro_uid_time_totals s')))"

lemma steady_refl [simp]: "steady s s" by (simp add: steady_def)

lemma steady_trans: "steady s s1 \<Longrightarrow> steady s1 s2 \<Longrightarrow> steady s s2" by (simp add: steady_def)

lemma steady_synced [simp]:
  "steady s (s1\<lparr>ro_hook_config_synced := b\<rparr>) = steady s s1"
  "steady (s\<lparr>ro_hook_config_synced := b\<rparr>) s1 = steady s s1"
  by (simp_all add: steady_def)

lemma steady_log: "append_legacy_log_message m s w = (s', w') \<Longrightarrow> steady s s'"
  by (auto simp: steady_def append_legacy_log_message_def wf_intros split: prod.splits)

lemma uid_line_range: "parse_uid_cpu_time_line l = Some (uid, t) \<Longrightarrow> 0 \<le> t \<and> t < 2 ^ 31"
  by (auto simp: parse_uid_cpu_time_line_def Let_def split: option.splits list.splits)

lemma steady_uid_time: "encode_uid_time text s = (b, s') \<Longrightarrow> steady s s'"
proof -
  have insert_ok: "list_all P (bt_insert k v m)" if "list_all P m" "P (k, v)" for P and k :: u32 and v :: i32 and m
    using that by (induction k v m rule: bt_insert.induct) auto
  have fold_ok: "totals_ok (fst (fold add_uid_time es (m, rs)))"
    if "totals_ok m" "\<forall>(uid, t) \<in> set es. 0 \<le> t \<and> t < 2 ^ 31" for es m rs
    using that
    by (induction es arbitrary: m rs) (auto simp: add_uid_time_def Let_def totals_ok_def insert_ok)
  have parsed: "\<forall>(uid, t) \<in> set (List.map_filter parse_uid_cpu_time_line ls). 0 \<le> t \<and> t < 2 ^ 31" for ls
    using uid_line_range by (fastforce simp: mem_map_filter)
  have retain_ok: "totals_ok (bt_retain P m)" if "totals_ok m" for P m
    using that by (auto simp: totals_ok_def bt_wf_retain bt_retain_def list_all_iff bt_wf_filter)
  assume run: "encode_uid_time text s = (b, s')"
  let ?es = "filter (\<lambda>(uid, total_ms). uid \<in> set (time_managed_uids (ro_app_config s)) \<and> total_ms > 0)
      (List.map_filter parse_uid_cpu_time_line (str_lines (case text of Some t \<Rightarrow> t | None \<Rightarrow> [])))"
  obtain totals rows where f: "fold add_uid_time ?es (ro_uid_time_totals s, []) = (totals, rows)" by fastforce
  have range: "\<forall>(uid, t) \<in> set ?es. 0 \<le> t \<and> t < 2 ^ 31"
    using parsed [of "str_lines (case text of Some t \<Rightarrow> t | None \<Rightarrow> [])"] by auto
  have ok: "totals_ok totals" if "totals_ok (ro_uid_time_totals s)"
    using fold_ok [OF that range, of "[]"] f by simp
  show ?thesis
  proof (cases "time_managed_uids (ro_app_config s) = []")
    case True
    with run show ?thesis by (auto simp: encode_uid_time_def Let_def steady_def totals_ok_def)
  next
    case False
    then have "s' = s\<lparr>ro_uid_time_totals :=
        bt_retain (\<lambda>uid. uid \<in> set (time_managed_uids (ro_app_config s))) totals\<rparr>"
      using run f by (simp add: encode_uid_time_def Let_def)
    then show ?thesis using ok retain_ok by (simp add: steady_def)
  qed
qed

text \<open>What any command does to the configuration: nothing, or one commit between steady changes.\<close>

definition one_commit :: "read_only_state \<Rightarrow> read_only_state \<Rightarrow> bool" where
  "one_commit s s' =
     (steady s s' \<or>
      (\<exists>s1 b. steady s s1 \<and> (settings_shape (ro_settings s) \<longrightarrow> settings_shape b) \<and>
         steady (commit_settings b s1) s') \<or>
      (\<exists>s1 rs tokens. steady s s1 \<and> (list_all record_ok (ro_app_config s) \<longrightarrow> list_all record_ok rs) \<and>
         steady (commit_app_config rs tokens s1) s'))"

lemma one_commit_steady: "steady s s' \<Longrightarrow> one_commit s s'" by (simp add: one_commit_def)

lemma one_commit_then: "one_commit s s1 \<Longrightarrow> steady s1 s2 \<Longrightarrow> one_commit s s2"
  unfolding one_commit_def by (blast intro: steady_trans)

lemma one_commit_settings:
  assumes "settings_shape (ro_settings s) \<Longrightarrow> settings_shape b"
  shows "one_commit s (commit_settings b s)"
  unfolding one_commit_def using assms steady_refl by blast

lemma one_commit_app_config:
  assumes "steady s s1" "list_all record_ok (ro_app_config s) \<Longrightarrow> list_all record_ok rs"
  shows "one_commit s (commit_app_config rs tokens s1)"
  unfolding one_commit_def using assms steady_refl by blast

lemma settings_command_commit:
  assumes "settings_command payload s w = (r, s', w')"
  shows "one_commit s s'"
proof -
  obtain resp s1 w1 where 1: "set_settings_var payload s w = (resp, s1, w1)" by (metis prod_cases3)
  have "one_commit s s1"
  proof (cases "s1 = s \<or> s1 = s\<lparr>ro_hook_config_synced := False\<rparr>")
    case True
    then show ?thesis by (auto intro: one_commit_steady)
  next
    case False
    let ?b = "updated_settings (unat (payload ! 0)) (payload ! 1) (ro_settings s)"
    from 1 False have "steady (commit_settings ?b s) s1 \<and> setting_allowed (unat (payload ! 0)) (unat (payload ! 1))"
      unfolding set_settings_var_def set_settings_var_with_writer_def Let_def updated_settings_def [symmetric]
      by (auto simp: setting_error_exact [symmetric] split: if_splits option.splits prod.splits sum.splits)
    then show ?thesis
      using one_commit_then [OF one_commit_settings] updated_settings_shape by blast
  qed
  moreover have "steady s1 s'"
    using assms unfolding settings_command_def 1 prod.case
    by (auto split: if_splits prod.splits dest!: steady_log)
  ultimately show ?thesis by (rule one_commit_then)
qed

lemma merged_ok:
  assumes "list_all record_ok previous" "decode_app_config payload = Inr requested"
  shows "list_all record_ok (merge_app_config_records previous requested)"
  using assms decode_app_config_bounds [OF assms(2)]
  by (auto simp: merge_app_config_records_def Let_def list_all_iff dest!: by_uid_Some split: option.splits)

lemma rollback_steady:
  "rollback_failed_app_config_update file payload s w = (r, s', w') \<Longrightarrow> steady s s'"
  by (auto simp: rollback_failed_app_config_update_def Let_def split: prod.splits sum.splits if_splits
      dest!: steady_log)

lemma hook_refused_steady: "hook_refused file payload e s w = (r, s', w') \<Longrightarrow> steady s s'"
  by (auto simp: hook_refused_def split: prod.splits sum.splits option.splits
      dest!: rollback_steady steady_log intro: steady_trans)

lemma log_config_change_steady: "log_config_change previous rs s w = (s', w') \<Longrightarrow> steady s s'"
  by (auto simp: log_config_change_def split: option.splits dest!: steady_log)

lemma apply_app_config_commit:
  assumes "apply_app_config rs payload previous file tokens s w = (r, s', w')"
    and "list_all record_ok (ro_app_config s) \<Longrightarrow> list_all record_ok rs"
  shows "one_commit s s'"
proof -
  obtain x w1 where 1: "hook_call payload w = (x, w1)" by fastforce
  show ?thesis
  proof (cases "x = Inr True")
    case True
    obtain s1 w2 where 2: "log_config_change (ro_app_config s) rs s w1 = (s1, w2)" by fastforce
    have "s' = (commit_app_config rs tokens s1)\<lparr>ro_hook_config_synced := True\<rparr>"
      using assms(1) True by (simp add: apply_app_config_def 1 2)
    then show ?thesis
      using one_commit_then [OF one_commit_app_config [OF log_config_change_steady [OF 2] assms(2)], of tokens s']
      by simp
  next
    case False
    with assms(1) 1 obtain e where "hook_refused file previous e s w1 = (r, s', w')"
      by (auto simp: apply_app_config_def split: sum.splits bool.splits)
    then show ?thesis by (intro one_commit_steady hook_refused_steady)
  qed
qed

lemma set_app_config_commit:
  assumes "set_app_config_with_persistence_writer persist payload s w = (r, s', w')"
  shows "one_commit s s'"
proof -
  have "one_commit s s'"
    if "decode_app_config payload = Inr requested"
      "(case persist_app_config_with_writer persist s (ro_app_config s)
              (merge_app_config_records (ro_app_config s) requested) prior w1 of
          (Inl e, w2) \<Rightarrow> (Inl e, s\<lparr>ro_hook_config_synced := False\<rparr>, w2)
        | (Inr (AP_CommittedButUnconfirmed tokens), w2) \<Rightarrow>
            (case append_legacy_log_message m
                    ((commit_app_config (merge_app_config_records (ro_app_config s) requested) tokens s)
                       \<lparr>ro_hook_config_synced := False\<rparr>) w2 of
               (s1, w3) \<Rightarrow> (Inr failure_response, s1, w3))
        | (Inr (AP_Durable tokens), w2) \<Rightarrow>
            apply_app_config (merge_app_config_records (ro_app_config s) requested) p q prior tokens s w2)
       = (r, s', w')" for requested prior w1 m p q
  proof -
    let ?rs = "merge_app_config_records (ro_app_config s) requested"
    obtain y w2 where 2: "persist_app_config_with_writer persist s (ro_app_config s) ?rs prior w1 = (y, w2)"
      by fastforce
    note ok = merged_ok [OF _ that(1)]
    note run = that(2) [unfolded 2]
    show ?thesis
    proof (cases y)
      case (Inl e)
      with run show ?thesis by (auto intro: one_commit_steady)
    next
      case settled: (Inr z)
      show ?thesis
      proof (cases z)
        case (AP_Durable tokens)
        with run settled show ?thesis by (simp add: apply_app_config_commit ok)
      next
        case (AP_CommittedButUnconfirmed tokens)
        with run settled have "steady (commit_app_config ?rs tokens s) s'"
          by (auto split: prod.splits dest!: steady_log)
        then show ?thesis
          using one_commit_then [OF one_commit_app_config [OF steady_refl ok]] by blast
      qed
    qed
  qed
  with assms show ?thesis
    unfolding set_app_config_with_persistence_writer_def Let_def
    by (auto split: sum.splits prod.splits intro: one_commit_steady)
qed

lemma state_command_commit:
  assumes "state_command frame s w = (r, s', w')"
  shows "one_commit s s'"
proof -
  have "steady s s'" if "label_command (mf_payload frame) s w = (r, s', w')"
    using that by (auto simp: label_command_def Let_def split: option.splits prod.splits sum.splits dest!: steady_log)
  moreover have "steady s s'" if "uid_time_command s w = (r, s', w')"
    using that by (auto simp: uid_time_command_def split: prod.splits dest!: steady_uid_time)
  moreover have "steady s s'" if "clear_log_command s w = (r, s', w')"
    using that by (auto simp: clear_log_command_def steady_def wf_intros split: prod.splits)
  moreover have "steady s s'" if "proc_state_command s w = (r, s', w')"
    using that by (auto simp: proc_state_command_def append_legacy_proc_state_log_def
        split: prod.splits dest!: steady_log)
  ultimately show ?thesis
    using assms settings_command_commit set_app_config_commit
    unfolding state_command_def
    by (cases "mf_command frame") (auto intro: one_commit_steady)
qed

lemma one_commit_revision:
  assumes "one_commit s s'"
  shows "ro_config_revision s' =
    (if ro_settings s' = ro_settings s \<and> ro_app_config s' = ro_app_config s then ro_config_revision s
     else (ro_config_revision s + 1) mod 2 ^ 64)"
  using assms
  by (auto simp: one_commit_def steady_def commit_settings_def commit_app_config_def
      advance_config_revision_def Let_def split: if_splits)

lemma one_commit_ok: "one_commit s s' \<Longrightarrow> manager_ok s \<Longrightarrow> manager_ok s'"
  by (auto simp: one_commit_def steady_def manager_ok_def commit_settings_def commit_app_config_def
      advance_config_revision_def Let_def split: if_splits)

lemma handle_manager_command_parts:
  "handle_manager_command frame files s sampler w = (r, s', sampler', w') \<Longrightarrow>
   one_commit s s' \<and>
   (sampler' = sampler \<or>
    sampler' = snd (encode_realtime_info_with_settings (mf_payload frame) (ro_settings s) files sampler))"
  by (auto simp: handle_manager_command_def one_commit_steady split: if_splits prod.splits
      dest: state_command_commit)

text \<open>
  C26.  Every command of the manager, under every fault of the file system, answer of the hook and
  content of the measured files, keeps the type of the state: 256 settings bytes with the format
  byte, application records whose mode fits 32 bits, a 64-bit revision, a log within its record and
  byte bounds, CPU times in range in an ordered map, and a realtime sampler of the right shape.
\<close>

theorem manager_state_type:
  assumes "manager_ok s" and "sampler_ok sampler"
    and "handle_manager_command frame files s sampler w = (r, s', sampler', w')"
  shows "manager_ok s' \<and> sampler_ok sampler'"
  using handle_manager_command_parts [OF assms(3)] assms(1,2) realtime_sampler_type one_commit_ok by blast

text \<open>
  C27.  The configuration revision, by which the control loop notices a change it has not yet seen,
  advances by exactly one when a command of the manager changed the settings or the application
  records, and by none otherwise; in particular no command changes the configuration silently, also
  not one that reports a failure.
\<close>

theorem revision_tracks_config:
  "let s' = fst (snd (handle_manager_command frame files s sampler w))
   in ro_config_revision s' =
        (if ro_settings s' = ro_settings s \<and> ro_app_config s' = ro_app_config s then ro_config_revision s
         else (ro_config_revision s + 1) mod 2 ^ 64)"
proof -
  obtain r s' sampler' w' where "handle_manager_command frame files s sampler w = (r, s', sampler', w')"
    by (metis prod_cases4)
  then show ?thesis
    using handle_manager_command_parts one_commit_revision by (metis fst_conv snd_conv)
qed

lemma default_manager_ok: "manager_ok default_read_only_state"
  by (simp add: manager_ok_def default_read_only_state_def settings_shape_def totals_ok_def wf_intros
      legacy_default_settings_def hd_conv_nth)

theorem manager_state_type_witness:
  "manager_ok (fst (snd (handle_manager_command \<lparr>mf_command = SetAppLabel, mf_payload = []\<rparr> no_metric_files
     (default_read_only_state\<lparr>ro_app_label_path := Some ''/d/label.txt''\<rparr>) default_sampler (calm_world (\<lambda>_. None)))))"
proof -
  let ?s = "default_read_only_state\<lparr>ro_app_label_path := Some ''/d/label.txt''\<rparr>"
  have "manager_ok ?s" using default_manager_ok by (simp add: manager_ok_def)
  moreover obtain r s' sampler' w' where
    "handle_manager_command \<lparr>mf_command = SetAppLabel, mf_payload = []\<rparr> no_metric_files ?s default_sampler
       (calm_world (\<lambda>_. None)) = (r, s', sampler', w')"
    by (metis prod_cases4)
  ultimately show ?thesis
    using manager_state_type [OF _ default_sampler_ok] by auto
qed

end
