(* ===== verification/Track.thy ===== *)
theory Track
  imports Deferral Oplog Inventory Ledger Freezer_Backend Frames
begin

text \<open>
  The runtime state of the controller (\<^verbatim>\<open>app/controller.rs\<close>): which identities are
  tracked as frozen, since when and by which mechanism, the pending freezes, the requests to break
  the network, the operation log with its counter, and the audit clock.  Here are the operations on
  that state which touch no process; the passes over processes are in the theories that follow.
\<close>

subsection \<open>State\<close>

type_synonym runtime_identity = "string \<times> u32"
type_synonym process_signature = "(i32 \<times> string \<times> u64 option) list"

datatype frozen_ownership = FO_SignalOnly | FO_CgroupBinder | FO_ResidualUnknown

record runtime_control_state =
  rc_operation_log :: operation_log
  rc_frozen_apps :: "runtime_identity bset"
  rc_frozen_since_ms :: "(runtime_identity, u128) btree"
  rc_frozen_ownership :: "(runtime_identity, frozen_ownership) btree"
  rc_pending_freezes :: "(runtime_identity, u128) btree"
  rc_network_restriction_requests :: "u32 bset"
  rc_next_operation_id :: u64
  rc_status_since_ms :: "(u32, i32 \<times> u128) btree"
  rc_blocked_process_signatures :: "(runtime_identity, process_signature) btree"
  rc_download_deferral :: download_deferral
  rc_audit_started_at_ms :: "u128 option"
  rc_next_refreeze_audit_at_ms :: "u128 option"

definition default_control_state :: runtime_control_state where
  "default_control_state =
    \<lparr>rc_operation_log = operation_log_new 128, rc_frozen_apps = [], rc_frozen_since_ms = [],
     rc_frozen_ownership = [], rc_pending_freezes = [], rc_network_restriction_requests = [],
     rc_next_operation_id = 1, rc_status_since_ms = [], rc_blocked_process_signatures = [],
     rc_download_deferral = [], rc_audit_started_at_ms = None, rc_next_refreeze_audit_at_ms = None\<rparr>"

subsection \<open>What the processes look like\<close>

definition all_have_cgroup :: "runtime_process list \<Rightarrow> bool" where
  "all_have_cgroup processes \<longleftrightarrow>
     processes \<noteq> [] \<and> list_all (\<lambda>p. rp_cgroup_freeze_path p \<noteq> None) processes"

definition backend_name :: "runtime_process list \<Rightarrow> string" where
  "backend_name processes =
     (if all_have_cgroup processes then ''cgroup.freeze'' else ''signal-control-pass'')"

definition unfreeze_backend :: "frozen_ownership \<Rightarrow> runtime_process list \<Rightarrow> string" where
  "unfreeze_backend ownership processes =
     (case ownership of FO_SignalOnly \<Rightarrow> ''signal.cont'' | _ \<Rightarrow> backend_name processes)"

text \<open>The readings belong to the process at a position of the list: two processes of one cgroup are
  read at different moments.\<close>

definition reconciled_state ::
  "freeze_state option \<Rightarrow> char option \<Rightarrow> control_state" where
  "reconciled_state cgroup_state proc_state =
     (if cgroup_state = Some Frozen then CT_Frozen
      else if proc_state = Some (CHR ''T'') \<or> proc_state = Some (CHR ''t'') then CT_Frozen
      else if cgroup_state = Some Thawed \<and> proc_state \<noteq> None then CT_Running
      else CT_Unknown)"

definition ok_of :: "'a res \<Rightarrow> 'a option" where
  "ok_of r = (case r of Inl _ \<Rightarrow> None | Inr x \<Rightarrow> Some x)"

definition reconcile_live_process_control_states ::
  "(nat \<Rightarrow> string \<Rightarrow> freeze_state res) \<Rightarrow> (nat \<Rightarrow> i32 \<Rightarrow> char res) \<Rightarrow> runtime_process list \<Rightarrow>
   runtime_process list" where
  "reconcile_live_process_control_states read_cgroup_state read_proc_state processes =
     map (\<lambda>(i, p).
       let cgroup_state = (case rp_cgroup_freeze_path p of
               Some path \<Rightarrow> ok_of (read_cgroup_state i path)
             | None \<Rightarrow> Some Thawed)
       in p\<lparr>rp_control_state := reconciled_state cgroup_state (ok_of (read_proc_state i (rp_pid p)))\<rparr>)
       (enumerate 0 processes)"

definition signal_control_process :: "runtime_process \<Rightarrow> runtime_process" where
  "signal_control_process p = p\<lparr>rp_cgroup_freeze_path := None\<rparr>"

definition operation_details :: "runtime_process list \<Rightarrow> string" where
  "operation_details processes =
     (let evidence = List.map_filter (\<lambda>p. map_option
             (\<lambda>state. ''pid'' @ show_int (rp_pid p) @ '':'' @ state) (rp_binder_state p)) processes
      in ''process_count='' @ show_nat (length processes)
           @ (if evidence = [] then [] else '' idle_evidence='' @ str_join ''|'' evidence))"

subsection \<open>Policies of the manager\<close>

definition is_control_policy_mode :: "i32 \<Rightarrow> bool" where
  "is_control_policy_mode mode \<longleftrightarrow> mode = 10 \<or> mode = 20 \<or> mode = 21 \<or> mode = 30 \<or> mode = 31"

definition mode_has_network_restriction :: "i32 \<Rightarrow> bool" where
  "mode_has_network_restriction mode \<longleftrightarrow> mode = 21 \<or> mode = 31"

definition setting :: "bytes \<Rightarrow> nat \<Rightarrow> u8 option" where
  "setting settings i = (if i < length settings then Some (settings ! i) else None)"

definition setting_or_zero :: "bytes \<Rightarrow> nat \<Rightarrow> nat" where
  "setting_or_zero settings i = (case setting settings i of None \<Rightarrow> 0 | Some v \<Rightarrow> unat v)"

definition manager_wakeup_interval_ms :: "bytes \<Rightarrow> u128 option" where
  "manager_wakeup_interval_ms settings =
     (let v = setting_or_zero settings 3
      in if v = 1 then Some (5 * 60000)
         else if v = 2 then Some (15 * 60000)
         else if v = 3 then Some (30 * 60000)
         else if v = 4 then Some (60 * 60000)
         else if v = 5 then Some (120 * 60000)
         else None)"

definition manager_wakeup_duration_ms :: "bytes \<Rightarrow> u128" where
  "manager_wakeup_duration_ms settings = setting_or_zero settings 2 * 1000"

definition manager_policy_delay_ms :: "manager_app_config_record \<Rightarrow> bytes \<Rightarrow> u64" where
  "manager_policy_delay_ms record settings =
     (let mode = ac_mode record
      in (if mode = 10 then setting_or_zero settings 4
          else if mode = 20 \<or> mode = 21 \<or> mode = 30 \<or> mode = 31 then setting_or_zero settings 2
          else 0) * 1000)"

datatype requested_backend = RB_Terminate | RB_Signal | RB_Freezer

definition requested_control_backend :: "manager_app_config_record \<Rightarrow> bytes \<Rightarrow> requested_backend" where
  "requested_control_backend record settings =
     (let mode = ac_mode record
      in if mode = 10 then RB_Terminate
         else if mode = 20 \<or> mode = 21 then RB_Signal
         else if (mode = 30 \<or> mode = 31) \<and> setting settings 5 = Some 2 then RB_Signal
         else RB_Freezer)"

definition operation_backend :: "requested_backend \<Rightarrow> runtime_process list \<Rightarrow> string" where
  "operation_backend backend processes =
     (case backend of
        RB_Terminate \<Rightarrow> ''signal.kill'' | RB_Signal \<Rightarrow> ''signal.stop''
      | RB_Freezer \<Rightarrow> backend_name processes)"

definition managed_app_from_record :: "string \<Rightarrow> u32 \<Rightarrow> managed_app" where
  "managed_app_from_record package_name uid =
     (let is_system_app = uid mod 100000 < 10000
      in \<lparr>ma_package_name = package_name, ma_user_id = 0, ma_uid = uid, ma_label = package_name,
          ma_is_system_app = is_system_app,
          ma_protected_reason =
            (case protected_reason_for package_name is_system_app of
               Some r \<Rightarrow> Some r
             | None \<Rightarrow> if is_system_app then Some PR_SystemCritical else None),
          ma_policy_id = ''manager-v1'', ma_last_seen_baseline = ''runtime''\<rparr>)"

definition policy_from_record :: "manager_app_config_record \<Rightarrow> freeze_policy" where
  "policy_from_record record =
     (let m = ac_mode record;
          mode = (if m = 10 then FM_Terminate
                  else if m = 20 \<or> m = 30 then FM_Freeze
                  else if m = 21 \<or> m = 31 then FM_FreezeWithRestrictions
                  else if m = 40 \<or> m = 50 then FM_Protected
                  else FM_Free)
      in Selected mode 0 (if ac_permissive record then FS_Permissive else FS_Strict)
           (mode_has_network_restriction m) False [FB_Signal, FB_Skip] 0)"

definition operation_from_fallback :: "decision_action \<Rightarrow> control_action \<times> operation_result" where
  "operation_from_fallback action =
     (case action of
        DA_Freeze \<Rightarrow> (CA_Freeze, OR_Success)
      | DA_Postpone \<Rightarrow> (CA_Postpone, OR_Postponed)
      | DA_AlternateFreezer \<Rightarrow> (CA_Fallback, OR_Skipped)
      | DA_Signal \<Rightarrow> (CA_Fallback, OR_Skipped)
      | DA_Terminate \<Rightarrow> (CA_Terminate, OR_Failed)
      | DA_Skip \<Rightarrow> (CA_Skip, OR_Skipped))"

subsection \<open>Tracking frozen identities\<close>

definition frozen_ownership_of :: "runtime_identity \<Rightarrow> runtime_control_state \<Rightarrow> frozen_ownership" where
  "frozen_ownership_of identity s =
     (case bt_get (rc_frozen_ownership s) identity of Some o' \<Rightarrow> o' | None \<Rightarrow> FO_ResidualUnknown)"

definition or_insert :: "'k::linorder \<Rightarrow> 'v \<Rightarrow> ('k, 'v) btree \<Rightarrow> ('k, 'v) btree" where
  "or_insert k v m = (case bt_get m k of None \<Rightarrow> bt_insert k v m | Some _ \<Rightarrow> m)"

definition track_frozen ::
  "runtime_identity \<Rightarrow> u128 \<Rightarrow> frozen_ownership \<Rightarrow> runtime_control_state \<Rightarrow> runtime_control_state" where
  "track_frozen identity timestamp_ms ownership s =
     (let ownership' =
            (if bt_get (rc_frozen_ownership s) identity = Some FO_ResidualUnknown
                \<or> (identity \<in> set (rc_frozen_apps s) \<and> bt_get (rc_frozen_ownership s) identity = None)
             then FO_ResidualUnknown else ownership)
      in s\<lparr>rc_frozen_apps := bs_insert identity (rc_frozen_apps s),
           rc_frozen_since_ms := or_insert identity timestamp_ms (rc_frozen_since_ms s),
           rc_frozen_ownership := bt_insert identity ownership' (rc_frozen_ownership s)\<rparr>)"

definition has_unresolved_freeze_ownership :: "runtime_identity \<Rightarrow> runtime_control_state \<Rightarrow> bool" where
  "has_unresolved_freeze_ownership identity s \<longleftrightarrow>
     bt_get (rc_frozen_ownership s) identity = Some FO_CgroupBinder
     \<or> bt_get (rc_frozen_ownership s) identity = Some FO_ResidualUnknown
     \<or> (identity \<in> set (rc_frozen_apps s) \<and> bt_get (rc_frozen_ownership s) identity = None)"

definition clear_frozen :: "runtime_identity \<Rightarrow> runtime_control_state \<Rightarrow> runtime_control_state" where
  "clear_frozen identity s =
     s\<lparr>rc_frozen_apps := bs_remove identity (rc_frozen_apps s),
       rc_frozen_since_ms := bt_remove identity (rc_frozen_since_ms s),
       rc_frozen_ownership := bt_remove identity (rc_frozen_ownership s)\<rparr>"

definition mark_abnormal_thaw_for_refreeze ::
  "runtime_identity \<Rightarrow> runtime_control_state \<Rightarrow> runtime_control_state" where
  "mark_abnormal_thaw_for_refreeze identity s =
     (let ownership = (case frozen_ownership_of identity s of
              FO_SignalOnly \<Rightarrow> FO_SignalOnly
            | FO_CgroupBinder \<Rightarrow> FO_ResidualUnknown
            | FO_ResidualUnknown \<Rightarrow> FO_ResidualUnknown)
      in s\<lparr>rc_frozen_apps := bs_remove identity (rc_frozen_apps s),
           rc_frozen_since_ms := bt_remove identity (rc_frozen_since_ms s),
           rc_frozen_ownership := bt_insert identity ownership (rc_frozen_ownership s)\<rparr>)"

definition clear_detached_ownership ::
  "runtime_identity \<Rightarrow> runtime_control_state \<Rightarrow> runtime_control_state" where
  "clear_detached_ownership identity s =
     (if identity \<notin> set (rc_frozen_apps s)
      then s\<lparr>rc_frozen_ownership := bt_remove identity (rc_frozen_ownership s)\<rparr> else s)"

definition forget_since_if_untracked ::
  "runtime_identity \<Rightarrow> runtime_control_state \<Rightarrow> runtime_control_state" where
  "forget_since_if_untracked identity s =
     (if identity \<notin> set (rc_frozen_apps s)
      then s\<lparr>rc_frozen_since_ms := bt_remove identity (rc_frozen_since_ms s)\<rparr> else s)"

subsection \<open>Pending freezes and network requests\<close>

definition pending_freeze_uids :: "runtime_control_state \<Rightarrow> u32 list" where
  "pending_freeze_uids s = bs_of_list (map snd (bt_keys (rc_pending_freezes s)))"

definition take_network_restriction_uids ::
  "runtime_control_state \<Rightarrow> u32 list \<times> runtime_control_state" where
  "take_network_restriction_uids s =
     (rc_network_restriction_requests s, s\<lparr>rc_network_restriction_requests := []\<rparr>)"

definition requeue_network_restriction_uid ::
  "u32 \<Rightarrow> runtime_control_state \<Rightarrow> runtime_control_state" where
  "requeue_network_restriction_uid uid s =
     s\<lparr>rc_network_restriction_requests := bs_insert uid (rc_network_restriction_requests s)\<rparr>"

definition set_pending :: "runtime_identity \<Rightarrow> u128 \<Rightarrow> runtime_control_state \<Rightarrow> runtime_control_state" where
  "set_pending identity due s = s\<lparr>rc_pending_freezes := bt_insert identity due (rc_pending_freezes s)\<rparr>"

definition remove_pending :: "runtime_identity \<Rightarrow> runtime_control_state \<Rightarrow> runtime_control_state" where
  "remove_pending identity s = s\<lparr>rc_pending_freezes := bt_remove identity (rc_pending_freezes s)\<rparr>"

definition clear_transient_control_state_for_uid ::
  "u32 \<Rightarrow> runtime_control_state \<Rightarrow> runtime_control_state" where
  "clear_transient_control_state_for_uid uid s =
     s\<lparr>rc_pending_freezes := bt_retain (\<lambda>(_, pending_uid). pending_uid \<noteq> uid) (rc_pending_freezes s),
       rc_network_restriction_requests := bs_remove uid (rc_network_restriction_requests s),
       rc_blocked_process_signatures :=
         bt_retain (\<lambda>(_, blocked_uid). blocked_uid \<noteq> uid) (rc_blocked_process_signatures s),
       rc_download_deferral := clear_uid uid (rc_download_deferral s),
       rc_status_since_ms := bt_remove uid (rc_status_since_ms s)\<rparr>"

subsection \<open>The operation log and the audit clock\<close>

definition log_operation ::
  "u128 \<Rightarrow> control_operation \<Rightarrow> runtime_control_state \<Rightarrow> runtime_control_state" where
  "log_operation timestamp_ms operation s =
     s\<lparr>rc_next_operation_id := rc_next_operation_id s + 1,
       rc_operation_log := oplog_push
         (operation\<lparr>co_operation_id := rc_next_operation_id s, co_timestamp_ms := timestamp_ms\<rparr>)
         (rc_operation_log s)\<rparr>"

definition new_operation ::
  "runtime_identity \<Rightarrow> i32 list \<Rightarrow> control_action \<Rightarrow> string \<Rightarrow> string \<Rightarrow> operation_result \<Rightarrow> string \<Rightarrow>
   control_operation" where
  "new_operation identity pids action backend reason result details =
    \<lparr>co_operation_id = 0, co_timestamp_ms = 0, co_package_name = fst identity, co_uid = snd identity,
     co_pid_list = pids, co_action = action, co_backend = backend, co_reason = reason,
     co_result = result, co_details = details\<rparr>"

definition periodic_wakeup_due ::
  "runtime_control_state \<Rightarrow> runtime_identity \<Rightarrow> bytes \<Rightarrow> u128 \<Rightarrow> bool" where
  "periodic_wakeup_due s identity settings timestamp_ms =
     (case manager_wakeup_interval_ms settings of
        None \<Rightarrow> False
      | Some interval_ms \<Rightarrow>
          (case bt_get (rc_frozen_since_ms s) identity of
             None \<Rightarrow> False
           | Some since \<Rightarrow> sat_add_u128 since interval_ms \<le> timestamp_ms))"

definition audit_interval_ms :: "bytes \<Rightarrow> u128 \<Rightarrow> u128 option" where
  "audit_interval_ms settings elapsed =
     (if elapsed < 15 * 60000 then Some 60000
      else let v = setting_or_zero settings 6
        in if v = 1 then Some (30 * 60000)
           else if v = 2 then Some (60 * 60000)
           else if v = 3 then Some (120 * 60000)
           else None)"

definition refreeze_audit_due ::
  "bytes \<Rightarrow> u128 \<Rightarrow> runtime_control_state \<Rightarrow> bool \<times> runtime_control_state" where
  "refreeze_audit_due settings timestamp_ms s =
     (let started_at = (case rc_audit_started_at_ms s of None \<Rightarrow> timestamp_ms | Some t \<Rightarrow> t);
          s1 = s\<lparr>rc_audit_started_at_ms := Some started_at\<rparr>
      in case audit_interval_ms settings (timestamp_ms - started_at) of
           None \<Rightarrow> (False, s1\<lparr>rc_next_refreeze_audit_at_ms := None\<rparr>)
         | Some interval_ms \<Rightarrow>
             let next_at = (case rc_next_refreeze_audit_at_ms s1 of
                     None \<Rightarrow> started_at + 60000 | Some t \<Rightarrow> t)
             in if timestamp_ms < next_at then (False, s1\<lparr>rc_next_refreeze_audit_at_ms := Some next_at\<rparr>)
                else (True, s1\<lparr>rc_next_refreeze_audit_at_ms := Some (timestamp_ms + interval_ms)\<rparr>))"

subsection \<open>Status records for the manager\<close>

definition state_running_background :: i32 where "state_running_background = 0"
definition state_foreground :: i32 where "state_foreground = 1"
definition state_pending :: i32 where "state_pending = 2"
definition state_frozen :: i32 where "state_frozen = 3"

lemmas status_states =
  state_running_background_def state_foreground_def state_pending_def state_frozen_def

definition earliest :: "(u32, u128) btree \<Rightarrow> runtime_identity \<times> u128 \<Rightarrow> (u32, u128) btree" where
  "earliest acc entry =
     (let uid = snd (fst entry); due = snd entry
      in case bt_get acc uid of
           None \<Rightarrow> bt_insert uid due acc
         | Some current \<Rightarrow> bt_insert uid (min current due) acc)"

definition pending_by_uid :: "(runtime_identity, u128) btree \<Rightarrow> (u32, u128) btree" where
  "pending_by_uid pending = foldl earliest [] pending"

definition status_of :: "bool \<Rightarrow> bool \<Rightarrow> bool \<Rightarrow> i32" where
  "status_of is_foreground is_pending is_frozen =
     (if is_foreground then state_foreground
      else if is_pending then state_pending
      else if is_frozen then state_frozen
      else state_running_background)"

definition status_rank :: "i32 \<Rightarrow> nat" where
  "status_rank state =
     (if state = state_foreground then 0
      else if state = state_pending then 1
      else if state = state_running_background then 2
      else if state = state_frozen then 3
      else 4)"

definition capped_i32 :: "nat \<Rightarrow> i32" where
  "capped_i32 n = int (min n i32_max)"

definition status_row ::
  "(u32 \<Rightarrow> runtime_process list) \<Rightarrow> u32 list \<Rightarrow> (u32, u128) btree \<Rightarrow> u32 list \<Rightarrow> u128 \<Rightarrow>
   manager_app_config_record \<Rightarrow> (u32, i32 \<times> u128) btree \<Rightarrow>
   manager_freeze_status_record option \<times> (u32, i32 \<times> u128) btree" where
  "status_row processes_of foreground_uids pending frozen_uids timestamp_ms config since_ms =
     (let uid = ac_uid config;
          processes = processes_of uid;
          is_foreground = uid \<in> set foreground_uids;
          pending_due = bt_get pending uid;
          is_frozen = uid \<in> set frozen_uids
      in if processes = [] \<and> \<not> is_foreground \<and> pending_due = None \<and> \<not> is_frozen
           then (None, since_ms)
         else
           let state = status_of is_foreground (pending_due \<noteq> None) is_frozen;
               (seconds, since_ms') =
                 (case pending_due of
                    Some due_at_ms \<Rightarrow> (capped_i32 ((due_at_ms - timestamp_ms + 999) div 1000), since_ms)
                  | None \<Rightarrow>
                      let since = (case bt_get since_ms uid of
                              Some (previous_state, t) \<Rightarrow> if previous_state = state then t else timestamp_ms
                            | None \<Rightarrow> timestamp_ms)
                      in (capped_i32 ((timestamp_ms - since) div 1000),
                          bt_insert uid (state, since) since_ms))
           in (Some \<lparr>fr_uid = uid, fr_foreground = is_foreground, fr_state = state, fr_seconds = seconds,
                     fr_process_count = capped_i32 (length processes)\<rparr>, since_ms'))"

fun status_rows ::
  "(manager_app_config_record \<Rightarrow> (u32, i32 \<times> u128) btree \<Rightarrow>
      manager_freeze_status_record option \<times> (u32, i32 \<times> u128) btree) \<Rightarrow>
   manager_app_config_record list \<Rightarrow> (u32, i32 \<times> u128) btree \<Rightarrow>
   manager_freeze_status_record list \<times> (u32, i32 \<times> u128) btree" where
  "status_rows row [] since_ms = ([], since_ms)"
| "status_rows row (config # configs) since_ms =
     (let (r, since1) = row config since_ms;
          (rs, since2) = status_rows row configs since1
      in ((case r of None \<Rightarrow> rs | Some x \<Rightarrow> x # rs), since2))"

definition freeze_status_records ::
  "manager_app_config_record list \<Rightarrow> (u32 \<Rightarrow> runtime_process list) \<Rightarrow> u32 list \<Rightarrow> u128 \<Rightarrow>
   runtime_control_state \<Rightarrow> manager_freeze_status_record list \<times> runtime_control_state" where
  "freeze_status_records app_config processes_of foreground_uids timestamp_ms s =
     (let (records, since_ms) =
            status_rows
              (status_row processes_of foreground_uids (pending_by_uid (rc_pending_freezes s))
                 (map snd (rc_frozen_apps s)) timestamp_ms)
              (filter (\<lambda>record. is_control_policy_mode (ac_mode record)) app_config)
              (rc_status_since_ms s);
          visible = map fr_uid records
      in (sort_key (\<lambda>record. (status_rank (fr_state record), fr_uid record)) records,
          s\<lparr>rc_status_since_ms := bt_retain (\<lambda>uid. uid \<in> set visible) since_ms\<rparr>))"

subsection \<open>The state invariant\<close>

definition log_ids_ok :: "u64 \<Rightarrow> operation_log \<Rightarrow> bool" where
  "log_ids_ok next_id log \<longleftrightarrow>
     sorted_wrt (\<lambda>a b. co_operation_id a < co_operation_id b) (ol_records log) \<and>
     (\<forall>op \<in> set (ol_records log). co_operation_id op < next_id)"

definition tracking_ok :: "runtime_control_state \<Rightarrow> bool" where
  "tracking_ok s \<longleftrightarrow>
     (\<forall>i. bt_get (rc_frozen_since_ms s) i \<noteq> None \<longleftrightarrow> i \<in> set (rc_frozen_apps s)) \<and>
     (\<forall>i. i \<in> set (rc_frozen_apps s) \<longrightarrow> bt_get (rc_frozen_ownership s) i \<noteq> None)"

definition shape_ok :: "runtime_control_state \<Rightarrow> bool" where
  "shape_ok s \<longleftrightarrow>
     bs_wf (rc_frozen_apps s) \<and> bt_wf (rc_frozen_since_ms s) \<and> bt_wf (rc_frozen_ownership s) \<and>
     bt_wf (rc_pending_freezes s) \<and> bs_wf (rc_network_restriction_requests s) \<and>
     bt_wf (rc_status_since_ms s) \<and> bt_wf (rc_blocked_process_signatures s) \<and>
     bt_wf (rc_download_deferral s)"

definition control_state_ok :: "runtime_control_state \<Rightarrow> bool" where
  "control_state_ok s \<longleftrightarrow>
     shape_ok s \<and> tracking_ok s \<and> oplog_wf (rc_operation_log s) \<and>
     log_ids_ok (rc_next_operation_id s) (rc_operation_log s)"

lemmas control_state_ok_defs = control_state_ok_def shape_ok_def tracking_ok_def

lemma control_state_ok_default [simp]: "control_state_ok default_control_state"
  by (simp add: control_state_ok_defs default_control_state_def log_ids_ok_def operation_log_new_def
      oplog_wf_def)

lemma or_insert_get: "bt_get (or_insert k v m) = (if bt_get m k = None then (bt_get m)(k \<mapsto> v) else bt_get m)"
  by (auto simp: or_insert_def split: option.splits)

lemma or_insert_wf [simp]: "bt_wf m \<Longrightarrow> bt_wf (or_insert k v m)"
  by (auto simp: or_insert_def split: option.splits)

lemma track_frozen_ok [wf_intros]: "control_state_ok s \<Longrightarrow> control_state_ok (track_frozen i t own s)"
  by (simp add: control_state_ok_defs track_frozen_def Let_def or_insert_get del: split_paired_All) blast

lemma clear_frozen_ok [wf_intros]: "control_state_ok s \<Longrightarrow> control_state_ok (clear_frozen i s)"
  by (simp add: control_state_ok_defs clear_frozen_def del: split_paired_All)

lemma mark_abnormal_ok [wf_intros]:
  "control_state_ok s \<Longrightarrow> control_state_ok (mark_abnormal_thaw_for_refreeze i s)"
  by (simp add: control_state_ok_defs mark_abnormal_thaw_for_refreeze_def Let_def del: split_paired_All)

lemma clear_detached_ownership_ok [wf_intros]:
  "control_state_ok s \<Longrightarrow> control_state_ok (clear_detached_ownership i s)"
  by (simp add: control_state_ok_defs clear_detached_ownership_def del: split_paired_All)

lemma forget_since_ok [wf_intros]:
  "control_state_ok s \<Longrightarrow> control_state_ok (forget_since_if_untracked i s)"
  by (simp add: control_state_ok_defs forget_since_if_untracked_def del: split_paired_All)

lemma forget_since_same: "control_state_ok s \<Longrightarrow> forget_since_if_untracked i s = s"
proof -
  assume ok: "control_state_ok s"
  show ?thesis
  proof (cases "i \<in> set (rc_frozen_apps s)")
    case False
    with ok have "bt_get (rc_frozen_since_ms s) i = None"
      unfolding control_state_ok_def tracking_ok_def by blast
    then show ?thesis by (simp add: forget_since_if_untracked_def bt_remove_absent)
  qed (simp add: forget_since_if_untracked_def)
qed

lemma set_pending_ok [wf_intros]: "control_state_ok s \<Longrightarrow> control_state_ok (set_pending i due s)"
  by (simp add: control_state_ok_defs set_pending_def)

lemma remove_pending_ok [wf_intros]: "control_state_ok s \<Longrightarrow> control_state_ok (remove_pending i s)"
  by (simp add: control_state_ok_defs remove_pending_def)

lemma requeue_ok [wf_intros]:
  "control_state_ok s \<Longrightarrow> control_state_ok (requeue_network_restriction_uid uid s)"
  by (simp add: control_state_ok_defs requeue_network_restriction_uid_def)

lemma take_network_ok [wf_intros]:
  "control_state_ok s \<Longrightarrow> control_state_ok (snd (take_network_restriction_uids s))"
  by (simp add: control_state_ok_defs take_network_restriction_uids_def)

lemma clear_transient_ok [wf_intros]:
  "control_state_ok s \<Longrightarrow> control_state_ok (clear_transient_control_state_for_uid uid s)"
  by (simp add: control_state_ok_defs clear_transient_control_state_for_uid_def clear_uid_def)

lemma log_operation_ok [wf_intros]: "control_state_ok s \<Longrightarrow> control_state_ok (log_operation t op s)"
proof -
  assume ok: "control_state_ok s"
  let ?op = "op\<lparr>co_operation_id := rc_next_operation_id s, co_timestamp_ms := t\<rparr>"
  from ok have ids: "log_ids_ok (rc_next_operation_id s) (rc_operation_log s)"
    by (simp add: control_state_ok_def)
  then have "sorted_wrt (\<lambda>a b. co_operation_id a < co_operation_id b)
      (ol_records (oplog_push ?op (rc_operation_log s)))"
    by (intro oplog.push_sorted) (auto simp: log_ids_ok_def)
  moreover have "\<forall>x \<in> set (ol_records (oplog_push ?op (rc_operation_log s))).
      co_operation_id x < rc_next_operation_id s + 1"
    using oplog.push_set [of ?op "rc_operation_log s"] ids
    by (auto simp: log_ids_ok_def less_Suc_eq)
  ultimately have "log_ids_ok (rc_next_operation_id s + 1) (oplog_push ?op (rc_operation_log s))"
    by (simp add: log_ids_ok_def)
  then show ?thesis
    using ok by (simp add: control_state_ok_defs log_operation_def oplog.push_ok)
qed

lemma refreeze_audit_ok [wf_intros]:
  "control_state_ok s \<Longrightarrow> control_state_ok (snd (refreeze_audit_due settings t s))"
  by (auto simp: control_state_ok_defs refreeze_audit_due_def Let_def split: option.splits)

lemma audit_interval_minute: "audit_interval_ms settings e = Some n \<Longrightarrow> 60000 \<le> n"
  by (auto simp: audit_interval_ms_def Let_def split: if_splits)

text \<open>
  Audits for abnormal thaws never crowd: the first one comes no earlier than a minute after the
  audit clock starts, and once one was due no other is due within the next minute, whatever the
  settings become in between.
\<close>

lemma audits_a_minute_apart:
  assumes "refreeze_audit_due settings t s = (True, s')"
  shows "(rc_next_refreeze_audit_at_ms s = None \<longrightarrow>
       (\<exists>started. rc_audit_started_at_ms s = Some started \<and> started + 60000 \<le> t)) \<and>
    (\<forall>t' settings'. t' < t + 60000 \<longrightarrow> \<not> fst (refreeze_audit_due settings' t' s'))"
proof (intro conjI impI allI)
  define started where "started = (case rc_audit_started_at_ms s of None \<Rightarrow> t | Some x \<Rightarrow> x)"
  from assms obtain n next_at where n: "audit_interval_ms settings (t - started) = Some n"
    and next_at: "next_at = (case rc_next_refreeze_audit_at_ms s of None \<Rightarrow> started + 60000 | Some x \<Rightarrow> x)"
      "next_at \<le> t"
    and s': "rc_next_refreeze_audit_at_ms s' = Some (t + n)"
    by (auto simp: refreeze_audit_due_def Let_def started_def split: option.splits if_splits)
  show "\<exists>started. rc_audit_started_at_ms s = Some started \<and> started + 60000 \<le> t"
    if "rc_next_refreeze_audit_at_ms s = None"
    using that next_at by (cases "rc_audit_started_at_ms s") (simp_all add: started_def)
  show "\<not> fst (refreeze_audit_due settings' t' s')" if "t' < t + 60000" for t' settings'
    using that audit_interval_minute [OF n] s'
    by (auto simp: refreeze_audit_due_def Let_def split: option.splits)
qed

lemma audits_a_minute_apart_witness:
  "\<not> fst (refreeze_audit_due [] 129999 (snd (refreeze_audit_due [] 70000
      (default_control_state\<lparr>rc_audit_started_at_ms := Some 5000\<rparr>))))"
proof -
  have "refreeze_audit_due [] 70000 (default_control_state\<lparr>rc_audit_started_at_ms := Some 5000\<rparr>) =
     (True, snd (refreeze_audit_due [] 70000 (default_control_state\<lparr>rc_audit_started_at_ms := Some 5000\<rparr>)))"
    by code_simp
  from audits_a_minute_apart [OF this] show ?thesis by simp
qed

subsection \<open>The status table is exact\<close>

definition earliest_due :: "(runtime_identity, u128) btree \<Rightarrow> u32 \<Rightarrow> u128 option" where
  "earliest_due pending uid =
     (let due = map snd (filter (\<lambda>(k, _). snd k = uid) pending)
      in if due = [] then None else Some (Min (set due)))"

lemma pending_fold:
  "bt_get (foldl earliest acc pending) uid =
     (case bt_get acc uid of
        None \<Rightarrow> earliest_due pending uid
      | Some d \<Rightarrow> Some (case earliest_due pending uid of None \<Rightarrow> d | Some d' \<Rightarrow> min d d'))"
proof (induction pending arbitrary: acc)
  case Nil
  then show ?case by (simp add: earliest_due_def split: option.splits)
next
  case (Cons entry pending)
  obtain k due where e: "entry = (k, due)" by (cases entry)
  have head: "earliest_due (entry # pending) uid =
      (if snd k = uid then Some (case earliest_due pending uid of None \<Rightarrow> due | Some d \<Rightarrow> min due d)
       else earliest_due pending uid)"
  proof -
    define F where "F = filter (\<lambda>(k, _). snd k = uid) pending"
    show ?thesis
      by (cases "F = []") (simp_all add: earliest_due_def e Let_def F_def [symmetric] min_def)
  qed
  have step: "bt_get (earliest acc entry) uid =
      (if snd k = uid then Some (case bt_get acc uid of None \<Rightarrow> due | Some c \<Rightarrow> min c due)
       else bt_get acc uid)"
    by (auto simp: earliest_def e Let_def split: option.splits)
  show ?case
    by (simp add: Cons.IH head step min.assoc split: option.splits)
qed

lemma pending_by_uid_get: "bt_get (pending_by_uid pending) uid = earliest_due pending uid"
  by (simp add: pending_by_uid_def pending_fold)

definition visible_uid ::
  "(u32 \<Rightarrow> runtime_process list) \<Rightarrow> u32 list \<Rightarrow> runtime_control_state \<Rightarrow> u32 \<Rightarrow> bool" where
  "visible_uid processes_of foreground_uids s uid \<longleftrightarrow>
     processes_of uid \<noteq> [] \<or> uid \<in> set foreground_uids \<or>
     earliest_due (rc_pending_freezes s) uid \<noteq> None \<or> uid \<in> snd ` set (rc_frozen_apps s)"

definition row_exact ::
  "(u32 \<Rightarrow> runtime_process list) \<Rightarrow> u32 list \<Rightarrow> u128 \<Rightarrow> runtime_control_state \<Rightarrow>
   manager_freeze_status_record \<Rightarrow> bool" where
  "row_exact processes_of foreground_uids timestamp_ms s r \<longleftrightarrow>
     (let uid = fr_uid r; due = earliest_due (rc_pending_freezes s) uid
      in fr_foreground r = (uid \<in> set foreground_uids) \<and>
         fr_state r = status_of (uid \<in> set foreground_uids) (due \<noteq> None)
           (uid \<in> snd ` set (rc_frozen_apps s)) \<and>
         fr_process_count r = capped_i32 (length (processes_of uid)) \<and>
         0 \<le> fr_seconds r \<and> fr_seconds r < 2 ^ 31 \<and>
         (\<forall>d. due = Some d \<longrightarrow> fr_seconds r = capped_i32 ((d - timestamp_ms + 999) div 1000)))"

lemma capped_range: "0 \<le> capped_i32 n \<and> capped_i32 n < 2147483648"
  by (simp add: capped_i32_def i32_max_def)

lemma status_row_exact:
  fixes s processes_of foreground_uids timestamp_ms
  defines "row \<equiv> status_row processes_of foreground_uids (pending_by_uid (rc_pending_freezes s))
      (map snd (rc_frozen_apps s)) timestamp_ms"
  shows "fst (row config since) = None \<longleftrightarrow> \<not> visible_uid processes_of foreground_uids s (ac_uid config)"
    and "fst (row config since) = Some r \<Longrightarrow>
      fr_uid r = ac_uid config \<and> row_exact processes_of foreground_uids timestamp_ms s r"
    and "bt_wf since \<Longrightarrow> bt_wf (snd (row config since))"
proof -
  let ?uid = "ac_uid config"
  show "fst (row config since) = None \<longleftrightarrow> \<not> visible_uid processes_of foreground_uids s ?uid"
    by (auto simp: row_def status_row_def visible_uid_def pending_by_uid_get Let_def split: option.splits)
  show "fst (row config since) = Some r \<Longrightarrow>
      fr_uid r = ac_uid config \<and> row_exact processes_of foreground_uids timestamp_ms s r"
    using capped_range
    by (cases "earliest_due (rc_pending_freezes s) ?uid")
      (auto simp: row_def status_row_def row_exact_def pending_by_uid_get Let_def split: if_splits)
  show "bt_wf since \<Longrightarrow> bt_wf (snd (row config since))"
    by (auto simp: row_def status_row_def Let_def split: option.splits)
qed

lemma status_rows_set:
  "set (fst (status_rows row configs since)) \<subseteq> {r. \<exists>c \<in> set configs. \<exists>x. fst (row c x) = Some r}"
proof (induction configs arbitrary: since)
  case (Cons c configs)
  obtain r y where row: "row c since = (r, y)" by fastforce
  show ?case
    using Cons.IH [of y] by (cases r) (auto simp: row split: prod.splits intro: exI [of _ since])
qed simp

lemma status_rows_uids:
  assumes "\<forall>c x. (fst (row c x) = None) = (\<not> P c)" and "\<forall>c x r. fst (row c x) = Some r \<longrightarrow> fr_uid r = ac_uid c"
  shows "fr_uid ` set (fst (status_rows row configs since)) = ac_uid ` {c \<in> set configs. P c}"
proof (induction configs arbitrary: since)
  case (Cons c configs)
  obtain r y where row: "row c since = (r, y)" by fastforce
  show ?case
  proof (cases r)
    case None
    then have "\<not> P c" using assms(1) row by (metis fst_conv)
    then show ?thesis using Cons.IH [of y] None
      by (auto simp: row split: prod.splits)
  next
    case (Some x)
    then have "P c" "fr_uid x = ac_uid c" using assms row by (metis fst_conv option.distinct(1), metis fst_conv)
    then show ?thesis using Cons.IH [of y] Some
      by (auto simp: row split: prod.splits)
  qed
qed simp

lemma status_rows_wf:
  "(\<And>c x. bt_wf x \<Longrightarrow> bt_wf (snd (row c x))) \<Longrightarrow> bt_wf since \<Longrightarrow> bt_wf (snd (status_rows row configs since))"
proof (induction configs arbitrary: since)
  case (Cons c configs)
  have "bt_wf (snd (row c since))" using Cons.prems by blast
  from Cons.IH [OF Cons.prems(1) this] show ?case by (simp add: case_prod_beta' Let_def)
qed simp

text \<open>
  C33.  The status table shown by the manager is exact: it has a row for precisely the controlled uids
  that run, are in the foreground, wait for a freeze or are tracked as frozen; each row carries the
  state that takes precedence and, for a pending freeze, the time to the earliest due job in whole
  seconds rounded up, within the range of an \<^verbatim>\<open>i32\<close>; the rows come in the
  order foreground, pending, running, frozen, and by uid within these; and no tracking is touched.
\<close>

theorem freeze_status_exact:
  assumes "freeze_status_records app_config processes_of foreground_uids t s = (records, s')"
  shows "fr_uid ` set records =
      {uid. (\<exists>c \<in> set app_config. is_control_policy_mode (ac_mode c) \<and> ac_uid c = uid) \<and>
            visible_uid processes_of foreground_uids s uid} \<and>
    (\<forall>r \<in> set records. row_exact processes_of foreground_uids t s r) \<and>
    sorted (map (\<lambda>r. (status_rank (fr_state r), fr_uid r)) records) \<and>
    (control_state_ok s \<longrightarrow> control_state_ok s') \<and>
    s' = s\<lparr>rc_status_since_ms := rc_status_since_ms s'\<rparr>"
proof -
  define row where "row = status_row processes_of foreground_uids
      (pending_by_uid (rc_pending_freezes s)) (map snd (rc_frozen_apps s)) t"
  define configs where "configs = filter (\<lambda>record. is_control_policy_mode (ac_mode record)) app_config"
  define rs since where "rs = fst (status_rows row configs (rc_status_since_ms s))"
    and "since = snd (status_rows row configs (rc_status_since_ms s))"
  have records: "records = sort_key (\<lambda>record. (status_rank (fr_state record), fr_uid record)) rs"
    and s': "s' = s\<lparr>rc_status_since_ms := bt_retain (\<lambda>uid. uid \<in> set (map fr_uid rs)) since\<rparr>"
    using assms
    by (auto simp: freeze_status_records_def row_def configs_def rs_def since_def Let_def split: prod.splits)
  note row = status_row_exact [where processes_of = processes_of and foreground_uids = foreground_uids
      and s = s and timestamp_ms = t, folded row_def]
  have "fr_uid ` set rs = ac_uid ` {c \<in> set configs. visible_uid processes_of foreground_uids s (ac_uid c)}"
    unfolding rs_def by (rule status_rows_uids) (use row in auto)
  then have uids: "fr_uid ` set records =
      {uid. (\<exists>c \<in> set app_config. is_control_policy_mode (ac_mode c) \<and> ac_uid c = uid) \<and>
            visible_uid processes_of foreground_uids s uid}"
    by (auto simp: records configs_def image_iff)
  have exact: "\<forall>r \<in> set records. row_exact processes_of foreground_uids t s r"
    using status_rows_set [of row configs "rc_status_since_ms s"] row(2)
    by (auto simp: records rs_def)
  have "bt_wf (rc_status_since_ms s) \<Longrightarrow> bt_wf since"
    unfolding since_def by (rule status_rows_wf) (use row(3) in auto)
  then have "control_state_ok s \<longrightarrow> control_state_ok s'"
    by (simp add: s' control_state_ok_defs)
  with uids exact show ?thesis
    by (simp add: records sorted_sort_key s')
qed

theorem freeze_status_exact_witness:
  "fr_uid ` set (fst (freeze_status_records [\<lparr>ac_uid = 10123, ac_mode = 30, ac_permissive = False\<rparr>]
      (\<lambda>_. []) [10123] 5000 default_control_state)) = {10123}"
proof -
  let ?c = "\<lparr>ac_uid = 10123, ac_mode = 30, ac_permissive = False\<rparr>"
  have "fr_uid ` set (fst (freeze_status_records [?c] (\<lambda>_. []) [10123] 5000 default_control_state)) =
      {uid. (\<exists>c \<in> set [?c]. is_control_policy_mode (ac_mode c) \<and> ac_uid c = uid) \<and>
            visible_uid (\<lambda>_. []) [10123] default_control_state uid}"
    using freeze_status_exact [OF prod.collapse [symmetric]] by blast
  then show ?thesis
    by (auto simp: is_control_policy_mode_def visible_uid_def)
qed

end
