(* ===== verification/Transactions.thy ===== *)
theory Transactions
  imports Track
begin

text \<open>
  The operations of the controller on processes (\<^verbatim>\<open>app/controller.rs\<close>): freezing,
  stopping and terminating the processes of an application as a transaction, and thawing them.

  The controller reaches the system through closures.  They are the functions of
  \<open>control_env\<close>; each answer may depend on everything that happened before, which is the
  history of calls, newest first.  Every call is recorded there with its answer, so that what a pass
  did to which process, and in which order, is a fact about the history it leaves.
\<close>

subsection \<open>Calls and their history\<close>

datatype ctl_event =
    E_Discover string u32 "runtime_process list res"
  | E_Validate runtime_process "bool res"
  | E_Freeze runtime_process "unit res"
  | E_Unfreeze runtime_process "unit res"
  | E_Terminate runtime_process "unit res"
  | E_Sample u32 string "u64 option res"
  | E_Ledger i32 u64 "signal_stop_ownership option res"
  | E_Promote i32 u64 "bool res"
  | E_Binder bool

type_synonym history = "ctl_event list"

record control_env =
  ce_discover :: "history \<Rightarrow> string \<Rightarrow> u32 \<Rightarrow> runtime_process list res"
  ce_validate :: "history \<Rightarrow> runtime_process \<Rightarrow> bool res"
  ce_freeze :: "history \<Rightarrow> runtime_process \<Rightarrow> unit res"
  ce_unfreeze :: "history \<Rightarrow> runtime_process \<Rightarrow> unit res"
  ce_terminate :: "history \<Rightarrow> runtime_process \<Rightarrow> unit res"
  ce_sample :: "history \<Rightarrow> u32 \<Rightarrow> string \<Rightarrow> u64 option res"
  ce_ledger :: "history \<Rightarrow> i32 \<Rightarrow> u64 \<Rightarrow> signal_stop_ownership option res"
  ce_promote :: "history \<Rightarrow> i32 \<Rightarrow> u64 \<Rightarrow> bool res"
  ce_binder :: "history \<Rightarrow> bool"

text \<open>The processes frozen by a recorded call and not thawed by a later one.\<close>

primrec held_pids :: "history \<Rightarrow> i32 set" where
  "held_pids [] = {}"
| "held_pids (e # h) =
     (case e of
        E_Freeze p r \<Rightarrow> (if is_ok r then insert (rp_pid p) (held_pids h) else held_pids h)
      | E_Unfreeze p r \<Rightarrow> (if is_ok r then held_pids h - {rp_pid p} else held_pids h)
      | _ \<Rightarrow> held_pids h)"

primrec freeze_attempts :: "history \<Rightarrow> nat" where
  "freeze_attempts [] = 0"
| "freeze_attempts (e # h) = (case e of E_Freeze _ _ \<Rightarrow> Suc (freeze_attempts h) | _ \<Rightarrow> freeze_attempts h)"

primrec killed_pids :: "history \<Rightarrow> i32 set" where
  "killed_pids [] = {}"
| "killed_pids (e # h) =
     (case e of E_Terminate p r \<Rightarrow> (if is_ok r then insert (rp_pid p) (killed_pids h) else killed_pids h)
      | _ \<Rightarrow> killed_pids h)"

definition control_view :: "bool \<Rightarrow> runtime_process \<Rightarrow> runtime_process" where
  "control_view by_signal p = (if by_signal then signal_control_process p else p)"

lemma control_view_fields [simp]:
  "rp_pid (control_view b p) = rp_pid p" "rp_uid (control_view b p) = rp_uid p"
  "rp_package_name (control_view b p) = rp_package_name p"
  "rp_start_time_ticks (control_view b p) = rp_start_time_ticks p"
  by (simp_all add: control_view_def signal_control_process_def)

lemma control_view_twice [simp]: "control_view b (control_view b p) = control_view b p"
  by (simp add: control_view_def signal_control_process_def)

subsection \<open>Validation\<close>

definition validation_failure :: "string \<Rightarrow> runtime_process \<Rightarrow> bool res \<Rightarrow> string option" where
  "validation_failure phase p r =
     (case r of
        Inr ok \<Rightarrow> if ok then None
          else Some (''identity validation failed'' @ phase @ '' for pid '' @ show_int (rp_pid p))
      | Inl e \<Rightarrow> Some (''identity validation failed'' @ phase @ '' for pid '' @ show_int (rp_pid p)
                    @ '': '' @ show_error e))"

definition shared_uid_refusal :: "runtime_process \<Rightarrow> string" where
  "shared_uid_refusal p =
     ''shared uid contains multiple package identities; refusing pid '' @ show_int (rp_pid p)"

text \<open>The first loop of both transactions: nothing is touched until every process has the expected
  package and passed validation.\<close>

fun precheck ::
  "control_env \<Rightarrow> string \<Rightarrow> string \<Rightarrow> runtime_process list \<Rightarrow> history \<Rightarrow> string option \<times> history" where
  "precheck env phase expected [] h = (None, h)"
| "precheck env phase expected (p # ps) h =
     (if rp_package_name p \<noteq> expected then (Some (shared_uid_refusal p), h)
      else
        let v = ce_validate env h p; h1 = E_Validate p v # h
        in case validation_failure phase p v of
             Some message \<Rightarrow> (Some message, h1)
           | None \<Rightarrow> precheck env phase expected ps h1)"

definition first_package :: "runtime_process list \<Rightarrow> string" where
  "first_package ps = (case ps of [] \<Rightarrow> [] | p # _ \<Rightarrow> rp_package_name p)"

subsection \<open>Freezing\<close>

record freeze_transaction_outcome =
  ft_applied :: usize
  ft_rolled_back :: usize
  ft_rollback_failures :: usize
  ft_residual_possible :: bool
  ft_failure :: "string option"

fun freeze_each ::
  "control_env \<Rightarrow> bool \<Rightarrow> runtime_process list \<Rightarrow> runtime_process list \<Rightarrow> history \<Rightarrow>
   runtime_process list \<times> string option \<times> history" where
  "freeze_each env by_signal [] signaled h = (signaled, None, h)"
| "freeze_each env by_signal (p # ps) signaled h =
     (let v = ce_validate env h p; h1 = E_Validate p v # h
      in case validation_failure [] p v of
           Some message \<Rightarrow> (signaled, Some message, h1)
         | None \<Rightarrow>
             let target = control_view by_signal p;
                 r = ce_freeze env h1 target; h2 = E_Freeze target r # h1
             in case r of
                  Inl e \<Rightarrow> (signaled, Some (''control apply failed for pid '' @ show_int (rp_pid p)
                              @ '': '' @ show_error e), h2)
                | Inr _ \<Rightarrow> freeze_each env by_signal ps (signaled @ [p]) h2)"

fun rollback_each ::
  "control_env \<Rightarrow> bool \<Rightarrow> runtime_process list \<Rightarrow> nat \<times> nat \<Rightarrow> history \<Rightarrow> (nat \<times> nat) \<times> history" where
  "rollback_each env by_signal [] (rolled_back, failures) h = ((rolled_back, failures), h)"
| "rollback_each env by_signal (p # ps) (rolled_back, failures) h =
     (let v = ce_validate env h p; h1 = E_Validate p v # h
      in if v \<noteq> Inr True then rollback_each env by_signal ps (rolled_back, failures + 1) h1
         else
           let target = control_view by_signal p;
               r = ce_unfreeze env h1 target; h2 = E_Unfreeze target r # h1
           in if \<not> is_ok r then rollback_each env by_signal ps (rolled_back, failures + 1) h2
              else rollback_each env by_signal ps (rolled_back + 1, failures) h2)"

definition apply_freeze_transaction ::
  "control_env \<Rightarrow> bool \<Rightarrow> runtime_process list \<Rightarrow> history \<Rightarrow> freeze_transaction_outcome \<times> history" where
  "apply_freeze_transaction env by_signal processes h =
     (case precheck env [] (first_package processes) processes h of
        (Some message, h1) \<Rightarrow>
          (\<lparr>ft_applied = 0, ft_rolled_back = 0, ft_rollback_failures = 0, ft_residual_possible = False,
            ft_failure = Some message\<rparr>, h1)
      | (None, h1) \<Rightarrow>
          (case freeze_each env by_signal processes [] h1 of
             (signaled, None, h2) \<Rightarrow>
               (\<lparr>ft_applied = length signaled, ft_rolled_back = 0, ft_rollback_failures = 0,
                 ft_residual_possible = False, ft_failure = None\<rparr>, h2)
           | (signaled, Some message, h2) \<Rightarrow>
               (case rollback_each env by_signal (rev signaled) (0, 0) h2 of
                  ((rolled_back, failures), h3) \<Rightarrow>
                    (\<lparr>ft_applied = length signaled, ft_rolled_back = rolled_back,
                      ft_rollback_failures = failures, ft_residual_possible = True,
                      ft_failure = Some message\<rparr>, h3))))"

subsection \<open>Stopping by signal\<close>

datatype signal_stop_ledger_promotion = LP_Never | LP_AfterCompletedDirectTransaction

record signal_stop_outcome =
  so_transaction :: freeze_transaction_outcome
  so_all_promotions_persisted :: bool

definition outcome_ownership :: "signal_stop_outcome \<Rightarrow> frozen_ownership" where
  "outcome_ownership outcome =
     (if so_all_promotions_persisted outcome then FO_SignalOnly else FO_ResidualUnknown)"

fun ledger_allows_promotion ::
  "control_env \<Rightarrow> runtime_process list \<Rightarrow> history \<Rightarrow> signal_stop_ledger_promotion \<times> history" where
  "ledger_allows_promotion env [] h = (LP_AfterCompletedDirectTransaction, h)"
| "ledger_allows_promotion env (p # ps) h =
     (case rp_start_time_ticks p of
        None \<Rightarrow> (LP_Never, h)
      | Some start_time_ticks \<Rightarrow>
          let r = ce_ledger env h (rp_pid p) start_time_ticks;
              h1 = E_Ledger (rp_pid p) start_time_ticks r # h
          in case r of
               Inl _ \<Rightarrow> (LP_Never, h1)
             | Inr (Some SO_ResidualUnknown) \<Rightarrow> (LP_Never, h1)
             | Inr (Some SO_SignalOnly) \<Rightarrow> ledger_allows_promotion env ps h1
             | Inr None \<Rightarrow> ledger_allows_promotion env ps h1)"

definition signal_stop_ledger_promotion_for ::
  "control_env \<Rightarrow> runtime_control_state \<Rightarrow> runtime_identity \<Rightarrow> runtime_process list \<Rightarrow> history \<Rightarrow>
   signal_stop_ledger_promotion \<times> history" where
  "signal_stop_ledger_promotion_for env s identity processes h =
     (if has_unresolved_freeze_ownership identity s then (LP_Never, h)
      else ledger_allows_promotion env processes h)"

definition promote_signal_stop_for_control ::
  "control_env \<Rightarrow> runtime_process \<Rightarrow> history \<Rightarrow> bool res \<times> history" where
  "promote_signal_stop_for_control env p h =
     (case rp_start_time_ticks p of
        None \<Rightarrow> (Inr False, h)
      | Some start_time_ticks \<Rightarrow>
          let r = ce_promote env h (rp_pid p) start_time_ticks
          in (r, E_Promote (rp_pid p) start_time_ticks r # h))"

fun promote_each :: "control_env \<Rightarrow> runtime_process list \<Rightarrow> bool \<Rightarrow> history \<Rightarrow> bool \<times> history" where
  "promote_each env [] all h = (all, h)"
| "promote_each env (p # ps) all h =
     (case promote_signal_stop_for_control env p h of
        (r, h1) \<Rightarrow> promote_each env ps (all \<and> r = Inr True) h1)"

definition apply_signal_stop_freeze_transaction ::
  "control_env \<Rightarrow> runtime_process list \<Rightarrow> signal_stop_ledger_promotion \<Rightarrow> history \<Rightarrow>
   signal_stop_outcome \<times> history" where
  "apply_signal_stop_freeze_transaction env processes promotion h =
     (case apply_freeze_transaction env True processes h of
        (transaction, h1) \<Rightarrow>
          if ft_failure transaction = None \<and> promotion = LP_AfterCompletedDirectTransaction then
            (case promote_each env processes True h1 of
               (all, h2) \<Rightarrow> (\<lparr>so_transaction = transaction, so_all_promotions_persisted = all\<rparr>, h2))
          else (\<lparr>so_transaction = transaction, so_all_promotions_persisted = False\<rparr>, h1))"

subsection \<open>Terminating\<close>

definition sigkill_number :: i32 where "sigkill_number = 9"

definition terminate_runtime_process ::
  "(i32 \<Rightarrow> i32 \<Rightarrow> io_error option) \<Rightarrow> runtime_process \<Rightarrow> unit res" where
  "terminate_runtime_process kill p =
     (if rp_pid p \<le> 0 then Inl (System_Error ''refusing to SIGKILL non-positive pid'')
      else case kill (rp_pid p) sigkill_number of None \<Rightarrow> Inr () | Some e \<Rightarrow> Inl (Io_Error e))"

record terminate_transaction_outcome =
  tt_applied :: usize
  tt_failure :: "string option"

fun terminate_each ::
  "control_env \<Rightarrow> runtime_process list \<Rightarrow> usize \<Rightarrow> history \<Rightarrow> terminate_transaction_outcome \<times> history" where
  "terminate_each env [] applied h = (\<lparr>tt_applied = applied, tt_failure = None\<rparr>, h)"
| "terminate_each env (p # ps) applied h =
     (let v = ce_validate env h p; h1 = E_Validate p v # h
      in case validation_failure '' immediately before SIGKILL'' p v of
           Some message \<Rightarrow> (\<lparr>tt_applied = applied, tt_failure = Some message\<rparr>, h1)
         | None \<Rightarrow>
             let r = ce_terminate env h1 p; h2 = E_Terminate p r # h1
             in case r of
                  Inl e \<Rightarrow> (\<lparr>tt_applied = applied, tt_failure = Some (''SIGKILL failed for pid ''
                              @ show_int (rp_pid p) @ '': '' @ show_error e)\<rparr>, h2)
                | Inr _ \<Rightarrow> terminate_each env ps (applied + 1) h2)"

definition apply_terminate_transaction ::
  "control_env \<Rightarrow> runtime_process list \<Rightarrow> history \<Rightarrow> terminate_transaction_outcome \<times> history" where
  "apply_terminate_transaction env processes h =
     (case precheck env '' before SIGKILL'' (first_package processes) processes h of
        (Some message, h1) \<Rightarrow> (\<lparr>tt_applied = 0, tt_failure = Some message\<rparr>, h1)
      | (None, h1) \<Rightarrow> terminate_each env processes 0 h1)"

subsection \<open>Thawing\<close>

record unfreeze_outcome =
  uo_applied :: usize
  uo_failures :: "string list"

fun unfreeze_each ::
  "control_env \<Rightarrow> bool \<Rightarrow> runtime_process list \<Rightarrow> unfreeze_outcome \<Rightarrow> history \<Rightarrow>
   unfreeze_outcome \<times> history" where
  "unfreeze_each env by_signal [] outcome h = (outcome, h)"
| "unfreeze_each env by_signal (p # ps) outcome h =
     (let target = control_view by_signal p;
          v = ce_validate env h target; h1 = E_Validate target v # h
      in case validation_failure '' before unfreeze'' target v of
           Some message \<Rightarrow>
             unfreeze_each env by_signal ps
               (outcome\<lparr>uo_failures := uo_failures outcome @ [message]\<rparr>) h1
         | None \<Rightarrow>
             let r = ce_unfreeze env h1 target; h2 = E_Unfreeze target r # h1
             in unfreeze_each env by_signal ps
                  (case r of
                     Inr _ \<Rightarrow> outcome\<lparr>uo_applied := uo_applied outcome + 1\<rparr>
                   | Inl e \<Rightarrow> outcome\<lparr>uo_failures := uo_failures outcome @
                       [''unfreeze failed for pid '' @ show_int (rp_pid target) @ '': '' @ show_error e]\<rparr>)
                  h2)"

definition unfreeze_identity_processes ::
  "control_env \<Rightarrow> string \<Rightarrow> runtime_process list \<Rightarrow> frozen_ownership \<Rightarrow> history \<Rightarrow>
   unfreeze_outcome \<times> history" where
  "unfreeze_identity_processes env expected_package processes ownership h =
     (if list_ex (\<lambda>p. rp_package_name p \<noteq> expected_package) processes
        then (\<lparr>uo_applied = 0, uo_failures = [''shared uid contains multiple package identities'']\<rparr>, h)
      else unfreeze_each env (ownership = FO_SignalOnly) processes \<lparr>uo_applied = 0, uo_failures = []\<rparr> h)"

definition unfreeze_result :: "unfreeze_outcome \<Rightarrow> operation_result" where
  "unfreeze_result outcome =
     (if uo_failures outcome = [] then OR_Success
      else if uo_applied outcome = 0 then OR_Failed
      else OR_Partial)"

definition fallback_package_name :: "u32 \<Rightarrow> string" where
  "fallback_package_name uid = ''uid'' @ show_u32 uid"

fun thaw_each ::
  "control_env \<Rightarrow> u128 \<Rightarrow> string \<Rightarrow> runtime_identity list \<Rightarrow> string list \<Rightarrow> runtime_control_state \<Rightarrow>
   history \<Rightarrow> string list \<times> runtime_control_state \<times> history" where
  "thaw_each env timestamp_ms reason [] failures s h = (failures, s, h)"
| "thaw_each env timestamp_ms reason (identity # identities) failures s h =
     (let name = fallback_package_name (snd identity);
          found = ce_discover env h name (snd identity);
          h1 = E_Discover name (snd identity) found # h
      in case found of
           Inl e \<Rightarrow>
             let message = reason @ ''; process discovery failed: '' @ show_error e
             in thaw_each env timestamp_ms reason identities (failures @ [message])
                  (log_operation timestamp_ms
                     (new_operation identity [] CA_Unfreeze ''recovery'' message OR_Failed
                        ''process_count=0'') s) h1
         | Inr processes \<Rightarrow>
             if processes = [] then
               thaw_each env timestamp_ms reason identities failures (clear_frozen identity s) h1
             else
               let ownership = frozen_ownership_of identity s
               in case unfreeze_identity_processes env (fst identity) processes ownership h1 of
                    (outcome, h2) \<Rightarrow>
                      let succeeded = (uo_failures outcome = []);
                          s1 = (if succeeded then clear_frozen identity s else s);
                          operation = new_operation identity (map rp_pid processes) CA_Unfreeze
                            (unfreeze_backend ownership processes)
                            (if succeeded then reason
                             else reason @ ''; '' @ str_join ''; '' (uo_failures outcome))
                            (unfreeze_result outcome) (operation_details processes)
                      in thaw_each env timestamp_ms reason identities (failures @ uo_failures outcome)
                           (log_operation timestamp_ms operation s1) h2)"

definition thaw_frozen_identities ::
  "control_env \<Rightarrow> u128 \<Rightarrow> string \<Rightarrow> runtime_identity list \<Rightarrow> runtime_control_state \<Rightarrow> history \<Rightarrow>
   unit res \<times> runtime_control_state \<times> history" where
  "thaw_frozen_identities env timestamp_ms reason identities s h =
     (case thaw_each env timestamp_ms reason identities [] s h of
        (failures, s1, h1) \<Rightarrow>
          ((if failures = [] then Inr () else Inl (System_Error (str_join ''; '' failures))), s1, h1))"

definition detached_ownership :: "(runtime_identity \<Rightarrow> bool) \<Rightarrow> runtime_control_state \<Rightarrow> runtime_identity list" where
  "detached_ownership P s =
     filter (\<lambda>identity. identity \<notin> set (rc_frozen_apps s) \<and> P identity) (bt_keys (rc_frozen_ownership s))"

definition clear_detached :: "(runtime_identity \<Rightarrow> bool) \<Rightarrow> runtime_control_state \<Rightarrow> runtime_control_state" where
  "clear_detached P s = fold clear_detached_ownership (detached_ownership P s) s"

definition thaw_all_frozen ::
  "control_env \<Rightarrow> u128 \<Rightarrow> runtime_control_state \<Rightarrow> history \<Rightarrow>
   unit res \<times> runtime_control_state \<times> history" where
  "thaw_all_frozen env timestamp_ms s h =
     (case thaw_frozen_identities env timestamp_ms ''control disabled'' (rc_frozen_apps s) s h of
        (result, s1, h1) \<Rightarrow>
          let s2 = clear_detached (\<lambda>_. True) s1
          in (result,
              s2\<lparr>rc_pending_freezes := [], rc_network_restriction_requests := [],
                 rc_blocked_process_signatures := [], rc_download_deferral := []\<rparr>, h1))"

subsection \<open>Histories only grow\<close>

named_theorems history_grows \<open>every operation extends the history\<close>

lemma suffix_step: "suffix (e # h) h' \<Longrightarrow> suffix h h'"
  by (metis suffix_ConsD)

lemma suffix_step2: "suffix (e # e' # h) h' \<Longrightarrow> suffix h h'"
  by (metis suffix_ConsD)

lemma suffix_skip: "suffix h h' \<Longrightarrow> suffix h (e # h')"
  by (rule suffix_ConsI)

lemma precheck_grows [history_grows]: "suffix h (snd (precheck env phase expected ps h))"
proof (induction ps arbitrary: h)
  case (Cons p ps)
  then show ?case by (auto simp: Let_def split: option.splits intro: suffix_step suffix_skip)
qed simp

lemma freeze_each_grows [history_grows]: "suffix h (snd (snd (freeze_each env b ps signaled h)))"
proof (induction ps arbitrary: signaled h)
  case (Cons p ps)
  then show ?case
    by (auto simp: Let_def split: option.splits sum.splits intro: suffix_step2 suffix_skip)
qed simp

lemma rollback_each_grows [history_grows]: "suffix h (snd (rollback_each env b ps n h))"
proof (induction ps arbitrary: n h)
  case Nil
  show ?case by (cases n) simp
next
  case (Cons p ps)
  then show ?case by (cases n) (auto simp: Let_def intro: suffix_step suffix_step2)
qed

lemma freeze_transaction_grows [history_grows]:
  "suffix h (snd (apply_freeze_transaction env b ps h))"
proof -
  obtain m h1 where 1: "precheck env [] (first_package ps) ps h = (m, h1)" by fastforce
  obtain sg f h2 where 2: "freeze_each env b ps [] h1 = (sg, f, h2)" by (metis prod_cases3)
  obtain n h3 where 3: "rollback_each env b (rev sg) (0, 0) h2 = (n, h3)" by fastforce
  from 1 2 3 precheck_grows [of h env "[]" "first_package ps" ps] freeze_each_grows [of h1 env b ps "[]"]
    rollback_each_grows [of h2 env b "rev sg" "(0, 0)"]
  have "suffix h h1" "suffix h1 h2" "suffix h2 h3" by simp_all
  then show ?thesis
    by (cases n) (auto simp: apply_freeze_transaction_def 1 2 3 split: option.splits
        intro: suffix_order.trans)
qed

lemma ledger_allows_grows [history_grows]: "suffix h (snd (ledger_allows_promotion env ps h))"
proof (induction ps arbitrary: h)
  case (Cons p ps)
  then show ?case
    by (auto simp: Let_def split: option.splits sum.splits signal_stop_ownership.splits
        intro: suffix_step suffix_skip)
qed simp

lemma promotion_for_grows [history_grows]:
  "suffix h (snd (signal_stop_ledger_promotion_for env s i ps h))"
  by (simp add: signal_stop_ledger_promotion_for_def ledger_allows_grows)

lemma promote_each_grows [history_grows]: "suffix h (snd (promote_each env ps all h))"
proof (induction ps arbitrary: all h)
  case (Cons p ps)
  then show ?case
    by (auto simp: promote_signal_stop_for_control_def Let_def split: option.splits intro: suffix_step)
qed simp

lemma signal_stop_transaction_grows [history_grows]:
  "suffix h (snd (apply_signal_stop_freeze_transaction env ps pr h))"
proof -
  obtain tr h1 where 1: "apply_freeze_transaction env True ps h = (tr, h1)" by fastforce
  obtain a h2 where 2: "promote_each env ps True h1 = (a, h2)" by fastforce
  from 1 2 freeze_transaction_grows [of h env True ps] promote_each_grows [of h1 env ps True]
  have "suffix h h1" "suffix h1 h2" by simp_all
  then show ?thesis
    by (auto simp: apply_signal_stop_freeze_transaction_def 1 2 intro: suffix_order.trans)
qed

lemma terminate_each_grows [history_grows]: "suffix h (snd (terminate_each env ps n h))"
proof (induction ps arbitrary: n h)
  case (Cons p ps)
  then show ?case
    by (auto simp: Let_def split: option.splits sum.splits intro: suffix_step2 suffix_skip)
qed simp

lemma terminate_transaction_grows [history_grows]:
  "suffix h (snd (apply_terminate_transaction env ps h))"
proof -
  obtain m h1 where 1: "precheck env '' before SIGKILL'' (first_package ps) ps h = (m, h1)" by fastforce
  from 1 precheck_grows [of h env "'' before SIGKILL''" "first_package ps" ps]
  have "suffix h h1" by simp
  then show ?thesis
    using terminate_each_grows [of h1 env ps 0]
    by (auto simp: apply_terminate_transaction_def 1 split: option.splits intro: suffix_order.trans)
qed

lemma unfreeze_each_grows [history_grows]: "suffix h (snd (unfreeze_each env b ps oc h))"
proof (induction ps arbitrary: oc h)
  case (Cons p ps)
  then show ?case by (auto simp: Let_def split: option.splits intro: suffix_step suffix_step2)
qed simp

lemma unfreeze_identity_grows [history_grows]:
  "suffix h (snd (unfreeze_identity_processes env pkg ps own h))"
  by (simp add: unfreeze_identity_processes_def unfreeze_each_grows)

lemma thaw_each_grows [history_grows]:
  "suffix h (snd (snd (thaw_each env t reason ids failures s h)))"
proof (induction ids arbitrary: failures s h)
  case (Cons i ids)
  let ?name = "fallback_package_name (snd i)"
  let ?found = "ce_discover env h ?name (snd i)"
  let ?h1 = "E_Discover ?name (snd i) ?found # h"
  show ?case
  proof (cases ?found)
    case (Inl e)
    then show ?thesis
      using Cons.IH [of ?h1] by (auto simp: Let_def intro: suffix_step)
  next
    case (Inr ps)
    obtain oc h2 where u: "unfreeze_identity_processes env (fst i) ps (frozen_ownership_of i s) ?h1 = (oc, h2)"
      by fastforce
    with unfreeze_identity_grows [of ?h1 env "fst i" ps "frozen_ownership_of i s"]
    have "suffix h h2" by (auto dest: suffix_step)
    with Cons.IH [of ?h1] Cons.IH [of h2] Inr u show ?thesis
      by (auto simp: Let_def intro: suffix_step suffix_order.trans)
  qed
qed simp

lemma thaw_identities_grows [history_grows]:
  "suffix h (snd (snd (thaw_frozen_identities env t reason ids s h)))"
  using thaw_each_grows [of h env t reason ids "[]" s]
  by (auto simp: thaw_frozen_identities_def split: prod.splits)

subsection \<open>Every act follows a validation\<close>

text \<open>A process may be acted on only when the call just before was a successful validation of it, or of
  the process it is the signal view of.\<close>

definition validated_before :: "runtime_process \<Rightarrow> history \<Rightarrow> bool" where
  "validated_before p h \<longleftrightarrow>
     (case h of
        E_Validate q r # _ \<Rightarrow> r = Inr True \<and> (p = q \<or> p = signal_control_process q)
      | _ \<Rightarrow> False)"

definition event_ok :: "(bool \<Rightarrow> history \<Rightarrow> runtime_process \<Rightarrow> bool) \<Rightarrow> ctl_event \<Rightarrow> history \<Rightarrow> bool" where
  "event_ok allowed e h \<longleftrightarrow>
     (case e of
        E_Freeze p _ \<Rightarrow> validated_before p h \<and> allowed False h p
      | E_Terminate p _ \<Rightarrow> validated_before p h \<and> allowed True h p
      | E_Unfreeze p _ \<Rightarrow> validated_before p h
      | _ \<Rightarrow> True)"

primrec monitored :: "(bool \<Rightarrow> history \<Rightarrow> runtime_process \<Rightarrow> bool) \<Rightarrow> history \<Rightarrow> bool" where
  "monitored allowed [] \<longleftrightarrow> True"
| "monitored allowed (e # h) \<longleftrightarrow> event_ok allowed e h \<and> monitored allowed h"

lemma event_ok_reads [simp]:
  "event_ok A (E_Validate p r) h" "event_ok A (E_Discover n u d) h" "event_ok A (E_Ledger i t o') h"
  "event_ok A (E_Promote i t x) h" "event_ok A (E_Sample u n y) h" "event_ok A (E_Binder z) h"
  by (simp_all add: event_ok_def)

lemma validation_passed [simp]: "validation_failure phase p (Inr True) = None"
  by (simp add: validation_failure_def)

lemma monitored_validated:
  assumes "monitored A h"
  shows "monitored A (E_Unfreeze (control_view b p) r # E_Validate p (Inr True) # h)"
    and "A False (E_Validate p (Inr True) # h) (control_view b p) \<Longrightarrow>
      monitored A (E_Freeze (control_view b p) r # E_Validate p (Inr True) # h)"
    and "A True (E_Validate p (Inr True) # h) p \<Longrightarrow>
      monitored A (E_Terminate p r # E_Validate p (Inr True) # h)"
  using assms by (simp_all add: event_ok_def validated_before_def control_view_def)

lemma validation_failure_None [simp]: "validation_failure phase p v = None \<longleftrightarrow> v = Inr True"
  by (auto simp: validation_failure_def split: sum.splits)

lemma precheck_passed:
  "precheck env phase expected ps h = (None, h') \<Longrightarrow> \<forall>p \<in> set ps. rp_package_name p = expected"
  by (induction ps arbitrary: h) (auto simp: Let_def split: if_splits option.splits)

text \<open>What a policy over histories must satisfy to be enforced by the transactions.  It says which
  process may be frozen or, when its first argument is true, killed.\<close>

locale control_monitor =
  fixes allowed :: "bool \<Rightarrow> history \<Rightarrow> runtime_process \<Rightarrow> bool"
  assumes allowed_mono: "suffix h h' \<Longrightarrow> allowed lethal h p \<Longrightarrow> allowed lethal h' p"
    and allowed_view: "allowed lethal h p \<Longrightarrow> allowed lethal h (signal_control_process p)"
begin

lemma allowed_control_view: "allowed lethal h p \<Longrightarrow> allowed lethal h (control_view b p)"
  by (simp add: control_view_def allowed_view)

lemma allowed_step: "allowed lethal h p \<Longrightarrow> allowed lethal (e # h) p"
  by (rule allowed_mono [of h]) (simp add: suffix_ConsI)

lemma precheck_monitored: "monitored allowed h \<Longrightarrow> monitored allowed (snd (precheck env phase expected ps h))"
  by (induction ps arbitrary: h) (auto simp: Let_def split: option.splits)

lemma freeze_each_monitored:
  "monitored allowed h \<Longrightarrow> \<forall>p \<in> set ps. allowed False h p \<Longrightarrow>
   monitored allowed (snd (snd (freeze_each env b ps signaled h)))"
proof (induction ps arbitrary: signaled h)
  case (Cons p ps)
  show ?case
  proof (cases "ce_validate env h p = Inr True")
    case True
    let ?h1 = "E_Validate p (Inr True) # h"
    let ?r = "ce_freeze env ?h1 (control_view b p)"
    let ?h2 = "E_Freeze (control_view b p) ?r # ?h1"
    have "allowed False ?h1 (control_view b p)"
      using Cons.prems(2) by (simp add: allowed_step allowed_control_view)
    with Cons.prems(1) have m: "monitored allowed ?h2"
      by (rule monitored_validated(2))
    moreover have "\<forall>q \<in> set ps. allowed False ?h2 q"
      using Cons.prems(2) by (simp add: allowed_step)
    ultimately show ?thesis
      using Cons.IH [of ?h2 "signaled @ [p]"] True
      by (cases ?r) (simp_all add: Let_def del: monitored.simps(2))
  next
    case False
    then obtain m where "validation_failure [] p (ce_validate env h p) = Some m"
      using validation_failure_None by blast
    then show ?thesis using Cons.prems by (simp add: Let_def)
  qed
qed simp

lemma rollback_each_monitored:
  "monitored allowed h \<Longrightarrow> monitored allowed (snd (rollback_each env b ps n h))"
proof (induction ps arbitrary: n h)
  case Nil
  then show ?case by (cases n) simp
next
  case (Cons p ps)
  have "monitored allowed (E_Validate p r # h)" for r
    using Cons.prems by simp
  then show ?case
    using monitored_validated(1) [OF Cons.prems] Cons.IH
    by (cases n) (simp add: Let_def del: monitored.simps(2))
qed

lemma freeze_transaction_monitored:
  assumes "monitored allowed h"
    and "(\<forall>p \<in> set ps. rp_package_name p = first_package ps) \<longrightarrow> (\<forall>p \<in> set ps. allowed False h p)"
  shows "monitored allowed (snd (apply_freeze_transaction env b ps h))"
proof -
  obtain m h1 where 1: "precheck env [] (first_package ps) ps h = (m, h1)" by fastforce
  then have m1: "monitored allowed h1" and g1: "suffix h h1"
    using precheck_monitored [OF assms(1), of env "[]" "first_package ps" ps]
      precheck_grows [of h env "[]" "first_package ps" ps] by simp_all
  show ?thesis
  proof (cases m)
    case (Some x)
    then show ?thesis using m1 by (simp add: apply_freeze_transaction_def 1)
  next
    case None
    obtain sg f h2 where 2: "freeze_each env b ps [] h1 = (sg, f, h2)" by (metis prod_cases3)
    from 1 None have "\<forall>p \<in> set ps. allowed False h1 p"
      using precheck_passed assms(2) allowed_mono [OF g1] by blast
    then have m2: "monitored allowed h2"
      using freeze_each_monitored [OF m1, of ps env b "[]"] 2 by simp
    obtain n h3 where 3: "rollback_each env b (rev sg) (0, 0) h2 = (n, h3)" by fastforce
    then have "monitored allowed h3"
      using rollback_each_monitored [OF m2, of env b "rev sg" "(0, 0)"] by simp
    with m2 show ?thesis
      by (cases n) (simp add: apply_freeze_transaction_def 1 2 3 None split: option.splits)
  qed
qed

lemma ledger_allows_monitored:
  "monitored allowed h \<Longrightarrow> monitored allowed (snd (ledger_allows_promotion env ps h))"
  by (induction ps arbitrary: h)
    (auto simp: Let_def split: option.splits sum.splits signal_stop_ownership.splits)

lemma promotion_for_monitored:
  "monitored allowed h \<Longrightarrow> monitored allowed (snd (signal_stop_ledger_promotion_for env s i ps h))"
  by (simp add: signal_stop_ledger_promotion_for_def ledger_allows_monitored)

lemma promote_each_monitored:
  "monitored allowed h \<Longrightarrow> monitored allowed (snd (promote_each env ps a h))"
  by (induction ps arbitrary: a h)
    (auto simp: promote_signal_stop_for_control_def Let_def split: option.splits)

lemma signal_stop_transaction_monitored:
  assumes "monitored allowed h"
    and "(\<forall>p \<in> set ps. rp_package_name p = first_package ps) \<longrightarrow> (\<forall>p \<in> set ps. allowed False h p)"
  shows "monitored allowed (snd (apply_signal_stop_freeze_transaction env ps pr h))"
proof -
  obtain tr h1 where 1: "apply_freeze_transaction env True ps h = (tr, h1)" by fastforce
  then have "monitored allowed h1"
    using freeze_transaction_monitored [OF assms, of env True] by simp
  from promote_each_monitored [OF this, of env ps True] this show ?thesis
    by (auto simp: apply_signal_stop_freeze_transaction_def 1 split: prod.splits)
qed

lemma terminate_each_monitored:
  "monitored allowed h \<Longrightarrow> \<forall>p \<in> set ps. allowed True h p \<Longrightarrow>
   monitored allowed (snd (terminate_each env ps n h))"
proof (induction ps arbitrary: n h)
  case (Cons p ps)
  show ?case
  proof (cases "ce_validate env h p = Inr True")
    case True
    let ?h1 = "E_Validate p (Inr True) # h"
    let ?h2 = "E_Terminate p (ce_terminate env ?h1 p) # ?h1"
    have m: "monitored allowed ?h2"
      using Cons.prems by (intro monitored_validated(3)) (simp_all add: allowed_step)
    moreover have "\<forall>q \<in> set ps. allowed True ?h2 q"
      using Cons.prems(2) by (simp add: allowed_step)
    ultimately show ?thesis
      using Cons.IH [of ?h2 "n + 1"] True
      by (cases "ce_terminate env ?h1 p") (simp_all add: Let_def del: monitored.simps(2))
  next
    case False
    then obtain m where "validation_failure '' immediately before SIGKILL'' p (ce_validate env h p) = Some m"
      using validation_failure_None by blast
    then show ?thesis using Cons.prems by (simp add: Let_def)
  qed
qed simp

lemma terminate_transaction_monitored:
  assumes "monitored allowed h"
    and "(\<forall>p \<in> set ps. rp_package_name p = first_package ps) \<longrightarrow> (\<forall>p \<in> set ps. allowed True h p)"
  shows "monitored allowed (snd (apply_terminate_transaction env ps h))"
proof -
  obtain m h1 where 1: "precheck env '' before SIGKILL'' (first_package ps) ps h = (m, h1)" by fastforce
  then have m1: "monitored allowed h1" and g1: "suffix h h1"
    using precheck_monitored [OF assms(1), of env "'' before SIGKILL''" "first_package ps" ps]
      precheck_grows [of h env "'' before SIGKILL''" "first_package ps" ps] by simp_all
  show ?thesis
  proof (cases m)
    case (Some x)
    then show ?thesis using m1 by (simp add: apply_terminate_transaction_def 1)
  next
    case None
    with 1 have "\<forall>p \<in> set ps. allowed True h1 p"
      using precheck_passed assms(2) allowed_mono [OF g1] by blast
    then show ?thesis
      using terminate_each_monitored [OF m1] by (simp add: apply_terminate_transaction_def 1 None)
  qed
qed

lemma unfreeze_each_monitored:
  "monitored allowed h \<Longrightarrow> monitored allowed (snd (unfreeze_each env b ps oc h))"
proof (induction ps arbitrary: oc h)
  case (Cons p ps)
  show ?case
  proof (cases "ce_validate env h (control_view b p) = Inr True")
    case True
    have "monitored allowed (E_Unfreeze (control_view b p) r # E_Validate (control_view b p) (Inr True) # h)" for r
      using monitored_validated(1) [OF Cons.prems, of b "control_view b p"] by simp
    with Cons.IH True show ?thesis by (simp add: Let_def del: monitored.simps(2))
  next
    case False
    then obtain m where "validation_failure '' before unfreeze'' (control_view b p)
        (ce_validate env h (control_view b p)) = Some m"
      using validation_failure_None by blast
    then show ?thesis using Cons by (simp add: Let_def)
  qed
qed simp

lemma unfreeze_identity_monitored:
  "monitored allowed h \<Longrightarrow> monitored allowed (snd (unfreeze_identity_processes env pkg ps own h))"
  by (simp add: unfreeze_identity_processes_def unfreeze_each_monitored)

lemma thaw_each_monitored:
  "monitored allowed h \<Longrightarrow> monitored allowed (snd (snd (thaw_each env t reason ids failures s h)))"
proof (induction ids arbitrary: failures s h)
  case (Cons i ids)
  let ?name = "fallback_package_name (snd i)"
  let ?found = "ce_discover env h ?name (snd i)"
  let ?h1 = "E_Discover ?name (snd i) ?found # h"
  have m1: "monitored allowed ?h1" using Cons.prems by simp
  show ?case
  proof (cases ?found)
    case (Inl e)
    then show ?thesis using Cons.IH [OF m1] by (simp add: Let_def)
  next
    case (Inr ps)
    obtain oc h2 where u: "unfreeze_identity_processes env (fst i) ps (frozen_ownership_of i s) ?h1 = (oc, h2)"
      by fastforce
    with unfreeze_identity_monitored [OF m1, of env "fst i" ps "frozen_ownership_of i s"]
    have "monitored allowed h2" by simp
    with Cons.IH [OF m1] Cons.IH Inr u show ?thesis by (auto simp: Let_def)
  qed
qed simp

lemma thaw_identities_monitored:
  "monitored allowed h \<Longrightarrow> monitored allowed (snd (snd (thaw_frozen_identities env t reason ids s h)))"
  using thaw_each_monitored [of h env t reason ids "[]" s]
  by (auto simp: thaw_frozen_identities_def split: prod.splits)

lemma thaw_all_monitored:
  "monitored allowed h \<Longrightarrow> monitored allowed (snd (snd (thaw_all_frozen env t s h)))"
  using thaw_identities_monitored [of h env t "''control disabled''" "rc_frozen_apps s" s]
  by (auto simp: thaw_all_frozen_def Let_def split: prod.splits)

lemmas transactions_monitored =
  freeze_transaction_monitored signal_stop_transaction_monitored terminate_transaction_monitored
  unfreeze_identity_monitored thaw_identities_monitored promotion_for_monitored

end

subsection \<open>What a transaction leaves behind\<close>

lemma precheck_untouched:
  "held_pids (snd (precheck env phase expected ps h)) = held_pids h"
  "freeze_attempts (snd (precheck env phase expected ps h)) = freeze_attempts h"
  "killed_pids (snd (precheck env phase expected ps h)) = killed_pids h"
  by (induction ps arbitrary: h) (auto simp: Let_def split: option.splits)

lemma freeze_each_effect:
  "freeze_each env b ps signaled h = (signaled', f, h') \<Longrightarrow>
   \<exists>done rest. ps = done @ rest \<and> signaled' = signaled @ done \<and>
     held_pids h' = held_pids h \<union> rp_pid ` set done \<and> (f = None \<longrightarrow> rest = [])"
proof (induction ps arbitrary: signaled h)
  case Nil
  then show ?case by simp
next
  case (Cons p ps)
  show ?case
  proof (cases "ce_validate env h p = Inr True")
    case True
    let ?h1 = "E_Validate p (Inr True) # h"
    let ?r = "ce_freeze env ?h1 (control_view b p)"
    let ?h2 = "E_Freeze (control_view b p) ?r # ?h1"
    show ?thesis
    proof (cases ?r)
      case (Inl e)
      with Cons.prems True show ?thesis
        by (intro exI [of _ "[]"] exI [of _ "p # ps"]) (auto simp: Let_def)
    next
      case (Inr u)
      with Cons.prems True have "freeze_each env b ps (signaled @ [p]) ?h2 = (signaled', f, h')"
        by (simp add: Let_def)
      from Cons.IH [OF this] obtain dn rest where "ps = dn @ rest" "signaled' = (signaled @ [p]) @ dn"
          "held_pids h' = held_pids ?h2 \<union> rp_pid ` set dn" "f = None \<longrightarrow> rest = []" by blast
      with Inr show ?thesis
        by (intro exI [of _ "p # dn"] exI [of _ rest]) auto
    qed
  next
    case False
    then obtain m where "validation_failure [] p (ce_validate env h p) = Some m"
      using validation_failure_None by blast
    with Cons.prems have "f = Some m" "signaled' = signaled" "h' = E_Validate p (ce_validate env h p) # h"
      by (simp_all add: Let_def)
    then show ?thesis
      by (intro exI [of _ "[]"] exI [of _ "p # ps"]) simp
  qed
qed

text \<open>A rollback accounts for every process it was given; what it could not thaw is at most as many
  pids as it reports failures.\<close>

lemma rollback_each_effect:
  "rollback_each env b ps (r, f) h = ((r', f'), h') \<Longrightarrow>
   r' + f' = r + f + length ps \<and>
   (\<exists>left. finite left \<and> card left + f \<le> f' \<and> held_pids h' \<subseteq> (held_pids h - rp_pid ` set ps) \<union> left)"
proof (induction ps arbitrary: r f h)
  case Nil
  then have "r' = r" "f' = f" "h' = h" by simp_all
  then show ?case by (intro conjI exI [of _ "{}"]) simp_all
next
  case (Cons p ps)
  have fail: ?case
    if run: "rollback_each env b ps (r, f + 1) h1 = ((r', f'), h')" and h1: "held_pids h1 = held_pids h" for h1
  proof -
    from Cons.IH [OF run] obtain left where l: "finite left" "card left + (f + 1) \<le> f'"
        "held_pids h' \<subseteq> (held_pids h1 - rp_pid ` set ps) \<union> left"
      by (elim conjE exE)
    from Cons.IH [OF run] have n: "r' + f' = r + (f + 1) + length ps" by (rule conjunct1)
    have "card (insert (rp_pid p) left) \<le> Suc (card left)"
      using l(1) by (simp add: card_insert_if)
    then have "finite (insert (rp_pid p) left) \<and> card (insert (rp_pid p) left) + f \<le> f' \<and>
        held_pids h' \<subseteq> (held_pids h - rp_pid ` set (p # ps)) \<union> insert (rp_pid p) left"
      using l h1 by auto
    with n show ?thesis by (intro conjI) (simp, blast)
  qed
  show ?case
  proof (cases "ce_validate env h p = Inr True")
    case False
    then have "rollback_each env b ps (r, f + 1) (E_Validate p (ce_validate env h p) # h) = ((r', f'), h')"
      using Cons.prems by (simp add: Let_def)
    then show ?thesis by (rule fail) simp
  next
    case True
    let ?h1 = "E_Validate p (Inr True) # h"
    let ?u = "ce_unfreeze env ?h1 (control_view b p)"
    let ?h2 = "E_Unfreeze (control_view b p) ?u # ?h1"
    show ?thesis
    proof (cases "is_ok ?u")
      case False
      with Cons.prems True have "rollback_each env b ps (r, f + 1) ?h2 = ((r', f'), h')"
        by (simp add: Let_def)
      then show ?thesis by (rule fail) (simp add: False)
    next
      case ok: True
      with Cons.prems True have "rollback_each env b ps (r + 1, f) ?h2 = ((r', f'), h')"
        by (simp add: Let_def)
      note step = Cons.IH [OF this]
      from step obtain left where l: "finite left" "card left + f \<le> f'"
          "held_pids h' \<subseteq> (held_pids ?h2 - rp_pid ` set ps) \<union> left"
        by (elim conjE exE)
      from step have n: "r' + f' = (r + 1) + f + length ps" by (rule conjunct1)
      from ok have "held_pids ?h2 = held_pids h - {rp_pid p}" by simp
      with l(3) have "held_pids h' \<subseteq> (held_pids h - rp_pid ` set (p # ps)) \<union> left" by auto
      with l(1,2) n show ?thesis by (intro conjI) (simp, blast)
    qed
  qed
qed

lemma freeze_transaction_effect:
  assumes "apply_freeze_transaction env b ps h = (out, h')"
  shows "(ft_failure out = None \<longrightarrow>
      held_pids h' = held_pids h \<union> rp_pid ` set ps \<and> ft_applied out = length ps \<and>
      ft_rollback_failures out = 0) \<and>
    (ft_failure out \<noteq> None \<longrightarrow> ft_applied out = ft_rolled_back out + ft_rollback_failures out \<and>
      (\<exists>left. finite left \<and> card left \<le> ft_rollback_failures out \<and> held_pids h' \<subseteq> held_pids h \<union> left)) \<and>
    (ft_failure out \<noteq> None \<and> \<not> ft_residual_possible out \<longrightarrow> freeze_attempts h' = freeze_attempts h) \<and>
    ((\<exists>p \<in> set ps. rp_package_name p \<noteq> first_package ps) \<longrightarrow>
      ft_failure out \<noteq> None \<and> \<not> ft_residual_possible out)"
proof -
  obtain m h1 where 1: "precheck env [] (first_package ps) ps h = (m, h1)" by fastforce
  note pre = precheck_untouched [of env "[]" "first_package ps" ps h, unfolded 1 snd_conv]
  show ?thesis
  proof (cases m)
    case (Some x)
    with assms have "out = \<lparr>ft_applied = 0, ft_rolled_back = 0, ft_rollback_failures = 0,
        ft_residual_possible = False, ft_failure = Some x\<rparr>" "h' = h1"
      by (simp_all add: apply_freeze_transaction_def 1)
    moreover have "\<exists>left. finite left \<and> card left \<le> 0 \<and> held_pids h1 \<subseteq> held_pids h \<union> left"
      using pre(1) by (intro exI [of _ "{}"]) simp
    ultimately show ?thesis using pre(2) by simp
  next
    case None
    obtain sg f h2 where 2: "freeze_each env b ps [] h1 = (sg, f, h2)" by (metis prod_cases3)
    from freeze_each_effect [OF 2] obtain dn rest where d: "ps = dn @ rest" "sg = dn"
        "held_pids h2 = held_pids h1 \<union> rp_pid ` set dn" "f = None \<longrightarrow> rest = []" by auto
    have same: "\<forall>p \<in> set ps. rp_package_name p = first_package ps"
      by (rule precheck_passed [OF 1 [unfolded None]])
    show ?thesis
    proof (cases f)
      case None
      then have "apply_freeze_transaction env b ps h = (\<lparr>ft_applied = length sg, ft_rolled_back = 0,
          ft_rollback_failures = 0, ft_residual_possible = False, ft_failure = None\<rparr>, h2)"
        by (simp add: apply_freeze_transaction_def 1 2 \<open>m = None\<close>)
      with assms have out: "out = \<lparr>ft_applied = length sg, ft_rolled_back = 0,
          ft_rollback_failures = 0, ft_residual_possible = False, ft_failure = None\<rparr>" "h' = h2"
        by simp_all
      have "ps = dn" using d(1,4) None by simp
      with d(2,3) pre(1) same show ?thesis by (simp add: out)
    next
      case (Some x)
      obtain rb fl h3 where 3: "rollback_each env b (rev sg) (0, 0) h2 = ((rb, fl), h3)" by (metis prod.exhaust)
      then have "apply_freeze_transaction env b ps h = (\<lparr>ft_applied = length sg, ft_rolled_back = rb,
          ft_rollback_failures = fl, ft_residual_possible = True, ft_failure = Some x\<rparr>, h3)"
        by (simp add: apply_freeze_transaction_def 1 2 Some \<open>m = None\<close>)
      with assms have out: "out = \<lparr>ft_applied = length sg, ft_rolled_back = rb,
          ft_rollback_failures = fl, ft_residual_possible = True, ft_failure = Some x\<rparr>" "h' = h3"
        by simp_all
      from rollback_each_effect [OF 3] obtain left where l: "rb + fl = length sg" "finite left"
          "card left \<le> fl" "held_pids h3 \<subseteq> (held_pids h2 - rp_pid ` set (rev sg)) \<union> left" by auto
      have "held_pids h3 \<subseteq> held_pids h \<union> left"
        using l(4) d(2,3) pre(1) by auto
      with l(1-3) same show ?thesis by (auto simp: out)
    qed
  qed
qed

text \<open>
  C9.  Freezing an application is all or nothing.  A transaction that reports no failure has frozen
  every process; one that fails has thawed again whatever it froze, except for at most as many
  processes as it reports rollback failures, and accounts for every process it touched; when it says
  that nothing can be left over it never tried to freeze anything, and processes of different
  packages under one uid are always refused that way.
\<close>

theorem freeze_transaction_atomic:
  assumes "apply_freeze_transaction env by_signal processes h = (out, h')"
  shows "(ft_failure out = None \<longrightarrow>
      held_pids h' = held_pids h \<union> rp_pid ` set processes \<and> ft_applied out = length processes) \<and>
    (ft_failure out \<noteq> None \<longrightarrow> ft_applied out = ft_rolled_back out + ft_rollback_failures out \<and>
      (\<exists>left. finite left \<and> card left \<le> ft_rollback_failures out \<and> held_pids h' \<subseteq> held_pids h \<union> left)) \<and>
    (ft_failure out \<noteq> None \<and> \<not> ft_residual_possible out \<longrightarrow> freeze_attempts h' = freeze_attempts h) \<and>
    ((\<exists>p \<in> set processes. rp_package_name p \<noteq> first_package processes) \<longrightarrow>
      ft_failure out \<noteq> None \<and> \<not> ft_residual_possible out)"
  using freeze_transaction_effect [OF assms] by blast

definition demo_process :: "i32 \<Rightarrow> runtime_process" where
  "demo_process pid =
    \<lparr>rp_pid = pid, rp_uid = 10123, rp_package_name = ''com.example.app'',
     rp_process_name = ''com.example.app'', rp_proc_state = PS_Cached, rp_control_state = CT_Running,
     rp_cgroup_freeze_path = Some ''/sys/fs/cgroup/uid_10123/cgroup.freeze'', rp_binder_state = None,
     rp_start_time_ticks = Some 77, rp_last_seen_at_ms = 0\<rparr>"

text \<open>An environment where every call succeeds, except that the process with the given pid cannot be
  frozen.\<close>

definition demo_env :: "i32 \<Rightarrow> control_env" where
  "demo_env stubborn =
    \<lparr>ce_discover = (\<lambda>_ _ _. Inr [demo_process 4242, demo_process 4243]),
     ce_validate = (\<lambda>_ _. Inr True),
     ce_freeze = (\<lambda>_ p. if rp_pid p = stubborn then Inl (System_Error ''no'') else Inr ()),
     ce_unfreeze = (\<lambda>_ _. Inr ()), ce_terminate = (\<lambda>_ _. Inr ()), ce_sample = (\<lambda>_ _ _. Inr None),
     ce_ledger = (\<lambda>_ _ _. Inr None), ce_promote = (\<lambda>_ _ _. Inr True), ce_binder = (\<lambda>_. True)\<rparr>"

theorem freeze_transaction_atomic_witness:
  "held_pids (snd (apply_freeze_transaction (demo_env 4243) False
     [demo_process 4242, demo_process 4243] [])) = {}"
proof -
  let ?r = "apply_freeze_transaction (demo_env 4243) False [demo_process 4242, demo_process 4243] []"
  have f: "ft_failure (fst ?r) \<noteq> None" "ft_rollback_failures (fst ?r) = 0"
    by code_simp+
  have "?r = (fst ?r, snd ?r)" by simp
  from freeze_transaction_atomic [OF this] f show ?thesis
    by (metis Un_empty_right card_0_eq held_pids.simps(1) le_zero_eq subset_empty sup_bot.left_neutral)
qed

lemma terminate_each_effect:
  "terminate_each env ps n h = (out, h') \<Longrightarrow>
   \<exists>k \<le> length ps. tt_applied out = n + k \<and>
     killed_pids h' = killed_pids h \<union> rp_pid ` set (take k ps) \<and> (tt_failure out = None \<longrightarrow> k = length ps)"
proof (induction ps arbitrary: n h)
  case Nil
  then show ?case by auto
next
  case (Cons p ps)
  show ?case
  proof (cases "ce_validate env h p = Inr True")
    case True
    let ?h1 = "E_Validate p (Inr True) # h"
    let ?h2 = "E_Terminate p (ce_terminate env ?h1 p) # ?h1"
    show ?thesis
    proof (cases "ce_terminate env ?h1 p")
      case (Inl e)
      with Cons.prems True have "tt_failure out \<noteq> None" "tt_applied out = n" "h' = ?h2"
        by (auto simp: Let_def)
      with Inl show ?thesis by (intro exI [of _ 0]) simp
    next
      case (Inr u)
      with Cons.prems True have "terminate_each env ps (n + 1) ?h2 = (out, h')"
        by (simp add: Let_def)
      from Cons.IH [OF this] obtain k where "k \<le> length ps" "tt_applied out = n + 1 + k"
          "killed_pids h' = killed_pids ?h2 \<union> rp_pid ` set (take k ps)"
          "tt_failure out = None \<longrightarrow> k = length ps" by (elim exE conjE)
      with Inr show ?thesis by (intro exI [of _ "Suc k"]) simp
    qed
  next
    case False
    then obtain m where "validation_failure '' immediately before SIGKILL'' p (ce_validate env h p) = Some m"
      using validation_failure_None by blast
    with Cons.prems have "tt_failure out \<noteq> None" "tt_applied out = n"
        "h' = E_Validate p (ce_validate env h p) # h"
      by (auto simp: Let_def)
    then show ?thesis by (intro exI [of _ 0]) simp
  qed
qed

text \<open>
  Termination reports exactly what it did: the processes killed are the first
  \<^verbatim>\<open>applied\<close> ones in order, all of them precisely when no failure is reported, and
  none when the processes belong to different packages.
\<close>

lemma terminate_transaction_exact:
  assumes "apply_terminate_transaction env processes h = (out, h')"
  shows "killed_pids h' = killed_pids h \<union> rp_pid ` set (take (tt_applied out) processes) \<and>
    tt_applied out \<le> length processes \<and>
    (tt_failure out = None \<longrightarrow> tt_applied out = length processes) \<and>
    ((\<exists>p \<in> set processes. rp_package_name p \<noteq> first_package processes) \<longrightarrow>
      tt_failure out \<noteq> None \<and> tt_applied out = 0)"
proof -
  obtain m h1 where 1: "precheck env '' before SIGKILL'' (first_package processes) processes h = (m, h1)"
    by fastforce
  note pre = precheck_untouched(3) [of env "'' before SIGKILL''" "first_package processes" processes h,
      unfolded 1 snd_conv]
  show ?thesis
  proof (cases m)
    case (Some x)
    then have "apply_terminate_transaction env processes h = (\<lparr>tt_applied = 0, tt_failure = Some x\<rparr>, h1)"
      by (simp add: apply_terminate_transaction_def 1)
    with assms have "out = \<lparr>tt_applied = 0, tt_failure = Some x\<rparr>" "h' = h1" by simp_all
    with pre show ?thesis by simp
  next
    case None
    then have "apply_terminate_transaction env processes h = terminate_each env processes 0 h1"
      by (simp add: apply_terminate_transaction_def 1)
    with assms have "terminate_each env processes 0 h1 = (out, h')" by simp
    from terminate_each_effect [OF this] obtain k where k: "k \<le> length processes" "tt_applied out = 0 + k"
        "killed_pids h' = killed_pids h1 \<union> rp_pid ` set (take k processes)"
        "tt_failure out = None \<longrightarrow> k = length processes" by (elim exE conjE)
    have "\<forall>p \<in> set processes. rp_package_name p = first_package processes"
      by (rule precheck_passed [OF 1 [unfolded None]])
    with k pre show ?thesis by simp
  qed
qed

lemma terminate_transaction_exact_witness:
  "killed_pids (snd (apply_terminate_transaction (demo_env 0)
     [demo_process 4242, demo_process 4243] [])) = {4242, 4243}"
proof -
  let ?r = "apply_terminate_transaction (demo_env 0) [demo_process 4242, demo_process 4243] []"
  have f: "tt_applied (fst ?r) = 2"
    by code_simp
  have "?r = (fst ?r, snd ?r)" by simp
  from terminate_transaction_exact [OF this] f show ?thesis
    by (auto simp: demo_process_def)
qed

subsection \<open>What a thaw leaves behind\<close>

lemma unfreeze_each_effect:
  "unfreeze_each env b ps oc h = (oc', h') \<Longrightarrow>
   uo_applied oc' + length (uo_failures oc') = uo_applied oc + length (uo_failures oc) + length ps \<and>
   length (uo_failures oc) \<le> length (uo_failures oc') \<and>
   held_pids h' \<subseteq> held_pids h \<and>
   (uo_failures oc' = [] \<longrightarrow> held_pids h' = held_pids h - rp_pid ` set ps)"
proof (induction ps arbitrary: oc h)
  case Nil
  then show ?case by simp
next
  case (Cons p ps)
  let ?t = "control_view b p"
  show ?case
  proof (cases "ce_validate env h ?t = Inr True")
    case True
    let ?h1 = "E_Validate ?t (Inr True) # h"
    let ?r = "ce_unfreeze env ?h1 ?t"
    let ?h2 = "E_Unfreeze ?t ?r # ?h1"
    show ?thesis
    proof (cases ?r)
      case (Inl e)
      from Cons.prems True Inl have run: "unfreeze_each env b ps (oc\<lparr>uo_failures := uo_failures oc @
          [''unfreeze failed for pid '' @ show_int (rp_pid ?t) @ '': '' @ show_error e]\<rparr>) ?h2 = (oc', h')"
        by (simp add: Let_def)
      show ?thesis using Cons.IH [OF run] Inl by auto
    next
      case (Inr u)
      from Cons.prems True Inr have run: "unfreeze_each env b ps
          (oc\<lparr>uo_applied := uo_applied oc + 1\<rparr>) ?h2 = (oc', h')"
        by (simp add: Let_def)
      show ?thesis using Cons.IH [OF run] Inr by auto
    qed
  next
    case False
    then obtain m where m: "validation_failure '' before unfreeze'' ?t (ce_validate env h ?t) = Some m"
      using validation_failure_None by blast
    with Cons.prems have run: "unfreeze_each env b ps (oc\<lparr>uo_failures := uo_failures oc @ [m]\<rparr>)
        (E_Validate ?t (ce_validate env h ?t) # h) = (oc', h')"
      by (simp add: Let_def)
    show ?thesis using Cons.IH [OF run] by auto
  qed
qed

lemma unfreeze_identity_effect:
  assumes "unfreeze_identity_processes env pkg ps own h = (oc, h')"
  shows "held_pids h' \<subseteq> held_pids h \<and>
    (uo_failures oc = [] \<longrightarrow> held_pids h' = held_pids h - rp_pid ` set ps \<and> uo_applied oc = length ps)"
proof (cases "list_ex (\<lambda>p. rp_package_name p \<noteq> pkg) ps")
  case True
  with assms show ?thesis by (auto simp: unfreeze_identity_processes_def)
next
  case False
  with assms have "unfreeze_each env (own = FO_SignalOnly) ps \<lparr>uo_applied = 0, uo_failures = []\<rparr> h = (oc, h')"
    by (simp add: unfreeze_identity_processes_def)
  from unfreeze_each_effect [OF this] show ?thesis by auto
qed

lemma clear_detached_ok [wf_intros]: "control_state_ok s \<Longrightarrow> control_state_ok (clear_detached P s)"
proof -
  have "control_state_ok s \<Longrightarrow> control_state_ok (fold clear_detached_ownership ids s)" for ids
    by (induction ids arbitrary: s) (auto intro: wf_intros)
  then show "control_state_ok s \<Longrightarrow> control_state_ok (clear_detached P s)"
    by (simp add: clear_detached_def)
qed

lemma thaw_each_ok:
  "control_state_ok s \<Longrightarrow> control_state_ok (fst (snd (thaw_each env t reason ids failures s h)))"
proof (induction ids arbitrary: failures s h)
  case (Cons i ids)
  let ?name = "fallback_package_name (snd i)"
  let ?found = "ce_discover env h ?name (snd i)"
  let ?h1 = "E_Discover ?name (snd i) ?found # h"
  show ?case
  proof (cases ?found)
    case (Inl e)
    then show ?thesis using Cons.IH [OF log_operation_ok [OF Cons.prems]] by (simp add: Let_def)
  next
    case (Inr ps)
    obtain oc h2 where u: "unfreeze_identity_processes env (fst i) ps (frozen_ownership_of i s) ?h1 = (oc, h2)"
      by fastforce
    have ok: "control_state_ok (log_operation t op (if b then clear_frozen i s else s))"
      "control_state_ok (clear_frozen i s)" for op b
      using Cons.prems by (auto intro: wf_intros)
    show ?thesis
      using Cons.IH ok Inr u by (auto simp: Let_def)
  qed
qed simp

lemma thaw_identities_ok [wf_intros]:
  "control_state_ok s \<Longrightarrow> control_state_ok (fst (snd (thaw_frozen_identities env t reason ids s h)))"
  using thaw_each_ok [of s env t reason ids "[]" h]
  by (auto simp: thaw_frozen_identities_def split: prod.splits)

subsection \<open>A successful thaw releases everything\<close>

definition discoveries :: "history \<Rightarrow> ctl_event set" where
  "discoveries h = {e \<in> set h. case e of E_Discover _ _ _ \<Rightarrow> True | _ \<Rightarrow> False}"

lemma discoveries_Cons [simp]:
  "discoveries (e # h) = (case e of E_Discover _ _ _ \<Rightarrow> insert e (discoveries h) | _ \<Rightarrow> discoveries h)"
  by (auto simp: discoveries_def split: ctl_event.splits)

lemma unfreeze_each_discoveries [simp]: "discoveries (snd (unfreeze_each env b ps oc h)) = discoveries h"
  by (induction ps arbitrary: oc h) (auto simp: Let_def split: option.splits)

lemma unfreeze_identity_discoveries [simp]:
  "discoveries (snd (unfreeze_identity_processes env pkg ps own h)) = discoveries h"
  by (simp add: unfreeze_identity_processes_def)

definition released :: "history \<Rightarrow> history \<Rightarrow> bool" where
  "released h h' \<longleftrightarrow> held_pids h' \<subseteq> held_pids h \<and>
     (\<forall>n u ps. E_Discover n u (Inr ps) \<in> discoveries h' \<longrightarrow>
        E_Discover n u (Inr ps) \<in> discoveries h \<or> rp_pid ` set ps \<inter> held_pids h' = {})"

lemma released_trans: "released h h1 \<Longrightarrow> released h1 h2 \<Longrightarrow> released h h2"
  unfolding released_def by blast

lemma clear_frozen_apps [simp]: "set (rc_frozen_apps (clear_frozen i s)) = set (rc_frozen_apps s) - {i}"
  by (simp add: clear_frozen_def)

lemma log_operation_apps [simp]: "rc_frozen_apps (log_operation t op s) = rc_frozen_apps s"
  by (simp add: log_operation_def)

lemma thaw_each_failures: "length failures \<le> length (fst (thaw_each env t reason ids failures s h))"
proof (induction ids arbitrary: failures s h)
  case (Cons i ids)
  let ?name = "fallback_package_name (snd i)"
  let ?found = "ce_discover env h ?name (snd i)"
  show ?case
  proof (cases ?found)
    case (Inl e)
    then show ?thesis
      by (simp add: Let_def) (rule order.trans [OF _ Cons.IH], simp)
  next
    case (Inr ps)
    obtain oc h2 where u: "unfreeze_identity_processes env (fst i) ps (frozen_ownership_of i s)
        (E_Discover ?name (snd i) ?found # h) = (oc, h2)" by fastforce
    have "length failures \<le> length (failures @ uo_failures oc)" by simp
    then show ?thesis
      using Cons.IH Inr u by (auto simp: Let_def intro: order.trans [OF _ Cons.IH])
  qed
qed simp

lemma thaw_each_clean:
  "thaw_each env t reason ids [] s h = ([], s', h') \<Longrightarrow>
   set (rc_frozen_apps s') = set (rc_frozen_apps s) - set ids \<and> released h h'"
proof (induction ids arbitrary: s h)
  case Nil
  then show ?case by (simp add: released_def)
next
  case (Cons i ids)
  let ?name = "fallback_package_name (snd i)"
  let ?found = "ce_discover env h ?name (snd i)"
  let ?h1 = "E_Discover ?name (snd i) ?found # h"
  have nonempty: "x = []" if "thaw_each env t reason ids x s1 h1 = ([], s', h')" for x s1 h1
    using thaw_each_failures [of x env t reason ids s1 h1] that by simp
  show ?case
  proof (cases ?found)
    case (Inl e)
    with Cons.prems show ?thesis by (auto simp: Let_def dest: nonempty)
  next
    case (Inr ps)
    show ?thesis
    proof (cases "ps = []")
      case True
      with Cons.prems Inr have "thaw_each env t reason ids [] (clear_frozen i s) ?h1 = ([], s', h')"
        by (simp add: Let_def)
      note step = Cons.IH [OF this]
      have "released h ?h1" using Inr True by (simp add: released_def)
      with step released_trans [of h ?h1 h'] show ?thesis by auto
    next
      case False
      obtain oc h2 where u: "unfreeze_identity_processes env (fst i) ps (frozen_ownership_of i s) ?h1 = (oc, h2)"
        by fastforce
      define op where "op = new_operation i (map rp_pid ps) CA_Unfreeze
          (unfreeze_backend (frozen_ownership_of i s) ps)
          (if uo_failures oc = [] then reason else reason @ ''; '' @ str_join ''; '' (uo_failures oc))
          (unfreeze_result oc) (operation_details ps)"
      have run: "thaw_each env t reason ids ([] @ uo_failures oc)
          (log_operation t op (if uo_failures oc = [] then clear_frozen i s else s)) h2 = ([], s', h')"
        using Cons.prems Inr False u by (simp add: Let_def op_def)
      from nonempty [OF run] have ok: "uo_failures oc = []" by simp
      with run have "thaw_each env t reason ids [] (log_operation t op (clear_frozen i s)) h2 = ([], s', h')"
        by simp
      note step = Cons.IH [OF this]
      have held: "held_pids h2 = held_pids ?h1 - rp_pid ` set ps"
        using unfreeze_identity_effect [OF u] ok by blast
      have "discoveries h2 = discoveries ?h1"
        using unfreeze_identity_discoveries [of env "fst i" ps "frozen_ownership_of i s" ?h1] by (simp add: u)
      with held Inr have "released h h2" by (auto simp: released_def)
      with step released_trans [of h h2 h'] show ?thesis by auto
    qed
  qed
qed

text \<open>
  C23.  When control is switched off and the thaw reports success, nothing stays behind: no
  application is tracked as frozen or has an ownership record, nothing is pending or blocked, no
  process found on the way is still held, and the thaw itself froze nothing.
\<close>

theorem thaw_all_releases:
  assumes "thaw_all_frozen env t s h = (Inr (), s', h')" and "control_state_ok s"
  shows "rc_frozen_apps s' = [] \<and> rc_frozen_ownership s' = [] \<and> rc_pending_freezes s' = [] \<and>
    rc_network_restriction_requests s' = [] \<and> control_state_ok s' \<and> held_pids h' \<subseteq> held_pids h \<and>
    (\<forall>n u ps. E_Discover n u (Inr ps) \<in> set h' \<longrightarrow>
       E_Discover n u (Inr ps) \<in> set h \<or> rp_pid ` set ps \<inter> held_pids h' = {})"
proof -
  obtain fs s1 h1 where 1: "thaw_each env t ''control disabled'' (rc_frozen_apps s) [] s h = (fs, s1, h1)"
    by (metis prod_cases3)
  have fs: "fs = []" and h1: "h1 = h'" and s': "s' = (clear_detached (\<lambda>_. True) s1)
      \<lparr>rc_pending_freezes := [], rc_network_restriction_requests := [],
       rc_blocked_process_signatures := [], rc_download_deferral := []\<rparr>"
    using assms(1) by (auto simp: thaw_all_frozen_def thaw_frozen_identities_def 1 Let_def split: if_splits)
  have step: "set (rc_frozen_apps s1) = {} \<and> released h h1"
    using thaw_each_clean [of env t "''control disabled''" "rc_frozen_apps s" s h s1 h1] 1 fs by simp
  have ok1: "control_state_ok s1"
    using thaw_each_ok [OF assms(2), of env t "''control disabled''" "rc_frozen_apps s" "[]" h] by (simp add: 1)
  have clear: "rc_frozen_apps (fold clear_detached_ownership ids x) = rc_frozen_apps x \<and>
      rc_frozen_ownership (fold clear_detached_ownership ids x) = fold bt_remove ids (rc_frozen_ownership x)"
    if "rc_frozen_apps x = []" for ids x
    using that by (induction ids arbitrary: x) (simp_all add: clear_detached_ownership_def)
  have "rc_frozen_apps s1 = []" using step by simp
  then have "rc_frozen_apps s' = []"
    and own: "rc_frozen_ownership s' = fold bt_remove (bt_keys (rc_frozen_ownership s1)) (rc_frozen_ownership s1)"
    using clear by (simp_all add: s' clear_detached_def detached_ownership_def)
  have "bt_get (rc_frozen_ownership s') = Map.empty"
    unfolding own by (rule ext) (auto simp: bt.get_fold_del)
  then have "rc_frozen_ownership s' = []"
    by (metis empty_iff map_of_eq_empty_iff)
  moreover have "control_state_ok s'"
    using clear_detached_ok [OF ok1, of "\<lambda>_. True"] by (simp add: s' control_state_ok_defs)
  ultimately show ?thesis
    using \<open>rc_frozen_apps s' = []\<close> step h1
    by (auto simp: s' released_def discoveries_def)
qed

theorem thaw_all_releases_witness:
  "held_pids (snd (snd (thaw_all_frozen (demo_env 0) 9000
      (track_frozen (''com.example.app'', 10123) 5000 FO_CgroupBinder default_control_state)
      [E_Freeze (demo_process 4242) (Inr ())]))) = {}"
proof -
  let ?s = "track_frozen (''com.example.app'', 10123) 5000 FO_CgroupBinder default_control_state"
  let ?h = "[E_Freeze (demo_process 4242) (Inr ())]"
  let ?r = "thaw_all_frozen (demo_env 0) 9000 ?s ?h"
  have f: "fst ?r = Inr ()" and d: "E_Discover ''uid10123'' 10123 (Inr [demo_process 4242, demo_process 4243])
      \<in> set (snd (snd ?r))"
    by code_simp+
  have r: "?r = (Inr (), fst (snd ?r), snd (snd ?r))"
    using f by (metis prod.collapse)
  have ok: "control_state_ok ?s" by (intro track_frozen_ok control_state_ok_default)
  note all = thaw_all_releases [OF r ok]
  have "E_Discover ''uid10123'' 10123 (Inr [demo_process 4242, demo_process 4243]) \<notin> set ?h" by simp
  with all d have gone: "rp_pid ` set [demo_process 4242, demo_process 4243] \<inter> held_pids (snd (snd ?r)) = {}"
    by blast
  from all have sub: "held_pids (snd (snd ?r)) \<subseteq> held_pids ?h" by blast
  have "held_pids ?h \<subseteq> rp_pid ` set [demo_process 4242, demo_process 4243]" by simp
  with sub gone show ?thesis by blast
qed

subsection \<open>When a stop may later be undone by the ledger alone\<close>

lemma ledger_allows_all:
  "ledger_allows_promotion env ps h = (LP_AfterCompletedDirectTransaction, h') \<Longrightarrow>
   \<forall>p \<in> set ps. \<exists>t r. rp_start_time_ticks p = Some t \<and> E_Ledger (rp_pid p) t r \<in> set h' \<and>
     (r = Inr None \<or> r = Inr (Some SO_SignalOnly))"
proof (induction ps arbitrary: h)
  case (Cons p ps)
  from Cons.prems obtain t where t: "rp_start_time_ticks p = Some t"
    by (auto split: option.splits)
  let ?r = "ce_ledger env h (rp_pid p) t"
  let ?h1 = "E_Ledger (rp_pid p) t ?r # h"
  from Cons.prems t have r: "?r = Inr None \<or> ?r = Inr (Some SO_SignalOnly)"
    and run: "ledger_allows_promotion env ps ?h1 = (LP_AfterCompletedDirectTransaction, h')"
    by (auto simp: Let_def split: sum.splits option.splits signal_stop_ownership.splits)
  have "suffix ?h1 h'"
    using ledger_allows_grows [of ?h1 env ps] by (simp add: run)
  then have "E_Ledger (rp_pid p) t ?r \<in> set h'"
    by (auto simp: suffix_def)
  with Cons.IH [OF run] t r show ?case by auto
qed simp

lemma promote_each_all:
  "promote_each env ps all h = (True, h') \<Longrightarrow>
   all \<and> (\<forall>p \<in> set ps. \<exists>t. rp_start_time_ticks p = Some t \<and> E_Promote (rp_pid p) t (Inr True) \<in> set h')"
proof (induction ps arbitrary: all h)
  case (Cons p ps)
  obtain r h1 where p: "promote_signal_stop_for_control env p h = (r, h1)" by fastforce
  with Cons.prems have run: "promote_each env ps (all \<and> r = Inr True) h1 = (True, h')" by simp
  note step = Cons.IH [OF run]
  then have r: "r = Inr True" by blast
  with p obtain t where t: "rp_start_time_ticks p = Some t" "h1 = E_Promote (rp_pid p) t (Inr True) # h"
    by (auto simp: promote_signal_stop_for_control_def Let_def split: option.splits)
  have "suffix h1 h'" using promote_each_grows [of h1 env ps "all \<and> r = Inr True"] by (simp add: run)
  then have "E_Promote (rp_pid p) t (Inr True) \<in> set h'" by (auto simp: t suffix_def)
  with step t show ?case by auto
qed simp

lemma promote_each_held [simp]: "held_pids (snd (promote_each env ps all h)) = held_pids h"
  by (induction ps arbitrary: all h)
    (auto simp: promote_signal_stop_for_control_def Let_def split: option.splits)

lemma ledger_allows_held [simp]: "held_pids (snd (ledger_allows_promotion env ps h)) = held_pids h"
  by (induction ps arbitrary: h)
    (auto simp: Let_def split: option.splits sum.splits signal_stop_ownership.splits)

text \<open>
  C24.  An application is recorded as stopped by signal only, so that after a restart a lone
  \<^verbatim>\<open>SIGCONT\<close> may resume it, only when that is certain: it had no unresolved freeze of
  another origin, the ledger held no record of unknown origin for any of its processes, the whole
  transaction succeeded, and the promotion of every single process was written.
\<close>

theorem signal_only_is_earned:
  assumes "signal_stop_ledger_promotion_for env s identity processes h = (promotion, h1)"
    and "apply_signal_stop_freeze_transaction env processes promotion h1 = (out, h')"
    and "outcome_ownership out = FO_SignalOnly"
  shows "\<not> has_unresolved_freeze_ownership identity s \<and> ft_failure (so_transaction out) = None \<and>
    rp_pid ` set processes \<subseteq> held_pids h' \<and>
    (\<forall>p \<in> set processes. \<exists>t r. rp_start_time_ticks p = Some t \<and>
       E_Ledger (rp_pid p) t r \<in> set h' \<and> (r = Inr None \<or> r = Inr (Some SO_SignalOnly)) \<and>
       E_Promote (rp_pid p) t (Inr True) \<in> set h')"
proof -
  obtain tr h2 where tr: "apply_freeze_transaction env True processes h1 = (tr, h2)" by fastforce
  obtain all h3 where pr: "promote_each env processes True h2 = (all, h3)" by fastforce
  have all: "ft_failure tr = None" "promotion = LP_AfterCompletedDirectTransaction" "all"
      "so_transaction out = tr" "h' = h3"
    using assms(2,3)
    by (auto simp: apply_signal_stop_freeze_transaction_def tr pr outcome_ownership_def split: if_splits)
  have un: "\<not> has_unresolved_freeze_ownership identity s"
    and led: "ledger_allows_promotion env processes h = (LP_AfterCompletedDirectTransaction, h1)"
    using assms(1) all(2) by (auto simp: signal_stop_ledger_promotion_for_def split: if_splits)
  have h13: "suffix h1 h'"
    using freeze_transaction_grows [of h1 env True processes] promote_each_grows [of h2 env processes True]
    by (auto simp: tr pr all(5) intro: suffix_order.trans)
  have held: "rp_pid ` set processes \<subseteq> held_pids h'"
    using freeze_transaction_effect [OF tr] all(1) promote_each_held [of env processes True h2]
    by (simp add: pr all(5))
  have P: "\<forall>p \<in> set processes. \<exists>t. rp_start_time_ticks p = Some t \<and> E_Promote (rp_pid p) t (Inr True) \<in> set h'"
    using promote_each_all [of env processes True h2 h3] pr all(3,5) by simp
  have L: "\<forall>p \<in> set processes. \<exists>t r. rp_start_time_ticks p = Some t \<and> E_Ledger (rp_pid p) t r \<in> set h' \<and>
      (r = Inr None \<or> r = Inr (Some SO_SignalOnly))"
    using ledger_allows_all [OF led] h13 by (fastforce simp: suffix_def)
  show ?thesis
    using un all(1,4) held P L by (metis option.inject)
qed

theorem signal_only_is_earned_witness:
  "E_Promote 4242 77 (Inr True) \<in> set (snd (apply_signal_stop_freeze_transaction (demo_env 0)
     [demo_process 4242] LP_AfterCompletedDirectTransaction
     (snd (signal_stop_ledger_promotion_for (demo_env 0) default_control_state
        (''com.example.app'', 10123) [demo_process 4242] []))))"
proof -
  let ?l = "signal_stop_ledger_promotion_for (demo_env 0) default_control_state
      (''com.example.app'', 10123) [demo_process 4242] []"
  let ?r = "apply_signal_stop_freeze_transaction (demo_env 0) [demo_process 4242]
      LP_AfterCompletedDirectTransaction (snd ?l)"
  have l: "?l = (LP_AfterCompletedDirectTransaction, snd ?l)"
    by (rule prod_eqI) (code_simp, simp)
  have o': "outcome_ownership (fst ?r) = FO_SignalOnly" by code_simp
  have "?r = (fst ?r, snd ?r)" by simp
  from signal_only_is_earned [OF l this o'] show ?thesis
    by (auto simp: demo_process_def)
qed

end
