(* ===== verification/Actuators.thy ===== *)
theory Actuators
  imports Transactions Stop_Ledger
begin

text \<open>
  The calls with which the daemon freezes and thaws one process (\<^verbatim>\<open>freeze_process\<close>,
  \<^verbatim>\<open>unfreeze_process\<close> and \<^verbatim>\<open>run_unfreeze_sequence\<close> of
  \<^verbatim>\<open>sys/socket.rs\<close>), down to the ioctl, the file write and the signal, which are
  recorded newest first.  The answers of the kernel may depend on everything recorded.
\<close>

subsection \<open>The kernel\<close>

datatype kernel_event =
    K_Binder u32 binder_freeze_request "unit res"
  | K_Cgroup string freeze_state "unit res"
  | K_Signal i32 signal_action "unit res"
  | K_Validate runtime_process "bool res"

record kernel =
  kn_events :: "kernel_event list"
  kn_disk :: disk

record kernel_env =
  ke_device :: "kernel_event list \<Rightarrow> string option"
  ke_open :: "kernel_event list \<Rightarrow> string \<Rightarrow> os_error + nat"
  ke_ioctl :: "kernel_event list \<Rightarrow> nat \<Rightarrow> u64 \<Rightarrow> binder_freeze_info \<Rightarrow> os_error + unit"
  ke_write :: "kernel_event list \<Rightarrow> string \<Rightarrow> string \<Rightarrow> io_error option"
  ke_signals :: "kernel_event list \<Rightarrow> signal_env"

text \<open>The kinds the standard library gives to the error numbers the daemon distinguishes.\<close>

definition io_kind_of_errno :: "i32 option \<Rightarrow> io_kind" where
  "io_kind_of_errno n =
     (if n = Some 1 \<or> n = Some 13 then PermissionDenied else if n = Some 2 then NotFound
      else if n = Some 4 then Interrupted else if n = Some 11 then WouldBlock
      else if n = Some 110 then TimedOut else OtherIo)"

definition io_error_of_os :: "os_error \<Rightarrow> io_error" where
  "io_error_of_os e = \<lparr>io_kind = io_kind_of_errno (oe_errno e), io_message = oe_text e\<rparr>"

definition kernel_event :: "kernel_event \<Rightarrow> kernel \<Rightarrow> kernel" where
  "kernel_event e k = k\<lparr>kn_events := e # kn_events k\<rparr>"

definition binder_set ::
  "kernel_env \<Rightarrow> string \<Rightarrow> u32 \<Rightarrow> binder_freeze_request \<Rightarrow> kernel \<Rightarrow> unit res \<times> kernel" where
  "binder_set ke device pid request k =
     (let r = (case set_binder_freeze (ke_open ke (kn_events k)) (ke_ioctl ke (kn_events k)) device pid request 0 of
                 Inl e \<Rightarrow> Inl (Io_Error (io_error_of_os e)) | Inr u \<Rightarrow> Inr u)
      in (r, kernel_event (K_Binder pid request r) k))"

definition cgroup_set :: "kernel_env \<Rightarrow> string \<Rightarrow> freeze_state \<Rightarrow> kernel \<Rightarrow> unit res \<times> kernel" where
  "cgroup_set ke path state k =
     (let r = write_freeze_state (ke_write ke (kn_events k) path) state
      in (r, kernel_event (K_Cgroup path state r) k))"

definition signal_set :: "kernel_env \<Rightarrow> i32 \<Rightarrow> signal_action \<Rightarrow> kernel \<Rightarrow> unit res \<times> kernel" where
  "signal_set ke pid action k =
     (let env = ke_signals ke (kn_events k)
      in case send_signal env pid action (kn_disk k) of
           (r, d, sent) \<Rightarrow>
             (r, k\<lparr>kn_disk := d,
                   kn_events := rev (map (\<lambda>a. K_Signal pid a (send_raw_signal env pid a)) sent) @ kn_events k\<rparr>))"

subsection \<open>Freezing and thawing a process\<close>

definition binder_pid :: "runtime_process \<Rightarrow> u32 res" where
  "binder_pid p =
     (if rp_pid p < 0 then Inl (System_Error (''invalid binder pid '' @ show_int (rp_pid p)))
      else Inr (word_of_int (rp_pid p)))"

definition freeze_with_cgroup :: "kernel_env \<Rightarrow> u32 \<Rightarrow> string \<Rightarrow> kernel \<Rightarrow> unit res \<times> kernel" where
  "freeze_with_cgroup ke pid path k =
     (case ke_device ke (kn_events k) of
        None \<Rightarrow> (Inl (System_Error ''binder device disappeared before freeze''), k)
      | Some device \<Rightarrow>
          (case binder_set ke device pid BF_Freeze k of
             (Inl e, k1) \<Rightarrow> (Inl e, k1)
           | (Inr _, k1) \<Rightarrow>
               (case cgroup_set ke path Frozen k1 of
                  (Inr _, k2) \<Rightarrow> (Inr (), k2)
                | (Inl e, k2) \<Rightarrow>
                    (case binder_set ke device pid BF_Unfreeze k2 of
                       (Inl cleanup, k3) \<Rightarrow>
                         (Inl (System_Error (''cgroup freeze failed: '' @ show_error e
                            @ ''; binder rollback failed: '' @ show_error cleanup)), k3)
                     | (Inr _, k3) \<Rightarrow> (Inl e, k3)))))"

definition freeze_process :: "kernel_env \<Rightarrow> runtime_process \<Rightarrow> kernel \<Rightarrow> unit res \<times> kernel" where
  "freeze_process ke p k =
     (case rp_cgroup_freeze_path p of
        Some path \<Rightarrow>
          (case binder_pid p of Inl e \<Rightarrow> (Inl e, k) | Inr pid \<Rightarrow> freeze_with_cgroup ke pid path k)
      | None \<Rightarrow> signal_set ke (rp_pid p) SA_Stop k)"

text \<open>The failures are collected; no step is skipped because an earlier one failed.\<close>

definition failure_text :: "string \<Rightarrow> unit res \<Rightarrow> string list" where
  "failure_text label r = (case r of Inr _ \<Rightarrow> [] | Inl e \<Rightarrow> [label @ show_error e])"

definition run_unfreeze_sequence ::
  "string option \<Rightarrow> (string \<Rightarrow> kernel \<Rightarrow> unit res \<times> kernel) \<Rightarrow> (kernel \<Rightarrow> unit res \<times> kernel) \<Rightarrow>
   (kernel \<Rightarrow> unit res \<times> kernel) \<Rightarrow> kernel \<Rightarrow> unit res \<times> kernel" where
  "run_unfreeze_sequence cgroup_path thaw_cgroup unfreeze_binder resume_signal k =
     (let (failures, k2) =
        (case cgroup_path of
           None \<Rightarrow> ([], k)
         | Some path \<Rightarrow>
             (case thaw_cgroup path k of
                (thawed, k1) \<Rightarrow>
                  (case unfreeze_binder k1 of
                     (unbound, k2) \<Rightarrow>
                       (failure_text ''cgroup thaw failed: '' thawed
                          @ failure_text ''binder unfreeze failed: '' unbound, k2))))
      in case resume_signal k2 of
           (resumed, k3) \<Rightarrow>
             let all_failures = failures @ failure_text ''SIGCONT failed: '' resumed
             in if all_failures = [] then (Inr (), k3)
                else (Inl (System_Error (str_join ''; '' all_failures)), k3))"

text \<open>Both the live thaw and the restart recovery release Binder this way, each with its message.\<close>

definition binder_release :: "kernel_env \<Rightarrow> string \<Rightarrow> runtime_process \<Rightarrow> kernel \<Rightarrow> unit res \<times> kernel" where
  "binder_release ke gone p k =
     (case binder_pid p of
        Inl e \<Rightarrow> (Inl e, k)
      | Inr pid \<Rightarrow>
          (case ke_device ke (kn_events k) of
             None \<Rightarrow> (Inl (System_Error gone), k)
           | Some device \<Rightarrow> binder_set ke device pid BF_Unfreeze k))"

definition unfreeze_process :: "kernel_env \<Rightarrow> runtime_process \<Rightarrow> kernel \<Rightarrow> unit res \<times> kernel" where
  "unfreeze_process ke p k =
     run_unfreeze_sequence (rp_cgroup_freeze_path p) (\<lambda>path. cgroup_set ke path Thawed)
       (binder_release ke ''binder device disappeared before unfreeze'' p)
       (signal_set ke (rp_pid p) SA_Continue) k"

subsection \<open>What a process is held by\<close>

text \<open>The Binder contexts, cgroups and pids the recorded calls leave frozen or stopped.\<close>

primrec bound_pids :: "kernel_event list \<Rightarrow> u32 set" where
  "bound_pids [] = {}"
| "bound_pids (e # es) =
     (case e of
        K_Binder pid request r \<Rightarrow>
          if \<not> is_ok r then bound_pids es
          else if request = BF_Freeze then insert pid (bound_pids es) else bound_pids es - {pid}
      | _ \<Rightarrow> bound_pids es)"

primrec frozen_cgroups :: "kernel_event list \<Rightarrow> string set" where
  "frozen_cgroups [] = {}"
| "frozen_cgroups (e # es) =
     (case e of
        K_Cgroup path state r \<Rightarrow>
          if \<not> is_ok r then frozen_cgroups es
          else if state = Frozen then insert path (frozen_cgroups es) else frozen_cgroups es - {path}
      | _ \<Rightarrow> frozen_cgroups es)"

primrec stopped_pids :: "kernel_event list \<Rightarrow> i32 set" where
  "stopped_pids [] = {}"
| "stopped_pids (e # es) =
     (case e of
        K_Signal pid action r \<Rightarrow>
          if \<not> is_ok r then stopped_pids es
          else if action = SA_Stop then insert pid (stopped_pids es) else stopped_pids es - {pid}
      | _ \<Rightarrow> stopped_pids es)"

text \<open>Two moments at which the kernel holds the same.\<close>

definition same_hold :: "kernel \<Rightarrow> kernel \<Rightarrow> bool" where
  "same_hold k k' =
     (bound_pids (kn_events k') = bound_pids (kn_events k) \<and>
      frozen_cgroups (kn_events k') = frozen_cgroups (kn_events k) \<and>
      stopped_pids (kn_events k') = stopped_pids (kn_events k))"

text \<open>A take-back that the kernel refused is the only reason for a failed freeze to hold anything.\<close>

definition refused_release :: "kernel_event \<Rightarrow> bool" where
  "refused_release e =
     (case e of
        K_Binder _ request r \<Rightarrow> request = BF_Unfreeze \<and> \<not> is_ok r
      | K_Signal _ action r \<Rightarrow> action = SA_Continue \<and> \<not> is_ok r
      | _ \<Rightarrow> False)"

lemma same_hold_refl [simp]: "same_hold k k" by (simp add: same_hold_def)

lemma binder_set_event: "binder_set ke device pid request k = (r, k') \<Longrightarrow> k' = kernel_event (K_Binder pid request r) k"
  by (auto simp: binder_set_def Let_def)

lemma cgroup_set_event: "cgroup_set ke path state k = (r, k') \<Longrightarrow> k' = kernel_event (K_Cgroup path state r) k"
  by (auto simp: cgroup_set_def Let_def)

lemma kernel_event_events [simp]: "kn_events (kernel_event e k) = e # kn_events k"
  by (simp add: kernel_event_def)

text \<open>What one signal leaves: a stop that succeeds was delivered; one that fails was not delivered, or
  was taken back, or the take-back was refused; a continue that succeeds was delivered.\<close>

lemma signal_set_stop:
  assumes "signal_set ke pid SA_Stop k = (r, k')"
  shows "bound_pids (kn_events k') = bound_pids (kn_events k)"
    "frozen_cgroups (kn_events k') = frozen_cgroups (kn_events k)"
    "is_ok r \<Longrightarrow> pid > 0 \<and> stopped_pids (kn_events k') = insert pid (stopped_pids (kn_events k))"
    "\<not> is_ok r \<Longrightarrow> stopped_pids (kn_events k') \<subseteq> stopped_pids (kn_events k) \<or>
       refused_release (hd (kn_events k')) \<and> stopped_pids (kn_events k') = insert pid (stopped_pids (kn_events k))"
  using assms
  by (auto simp: signal_set_def send_signal_def send_stop_def Let_def refused_release_def
      split: if_splits sum.splits prod.splits)

lemma signal_set_continue:
  assumes "signal_set ke pid SA_Continue k = (r, k')"
  shows "bound_pids (kn_events k') = bound_pids (kn_events k)"
    "frozen_cgroups (kn_events k') = frozen_cgroups (kn_events k)"
    "is_ok r \<Longrightarrow> stopped_pids (kn_events k') = stopped_pids (kn_events k) - {pid}"
    "stopped_pids (kn_events k') \<in> {stopped_pids (kn_events k), stopped_pids (kn_events k) - {pid}}"
  using assms
  by (auto simp: signal_set_def send_signal_def send_continue_def Let_def
      split: if_splits sum.splits prod.splits)

text \<open>The effect of the other two calls on what is held.\<close>

lemma binder_set_hold:
  assumes "binder_set ke device pid request k = (r, k')"
  shows "frozen_cgroups (kn_events k') = frozen_cgroups (kn_events k)"
    "stopped_pids (kn_events k') = stopped_pids (kn_events k)"
    "bound_pids (kn_events k') =
       (if \<not> is_ok r then bound_pids (kn_events k)
        else if request = BF_Freeze then insert pid (bound_pids (kn_events k)) else bound_pids (kn_events k) - {pid})"
    "hd (kn_events k') = K_Binder pid request r"
  using binder_set_event [OF assms] by simp_all

lemma cgroup_set_hold:
  assumes "cgroup_set ke path state k = (r, k')"
  shows "bound_pids (kn_events k') = bound_pids (kn_events k)"
    "stopped_pids (kn_events k') = stopped_pids (kn_events k)"
    "frozen_cgroups (kn_events k') =
       (if \<not> is_ok r then frozen_cgroups (kn_events k)
        else if state = Frozen then insert path (frozen_cgroups (kn_events k)) else frozen_cgroups (kn_events k) - {path})"
    "kn_events k' = K_Cgroup path state r # kn_events k"
  using cgroup_set_event [OF assms] by simp_all

lemmas hold_rules = binder_set_hold cgroup_set_hold signal_set_stop signal_set_continue

text \<open>What a process with a cgroup, or without one, is held by.\<close>

definition process_held :: "runtime_process \<Rightarrow> kernel \<Rightarrow> bool" where
  "process_held p k =
     (case rp_cgroup_freeze_path p of
        Some path \<Rightarrow> word_of_int (rp_pid p) \<in> bound_pids (kn_events k) \<and> path \<in> frozen_cgroups (kn_events k)
      | None \<Rightarrow> 0 < rp_pid p \<and> rp_pid p \<in> stopped_pids (kn_events k))"

definition process_free :: "runtime_process \<Rightarrow> kernel \<Rightarrow> bool" where
  "process_free p k =
     (rp_pid p \<notin> stopped_pids (kn_events k) \<and>
      (case rp_cgroup_freeze_path p of
         Some path \<Rightarrow> word_of_int (rp_pid p) \<notin> bound_pids (kn_events k) \<and> path \<notin> frozen_cgroups (kn_events k)
       | None \<Rightarrow> True))"

definition nothing_new :: "kernel \<Rightarrow> kernel \<Rightarrow> bool" where
  "nothing_new k k' =
     (bound_pids (kn_events k') \<subseteq> bound_pids (kn_events k) \<and>
      frozen_cgroups (kn_events k') \<subseteq> frozen_cgroups (kn_events k) \<and>
      stopped_pids (kn_events k') \<subseteq> stopped_pids (kn_events k))"

text \<open>How often the kernel refused a take-back.\<close>

definition refusals :: "kernel \<Rightarrow> nat" where
  "refusals k = length (filter refused_release (kn_events k))"

definition holds_more :: "kernel \<Rightarrow> kernel \<Rightarrow> bool" where
  "holds_more k k' = nothing_new k' k"

text \<open>Everything held in \<open>k'\<close> but not in \<open>k\<close> belongs to one of the processes.\<close>

definition owed_by :: "runtime_process list \<Rightarrow> kernel \<Rightarrow> kernel \<Rightarrow> bool" where
  "owed_by ps k k' =
     (bound_pids (kn_events k') \<subseteq> bound_pids (kn_events k) \<union>
        {word_of_int (rp_pid p) |p. p \<in> set ps \<and> rp_cgroup_freeze_path p \<noteq> None} \<and>
      frozen_cgroups (kn_events k') \<subseteq> frozen_cgroups (kn_events k) \<union>
        {path |p path. p \<in> set ps \<and> rp_cgroup_freeze_path p = Some path} \<and>
      stopped_pids (kn_events k') \<subseteq> stopped_pids (kn_events k) \<union>
        {rp_pid p |p. p \<in> set ps \<and> rp_cgroup_freeze_path p = None})"

lemma signal_set_refusals:
  assumes "signal_set ke pid action k = (r, k')"
  shows "refusals k \<le> refusals k'"
    "action = SA_Stop \<Longrightarrow> \<not> is_ok r \<Longrightarrow>
      stopped_pids (kn_events k') \<subseteq> stopped_pids (kn_events k) \<or> refusals k < refusals k'"
  using assms
  by (auto simp: signal_set_def send_signal_def send_stop_def Let_def refused_release_def refusals_def
      split: if_splits sum.splits prod.splits)

lemma binder_set_refusals: "binder_set ke device pid request k = (r, k') \<Longrightarrow>
    refusals k' = (if request = BF_Unfreeze \<and> \<not> is_ok r then Suc (refusals k) else refusals k)"
  using binder_set_event [of ke device pid request k r k'] by (auto simp: refusals_def refused_release_def)

lemma cgroup_set_refusals: "cgroup_set ke path state k = (r, k') \<Longrightarrow> refusals k' = refusals k"
  using cgroup_set_event [of ke path state k r k'] by (auto simp: refusals_def refused_release_def)

lemmas kernel_sets = holds_more_def nothing_new_def owed_by_def

lemma freeze_process_effect:
  assumes "freeze_process ke p k = (r, k')"
  shows "refusals k \<le> refusals k' \<and>
    (is_ok r \<longrightarrow> process_held p k' \<and> holds_more k k' \<and> owed_by [p] k k') \<and>
    (\<not> is_ok r \<longrightarrow> frozen_cgroups (kn_events k') = frozen_cgroups (kn_events k) \<and>
       (nothing_new k k' \<or> refused_release (hd (kn_events k')) \<and> refusals k < refusals k'))"
proof (cases "rp_cgroup_freeze_path p")
  case None
  with assms have 1: "signal_set ke (rp_pid p) SA_Stop k = (r, k')" by (simp add: freeze_process_def)
  show ?thesis
    using signal_set_stop [OF 1] signal_set_refusals [OF 1] None
    by (auto simp: process_held_def kernel_sets)
next
  case path: (Some path)
  show ?thesis
  proof (cases "rp_pid p < 0 \<or> ke_device ke (kn_events k) = None")
    case True
    with assms path show ?thesis
      by (auto simp: freeze_process_def binder_pid_def freeze_with_cgroup_def nothing_new_def split: if_splits)
  next
    case False
    then obtain device where dev: "ke_device ke (kn_events k) = Some device" "\<not> rp_pid p < 0" by auto
    let ?pid = "word_of_int (rp_pid p) :: u32"
    obtain r1 k1 where 1: "binder_set ke device ?pid BF_Freeze k = (r1, k1)" by fastforce
    obtain r2 k2 where 2: "cgroup_set ke path Frozen k1 = (r2, k2)" by fastforce
    obtain r3 k3 where 3: "binder_set ke device ?pid BF_Unfreeze k2 = (r3, k3)" by fastforce
    note effects = binder_set_hold [OF 1] cgroup_set_hold [OF 2] binder_set_hold [OF 3]
      binder_set_refusals [OF 1] cgroup_set_refusals [OF 2] binder_set_refusals [OF 3]
    show ?thesis
      using assms path dev effects
      by (cases r1; cases r2; cases r3)
        (auto simp: freeze_process_def binder_pid_def freeze_with_cgroup_def 1 2 3 process_held_def
          kernel_sets refused_release_def)
  qed
qed

lemma unfreeze_process_effect:
  assumes "unfreeze_process ke p k = (r, k')"
  shows "nothing_new k k' \<and> (is_ok r \<longrightarrow> process_free p k') \<and> refusals k \<le> refusals k' \<and>
    (\<forall>path. rp_cgroup_freeze_path p = Some path \<longrightarrow> (\<exists>x. K_Cgroup path Thawed x \<in> set (kn_events k')))"
proof -
  have signal_events: "set (kn_events k) \<subseteq> set (kn_events k')" if "signal_set ke pid a k = (r, k')" for pid a k r k'
    using that by (auto simp: signal_set_def Let_def split: prod.splits)
  show ?thesis
  proof (cases "rp_cgroup_freeze_path p")
    case None
    obtain r1 k1 where 1: "signal_set ke (rp_pid p) SA_Continue k = (r1, k1)" by fastforce
    show ?thesis
      using assms None signal_set_continue [OF 1] signal_set_refusals(1) [OF 1]
      by (cases r1) (auto simp: unfreeze_process_def run_unfreeze_sequence_def 1 Let_def failure_text_def
          nothing_new_def process_free_def)
  next
    case path: (Some path)
    obtain r1 k1 where 1: "cgroup_set ke path Thawed k = (r1, k1)" by fastforce
    obtain r2 k2 where 2: "binder_release ke ''binder device disappeared before unfreeze'' p k1 = (r2, k2)"
      by fastforce
    obtain r3 k3 where 3: "signal_set ke (rp_pid p) SA_Continue k2 = (r3, k3)" by fastforce
    have rel: "frozen_cgroups (kn_events k2) = frozen_cgroups (kn_events k1) \<and>
        stopped_pids (kn_events k2) = stopped_pids (kn_events k1) \<and>
        bound_pids (kn_events k2) \<subseteq> bound_pids (kn_events k1) \<and>
        (is_ok r2 \<longrightarrow> word_of_int (rp_pid p) \<notin> bound_pids (kn_events k2)) \<and>
        set (kn_events k1) \<subseteq> set (kn_events k2)"
      using 2 by (auto simp: binder_release_def binder_pid_def binder_set_def Let_def kernel_event_def
          split: if_splits option.splits)
    have released: "refusals k1 \<le> refusals k2"
      using 2 by (auto simp: binder_release_def binder_pid_def dest!: binder_set_refusals
          split: if_splits option.splits)
    have k': "k' = k3" "is_ok r \<longleftrightarrow> is_ok r1 \<and> is_ok r2 \<and> is_ok r3"
      using assms path
      by (cases r1; cases r2; cases r3;
          force simp: unfreeze_process_def run_unfreeze_sequence_def 1 2 3 Let_def failure_text_def)+
    show ?thesis
      using k' path rel cgroup_set_hold [OF 1] signal_set_continue [OF 3] signal_events [OF 3] released
        cgroup_set_refusals [OF 1] signal_set_refusals(1) [OF 3]
      by (auto simp: nothing_new_def process_free_def split: if_splits)
  qed
qed

text \<open>
  Freezing a process is all or nothing.  When it succeeds, the process is held: its Binder context
  and its cgroup are frozen, or without a cgroup the positive pid is stopped.  When it fails, no cgroup
  was frozen, and nothing is held that was not held before, except after a take-back (of the Binder
  freeze or of the stop) that the kernel refused.
\<close>

lemma freeze_process_exact:
  assumes "freeze_process ke p k = (r, k')"
  shows "(is_ok r \<longrightarrow> process_held p k') \<and>
    (\<not> is_ok r \<longrightarrow> frozen_cgroups (kn_events k') = frozen_cgroups (kn_events k) \<and>
       (nothing_new k k' \<or> refused_release (hd (kn_events k'))))"
  using freeze_process_effect [OF assms] by blast

text \<open>
  Thawing a process never holds more than before, and when it reports success the process is free:
  not stopped, and with a cgroup neither its Binder context nor its cgroup frozen.  With a cgroup the
  thaw of the cgroup is attempted in every case.
\<close>

lemma unfreeze_process_exact:
  assumes "unfreeze_process ke p k = (r, k')"
  shows "nothing_new k k' \<and> (is_ok r \<longrightarrow> process_free p k') \<and>
    (\<forall>path. rp_cgroup_freeze_path p = Some path \<longrightarrow> (\<exists>x. K_Cgroup path Thawed x \<in> set (kn_events k')))"
  using unfreeze_process_effect [OF assms] by blast

text \<open>A kernel in which everything works except writing to a cgroup.\<close>

definition demo_kernel_env :: kernel_env where
  "demo_kernel_env =
    \<lparr>ke_device = (\<lambda>_. Some ''/dev/binder''), ke_open = (\<lambda>_ _. Inr 3), ke_ioctl = (\<lambda>_ _ _ _. Inr ()),
     ke_write = (\<lambda>_ _ _. Some missing_file), ke_signals = (\<lambda>_. sample_signal_env)\<rparr>"

definition demo_kernel :: kernel where
  "demo_kernel = \<lparr>kn_events = [], kn_disk = fresh_disk []\<rparr>"

lemma freeze_process_exact_witness:
  "\<not> is_ok (fst (freeze_process demo_kernel_env (demo_process 4242) demo_kernel)) \<and>
   frozen_cgroups (kn_events (snd (freeze_process demo_kernel_env (demo_process 4242) demo_kernel))) = {}"
proof -
  let ?r = "freeze_process demo_kernel_env (demo_process 4242) demo_kernel"
  have "\<not> is_ok (fst ?r)" by code_simp
  with freeze_process_exact [of demo_kernel_env "demo_process 4242" demo_kernel "fst ?r" "snd ?r"]
  show ?thesis by (simp add: demo_kernel_def)
qed

lemma unfreeze_process_exact_witness:
  "stopped_pids (kn_events (snd (unfreeze_process demo_kernel_env (demo_process 4242) demo_kernel))) = {}"
  using unfreeze_process_exact [of demo_kernel_env "demo_process 4242" demo_kernel
      "fst (unfreeze_process demo_kernel_env (demo_process 4242) demo_kernel)"
      "snd (unfreeze_process demo_kernel_env (demo_process 4242) demo_kernel)"]
  by (simp add: demo_kernel_def nothing_new_def)

end
