(* ===== verification/Recovery.thy ===== *)
theory Recovery
  imports Actuators Manager_State
begin

text \<open>
  Recovery after a restart of the daemon (\<^verbatim>\<open>app/controller.rs\<close>): the processes that a
  previous instance left stopped or frozen are released before the server starts.  A process whose
  stop the ledger marks as \<open>SO_SignalOnly\<close>, and whose cgroup is observed thawed, is only
  continued; every other one gets the full cleanup.
\<close>

subsection \<open>One process\<close>

record restart_recovery_outcome =
  rr_cgroup_thawed :: bool
  rr_signal_resumed :: bool
  rr_failures :: "string list"

definition no_recovery :: restart_recovery_outcome where
  "no_recovery = \<lparr>rr_cgroup_thawed = False, rr_signal_resumed = False, rr_failures = []\<rparr>"

definition recovery_failed :: "string \<Rightarrow> restart_recovery_outcome \<Rightarrow> restart_recovery_outcome" where
  "recovery_failed message out = out\<lparr>rr_failures := rr_failures out @ [message]\<rparr>"

text \<open>The system around the recovery: the kernel, the identity check, and what is read about a process.\<close>

record recovery_env =
  rx_kernel :: kernel_env
  rx_validate :: "kernel_event list \<Rightarrow> runtime_process \<Rightarrow> bool res"
  rx_stat :: "kernel_event list \<Rightarrow> i32 \<Rightarrow> string option"
  rx_cgroup_text :: "kernel_event list \<Rightarrow> string \<Rightarrow> io_error + string"

definition restart_identity_is_current ::
  "recovery_env \<Rightarrow> runtime_process \<Rightarrow> string \<Rightarrow> kernel \<Rightarrow> string option \<times> kernel" where
  "restart_identity_is_current env p phase k =
     (let r = rx_validate env (kn_events k) p; k1 = kernel_event (K_Validate p r) k
      in (case r of
            Inr ok \<Rightarrow> if ok then None
              else Some (''identity validation failed '' @ phase @ '' for pid '' @ show_int (rp_pid p))
          | Inl e \<Rightarrow> Some (''identity validation failed '' @ phase @ '' for pid '' @ show_int (rp_pid p)
                        @ '': '' @ show_error e), k1))"

definition note_failure :: "string \<Rightarrow> runtime_process \<Rightarrow> unit res \<Rightarrow> restart_recovery_outcome \<Rightarrow> restart_recovery_outcome" where
  "note_failure label p r out =
     (case r of
        Inr _ \<Rightarrow> out
      | Inl e \<Rightarrow> recovery_failed (label @ '' failed for pid '' @ show_int (rp_pid p) @ '': '' @ show_error e) out)"

definition resume_after_restart ::
  "recovery_env \<Rightarrow> runtime_process \<Rightarrow> restart_recovery_outcome \<Rightarrow> kernel \<Rightarrow> restart_recovery_outcome \<times> kernel" where
  "resume_after_restart env p out k =
     (case restart_identity_is_current env p ''immediately before SIGCONT'' k of
        (Some message, k1) \<Rightarrow> (recovery_failed message out, k1)
      | (None, k1) \<Rightarrow>
          (case signal_set (rx_kernel env) (rp_pid p) SA_Continue k1 of
             (r, k2) \<Rightarrow> (note_failure ''SIGCONT'' p r (out\<lparr>rr_signal_resumed := is_ok r\<rparr>), k2)))"

definition recover_process_after_restart ::
  "recovery_env \<Rightarrow> runtime_process \<Rightarrow> signal_stop_ownership option \<Rightarrow> freeze_state option \<Rightarrow> kernel \<Rightarrow>
   restart_recovery_outcome \<times> kernel" where
  "recover_process_after_restart env p ownership observed k =
     (let signal_only = (ownership = Some SO_SignalOnly \<and> observed = Some Thawed)
      in case (if signal_only then None else rp_cgroup_freeze_path p) of
           None \<Rightarrow> if ownership = None then (no_recovery, k) else resume_after_restart env p no_recovery k
         | Some path \<Rightarrow>
             (case restart_identity_is_current env p ''before cgroup thaw'' k of
                (Some message, k1) \<Rightarrow> (recovery_failed message no_recovery, k1)
              | (None, k1) \<Rightarrow>
                  (case cgroup_set (rx_kernel env) path Thawed k1 of
                     (thawed, k2) \<Rightarrow>
                       let out = note_failure ''cgroup thaw'' p thawed (no_recovery\<lparr>rr_cgroup_thawed := is_ok thawed\<rparr>)
                       in case restart_identity_is_current env p ''before binder unfreeze'' k2 of
                            (Some message, k3) \<Rightarrow> (recovery_failed message out, k3)
                          | (None, k3) \<Rightarrow>
                              (case binder_release (rx_kernel env)
                                      ''binder device disappeared during restart recovery'' p k3 of
                                 (unbound, k4) \<Rightarrow>
                                   let out1 = note_failure ''binder unfreeze'' p unbound out
                                   in if ownership = None then (out1, k4)
                                      else resume_after_restart env p out1 k4))))"

subsection \<open>All processes of the managed applications\<close>

text \<open>What the ledger says of a stopped process, and what its cgroup shows.\<close>

definition restart_ownership :: "recovery_env \<Rightarrow> i32 \<Rightarrow> kernel \<Rightarrow> signal_stop_ownership option \<times> kernel" where
  "restart_ownership env pid k =
     (case rx_stat env (kn_events k) pid of
        None \<Rightarrow> (None, k)
      | Some stat \<Rightarrow>
          (case signal_stop_ownership_from_ledger stat (kn_disk k) of (o', d) \<Rightarrow> (o', k\<lparr>kn_disk := d\<rparr>)))"

definition observed_cgroup_state :: "recovery_env \<Rightarrow> runtime_process \<Rightarrow> kernel \<Rightarrow> freeze_state option" where
  "observed_cgroup_state env p k =
     Option.bind (rp_cgroup_freeze_path p) (\<lambda>path. ok_of (read_freeze_state (rx_cgroup_text env (kn_events k) path)))"

record recovery_counts =
  rn_thawed :: u32
  rn_resumed :: u32
  rn_failed :: u32

definition count_outcome :: "restart_recovery_outcome \<Rightarrow> recovery_counts \<Rightarrow> recovery_counts" where
  "count_outcome out n =
    \<lparr>rn_thawed = rn_thawed n + (if rr_cgroup_thawed out then 1 else 0),
     rn_resumed = rn_resumed n + (if rr_signal_resumed out then 1 else 0),
     rn_failed = rn_failed n + (if rr_failures out \<noteq> [] then 1 else 0)\<rparr>"

definition recover_one :: "recovery_env \<Rightarrow> runtime_process \<Rightarrow> recovery_counts \<times> kernel \<Rightarrow> recovery_counts \<times> kernel" where
  "recover_one env p acc =
     (case acc of (n, k) \<Rightarrow>
        (case restart_ownership env (rp_pid p) k of
           (ownership, k1) \<Rightarrow>
             let observed = observed_cgroup_state env p k1
             in if rp_cgroup_freeze_path p = None \<and> ownership = None then (n, k1)
                else case recover_process_after_restart env p ownership observed k1 of
                       (out, k2) \<Rightarrow> (count_outcome out n, k2)))"

definition managed_uids_of :: "manager_app_config_record list \<Rightarrow> u32 bset" where
  "managed_uids_of app_config = bs_of_list (map ac_uid (filter (\<lambda>r. is_control_policy_mode (ac_mode r)) app_config))"

definition recover_stopped_managed_processes_after_restart ::
  "recovery_env \<Rightarrow> (u32 bset \<Rightarrow> (u32, runtime_process list) btree res) \<Rightarrow> u128 \<Rightarrow> read_only_state \<Rightarrow> kernel \<Rightarrow>
   read_only_state \<times> kernel" where
  "recover_stopped_managed_processes_after_restart env discover now s k =
     (let managed = managed_uids_of (ro_app_config s);
          log = (\<lambda>level m. s\<lparr>ro_manager_log := log_push_once (fault level now m) (ro_manager_log s)\<rparr>)
      in if managed = [] then (s, k)
         else
           case discover managed of
             Inl e \<Rightarrow> (log LL_Error (''restart recovery: process discovery failed: '' @ show_error e), k)
           | Inr by_uid \<Rightarrow>
               (case fold (recover_one env) (concat (map snd by_uid))
                       (\<lparr>rn_thawed = 0, rn_resumed = 0, rn_failed = 0\<rparr>, k) of
                  (n, k1) \<Rightarrow>
                    if rn_thawed n > 0 \<or> rn_resumed n > 0 \<or> rn_failed n > 0 then
                      (log LL_Info (''restart recovery: cgroup_thawed='' @ show_u32 (rn_thawed n)
                         @ '' sigcont_resumed='' @ show_u32 (rn_resumed n) @ '' failed='' @ show_u32 (rn_failed n)), k1)
                    else (s, k1)))"

subsection \<open>What the recovery does to the kernel\<close>

text \<open>An act of the recovery: a release, of the process that was validated by the call just before.\<close>

definition validated_release :: "kernel_event \<Rightarrow> kernel_event list \<Rightarrow> bool" where
  "validated_release e es =
     (case e of
        K_Validate _ _ \<Rightarrow> True
      | K_Cgroup path state _ \<Rightarrow> state = Thawed \<and>
          (\<exists>q rest. es = K_Validate q (Inr True) # rest \<and> rp_cgroup_freeze_path q = Some path)
      | K_Binder pid request _ \<Rightarrow> request = BF_Unfreeze \<and>
          (\<exists>q rest. es = K_Validate q (Inr True) # rest \<and> pid = word_of_int (rp_pid q))
      | K_Signal pid action _ \<Rightarrow> action = SA_Continue \<and>
          (\<exists>q rest. es = K_Validate q (Inr True) # rest \<and> pid = rp_pid q))"

text \<open>The calls since some moment, each a validated release.\<close>

inductive releases_since :: "kernel_event list \<Rightarrow> kernel_event list \<Rightarrow> bool" for base where
  started: "releases_since base base"
| released: "validated_release e es \<Longrightarrow> releases_since base es \<Longrightarrow> releases_since base (e # es)"

lemma releases_nothing_new:
  "releases_since base es \<Longrightarrow> bound_pids es \<subseteq> bound_pids base \<and>
   frozen_cgroups es \<subseteq> frozen_cgroups base \<and> stopped_pids es \<subseteq> stopped_pids base"
  by (induction rule: releases_since.induct) (auto simp: validated_release_def split: kernel_event.splits)

lemma identity_check:
  assumes "restart_identity_is_current env p phase k = (m, k')"
  shows "kn_events k' = K_Validate p (rx_validate env (kn_events k) p) # kn_events k"
    "m = None \<longleftrightarrow> rx_validate env (kn_events k) p = Inr True"
  using assms by (auto simp: restart_identity_is_current_def Let_def split: sum.splits if_splits)

text \<open>Each step of the recovery adds at most one call, right after its validation.\<close>

lemma continue_event:
  assumes "signal_set ke pid SA_Continue k = (r, k')"
  shows "kn_events k' = kn_events k \<or> (\<exists>x. kn_events k' = K_Signal pid SA_Continue x # kn_events k)"
  using assms
  by (auto simp: signal_set_def send_signal_def send_continue_def Let_def split: if_splits sum.splits prod.splits)

lemma release_event:
  assumes "binder_release ke gone p k = (r, k')"
  shows "k' = k \<and> \<not> is_ok r \<or> kn_events k' = K_Binder (word_of_int (rp_pid p)) BF_Unfreeze r # kn_events k"
  using assms
  by (auto simp: binder_release_def binder_pid_def binder_set_def Let_def split: if_splits option.splits)

lemma resume_monitored:
  assumes "resume_after_restart env p out k = (out', k')" "releases_since base (kn_events k)"
  shows "releases_since base (kn_events k') \<and>
    (\<exists>es. kn_events k' = es @ kn_events k \<and> (\<forall>e \<in> set es. case e of K_Cgroup _ _ _ \<Rightarrow> False | K_Binder _ _ _ \<Rightarrow> False | _ \<Rightarrow> True)) \<and>
    bound_pids (kn_events k') = bound_pids (kn_events k) \<and>
    frozen_cgroups (kn_events k') = frozen_cgroups (kn_events k) \<and>
    stopped_pids (kn_events k') \<subseteq> stopped_pids (kn_events k) \<and>
    (rr_failures out' = [] \<longrightarrow> rr_failures out = [] \<and> rp_pid p \<notin> stopped_pids (kn_events k'))"
proof -
  obtain m k1 where 1: "restart_identity_is_current env p ''immediately before SIGCONT'' k = (m, k1)" by fastforce
  note check = identity_check [OF 1]
  show ?thesis
  proof (cases m)
    case (Some message)
    with assms 1 check show ?thesis
      by (auto simp: resume_after_restart_def recovery_failed_def validated_release_def intro!: released)
  next
    case None
    obtain r k2 where 2: "signal_set (rx_kernel env) (rp_pid p) SA_Continue k1 = (r, k2)" by fastforce
    have valid: "kn_events k1 = K_Validate p (Inr True) # kn_events k" using check None by simp
    have fin: "k' = k2" "out' = note_failure ''SIGCONT'' p r (out\<lparr>rr_signal_resumed := is_ok r\<rparr>)"
      using assms(1) None 2 by (simp_all add: resume_after_restart_def 1)
    then have "rr_failures out' = [] \<longrightarrow> rr_failures out = [] \<and> is_ok r"
      by (cases r) (simp_all add: note_failure_def recovery_failed_def)
    then show ?thesis
      using continue_event [OF 2] signal_set_continue [OF 2] valid assms(2) unfolding fin
      by (auto simp: validated_release_def intro!: released)
  qed
qed

lemma recover_process_monitored:
  assumes "recover_process_after_restart env p ownership observed k = (out, k')" "releases_since base (kn_events k)"
  shows "releases_since base (kn_events k') \<and>
    (ownership = Some SO_SignalOnly \<and> observed = Some Thawed \<longrightarrow>
      (\<exists>es. kn_events k' = es @ kn_events k \<and>
         (\<forall>e \<in> set es. case e of K_Cgroup _ _ _ \<Rightarrow> False | K_Binder _ _ _ \<Rightarrow> False | _ \<Rightarrow> True))) \<and>
    (rr_failures out = [] \<longrightarrow>
      (ownership \<noteq> None \<longrightarrow> rp_pid p \<notin> stopped_pids (kn_events k')) \<and>
      (\<not> (ownership = Some SO_SignalOnly \<and> observed = Some Thawed) \<longrightarrow>
        (\<forall>path. rp_cgroup_freeze_path p = Some path \<longrightarrow>
          path \<notin> frozen_cgroups (kn_events k') \<and> word_of_int (rp_pid p) \<notin> bound_pids (kn_events k'))))"
proof -
  let ?only = "ownership = Some SO_SignalOnly \<and> observed = Some Thawed"
  show ?thesis
  proof (cases "if ?only then None else rp_cgroup_freeze_path p")
    case None
    show ?thesis
    proof (cases "ownership = None")
      case True
      with assms None show ?thesis
        by (auto simp: recover_process_after_restart_def nothing_new_def)
    next
      case False
      with assms(1) None have "resume_after_restart env p no_recovery k = (out, k')"
        by (simp add: recover_process_after_restart_def)
      from resume_monitored [OF this assms(2)] None False show ?thesis
        by (auto simp: nothing_new_def split: if_splits)
    qed
  next
    case path: (Some path)
    then have only: "\<not> ?only" "rp_cgroup_freeze_path p = Some path" by (auto split: if_splits)
    note run = assms(1) [unfolded recover_process_after_restart_def Let_def path option.case]
    obtain m1 k1 where 1: "restart_identity_is_current env p ''before cgroup thaw'' k = (m1, k1)" by fastforce
    note c1 = identity_check [OF 1]
    show ?thesis
    proof (cases m1)
      case (Some message)
      with run 1 c1 assms(2) only show ?thesis
        by (auto simp: recovery_failed_def nothing_new_def validated_release_def intro!: released)
    next
      case valid1: None
      obtain r2 k2 where 2: "cgroup_set (rx_kernel env) path Thawed k1 = (r2, k2)" by fastforce
      note c2 = cgroup_set_hold [OF 2]
      obtain m3 k3 where 3: "restart_identity_is_current env p ''before binder unfreeze'' k2 = (m3, k3)" by fastforce
      note c3 = identity_check [OF 3]
      let ?out = "note_failure ''cgroup thaw'' p r2 (no_recovery\<lparr>rr_cgroup_thawed := is_ok r2\<rparr>)"
      have out2: "rr_failures ?out = [] \<longleftrightarrow> is_ok r2"
        by (cases r2) (simp_all add: note_failure_def recovery_failed_def no_recovery_def)
      have mon2: "releases_since base (kn_events k2)"
        using c1 c2 valid1 only assms(2) by (auto simp: validated_release_def intro!: released)
      then have mon3: "releases_since base (kn_events k3)" using c3 by (simp add: released validated_release_def)
      show ?thesis
      proof (cases m3)
        case (Some message)
        with run 1 valid1 2 3 have fin: "k' = k3" "out = recovery_failed message ?out"
          by (simp_all add: Let_def)
        then have "rr_failures out \<noteq> []" by (simp add: recovery_failed_def)
        with fin mon3 only show ?thesis by auto
      next
        case valid3: None
        obtain r4 k4 where 4: "binder_release (rx_kernel env) ''binder device disappeared during restart recovery'' p k3 = (r4, k4)"
          by fastforce
        let ?out1 = "note_failure ''binder unfreeze'' p r4 ?out"
        have out4: "rr_failures ?out1 = [] \<longleftrightarrow> is_ok r2 \<and> is_ok r4"
          using out2 by (cases r4) (simp_all add: note_failure_def recovery_failed_def)
        have mon4: "releases_since base (kn_events k4)"
          using release_event [OF 4] mon3 c3 valid3 by (auto simp: validated_release_def intro!: released)
        have held4: "frozen_cgroups (kn_events k4) = frozen_cgroups (kn_events k2)"
          "stopped_pids (kn_events k4) = stopped_pids (kn_events k)"
          "bound_pids (kn_events k4) \<subseteq> bound_pids (kn_events k)"
          "is_ok r4 \<Longrightarrow> word_of_int (rp_pid p) \<notin> bound_pids (kn_events k4)"
          "frozen_cgroups (kn_events k2) \<subseteq> frozen_cgroups (kn_events k)"
          using release_event [OF 4] c1 c2 c3 by (auto split: if_splits)
        have thawed: "is_ok r2 \<Longrightarrow> path \<notin> frozen_cgroups (kn_events k4)" using held4(1) c2 by simp
        show ?thesis
        proof (cases "ownership = None")
          case True
          with run 1 valid1 2 3 valid3 4 have "k' = k4" "out = ?out1" by (simp_all add: Let_def)
          with True only mon4 held4 thawed out4 show ?thesis by (auto simp: nothing_new_def)
        next
          case False
          with run 1 valid1 2 3 valid3 4 have "resume_after_restart env p ?out1 k4 = (out, k')"
            by (simp add: Let_def)
          note r = resume_monitored [OF this mon4]
          with only held4 thawed out4 show ?thesis by (auto simp: nothing_new_def)
        qed
      qed
    qed
  qed
qed

lemma recover_fold_monitored:
  "fold (recover_one env) ps (n, k) = (n', k') \<Longrightarrow> releases_since base (kn_events k) \<Longrightarrow>
   releases_since base (kn_events k')"
proof (induction ps arbitrary: n k)
  case (Cons p ps)
  obtain o1 k1 where 1: "restart_ownership env (rp_pid p) k = (o1, k1)" by fastforce
  then have ev: "kn_events k1 = kn_events k"
    by (auto simp: restart_ownership_def split: option.splits prod.splits)
  obtain out k2 where 2: "recover_process_after_restart env p o1 (observed_cgroup_state env p k1) k1 = (out, k2)"
    by fastforce
  have step: "releases_since base (kn_events k2)"
    using recover_process_monitored [OF 2, of base] ev Cons.prems(2) by simp
  obtain n1 k3 where 3: "recover_one env p (n, k) = (n1, k3)" by fastforce
  then have "k3 = k1 \<or> k3 = k2" by (auto simp: recover_one_def 1 2 Let_def split: if_splits)
  with step ev Cons.prems(2) have "releases_since base (kn_events k3)" by auto
  with Cons.IH [of n1 k3] Cons.prems(1) 3 show ?case by simp
qed simp

text \<open>
  C10.  The recovery after a restart only ever releases: whatever the ledger, the cgroups and the identity
  checks answer, each of its calls thaws a cgroup, unfreezes a Binder context or sends \<^verbatim>\<open>SIGCONT\<close>, to
  the very process whose identity the call just before confirmed, and nothing is held afterwards that
  was not held before.
\<close>

theorem restart_recovery_releases:
  "let k' = snd (recover_stopped_managed_processes_after_restart env discover now s k)
   in releases_since (kn_events k) (kn_events k') \<and> nothing_new k k'"
proof -
  obtain s' k' where r: "recover_stopped_managed_processes_after_restart env discover now s k = (s', k')"
    by fastforce
  then consider "k' = k" | ps n n' where "fold (recover_one env) ps (n, k) = (n', k')"
    by (auto simp: recover_stopped_managed_processes_after_restart_def Let_def
        split: if_splits sum.splits prod.splits)
  then have "releases_since (kn_events k) (kn_events k')"
    by cases (auto intro: started recover_fold_monitored)
  with releases_nothing_new [OF this] show ?thesis unfolding r by (simp add: nothing_new_def)
qed


text \<open>A process the previous instance stopped, froze and bound, and a kernel that lets all of it go.\<close>

definition demo_recovery_env :: recovery_env where
  "demo_recovery_env =
    \<lparr>rx_kernel = demo_kernel_env\<lparr>ke_write := (\<lambda>_ _ _. None)\<rparr>, rx_validate = (\<lambda>_ _. Inr True),
     rx_stat = (\<lambda>_ _. None), rx_cgroup_text = (\<lambda>_ _. Inr ''1'')\<rparr>"

definition held_kernel :: kernel where
  "held_kernel = demo_kernel\<lparr>kn_events :=
    [K_Signal 4242 SA_Stop (Inr ()),
     K_Cgroup ''/sys/fs/cgroup/uid_10123/cgroup.freeze'' Frozen (Inr ()), K_Binder 4242 BF_Freeze (Inr ())]\<rparr>"


end
