(* ===== verification/Startup.thy ===== *)
theory Startup
  imports Manager Recovery Compat Freezer_Backend Xposed
begin

text \<open>
  The start of the daemon (\<^verbatim>\<open>app/controller.rs\<close>): reading the module's files, the
  installed packages and the device, probing the hook, and the diagnostics that decide whether
  control is allowed.  The system is a parameter.
\<close>

subsection \<open>The system at startup\<close>

text \<open>A command answers with whether it succeeded and its standard output, if it ran within its limits.\<close>

record startup_env =
  se_file :: "string \<Rightarrow> file_view"
  se_run :: "string \<Rightarrow> string list \<Rightarrow> (bool \<times> bytes) option"
  se_root :: bool
  se_cpu_entries :: "string option list option"
  se_os :: string
  se_arch :: string
  se_hook :: "string res"
  se_probe :: "control_capability list"
  se_clock :: "nat \<Rightarrow> u128"
  se_instant :: u128

definition file_text :: "file_view \<Rightarrow> string option" where
  "file_text f = (case fv_text f of Inr t \<Rightarrow> Some t | Inl _ \<Rightarrow> None)"

definition file_exists :: "file_view \<Rightarrow> bool" where
  "file_exists f = is_ok (io_res (fv_metadata f))"

definition stdout_text :: "bytes \<Rightarrow> string" where
  "stdout_text out = utf8_lossy (bytes_text out)"

definition command_output :: "startup_env \<Rightarrow> string \<Rightarrow> string list \<Rightarrow> string option" where
  "command_output env program args =
     (case se_run env program args of
        Some (True, out) \<Rightarrow> Some (str_trim (stdout_text out))
      | _ \<Rightarrow> None)"

subsection \<open>Capabilities, cached\<close>

type_synonym capability_cache = "(u128 \<times> control_capability list) option"

definition capability_cache_ttl_ms :: u128 where "capability_cache_ttl_ms = 30 * 1000"

definition discover_runtime_capabilities ::
  "startup_env \<Rightarrow> capability_cache \<Rightarrow> control_capability list \<times> capability_cache" where
  "discover_runtime_capabilities env cache =
     (case cache of
        Some (observed_at, values) \<Rightarrow>
          if se_instant env - observed_at < capability_cache_ttl_ms then (values, cache)
          else (se_probe env, Some (se_instant env, se_probe env))
      | None \<Rightarrow> (se_probe env, Some (se_instant env, se_probe env)))"

subsection \<open>The module's files\<close>

definition apply_module_line :: "string \<Rightarrow> read_only_state \<Rightarrow> read_only_state" where
  "apply_module_line line s =
     (case split_once ''='' line of
        None \<Rightarrow> s
      | Some (key, v) \<Rightarrow>
          let v = str_trim v; key = str_trim key
          in if key = ''id'' then s\<lparr>ro_module_id := v\<rparr>
             else if key = ''name'' then s\<lparr>ro_module_name := v\<rparr>
             else if key = ''version'' then s\<lparr>ro_version := v\<rparr>
             else if key = ''versionCode'' then
               (case parse_u32 v of Some code \<Rightarrow> s\<lparr>ro_version_code := code\<rparr> | None \<Rightarrow> s)
             else if key = ''author'' then s\<lparr>ro_author := v\<rparr>
             else s)"

definition apply_module_prop :: "string option \<Rightarrow> read_only_state \<Rightarrow> read_only_state" where
  "apply_module_prop contents s =
     (case contents of None \<Rightarrow> s | Some t \<Rightarrow> fold apply_module_line (str_lines t) s)"

definition read_first_existing_text :: "startup_env \<Rightarrow> string list \<Rightarrow> string option" where
  "read_first_existing_text env paths = find_map (\<lambda>p. file_text (se_file env p)) paths"

definition rom_mismatch_detail :: "string \<Rightarrow> bool" where
  "rom_mismatch_detail line = (ws_len line > 0 \<or> starts_with line ''baseline='' \<or> starts_with line ''device='')"

text \<open>The warning about the ROM fingerprint and its detail lines are left out.\<close>

fun sanitize_lines :: "bool \<Rightarrow> string list \<Rightarrow> string list" where
  "sanitize_lines skipping [] = []"
| "sanitize_lines skipping (line # ls) =
     (if str_contains line ''WARNING ROM fingerprint mismatch'' then sanitize_lines True ls
      else if skipping \<and> rom_mismatch_detail line then sanitize_lines True ls
      else line # sanitize_lines False ls)"

definition sanitize_startup_log :: "string \<Rightarrow> string" where
  "sanitize_startup_log log = concat (map (\<lambda>l. l @ [newline]) (sanitize_lines False (str_lines log)))"

definition import_line :: "u128 \<Rightarrow> string \<Rightarrow> manager_log \<Rightarrow> manager_log" where
  "import_line now line log =
     (case verified_legacy_line line of
        Some r \<Rightarrow> log_push r log
      | None \<Rightarrow> log_push (diagnostic LL_Debug now line) log)"

definition import_startup_log :: "u128 \<Rightarrow> string \<Rightarrow> read_only_state \<Rightarrow> read_only_state" where
  "import_startup_log now log s =
     s\<lparr>ro_manager_log := fold (import_line now) (filter (\<lambda>l. str_trim l \<noteq> []) (str_lines log)) (ro_manager_log s)\<rparr>"

definition append_daemon_status_log :: "u128 \<Rightarrow> read_only_state \<Rightarrow> read_only_state" where
  "append_daemon_status_log now s =
     s\<lparr>ro_manager_log := log_push_once
         (diagnostic LL_Debug now
           (''daemon active: apps='' @ show_nat (length (ro_app_config s)) @ '' settings=''
             @ show_nat (length (ro_settings s)) @ '' android='' @ ro_android_version s
             @ '' kernel='' @ ro_kernel_version s)) (ro_manager_log s)\<rparr>"

subsection \<open>Packages and policies\<close>

fun package_records_from :: "startup_env \<Rightarrow> (string \<times> string list) list \<Rightarrow> package_record list" where
  "package_records_from env [] = []"
| "package_records_from env ((program, args) # commands) =
     (case se_run env program args of
        Some (True, out) \<Rightarrow>
          (let records = parse_cmd_package_list (stdout_text out)
           in if records \<noteq> [] then records else package_records_from env commands)
      | _ \<Rightarrow> package_records_from env commands)"

definition load_package_records :: "startup_env \<Rightarrow> package_record list" where
  "load_package_records env =
     package_records_from env
       [(''cmd'', [''package'', ''list'', ''packages'', ''-U'']), (''pm'', [''list'', ''packages'', ''-U''])]"

definition manager_record_of :: "(string, u32) btree \<Rightarrow> legacy_policy_record \<Rightarrow> manager_app_config_record option" where
  "manager_record_of package_uids r =
     map_option (\<lambda>uid. \<lparr>ac_uid = uid, ac_mode = lp_mode r, ac_permissive = lp_permissive r\<rparr>)
       (case bt_get package_uids (lp_package_or_uid r) of
          Some uid \<Rightarrow> Some uid
        | None \<Rightarrow> parse_legacy_uid_token (lp_package_or_uid r))"

definition load_manager_app_config_records ::
  "string option \<Rightarrow> package_record list \<Rightarrow> manager_app_config_record list" where
  "load_manager_app_config_records app_config packages =
     (let package_uids = bt_of_list (map (\<lambda>r. (pk_package_name r, pk_uid r)) packages)
      in case app_config of
           None \<Rightarrow> []
         | Some t \<Rightarrow>
             List.map_filter (manager_record_of package_uids)
               (List.map_filter parse_legacy_policy_line (str_lines t)))"

subsection \<open>The device\<close>

definition nonempty :: "string option \<Rightarrow> string option" where
  "nonempty v = (case v of Some [] \<Rightarrow> None | _ \<Rightarrow> v)"

definition detect_android_version :: "startup_env \<Rightarrow> string" where
  "detect_android_version env =
     (case nonempty (command_output env ''getprop'' [''ro.build.version.release'']) of
        Some v \<Rightarrow> v | None \<Rightarrow> se_os env)"

definition detect_kernel_version :: "startup_env \<Rightarrow> string" where
  "detect_kernel_version env =
     (case nonempty (command_output env ''uname'' [''-r'']) of
        Some v \<Rightarrow> v
      | None \<Rightarrow>
          (case file_text (se_file env ''/proc/version'') of
             None \<Rightarrow> se_arch env
           | Some t \<Rightarrow> if 2 < length (split_whitespace t) then split_whitespace t ! 2 else se_arch env))"

definition detect_runtime_environment :: "startup_env \<Rightarrow> runtime_environment" where
  "detect_runtime_environment env =
     runtime_environment_new
       (case command_output env ''getprop'' [''ro.product.model''] of Some v \<Rightarrow> v | None \<Rightarrow> ''unknown'')
       (detect_android_version env)
       (case Option.bind (command_output env ''getprop'' [''ro.build.version.sdk'']) parse_u32 of
          Some sdk \<Rightarrow> sdk | None \<Rightarrow> 0)
       (case command_output env ''getprop'' [''ro.build.fingerprint''] of Some v \<Rightarrow> v | None \<Rightarrow> [])
       (detect_kernel_version env) (se_root env) False False"

definition is_cpu_entry :: "string \<Rightarrow> bool" where
  "is_cpu_entry name =
     (case strip_prefix ''cpu'' name of None \<Rightarrow> False | Some rest \<Rightarrow> rest \<noteq> [] \<and> list_all is_digit rest)"

definition detect_cpu_cluster_count :: "startup_env \<Rightarrow> u32" where
  "detect_cpu_cluster_count env =
     (case se_cpu_entries env of
        None \<Rightarrow> 1
      | Some names \<Rightarrow> max (of_nat (length (filter is_cpu_entry (List.map_filter (\<lambda>n. n) names)))) 1)"

definition swap_total_mib :: "string \<Rightarrow> u32 option" where
  "swap_total_mib line =
     (case split_whitespace line of
        key # v # _ \<Rightarrow> if key = ''SwapTotal:'' then map_option (\<lambda>kb. kb div 1024) (parse_u32 v) else None
      | _ \<Rightarrow> None)"

definition detect_ext_memory_mib :: "startup_env \<Rightarrow> u32" where
  "detect_ext_memory_mib env =
     (case Option.bind (file_text (se_file env ''/proc/meminfo'')) (\<lambda>t. find_map swap_total_mib (str_lines t)) of
        Some n \<Rightarrow> n | None \<Rightarrow> 0)"

subsection \<open>Diagnostics\<close>

definition freezer_capability_ready :: "control_capability list \<Rightarrow> bool" where
  "freezer_capability_ready capabilities =
     list_ex (\<lambda>c. cc_name c = CN_CgroupV2Freezer \<and> cc_status c = CS_Available) capabilities"

definition update_diagnostics ::
  "runtime_environment \<Rightarrow> control_capability list \<Rightarrow> bool \<Rightarrow> read_only_state \<Rightarrow> read_only_state" where
  "update_diagnostics runtime capabilities policy_ready s =
     (let health = health_evaluate True True (re_hook_ready runtime) (re_root_ready runtime)
            (re_freezer_ready runtime) policy_ready
      in s\<lparr>ro_health_report_json := health_report_json health,
           ro_self_check_json := self_check_json_for_runtime health capabilities runtime,
           ro_compatibility_report_json := compatibility_json runtime capabilities,
           ro_control_allowed := allows_control runtime capabilities\<rparr>)"

definition path_exists :: "startup_env \<Rightarrow> string option \<Rightarrow> bool" where
  "path_exists env path = (case path of None \<Rightarrow> False | Some p \<Rightarrow> file_exists (se_file env p))"

definition refresh_runtime ::
  "startup_env \<Rightarrow> control_capability list \<Rightarrow> read_only_state \<Rightarrow> runtime_environment" where
  "refresh_runtime env capabilities s =
     (detect_runtime_environment env)
       \<lparr>re_verified_targets := map (\<lambda>(model, sdk). Verified_Target model sdk) (ro_verified_targets s),
        re_hook_ready := (ro_hook_health s = ''active''),
        re_freezer_ready := freezer_capability_ready capabilities\<rparr>"

definition refresh_runtime_diagnostics ::
  "startup_env \<Rightarrow> capability_cache \<Rightarrow> read_only_state \<Rightarrow> read_only_state \<times> capability_cache" where
  "refresh_runtime_diagnostics env cache s =
     (case discover_runtime_capabilities env cache of
        (capabilities, cache1) \<Rightarrow>
          let policy_ready = (path_exists env (ro_settings_path s) \<or> path_exists env (ro_app_config_path s))
          in (update_diagnostics (refresh_runtime env capabilities s) capabilities policy_ready
                (s\<lparr>ro_capability_report_json := capability_report_json capabilities\<rparr>), cache1))"

text \<open>What a probe of the hook leaves in the state.\<close>

definition note_hook_health :: "string res \<Rightarrow> read_only_state \<Rightarrow> read_only_state" where
  "note_hook_health answer s =
     (case answer of
        Inr payload \<Rightarrow>
          s\<lparr>ro_hook_health := health_label (classify_hook_health_payload payload), ro_xp_log := payload\<rparr>
      | Inl e \<Rightarrow>
          (let label = health_label (classify_bridge_error e)
           in s\<lparr>ro_hook_health := label, ro_xp_log := ''hook bridge '' @ label\<rparr>))"

subsection \<open>Starting\<close>

definition targets_at_startup :: "startup_env \<Rightarrow> daemon_paths \<Rightarrow> verified_target list" where
  "targets_at_startup env paths =
     (let allow = se_file env (dp_verified_targets paths)
      in case load_verified_targets (fv_text (se_file env (dp_rom_baseline paths))) (file_exists allow) (fv_text allow) of
           Inr targets \<Rightarrow> targets | Inl _ \<Rightarrow> [])"

definition manager_package :: string where "manager_package = ''io.github.jark006.freezeit''"

text \<open>The files of the module: its properties, change log and old log.\<close>

definition startup_files :: "startup_env \<Rightarrow> daemon_paths \<Rightarrow> read_only_state" where
  "startup_files env paths =
     (let dir = dp_module_dir paths;
          s0 = default_read_only_state\<lparr>ro_settings_path := Some (dp_settings_db paths),
                 ro_app_config_path := Some (dp_app_config paths), ro_app_label_path := Some (dp_app_label paths)\<rparr>;
          s1 = apply_module_prop (file_text (se_file env (dir @ ''/module.prop''))) s0;
          s2 = s1\<lparr>ro_changelog :=
                 (case read_first_existing_text env
                         [dir @ ''/CHANGELOG.md'', dir @ ''/changelog.md'', dir @ ''/changelog.txt''] of
                    Some t \<Rightarrow> t | None \<Rightarrow> [])\<rparr>
      in case read_first_existing_text env
                [dir @ ''/boot.log'', dir @ ''/freezeit.log'', dir @ ''/daemon.log''] of
           Some log \<Rightarrow> import_startup_log (se_clock env 0) (sanitize_startup_log log) s2
         | None \<Rightarrow> s2)"

text \<open>The policies, and who may talk to the daemon.\<close>

definition startup_policy ::
  "startup_env \<Rightarrow> loaded_policy_files \<Rightarrow> package_record list \<Rightarrow> read_only_state \<Rightarrow> read_only_state" where
  "startup_policy env policy packages s =
     s\<lparr>ro_settings := normalize_settings (lf_settings policy),
       ro_authorized_manager_uids :=
         bs_of_list (map pk_uid (filter (\<lambda>r. pk_package_name r = manager_package) packages)),
       ro_app_config := load_manager_app_config_records (lf_app_config policy) packages,
       ro_app_config_source_tokens := source_tokens_from_legacy_config (lf_app_config policy)
         (\<lambda>name. map_option pk_uid (find (\<lambda>r. pk_package_name r = name) packages))\<rparr>"

definition startup_runtime ::
  "startup_env \<Rightarrow> daemon_paths \<Rightarrow> control_capability list \<Rightarrow> read_only_state \<Rightarrow> runtime_environment" where
  "startup_runtime env paths capabilities s =
     (detect_runtime_environment env)
       \<lparr>re_verified_targets := targets_at_startup env paths,
        re_freezer_ready := freezer_capability_ready capabilities,
        re_hook_ready := (ro_hook_health s = ''active'')\<rparr>"

definition startup_device :: "startup_env \<Rightarrow> daemon_paths \<Rightarrow> read_only_state \<Rightarrow> read_only_state" where
  "startup_device env paths s =
     s\<lparr>ro_verified_targets := map (\<lambda>t. (vt_device_model t, vt_sdk t)) (targets_at_startup env paths),
       ro_android_version := detect_android_version env, ro_kernel_version := detect_kernel_version env,
       ro_cluster_num := detect_cpu_cluster_count env, ro_ext_memory_mib := detect_ext_memory_mib env,
       ro_work_mode := ''FreezerV2 / Rust daemon'', ro_daemon_health := ''active''\<rparr>"

definition startup_read_only_state_from_paths ::
  "startup_env \<Rightarrow> daemon_paths \<Rightarrow> capability_cache \<Rightarrow> read_only_state \<times> capability_cache" where
  "startup_read_only_state_from_paths env paths cache =
     (let policy = load_policy_files_recovering (se_file env) paths;
          packages = load_package_records env;
          s1 = startup_policy env policy packages (startup_files env paths);
          s2 = append_daemon_status_log (se_clock env 1) (startup_device env paths s1)
      in case discover_runtime_capabilities env cache of
           (capabilities, cache1) \<Rightarrow>
             let s3 = s2\<lparr>ro_capability_report_json := capability_report_json capabilities\<rparr>;
                 s4 = note_hook_health (se_hook env) s3
             in (update_diagnostics (startup_runtime env paths capabilities s4) capabilities
                   (policy_files_available policy) s4, cache1))"

text \<open>The first configuration of the hook.\<close>

definition sync_loaded_config_to_hook ::
  "u128 \<Rightarrow> (bytes \<Rightarrow> bool res) \<Rightarrow> read_only_state \<Rightarrow> bool res \<times> read_only_state" where
  "sync_loaded_config_to_hook now set_app_config s =
     (case encode_xposed_config_payload (ro_settings s) (encode_app_config (ro_app_config s)) of
        Inl e \<Rightarrow> (Inl e, s)
      | Inr payload \<Rightarrow>
          (case set_app_config payload of
             Inl e \<Rightarrow> (Inl e, s)
           | Inr synced \<Rightarrow>
               (Inr synced,
                s\<lparr>ro_hook_config_synced := synced,
                  ro_manager_log := log_push_once
                    (if synced then
                       diagnostic LL_Debug now (''hook config synced: managed_apps=''
                         @ show_nat (length (ro_app_config s)) @ '' settings='' @ show_nat (length (ro_settings s)))
                     else fault LL_Warn now ''hook config sync rejected'') (ro_manager_log s)\<rparr>)))"

text \<open>Everything before the server loop.\<close>

definition start_daemon ::
  "startup_env \<Rightarrow> daemon_paths \<Rightarrow> capability_cache \<Rightarrow> (bytes \<Rightarrow> bool res) \<Rightarrow> recovery_env \<Rightarrow>
   (u32 bset \<Rightarrow> (u32, runtime_process list) btree res) \<Rightarrow> kernel \<Rightarrow> read_only_state \<times> capability_cache \<times> kernel" where
  "start_daemon env paths cache set_app_config recovery discover k =
     (case startup_read_only_state_from_paths env paths cache of
        (s, cache1) \<Rightarrow>
          (case sync_loaded_config_to_hook (se_clock env 2) set_app_config s of
             (synced, s1) \<Rightarrow>
               let s2 = (case synced of
                     Inr _ \<Rightarrow> s1
                   | Inl e \<Rightarrow> s1\<lparr>ro_manager_log := log_push_once
                       (fault LL_Error (se_clock env 3) (''hook config sync failed: '' @ show_error e)) (ro_manager_log s1)\<rparr>)
               in case recover_stopped_managed_processes_after_restart recovery discover (se_clock env 4) s2 k of
                    (s3, k1) \<Rightarrow> (s3, cache1, k1)))"

subsection \<open>The state the daemon starts in\<close>

lemma import_lines_ok [wf_intros]: "log_wf l \<Longrightarrow> log_wf (fold (import_line now) ls l)"
  by (induction ls arbitrary: l) (auto simp: import_line_def wf_intros split: option.splits)

lemma module_prop_keeps [simp]:
  "ro_manager_log (apply_module_prop t s) = ro_manager_log s"
  "ro_config_revision (apply_module_prop t s) = ro_config_revision s"
  "ro_uid_time_totals (apply_module_prop t s) = ro_uid_time_totals s"
proof -
  have line: "ro_manager_log (apply_module_line l s) = ro_manager_log s \<and>
      ro_config_revision (apply_module_line l s) = ro_config_revision s \<and>
      ro_uid_time_totals (apply_module_line l s) = ro_uid_time_totals s" for l s
    by (simp add: apply_module_line_def Let_def split: option.splits prod.splits)
  have "ro_manager_log (fold apply_module_line ls s) = ro_manager_log s \<and>
      ro_config_revision (fold apply_module_line ls s) = ro_config_revision s \<and>
      ro_uid_time_totals (fold apply_module_line ls s) = ro_uid_time_totals s" for ls s
    by (induction ls arbitrary: s) (simp_all add: line)
  then show "ro_manager_log (apply_module_prop t s) = ro_manager_log s"
    "ro_config_revision (apply_module_prop t s) = ro_config_revision s"
    "ro_uid_time_totals (apply_module_prop t s) = ro_uid_time_totals s"
    by (simp_all add: apply_module_prop_def split: option.splits)
qed

lemma startup_files_ok:
  "log_wf (ro_manager_log (startup_files env paths)) \<and> ro_config_revision (startup_files env paths) = 0 \<and>
   ro_uid_time_totals (startup_files env paths) = []"
  by (auto simp: startup_files_def Let_def default_read_only_state_def wf_intros import_startup_log_def
      split: option.splits intro!: import_lines_ok)

lemma loaded_records_ok: "list_all record_ok (load_manager_app_config_records app_config packages)"
proof -
  have "is_i32 (lp_mode r)" if "parse_legacy_policy_line l = Some r" for l r
    using that by (auto simp: parse_legacy_policy_line_def parse_i32_range split: option.splits list.splits)
  then show ?thesis
    by (auto simp: load_manager_app_config_records_def Let_def list_all_iff mem_map_filter
        manager_record_of_def record_ok_def split: option.splits)
qed

lemma startup_ok: "manager_ok (fst (startup_read_only_state_from_paths env paths cache))"
proof -
  let ?s = "startup_policy env (load_policy_files_recovering (se_file env) paths) (load_package_records env)
      (startup_files env paths)"
  have s: "manager_ok ?s"
    using startup_files_ok [of env paths] loaded_records_ok normalize_settings_shape
    by (simp add: manager_ok_def startup_policy_def settings_shape_def totals_ok_def)
  have hook: "manager_ok (note_hook_health a t) = manager_ok t" for a t
    by (simp add: note_hook_health_def manager_ok_def Let_def split: sum.splits)
  have diag: "manager_ok (update_diagnostics r c b t) = manager_ok t" for r c b t
    by (simp add: update_diagnostics_def manager_ok_def Let_def)
  have device: "manager_ok (append_daemon_status_log now (startup_device env paths t))" if "manager_ok t" for now t
    using that by (simp add: append_daemon_status_log_def startup_device_def manager_ok_def wf_intros)
  have report: "manager_ok (t\<lparr>ro_capability_report_json := x\<rparr>) = manager_ok t" for t x
    by (simp add: manager_ok_def)
  show ?thesis
    using device [OF s]
    by (simp add: startup_read_only_state_from_paths_def Let_def hook diag report split: prod.splits)
qed

lemma sync_loaded_ok:
  "sync_loaded_config_to_hook now f s = (r, s') \<Longrightarrow> manager_ok s \<Longrightarrow> manager_ok s'"
  by (auto simp: sync_loaded_config_to_hook_def manager_ok_def wf_intros split: sum.splits)

lemma recovery_keeps_ok:
  "recover_stopped_managed_processes_after_restart env discover now s k = (s', k') \<Longrightarrow> manager_ok s \<Longrightarrow> manager_ok s'"
  by (auto simp: recover_stopped_managed_processes_after_restart_def manager_ok_def Let_def wf_intros
      split: if_splits sum.splits prod.splits)

text \<open>
  However the module's files, the packages, the device and the hook look, the daemon enters its
  server loop in a well-typed state: the settings are 256 bytes with the format byte even if the file is
  missing, truncated or foreign, every policy mode fits 32 bits, and the imported log is within bounds.
\<close>

lemma startup_state_type:
  "manager_ok (fst (start_daemon env paths cache set_app_config recovery discover k))"
proof -
  obtain s cache1 where s: "startup_read_only_state_from_paths env paths cache = (s, cache1)" by fastforce
  have ok: "manager_ok s" using startup_ok [of env paths cache] s by simp
  obtain r s1 where 1: "sync_loaded_config_to_hook (se_clock env 2) set_app_config s = (r, s1)" by fastforce
  note ok1 = sync_loaded_ok [OF 1 ok]
  define s2 where "s2 = (case r of Inr _ \<Rightarrow> s1 | Inl e \<Rightarrow> s1\<lparr>ro_manager_log := log_push_once
      (fault LL_Error (se_clock env 3) (''hook config sync failed: '' @ show_error e)) (ro_manager_log s1)\<rparr>)"
  have ok2: "manager_ok s2" using ok1 by (simp add: s2_def manager_ok_def wf_intros split: sum.splits)
  obtain s3 k1 where 3: "recover_stopped_managed_processes_after_restart recovery discover (se_clock env 4) s2 k = (s3, k1)"
    by fastforce
  have "start_daemon env paths cache set_app_config recovery discover k = (s3, cache1, k1)"
    by (simp add: start_daemon_def s 1 s2_def [symmetric] 3 Let_def)
  then show ?thesis using recovery_keeps_ok [OF 3 ok2] by simp
qed

text \<open>
  C25.  The daemon starts with control allowed exactly on a device listed in the verified targets of the
  module, running API 31 or later with a detected kernel, as root, with a hook whose own report says
  active, and with the cgroup freezer available and not disabled among the discovered capabilities.
\<close>

theorem startup_control_gate:
  "ro_control_allowed (fst (startup_read_only_state_from_paths env paths cache)) =
    (let capabilities = fst (discover_runtime_capabilities env cache);
         device = detect_runtime_environment env
     in (\<exists>t \<in> set (targets_at_startup env paths).
           eq_ignore_ascii_case (vt_device_model t) (re_device_model device) \<and> vt_sdk t = re_sdk device) \<and>
        re_sdk device \<ge> 31 \<and> has_kernel_release (detect_kernel_version env) \<and> se_root env \<and>
        (\<exists>report. se_hook env = Inr report \<and> classify_hook_health_payload report = HB_Active) \<and>
        (\<exists>c \<in> set capabilities. cc_name c = CN_CgroupV2Freezer \<and> cc_status c = CS_Available) \<and>
        filter (\<lambda>c. cc_name c = CN_CgroupV2Freezer \<and>
           \<not> (cc_status c = CS_Available \<and> cc_risk_level c \<noteq> RL_Disabled)) capabilities = [])"
proof -
  have label: "health_label st = ''active'' \<longleftrightarrow> st = HB_Active" for st
    by (cases st) (simp_all add: health_label_def)
  have error: "classify_bridge_error e \<noteq> HB_Active" for e by (simp add: classify_bridge_error_def Let_def)
  have hook: "ro_hook_health (note_hook_health a s) = ''active'' \<longleftrightarrow>
      (\<exists>report. a = Inr report \<and> classify_hook_health_payload report = HB_Active)" for a s
    using error by (cases a) (simp_all add: note_hook_health_def Let_def label)
  show ?thesis
    by (simp add: startup_read_only_state_from_paths_def Let_def update_diagnostics_def allows_control_def
        startup_runtime_def env_verified_target_def runtime_compatible_def detect_runtime_environment_def
        runtime_environment_new_def freezer_capability_ready_def list_ex_iff list_all_iff hook
        filter_empty_conv split: prod.splits)
qed

end
