(* ===== verification/Control_Pass.thy ===== *)
theory Control_Pass
  imports Transactions
begin

text \<open>
  The control pass (\<^verbatim>\<open>run_control_pass_with_sampling_and_terminate\<close> of
  \<^verbatim>\<open>app/controller.rs\<close>): for every controlled application decide whether to thaw,
  wait, freeze, stop or terminate it, and do so.  The loop body is cut at its early
  \<^verbatim>\<open>continue\<close>s into the steps below, in the order of the source; \<open>control_record\<close>
  chains them.
\<close>

subsection \<open>Before the loop\<close>

definition controlled_uids :: "manager_app_config_record list \<Rightarrow> u32 list" where
  "controlled_uids app_config =
     map ac_uid (filter (\<lambda>record. is_control_policy_mode (ac_mode record)) app_config)"

definition forget_uncontrolled :: "u32 list \<Rightarrow> runtime_control_state \<Rightarrow> runtime_control_state" where
  "forget_uncontrolled controlled s =
     (let stale_uids = bs_of_list (filter (\<lambda>uid. uid \<notin> set controlled)
            (map snd (bt_keys (rc_pending_freezes s))
              @ map snd (filter (\<lambda>i. snd i \<notin> set controlled) (rc_frozen_apps s))
              @ map snd (bt_keys (rc_frozen_ownership s))))
      in s\<lparr>rc_pending_freezes := bt_retain (\<lambda>i. snd i \<in> set controlled) (rc_pending_freezes s),
           rc_blocked_process_signatures :=
             bt_retain (\<lambda>i. snd i \<in> set controlled) (rc_blocked_process_signatures s),
           rc_network_restriction_requests :=
             filter (\<lambda>uid. uid \<in> set controlled) (rc_network_restriction_requests s),
           rc_status_since_ms := bt_retain (\<lambda>uid. uid \<in> set controlled) (rc_status_since_ms s),
           rc_download_deferral := fold clear_uid stale_uids (rc_download_deferral s)\<rparr>)"

definition release_uncontrolled ::
  "control_env \<Rightarrow> manager_app_config_record list \<Rightarrow> u128 \<Rightarrow> runtime_control_state \<Rightarrow> history \<Rightarrow>
   runtime_control_state \<times> history" where
  "release_uncontrolled env app_config timestamp_ms s h =
     (let controlled = controlled_uids app_config;
          stale_frozen = filter (\<lambda>i. snd i \<notin> set controlled) (rc_frozen_apps s)
      in case thaw_frozen_identities env timestamp_ms ''control policy removed'' stale_frozen
                (forget_uncontrolled controlled s) h of
           (_, s1, h1) \<Rightarrow> (clear_detached (\<lambda>i. snd i \<notin> set controlled) s1, h1))"

subsection \<open>Applications that may not be controlled now\<close>

definition no_processes :: "u32 \<Rightarrow> runtime_control_state \<Rightarrow> runtime_control_state" where
  "no_processes uid s =
     (let s1 = clear_transient_control_state_for_uid uid s;
          tracked = bs_of_list (filter (\<lambda>i. snd i = uid)
            (rc_frozen_apps s1 @ bt_keys (rc_frozen_ownership s1)))
      in fold clear_frozen tracked s1)"

definition smallest_package :: "runtime_process list \<Rightarrow> string" where
  "smallest_package processes = Min (set (map rp_package_name processes))"

definition control_blocked ::
  "control_env \<Rightarrow> u128 \<Rightarrow> u32 \<Rightarrow> runtime_control_state \<Rightarrow> history \<Rightarrow> runtime_control_state \<times> history" where
  "control_blocked env timestamp_ms uid s h =
     (let s1 = clear_transient_control_state_for_uid uid s
      in case thaw_frozen_identities env timestamp_ms ''policy or protected package blocks control''
                (filter (\<lambda>i. snd i = uid) (rc_frozen_apps s1)) s1 h of
           (_, s2, h2) \<Rightarrow> (clear_detached (\<lambda>i. snd i = uid) s2, h2))"

definition process_signature_of :: "runtime_process list \<Rightarrow> process_signature" where
  "process_signature_of processes =
     sort (map (\<lambda>p. (rp_pid p, rp_package_name p, rp_start_time_ticks p)) processes)"

definition drop_old_block ::
  "runtime_identity \<Rightarrow> runtime_control_state \<Rightarrow> runtime_control_state" where
  "drop_old_block identity s =
     s\<lparr>rc_blocked_process_signatures := bt_remove identity (rc_blocked_process_signatures s)\<rparr>"

definition set_block ::
  "runtime_identity \<Rightarrow> process_signature \<Rightarrow> runtime_control_state \<Rightarrow> runtime_control_state" where
  "set_block identity signature s =
     s\<lparr>rc_blocked_process_signatures := bt_insert identity signature (rc_blocked_process_signatures s)\<rparr>"

subsection \<open>Thawing a tracked application\<close>

definition log_unfreeze ::
  "u128 \<Rightarrow> runtime_identity \<Rightarrow> runtime_process list \<Rightarrow> frozen_ownership \<Rightarrow> unfreeze_outcome \<Rightarrow> string \<Rightarrow>
   string \<Rightarrow> runtime_control_state \<Rightarrow> runtime_control_state" where
  "log_unfreeze timestamp_ms identity processes ownership outcome success failure_prefix s =
     log_operation timestamp_ms
       (new_operation identity (map rp_pid processes) CA_Unfreeze (unfreeze_backend ownership processes)
          (if uo_failures outcome = [] then success
           else failure_prefix @ str_join ''; '' (uo_failures outcome))
          (unfreeze_result outcome) (operation_details processes)) s"

definition foreground_step ::
  "control_env \<Rightarrow> u128 \<Rightarrow> runtime_identity \<Rightarrow> runtime_process list \<Rightarrow> runtime_control_state \<Rightarrow> history \<Rightarrow>
   runtime_control_state \<times> history" where
  "foreground_step env timestamp_ms identity processes s h =
     (let s1 = remove_pending identity s
      in if identity \<notin> set (rc_frozen_apps s1) then (s1, h)
         else
           let ownership = frozen_ownership_of identity s1
           in case unfreeze_identity_processes env (fst identity) processes ownership h of
                (outcome, h1) \<Rightarrow>
                  let s2 = (if uo_failures outcome = [] then clear_frozen identity s1 else s1)
                  in (log_unfreeze timestamp_ms identity processes ownership outcome
                        ''foreground uid active'' [] s2, h1))"

definition wakeup_step ::
  "control_env \<Rightarrow> bytes \<Rightarrow> u128 \<Rightarrow> runtime_identity \<Rightarrow> runtime_process list \<Rightarrow> runtime_control_state \<Rightarrow>
   history \<Rightarrow> runtime_control_state \<times> history" where
  "wakeup_step env settings timestamp_ms identity processes s h =
     (let ownership = frozen_ownership_of identity s
      in case unfreeze_identity_processes env (fst identity) processes ownership h of
           (outcome, h1) \<Rightarrow>
             let s1 = (if uo_failures outcome = []
                       then set_pending identity
                              (sat_add_u128 timestamp_ms (manager_wakeup_duration_ms settings))
                              (clear_frozen identity s)
                       else s)
             in (log_unfreeze timestamp_ms identity processes ownership outcome
                   (''periodic wakeup after ''
                     @ show_nat (case manager_wakeup_interval_ms settings of None \<Rightarrow> 0 | Some n \<Rightarrow> n)
                     @ ''ms; refreeze in '' @ show_nat (manager_wakeup_duration_ms settings) @ ''ms'')
                   ''periodic wakeup failed; '' s1, h1))"

subsection \<open>Waiting\<close>

text \<open>A gate says whether the application has to wait for a later pass.\<close>

definition delay_gate ::
  "bytes \<Rightarrow> u128 \<Rightarrow> bool \<Rightarrow> manager_app_config_record \<Rightarrow> runtime_identity \<Rightarrow> runtime_process list \<Rightarrow>
   runtime_control_state \<Rightarrow> bool \<times> runtime_control_state" where
  "delay_gate settings timestamp_ms abnormal_thaw record identity processes s =
     (let delay_ms = manager_policy_delay_ms record settings
      in if abnormal_thaw \<or> delay_ms = 0 then (False, s)
         else case bt_get (rc_pending_freezes s) identity of
           Some due_at_ms \<Rightarrow> (timestamp_ms < due_at_ms, s)
         | None \<Rightarrow>
             (True, forget_since_if_untracked identity
                (log_operation timestamp_ms
                   (new_operation identity (map rp_pid processes) CA_Postpone (backend_name processes)
                      (''pending freeze delay '' @ show_nat delay_ms @ ''ms'') OR_Postponed
                      (operation_details processes))
                   (set_pending identity (timestamp_ms + delay_ms) s))))"

definition evaluate_download ::
  "u32 \<Rightarrow> string \<Rightarrow> uid_rx_sample \<Rightarrow> u128 \<Rightarrow> runtime_control_state \<Rightarrow>
   download_deferral_action \<times> runtime_control_state" where
  "evaluate_download uid package_name smp timestamp_ms s =
     (case evaluate_deferral uid package_name smp timestamp_ms (rc_download_deferral s) of
        (action, samples) \<Rightarrow> (action, s\<lparr>rc_download_deferral := samples\<rparr>))"

definition rx_sample_of :: "u64 option res \<Rightarrow> uid_rx_sample" where
  "rx_sample_of r =
     (case r of
        Inr (Some v) \<Rightarrow> Rx_Value v
      | Inr None \<Rightarrow> Rx_Missing
      | Inl _ \<Rightarrow> Rx_Failed)"

definition download_gate ::
  "control_env \<Rightarrow> u128 \<Rightarrow> runtime_identity \<Rightarrow> runtime_process list \<Rightarrow> runtime_control_state \<Rightarrow> history \<Rightarrow>
   bool \<times> runtime_control_state \<times> history" where
  "download_gate env timestamp_ms identity processes s h =
     (if \<not> is_candidate_package (fst identity) then
        (False, snd (evaluate_download (snd identity) (fst identity) Rx_Missing timestamp_ms s), h)
      else
        let smp = ce_sample env h (snd identity) (fst identity);
            h1 = E_Sample (snd identity) (fst identity) smp # h
        in case evaluate_download (snd identity) (fst identity) (rx_sample_of smp) timestamp_ms s of
             (DD_Proceed, s1) \<Rightarrow> (False, s1, h1)
           | (DD_Postpone, s1) \<Rightarrow>
               let retry_ms = (if is_ok smp then initial_sample_delay_ms else download_retry_delay_ms);
                   previous_due = bt_get (rc_pending_freezes s1) identity;
                   s2 = set_pending identity (timestamp_ms + retry_ms) s1;
                   s3 = (if previous_due = None
                         then log_operation timestamp_ms
                           (new_operation identity (map rp_pid processes) CA_Postpone
                              (backend_name processes)
                              (if is_ok smp then ''download activity sampling/threshold''
                               else ''download sampling failed; fail-safe postpone'')
                              OR_Postponed (operation_details processes)) s2
                         else s2)
               in (True, forget_since_if_untracked identity s3, h1))"

subsection \<open>Deciding\<close>

definition pending_view :: "runtime_process \<Rightarrow> runtime_process" where
  "pending_view p = p\<lparr>rp_control_state := CT_PendingFreeze\<rparr>"

definition control_backend_environment :: "runtime_process list \<Rightarrow> bool \<Rightarrow> backend_environment" where
  "control_backend_environment processes binder_available =
    \<lparr>be_cgroup_available = all_have_cgroup processes, be_binder_available = binder_available,
     be_network_available = True, be_wakelock_available = True, be_screen_state_available = True,
     be_hook_fresh = True\<rparr>"

definition control_decision ::
  "manager_app_config_record \<Rightarrow> bytes \<Rightarrow> managed_app \<Rightarrow> freeze_policy \<Rightarrow> runtime_process list \<Rightarrow> bool \<Rightarrow>
   freeze_decision" where
  "control_decision record settings app policy pending binder_available =
     (if \<not> is_control_allowed_for policy app
        then decide DA_Skip ''policy or protected package blocks control''
      else case requested_control_backend record settings of
        RB_Terminate \<Rightarrow> decide DA_Terminate ''SIGKILL selected by manager policy''
      | RB_Signal \<Rightarrow>
          decide DA_Signal
            (if ac_mode record = 20 \<or> ac_mode record = 21 then ''SIGSTOP selected by manager policy''
             else ''global SIGSTOP selected for freezer policy'')
      | RB_Freezer \<Rightarrow>
          can_freeze (control_backend_environment pending binder_available) app policy pending)"

subsection \<open>Acting\<close>

text \<open>How acting on an application ends: with nothing more to log, with an action and result for the
  log, or with an error that aborts the pass.\<close>

datatype action_end = AE_Logged | AE_Done control_action operation_result | AE_Error daemon_error

definition shared_uid_message :: string where
  "shared_uid_message = ''shared uid contains multiple package identities''"

definition request_network_restriction ::
  "manager_app_config_record \<Rightarrow> runtime_control_state \<Rightarrow> runtime_control_state" where
  "request_network_restriction record s =
     (if mode_has_network_restriction (ac_mode record)
      then requeue_network_restriction_uid (ac_uid record) s else s)"

definition fallback_signal ::
  "control_env \<Rightarrow> u128 \<Rightarrow> manager_app_config_record \<Rightarrow> runtime_identity \<Rightarrow> runtime_process list \<Rightarrow>
   runtime_control_state \<Rightarrow> history \<Rightarrow>
   (control_action \<times> operation_result \<times> string \<times> string) \<times> runtime_control_state \<times> history" where
  "fallback_signal env timestamp_ms record identity pending s h =
     (case apply_signal_stop_freeze_transaction env pending LP_Never h of
        (outcome, h1) \<Rightarrow>
          let transaction = so_transaction outcome
          in case ft_failure transaction of
               None \<Rightarrow>
                 ((CA_Freeze, OR_Success, ''signal.stop'',
                   ''signal_applied='' @ show_nat (ft_applied transaction)),
                  request_network_restriction record
                    (track_frozen identity timestamp_ms (outcome_ownership outcome) s), h1)
             | Some failure \<Rightarrow>
                 ((CA_Fallback,
                   (if ft_rollback_failures transaction = 0 then OR_Failed else OR_Partial),
                   ''signal.stop'',
                   ''signal_failure='' @ failure @ '' signal_applied='' @ show_nat (ft_applied transaction)
                     @ '' signal_rolled_back='' @ show_nat (ft_rolled_back transaction)
                     @ '' signal_rollback_failures='' @ show_nat (ft_rollback_failures transaction)),
                  (if ft_rollback_failures transaction > 0
                   then track_frozen identity timestamp_ms FO_ResidualUnknown s else s), h1))"

definition freeze_failed ::
  "control_env \<Rightarrow> u128 \<Rightarrow> manager_app_config_record \<Rightarrow> freeze_policy \<Rightarrow> runtime_identity \<Rightarrow>
   runtime_process list \<Rightarrow> process_signature \<Rightarrow> freeze_transaction_outcome \<Rightarrow> string \<Rightarrow>
   runtime_control_state \<Rightarrow> history \<Rightarrow> runtime_control_state \<times> history" where
  "freeze_failed env timestamp_ms record policy identity pending signature outcome failure s h =
     (let s1 = (if str_contains failure shared_uid_message then set_block identity signature s else s);
          s2 = (if ft_residual_possible outcome
                then track_frozen identity timestamp_ms FO_ResidualUnknown s1 else s1);
          fallback = fallback_after_freeze_apply_error policy (System_Error failure)
      in case (if fd_action fallback = DA_Signal
               then fallback_signal env timestamp_ms record identity pending s2 h
               else
                 let (action, result) = operation_from_fallback (fd_action fallback)
                 in ((action, result, backend_name pending, []), s2, h)) of
           ((action, result, backend, fallback_details), s3, h1) \<Rightarrow>
             let s4 = (if result = OR_Success \<and> action = CA_Freeze
                       then request_network_restriction record s3 else s3);
                 operation = new_operation identity (map rp_pid pending) action backend
                   (fd_reason fallback @ ''; primary_transaction='' @ failure
                     @ ''; primary_rolled_back='' @ show_nat (ft_rolled_back outcome) @ ''/''
                     @ show_nat (ft_applied outcome)
                     @ '' rollback_failures='' @ show_nat (ft_rollback_failures outcome))
                   result (operation_details pending @ '' '' @ fallback_details)
             in (forget_since_if_untracked identity
                   (log_operation timestamp_ms operation (remove_pending identity s4)), h1))"

definition show_pid_list :: "i32 list \<Rightarrow> string" where
  "show_pid_list pids = ''['' @ str_join '', '' (map show_int pids) @ '']''"

definition new_pids_of :: "u32 \<Rightarrow> runtime_process list \<Rightarrow> runtime_process list \<Rightarrow> i32 list" where
  "new_pids_of uid original found =
     map rp_pid (filter (\<lambda>p. rp_uid p = uid \<and> rp_pid p \<notin> set (map rp_pid original)) found)"

definition undo_freeze ::
  "control_env \<Rightarrow> u128 \<Rightarrow> runtime_identity \<Rightarrow> freeze_decision \<Rightarrow> runtime_process list \<Rightarrow> i32 list \<Rightarrow>
   runtime_control_state \<Rightarrow> history \<Rightarrow> runtime_control_state \<times> history" where
  "undo_freeze env timestamp_ms identity decision found new_pids s h =
     (case unfreeze_identity_processes env (fst identity) found FO_CgroupBinder h of
        (rollback, h1) \<Rightarrow>
          let s1 = (if uo_failures rollback = [] then clear_frozen identity s
                    else track_frozen identity timestamp_ms FO_ResidualUnknown s);
              operation = new_operation identity (map rp_pid found) CA_Freeze (backend_name found)
                (fd_reason decision @ ''; new same-uid process appeared after freeze'') OR_Partial
                (operation_details found @ '' new_pids='' @ show_pid_list new_pids
                  @ '' rollback_applied='' @ show_nat (uo_applied rollback) @ '' rollback_failures=''
                  @ (if uo_failures rollback = [] then ''none''
                     else str_join ''; '' (uo_failures rollback)))
          in (forget_since_if_untracked identity
                (log_operation timestamp_ms operation (remove_pending identity s1)), h1))"

definition freeze_action ::
  "control_env \<Rightarrow> u128 \<Rightarrow> manager_app_config_record \<Rightarrow> freeze_policy \<Rightarrow> runtime_identity \<Rightarrow>
   runtime_process list \<Rightarrow> process_signature \<Rightarrow> freeze_decision \<Rightarrow> runtime_control_state \<Rightarrow> history \<Rightarrow>
   action_end \<times> runtime_control_state \<times> history" where
  "freeze_action env timestamp_ms record policy identity pending signature decision s h =
     (case apply_freeze_transaction env False pending h of
        (outcome, h1) \<Rightarrow>
          (case ft_failure outcome of
             Some failure \<Rightarrow>
               (case freeze_failed env timestamp_ms record policy identity pending signature outcome
                       failure s h1 of
                  (s1, h2) \<Rightarrow> (AE_Logged, s1, h2))
           | None \<Rightarrow>
               let name = fallback_package_name (ac_uid record);
                   found = ce_discover env h1 name (ac_uid record);
                   h2 = E_Discover name (ac_uid record) found # h1
               in case found of
                    Inl e \<Rightarrow> (AE_Error e, s, h2)
                  | Inr post \<Rightarrow>
                      let new_pids = new_pids_of (ac_uid record) pending post
                      in if new_pids \<noteq> [] then
                           (case undo_freeze env timestamp_ms identity decision post new_pids s h2 of
                              (s1, h3) \<Rightarrow> (AE_Logged, s1, h3))
                         else
                           (AE_Done CA_Freeze OR_Success,
                            remove_pending identity (request_network_restriction record
                              (track_frozen identity timestamp_ms FO_CgroupBinder s)), h2)))"

definition signal_action_step ::
  "control_env \<Rightarrow> u128 \<Rightarrow> manager_app_config_record \<Rightarrow> runtime_identity \<Rightarrow> runtime_process list \<Rightarrow>
   process_signature \<Rightarrow> freeze_decision \<Rightarrow> runtime_control_state \<Rightarrow> history \<Rightarrow>
   action_end \<times> runtime_control_state \<times> history" where
  "signal_action_step env timestamp_ms record identity pending signature decision s h =
     (case signal_stop_ledger_promotion_for env s identity pending h of
        (promotion, h1) \<Rightarrow>
          (case apply_signal_stop_freeze_transaction env pending promotion h1 of
             (outcome, h2) \<Rightarrow>
               let transaction = so_transaction outcome
               in case ft_failure transaction of
                    Some failure \<Rightarrow>
                      let s1 = (if str_contains failure shared_uid_message
                                then set_block identity signature s else s);
                          s2 = (if ft_rollback_failures transaction > 0
                                then track_frozen identity timestamp_ms FO_ResidualUnknown s1 else s1);
                          operation = new_operation identity (map rp_pid pending) CA_Freeze
                            ''signal.stop'' (fd_reason decision @ ''; '' @ failure)
                            (if ft_rollback_failures transaction = 0 then OR_Failed else OR_Partial)
                            (operation_details pending
                              @ '' signaled='' @ show_nat (ft_applied transaction)
                              @ '' rolled_back='' @ show_nat (ft_rolled_back transaction)
                              @ '' rollback_failures='' @ show_nat (ft_rollback_failures transaction))
                      in (AE_Logged, forget_since_if_untracked identity (remove_pending identity
                            (log_operation timestamp_ms operation s2)), h2)
                  | None \<Rightarrow>
                      (AE_Done CA_Freeze OR_Success,
                       remove_pending identity (request_network_restriction record
                         (track_frozen identity timestamp_ms (outcome_ownership outcome) s)), h2)))"

definition terminate_action ::
  "control_env \<Rightarrow> u128 \<Rightarrow> runtime_identity \<Rightarrow> runtime_process list \<Rightarrow> freeze_decision \<Rightarrow>
   runtime_control_state \<Rightarrow> history \<Rightarrow> action_end \<times> runtime_control_state \<times> history" where
  "terminate_action env timestamp_ms identity pending decision s h =
     (case apply_terminate_transaction env pending h of
        (outcome, h1) \<Rightarrow>
          (case tt_failure outcome of
             Some failure \<Rightarrow>
               (AE_Logged,
                log_operation timestamp_ms
                  (new_operation identity (map rp_pid pending) CA_Terminate ''signal.kill''
                     (fd_reason decision @ ''; '' @ failure)
                     (if tt_applied outcome = 0 then OR_Failed else OR_Partial)
                     (operation_details pending @ '' sigkill_applied='' @ show_nat (tt_applied outcome))) s,
                h1)
           | None \<Rightarrow>
               (AE_Done CA_Terminate OR_Success, clear_frozen identity (remove_pending identity s), h1)))"

definition control_action_step ::
  "control_env \<Rightarrow> u128 \<Rightarrow> manager_app_config_record \<Rightarrow> freeze_policy \<Rightarrow> runtime_identity \<Rightarrow>
   runtime_process list \<Rightarrow> process_signature \<Rightarrow> freeze_decision \<Rightarrow> runtime_control_state \<Rightarrow> history \<Rightarrow>
   action_end \<times> runtime_control_state \<times> history" where
  "control_action_step env timestamp_ms record policy identity pending signature decision s h =
     (case fd_action decision of
        DA_Freeze \<Rightarrow> freeze_action env timestamp_ms record policy identity pending signature decision s h
      | DA_Postpone \<Rightarrow> (AE_Done CA_Postpone OR_Postponed, s, h)
      | DA_AlternateFreezer \<Rightarrow> (AE_Done CA_Fallback OR_Failed, s, h)
      | DA_Signal \<Rightarrow> signal_action_step env timestamp_ms record identity pending signature decision s h
      | DA_Terminate \<Rightarrow> terminate_action env timestamp_ms identity pending decision s h
      | DA_Skip \<Rightarrow> (AE_Done CA_Skip OR_Skipped, s, h))"

definition finish_action ::
  "bytes \<Rightarrow> u128 \<Rightarrow> bool \<Rightarrow> manager_app_config_record \<Rightarrow> runtime_identity \<Rightarrow> runtime_process list \<Rightarrow>
   freeze_decision \<Rightarrow> control_action \<Rightarrow> operation_result \<Rightarrow> runtime_control_state \<Rightarrow>
   runtime_control_state" where
  "finish_action settings timestamp_ms abnormal_thaw record identity pending decision action result s =
     log_operation timestamp_ms
       (new_operation identity (map rp_pid pending) action
          (if fd_action decision = DA_Signal then ''signal.stop''
           else operation_backend (requested_control_backend record settings) pending)
          (if abnormal_thaw then ''abnormal thaw audit; '' @ fd_reason decision else fd_reason decision)
          result (operation_details pending))
       (forget_since_if_untracked identity s)"

subsection \<open>The loop body\<close>

definition act_on ::
  "control_env \<Rightarrow> bytes \<Rightarrow> u128 \<Rightarrow> bool \<Rightarrow> manager_app_config_record \<Rightarrow> runtime_identity \<Rightarrow>
   runtime_process list \<Rightarrow> runtime_control_state \<Rightarrow> history \<Rightarrow>
   daemon_error option \<times> runtime_control_state \<times> history" where
  "act_on env settings timestamp_ms abnormal_thaw record identity processes s h =
     (let policy = policy_from_record record;
          app = managed_app_from_record (fst identity) (ac_uid record);
          pending = map pending_view processes;
          binder_available = ce_binder env h;
          decision = control_decision record settings app policy pending binder_available
      in case control_action_step env timestamp_ms record policy identity pending
                (process_signature_of processes) decision s (E_Binder binder_available # h) of
           (AE_Error e, s1, h1) \<Rightarrow> (Some e, s1, h1)
         | (AE_Logged, s1, h1) \<Rightarrow> (None, s1, h1)
         | (AE_Done action result, s1, h1) \<Rightarrow>
             (None, finish_action settings timestamp_ms abnormal_thaw record identity pending decision
                action result s1, h1))"

definition background_step ::
  "control_env \<Rightarrow> bytes \<Rightarrow> u128 \<Rightarrow> bool \<Rightarrow> manager_app_config_record \<Rightarrow> runtime_identity \<Rightarrow>
   runtime_process list \<Rightarrow> runtime_control_state \<Rightarrow> history \<Rightarrow>
   daemon_error option \<times> runtime_control_state \<times> history" where
  "background_step env settings timestamp_ms abnormal_thaw record identity processes s h =
     (case delay_gate settings timestamp_ms abnormal_thaw record identity processes s of
        (True, s1) \<Rightarrow> (None, s1, h)
      | (False, s1) \<Rightarrow>
          (case download_gate env timestamp_ms identity processes s1 h of
             (True, s2, h1) \<Rightarrow> (None, s2, h1)
           | (False, s2, h1) \<Rightarrow>
               act_on env settings timestamp_ms abnormal_thaw record identity processes s2 h1))"

definition tracked_step ::
  "control_env \<Rightarrow> bytes \<Rightarrow> u128 \<Rightarrow> bool \<Rightarrow> manager_app_config_record \<Rightarrow> runtime_identity \<Rightarrow>
   runtime_process list \<Rightarrow> runtime_control_state \<Rightarrow> history \<Rightarrow>
   daemon_error option \<times> runtime_control_state \<times> history" where
  "tracked_step env settings timestamp_ms audit_due record identity processes s h =
     (if identity \<notin> set (rc_frozen_apps s)
        then background_step env settings timestamp_ms False record identity processes s h
      else if periodic_wakeup_due s identity settings timestamp_ms
        then (None, wakeup_step env settings timestamp_ms identity processes s h)
      else if \<not> audit_due \<or> \<not> list_ex (\<lambda>p. rp_control_state p = CT_Running) processes
        then (None, s, h)
      else background_step env settings timestamp_ms True record identity processes
             (mark_abnormal_thaw_for_refreeze identity s) h)"

definition control_record ::
  "control_env \<Rightarrow> bytes \<Rightarrow> u32 list \<Rightarrow> u128 \<Rightarrow> bool \<Rightarrow> manager_app_config_record \<Rightarrow>
   runtime_control_state \<Rightarrow> history \<Rightarrow> daemon_error option \<times> runtime_control_state \<times> history" where
  "control_record env settings foreground_uids timestamp_ms audit_due record s h =
     (let uid = ac_uid record; name = fallback_package_name uid
      in if \<not> is_control_policy_mode (ac_mode record) then (None, s, h)
         else
           let found = ce_discover env h name uid; h1 = E_Discover name uid found # h
           in case found of
                Inl e \<Rightarrow> (Some e, s, h1)
              | Inr processes \<Rightarrow>
                  if processes = [] then (None, no_processes uid s, h1)
                  else
                    let package_name = smallest_package processes;
                        identity = (package_name, uid)
                    in if \<not> is_control_allowed_for (policy_from_record record)
                             (managed_app_from_record package_name uid)
                         then (None, control_blocked env timestamp_ms uid s h1)
                       else
                         let blocked = bt_get (rc_blocked_process_signatures s) identity
                         in if blocked = Some (process_signature_of processes) then (None, s, h1)
                            else
                              let s1 = (if blocked \<noteq> None then drop_old_block identity s else s)
                              in if uid \<in> set foreground_uids
                                   then (None, foreground_step env timestamp_ms identity processes s1 h1)
                                 else tracked_step env settings timestamp_ms audit_due record identity
                                        processes s1 h1)"

fun control_records ::
  "control_env \<Rightarrow> bytes \<Rightarrow> u32 list \<Rightarrow> u128 \<Rightarrow> bool \<Rightarrow> manager_app_config_record list \<Rightarrow>
   runtime_control_state \<Rightarrow> history \<Rightarrow> daemon_error option \<times> runtime_control_state \<times> history" where
  "control_records env settings foreground_uids timestamp_ms audit_due [] s h = (None, s, h)"
| "control_records env settings foreground_uids timestamp_ms audit_due (record # records) s h =
     (case control_record env settings foreground_uids timestamp_ms audit_due record s h of
        (Some e, s1, h1) \<Rightarrow> (Some e, s1, h1)
      | (None, s1, h1) \<Rightarrow>
          control_records env settings foreground_uids timestamp_ms audit_due records s1 h1)"

definition run_control_pass ::
  "control_env \<Rightarrow> manager_app_config_record list \<Rightarrow> bytes \<Rightarrow> u32 list \<Rightarrow> u128 \<Rightarrow> runtime_control_state \<Rightarrow>
   history \<Rightarrow> unit res \<times> runtime_control_state \<times> history" where
  "run_control_pass env app_config settings foreground_uids timestamp_ms s h =
     (case release_uncontrolled env app_config timestamp_ms s h of
        (s1, h1) \<Rightarrow>
          (case refreeze_audit_due settings timestamp_ms s1 of
             (audit_due, s2) \<Rightarrow>
               (case control_records env settings foreground_uids timestamp_ms audit_due app_config s2 h1 of
                  (Some e, s3, h3) \<Rightarrow> (Inl e, s3, h3)
                | (None, s3, h3) \<Rightarrow> (Inr (), s3, h3))))"

subsection \<open>The state invariant through a pass\<close>

lemma forget_uncontrolled_ok [wf_intros]:
  "control_state_ok s \<Longrightarrow> control_state_ok (forget_uncontrolled controlled s)"
proof -
  have "bt_wf d \<Longrightarrow> bt_wf (fold clear_uid uids d)" for d :: download_deferral and uids
    by (induction uids arbitrary: d) (simp_all add: clear_uid_def)
  then show "control_state_ok s \<Longrightarrow> control_state_ok (forget_uncontrolled controlled s)"
    by (simp add: control_state_ok_defs forget_uncontrolled_def Let_def)
qed

lemma release_uncontrolled_ok [wf_intros]:
  assumes "control_state_ok s"
  shows "control_state_ok (fst (release_uncontrolled env cfg t s h))"
proof -
  let ?i = "filter (\<lambda>i. snd i \<notin> set (controlled_uids cfg)) (rc_frozen_apps s)"
  have "control_state_ok (fst (snd (thaw_frozen_identities env t ''control policy removed'' ?i
      (forget_uncontrolled (controlled_uids cfg) s) h)))"
    using assms by (intro wf_intros)
  then show ?thesis
    by (auto simp: release_uncontrolled_def Let_def split: prod.splits intro: wf_intros)
qed

lemma no_processes_ok [wf_intros]: "control_state_ok s \<Longrightarrow> control_state_ok (no_processes uid s)"
proof -
  have "control_state_ok s \<Longrightarrow> control_state_ok (fold clear_frozen ids s)" for ids s
    by (induction ids arbitrary: s) (auto intro: wf_intros)
  then show "control_state_ok s \<Longrightarrow> control_state_ok (no_processes uid s)"
    by (simp add: no_processes_def Let_def clear_transient_ok)
qed

lemma control_blocked_ok [wf_intros]:
  assumes "control_state_ok s"
  shows "control_state_ok (fst (control_blocked env t uid s h))"
proof -
  let ?s = "clear_transient_control_state_for_uid uid s"
  have "control_state_ok (fst (snd (thaw_frozen_identities env t ''policy or protected package blocks control''
      (filter (\<lambda>i. snd i = uid) (rc_frozen_apps ?s)) ?s h)))"
    using assms by (intro wf_intros)
  then show ?thesis
    by (auto simp: control_blocked_def Let_def split: prod.splits intro: wf_intros)
qed

lemma drop_old_block_ok [wf_intros]: "control_state_ok s \<Longrightarrow> control_state_ok (drop_old_block i s)"
  by (simp add: control_state_ok_defs drop_old_block_def)

lemma set_block_ok [wf_intros]: "control_state_ok s \<Longrightarrow> control_state_ok (set_block i sg s)"
  by (simp add: control_state_ok_defs set_block_def)

lemma request_network_ok [wf_intros]:
  "control_state_ok s \<Longrightarrow> control_state_ok (request_network_restriction r s)"
  by (simp add: request_network_restriction_def requeue_ok)

lemma log_unfreeze_ok [wf_intros]:
  "control_state_ok s \<Longrightarrow> control_state_ok (log_unfreeze t i ps own oc a b s)"
  by (simp add: log_unfreeze_def log_operation_ok)

lemma foreground_step_ok [wf_intros]:
  "control_state_ok s \<Longrightarrow> control_state_ok (fst (foreground_step env t i ps s h))"
  by (auto simp: foreground_step_def Let_def split: prod.splits intro!: wf_intros)

lemma wakeup_step_ok [wf_intros]:
  "control_state_ok s \<Longrightarrow> control_state_ok (fst (wakeup_step env settings t i ps s h))"
  by (auto simp: wakeup_step_def Let_def split: prod.splits intro!: wf_intros)

lemma delay_gate_ok [wf_intros]:
  "control_state_ok s \<Longrightarrow> control_state_ok (snd (delay_gate settings t ab r i ps s))"
  by (auto simp: delay_gate_def Let_def split: option.splits intro!: wf_intros)

lemma evaluate_download_ok [wf_intros]:
  "control_state_ok s \<Longrightarrow> control_state_ok (snd (evaluate_download uid p smp t s))"
  using evaluate_deferral_wf [of "rc_download_deferral s" uid p smp t]
  by (auto simp: evaluate_download_def control_state_ok_defs split: prod.splits)

lemma download_gate_ok [wf_intros]:
  assumes "control_state_ok s"
  shows "control_state_ok (fst (snd (download_gate env t i ps s h)))"
proof -
  obtain a s1 where e: "evaluate_download (snd i) (fst i) (rx_sample_of (ce_sample env h (snd i) (fst i))) t s = (a, s1)"
    by fastforce
  then have "control_state_ok s1"
    using evaluate_download_ok [OF assms, of "snd i" "fst i"] by (metis snd_conv)
  then show ?thesis
    using assms by (cases a) (auto simp: download_gate_def e Let_def intro!: wf_intros)
qed

lemma fallback_signal_ok [wf_intros]:
  "control_state_ok s \<Longrightarrow> control_state_ok (fst (snd (fallback_signal env t r i ps s h)))"
  by (auto simp: fallback_signal_def Let_def split: prod.splits option.splits intro!: wf_intros)

lemma freeze_failed_ok [wf_intros]:
  assumes "control_state_ok s"
  shows "control_state_ok (fst (freeze_failed env t r policy i ps sg out failure s h))"
proof -
  define s2 where "s2 = (if ft_residual_possible out then track_frozen i t FO_ResidualUnknown
       (if str_contains failure shared_uid_message then set_block i sg s else s)
     else (if str_contains failure shared_uid_message then set_block i sg s else s))"
  have s2: "control_state_ok s2"
    using assms by (auto simp: s2_def intro!: wf_intros)
  then have "control_state_ok (fst (snd (fallback_signal env t r i ps s2 h)))"
    by (rule fallback_signal_ok)
  with s2 show ?thesis
    unfolding freeze_failed_def Let_def s2_def [symmetric]
    by (auto split: prod.splits if_splits intro!: wf_intros)
qed

lemma undo_freeze_ok [wf_intros]:
  "control_state_ok s \<Longrightarrow> control_state_ok (fst (undo_freeze env t i d ps new s h))"
  by (auto simp: undo_freeze_def Let_def split: prod.splits intro!: wf_intros)

lemma freeze_action_ok [wf_intros]:
  assumes "control_state_ok s"
  shows "control_state_ok (fst (snd (freeze_action env t r policy i ps sg d s h)))"
proof -
  obtain out h1 where 1: "apply_freeze_transaction env False ps h = (out, h1)" by fastforce
  show ?thesis
  proof (cases "ft_failure out")
    case (Some failure)
    then show ?thesis
      using freeze_failed_ok [OF assms, of env t r policy i ps sg out failure h1]
      by (auto simp: freeze_action_def 1 split: prod.splits)
  next
    case None
    then show ?thesis
      using assms undo_freeze_ok [OF assms]
      by (auto simp: freeze_action_def 1 Let_def split: prod.splits sum.splits intro!: wf_intros)
  qed
qed

lemma signal_action_ok [wf_intros]:
  "control_state_ok s \<Longrightarrow> control_state_ok (fst (snd (signal_action_step env t r i ps sg d s h)))"
  by (auto simp: signal_action_step_def Let_def split: prod.splits option.splits intro!: wf_intros)

lemma terminate_action_ok [wf_intros]:
  "control_state_ok s \<Longrightarrow> control_state_ok (fst (snd (terminate_action env t i ps d s h)))"
  by (auto simp: terminate_action_def split: prod.splits option.splits intro!: wf_intros)

lemma control_action_ok [wf_intros]:
  "control_state_ok s \<Longrightarrow> control_state_ok (fst (snd (control_action_step env t r policy i ps sg d s h)))"
  by (auto simp: control_action_step_def split: decision_action.splits intro!: wf_intros)

lemma act_on_ok [wf_intros]:
  assumes "control_state_ok s"
  shows "control_state_ok (fst (snd (act_on env settings t ab r i ps s h)))"
proof -
  let ?pending = "map pending_view ps"
  let ?d = "control_decision r settings (managed_app_from_record (fst i) (ac_uid r)) (policy_from_record r)
      ?pending (ce_binder env h)"
  obtain e s1 h1 where 1: "control_action_step env t r (policy_from_record r) i ?pending
      (process_signature_of ps) ?d s (E_Binder (ce_binder env h) # h) = (e, s1, h1)" by (metis prod_cases3)
  then have "control_state_ok s1"
    using control_action_ok [OF assms] by (metis fst_conv snd_conv)
  then show ?thesis
    by (cases e) (auto simp: act_on_def Let_def 1 finish_action_def intro!: wf_intros)
qed

lemma background_step_ok [wf_intros]:
  assumes "control_state_ok s"
  shows "control_state_ok (fst (snd (background_step env settings t ab r i ps s h)))"
proof -
  obtain w s1 where 1: "delay_gate settings t ab r i ps s = (w, s1)" by fastforce
  obtain w2 s2 h2 where 2: "download_gate env t i ps s1 h = (w2, s2, h2)" by (metis prod_cases3)
  have s1: "control_state_ok s1" using delay_gate_ok [OF assms, of settings t ab r i ps] by (simp add: 1)
  moreover have "control_state_ok s2" using download_gate_ok [OF s1, of env t i ps h] by (simp add: 2)
  ultimately show ?thesis
    by (auto simp: background_step_def 1 2 act_on_ok split: bool.splits)
qed

lemma tracked_step_ok [wf_intros]:
  "control_state_ok s \<Longrightarrow> control_state_ok (fst (snd (tracked_step env settings t due r i ps s h)))"
  by (auto simp: tracked_step_def intro!: wf_intros)

lemma control_record_ok [wf_intros]:
  "control_state_ok s \<Longrightarrow> control_state_ok (fst (snd (control_record env settings fg t due r s h)))"
  by (auto simp: control_record_def Let_def split: sum.splits intro!: wf_intros)

lemma control_records_ok [wf_intros]:
  "control_state_ok s \<Longrightarrow> control_state_ok (fst (snd (control_records env settings fg t due rs s h)))"
proof (induction rs arbitrary: s h)
  case (Cons r rs)
  obtain e s1 h1 where 1: "control_record env settings fg t due r s h = (e, s1, h1)" by (metis prod_cases3)
  then have "control_state_ok s1"
    using control_record_ok [OF Cons.prems, of env settings fg t due r h] by simp
  then show ?case using Cons.IH by (cases e) (simp_all add: 1)
qed simp

lemma run_control_pass_ok:
  assumes "control_state_ok s"
  shows "control_state_ok (fst (snd (run_control_pass env cfg settings fg t s h)))"
proof -
  obtain s1 h1 where 1: "release_uncontrolled env cfg t s h = (s1, h1)" by fastforce
  obtain due s2 where 2: "refreeze_audit_due settings t s1 = (due, s2)" by fastforce
  obtain e s3 h3 where 3: "control_records env settings fg t due cfg s2 h1 = (e, s3, h3)" by (metis prod_cases3)
  have s1: "control_state_ok s1" using release_uncontrolled_ok [OF assms, of env cfg t h] by (simp add: 1)
  have s2: "control_state_ok s2" using refreeze_audit_ok [OF s1, of settings t] by (simp add: 2)
  have "control_state_ok s3" using control_records_ok [OF s2, of env settings fg t due cfg h1] by (simp add: 3)
  then show ?thesis by (cases e) (simp_all add: run_control_pass_def 1 2 3)
qed

text \<open>
  A control pass keeps the invariant of the controller, whatever the system answers: the maps
  stay ordered maps, an application has a start of freezing exactly while it is tracked as frozen, every
  tracked application has an owner record, and the log stays bounded with strictly increasing
  operation ids below the next id.
\<close>

lemma control_pass_invariant:
  assumes "control_state_ok s"
  shows "control_state_ok (fst (snd (run_control_pass env app_config settings foreground_uids timestamp_ms s h)))"
  by (rule run_control_pass_ok [OF assms])

definition demo_record :: manager_app_config_record where
  "demo_record = \<lparr>ac_uid = 10123, ac_mode = 30, ac_permissive = False\<rparr>"

lemma control_pass_invariant_witness:
  "control_state_ok (fst (snd (run_control_pass (demo_env 0) [demo_record] [] [] 9000
     (track_frozen (''com.example.app'', 10123) 5000 FO_CgroupBinder default_control_state) [])))"
  by (rule control_pass_invariant) (intro track_frozen_ok control_state_ok_default)

end
