(* ===== verification/Control_Safety.thy ===== *)
theory Control_Safety
  imports Control_Pass
begin

text \<open>
  What a control pass may do to processes, read off the history of its calls: every act was allowed
  when it happened (an instance of \<^theory_text>\<open>control_monitor\<close>), and no process is left
  frozen without the controller knowing about it.
\<close>

subsection \<open>Every act of a pass is monitored\<close>

context control_monitor
begin

lemma release_uncontrolled_monitored:
  "monitored allowed h \<Longrightarrow> monitored allowed (snd (release_uncontrolled env cfg t s h))"
  using thaw_identities_monitored
  by (auto simp: release_uncontrolled_def Let_def split: prod.splits) (metis snd_conv)

lemma control_blocked_monitored:
  "monitored allowed h \<Longrightarrow> monitored allowed (snd (control_blocked env t uid s h))"
  using thaw_identities_monitored
  by (auto simp: control_blocked_def Let_def split: prod.splits) (metis snd_conv)

lemma foreground_step_monitored:
  "monitored allowed h \<Longrightarrow> monitored allowed (snd (foreground_step env t i ps s h))"
  using unfreeze_identity_monitored [of h env "fst i" ps]
  by (auto simp: foreground_step_def Let_def split: prod.splits) (metis snd_conv)

lemma wakeup_step_monitored:
  "monitored allowed h \<Longrightarrow> monitored allowed (snd (wakeup_step env settings t i ps s h))"
  using unfreeze_identity_monitored [of h env "fst i" ps]
  by (auto simp: wakeup_step_def Let_def split: prod.splits) (metis snd_conv)

lemma download_gate_monitored:
  "monitored allowed h \<Longrightarrow> monitored allowed (snd (snd (download_gate env t i ps s h)))"
  by (auto simp: download_gate_def Let_def split: prod.splits download_deferral_action.splits)

lemma permission_mono:
  "suffix h h1 \<Longrightarrow> Q \<longrightarrow> (\<forall>p \<in> set ps. allowed lethal h p) \<Longrightarrow> Q \<longrightarrow> (\<forall>p \<in> set ps. allowed lethal h1 p)"
  using allowed_mono by blast

lemma fallback_signal_monitored:
  assumes "monitored allowed h"
    and "(\<forall>p \<in> set ps. rp_package_name p = first_package ps) \<longrightarrow> (\<forall>p \<in> set ps. allowed False h p)"
  shows "monitored allowed (snd (snd (fallback_signal env t r i ps s h)))"
  using signal_stop_transaction_monitored [OF assms, of env LP_Never]
  by (auto simp: fallback_signal_def Let_def split: prod.splits option.splits)

lemma freeze_action_monitored:
  assumes m: "monitored allowed h"
    and perm: "(\<forall>p \<in> set ps. rp_package_name p = first_package ps) \<longrightarrow> (\<forall>p \<in> set ps. allowed False h p)"
  shows "monitored allowed (snd (snd (freeze_action env t r policy i ps sg d s h)))"
proof -
  obtain out h1 where 1: "apply_freeze_transaction env False ps h = (out, h1)" by fastforce
  have m1: "monitored allowed h1" and g1: "suffix h h1"
    using freeze_transaction_monitored [OF m perm, of env False] freeze_transaction_grows [of h env False ps]
    by (simp_all add: 1)
  show ?thesis
  proof (cases "ft_failure out")
    case (Some failure)
    have "monitored allowed (snd (snd (fallback_signal env t r i ps s2 h1)))" for s2
      by (rule fallback_signal_monitored [OF m1 permission_mono [OF g1 perm]])
    with m1 have "monitored allowed (snd (freeze_failed env t r policy i ps sg out failure s h1))"
      by (auto simp: freeze_failed_def Let_def split: prod.splits if_splits) (metis snd_conv)+
    then show ?thesis
      by (auto simp: freeze_action_def 1 Some split: prod.splits)
  next
    case None
    have "monitored allowed (snd (undo_freeze env t i d post new s h2))"
      if "monitored allowed h2" for post new h2
      using unfreeze_identity_monitored [OF that, of env "fst i" post FO_CgroupBinder]
      by (auto simp: undo_freeze_def Let_def split: prod.splits)
    with m1 None show ?thesis
      by (auto simp: freeze_action_def 1 Let_def split: prod.splits sum.splits)
  qed
qed

lemma signal_action_monitored:
  assumes m: "monitored allowed h"
    and perm: "(\<forall>p \<in> set ps. rp_package_name p = first_package ps) \<longrightarrow> (\<forall>p \<in> set ps. allowed False h p)"
  shows "monitored allowed (snd (snd (signal_action_step env t r i ps sg d s h)))"
proof -
  obtain pr h1 where 1: "signal_stop_ledger_promotion_for env s i ps h = (pr, h1)" by fastforce
  have m1: "monitored allowed h1" and g1: "suffix h h1"
    using promotion_for_monitored [OF m, of env s i ps] promotion_for_grows [of h env s i ps]
    by (simp_all add: 1)
  show ?thesis
    using signal_stop_transaction_monitored [OF m1 permission_mono [OF g1 perm], of env pr]
    by (auto simp: signal_action_step_def 1 Let_def split: prod.splits option.splits)
qed

lemma terminate_action_monitored:
  assumes m: "monitored allowed h"
    and perm: "(\<forall>p \<in> set ps. rp_package_name p = first_package ps) \<longrightarrow> (\<forall>p \<in> set ps. allowed True h p)"
  shows "monitored allowed (snd (snd (terminate_action env t i ps d s h)))"
  using terminate_transaction_monitored [OF m perm, of env]
  by (auto simp: terminate_action_def split: prod.splits option.splits)

lemma control_action_monitored:
  assumes "monitored allowed h"
    and "(\<forall>p \<in> set ps. rp_package_name p = first_package ps) \<longrightarrow>
      (\<forall>p \<in> set ps. (fd_action d = DA_Freeze \<or> fd_action d = DA_Signal \<longrightarrow> allowed False h p) \<and>
                    (fd_action d = DA_Terminate \<longrightarrow> allowed True h p))"
  shows "monitored allowed (snd (snd (control_action_step env t r policy i ps sg d s h)))"
  using assms freeze_action_monitored [of h ps env t r policy i sg d s]
    signal_action_monitored [of h ps env t r i sg d s] terminate_action_monitored [of h ps env t i d s]
  by (cases "fd_action d") (auto simp: control_action_step_def)

lemma act_on_monitored:
  assumes "monitored allowed h"
    and "let d = control_decision r settings (managed_app_from_record (fst i) (ac_uid r))
            (policy_from_record r) (map pending_view ps) (ce_binder env h)
      in (\<forall>p \<in> set ps. rp_package_name p = first_package ps) \<longrightarrow>
         (\<forall>p \<in> set ps. (fd_action d = DA_Freeze \<or> fd_action d = DA_Signal \<longrightarrow> allowed False h (pending_view p)) \<and>
                       (fd_action d = DA_Terminate \<longrightarrow> allowed True h (pending_view p)))"
  shows "monitored allowed (snd (snd (act_on env settings t ab r i ps s h)))"
proof -
  let ?pending = "map pending_view ps"
  let ?d = "control_decision r settings (managed_app_from_record (fst i) (ac_uid r)) (policy_from_record r)
      ?pending (ce_binder env h)"
  let ?h = "E_Binder (ce_binder env h) # h"
  have first: "first_package ?pending = first_package ps"
    by (cases ps) (simp_all add: first_package_def pending_view_def)
  have "monitored allowed (snd (snd (control_action_step env t r (policy_from_record r) i ?pending
      (process_signature_of ps) ?d s ?h)))"
  proof (rule control_action_monitored)
    show "monitored allowed ?h" using assms(1) by simp
    show "(\<forall>p \<in> set ?pending. rp_package_name p = first_package ?pending) \<longrightarrow>
      (\<forall>p \<in> set ?pending. (fd_action ?d = DA_Freeze \<or> fd_action ?d = DA_Signal \<longrightarrow> allowed False ?h p) \<and>
                    (fd_action ?d = DA_Terminate \<longrightarrow> allowed True ?h p))"
      using assms(2) unfolding first Let_def
      by (auto simp: pending_view_def intro: allowed_step)
  qed
  then show ?thesis
    by (auto simp: act_on_def Let_def split: prod.splits action_end.splits)
qed

end

subsection \<open>Whom a pass may act on\<close>

definition same_target :: "runtime_process \<Rightarrow> runtime_process \<Rightarrow> bool" where
  "same_target p q \<longleftrightarrow>
     rp_pid p = rp_pid q \<and> rp_uid p = rp_uid q \<and> rp_package_name p = rp_package_name q \<and>
     rp_process_name p = rp_process_name q \<and> rp_start_time_ticks p = rp_start_time_ticks q"

definition authorized ::
  "manager_app_config_record list \<Rightarrow> u32 list \<Rightarrow> bool \<Rightarrow> history \<Rightarrow> runtime_process \<Rightarrow> bool" where
  "authorized app_config foreground_uids lethal h p \<longleftrightarrow>
     (\<exists>record \<in> set app_config.
        is_control_policy_mode (ac_mode record) \<and> (lethal \<longleftrightarrow> ac_mode record = 10) \<and>
        ac_uid record \<notin> set foreground_uids \<and> 10000 \<le> ac_uid record mod 100000 \<and>
        protected_reason_for (rp_package_name p) False = None \<and>
        (\<exists>ps. E_Discover (fallback_package_name (ac_uid record)) (ac_uid record) (Inr ps) \<in> set h \<and>
              (\<exists>q \<in> set ps. same_target p q)))"

interpretation pass: control_monitor "authorized app_config foreground_uids" for app_config foreground_uids
proof unfold_locales
  fix h h' :: history and lethal p
  assume "suffix h h'" and "authorized app_config foreground_uids lethal h p"
  then show "authorized app_config foreground_uids lethal h' p"
    unfolding authorized_def by (meson set_mono_suffix subsetD)
next
  fix h lethal p
  show "authorized app_config foreground_uids lethal h p \<Longrightarrow>
      authorized app_config foreground_uids lethal h (signal_control_process p)"
    by (simp add: authorized_def same_target_def signal_control_process_def)
qed

lemma control_decision_lethal:
  "fd_action (control_decision r settings app (policy_from_record r) ps b) = DA_Terminate \<Longrightarrow> ac_mode r = 10"
  "fd_action (control_decision r settings app (policy_from_record r) ps b) \<in> {DA_Freeze, DA_Signal} \<Longrightarrow>
     ac_mode r \<noteq> 10"
proof -
  have mode: "fp_mode (policy_from_record r) = FM_Terminate \<longleftrightarrow> ac_mode r = 10"
    and fb: "fp_fallback_strategy (policy_from_record r) = [FB_Signal, FB_Skip]"
    by (auto simp: policy_from_record_def Let_def)
  have freezer: "fd_action (can_freeze e app (policy_from_record r) ps) = DA_Terminate \<Longrightarrow> ac_mode r = 10" for e
    unfolding can_freeze_gates
    by (auto simp: mode fallback_decision_def fallback_to_decision_def fb split: if_splits)
  show "fd_action (control_decision r settings app (policy_from_record r) ps b) = DA_Terminate \<Longrightarrow> ac_mode r = 10"
    using freezer
    by (auto simp: control_decision_def requested_control_backend_def Let_def split: if_splits)
  have "requested_control_backend r settings = RB_Terminate" if "ac_mode r = 10"
    using that by (simp add: requested_control_backend_def)
  then show "fd_action (control_decision r settings app (policy_from_record r) ps b) \<in> {DA_Freeze, DA_Signal} \<Longrightarrow>
     ac_mode r \<noteq> 10"
    by (auto simp: control_decision_def decide_def split: if_splits)
qed

lemma record_controllable:
  assumes "is_control_allowed_for (policy_from_record r) (managed_app_from_record pkg uid)"
  shows "10000 \<le> uid mod 100000 \<and> protected_reason_for pkg False = None"
proof -
  from assms have "\<not> ma_is_system_app (managed_app_from_record pkg uid)"
    and p: "ma_protected_reason (managed_app_from_record pkg uid) = None"
    by (simp_all add: is_control_allowed_iff)
  then have uid: "\<not> uid mod 100000 < 10000"
    by (simp add: managed_app_from_record_def Let_def)
  with p have "protected_reason_for pkg False = None"
    by (auto simp: managed_app_from_record_def Let_def split: option.splits)
  with uid show ?thesis by simp
qed

lemma smallest_of_same:
  "ps \<noteq> [] \<Longrightarrow> \<forall>p \<in> set ps. rp_package_name p = first_package ps \<Longrightarrow>
   \<forall>p \<in> set ps. rp_package_name p = smallest_package ps"
proof -
  assume ne: "ps \<noteq> []" and same: "\<forall>p \<in> set ps. rp_package_name p = first_package ps"
  then have "set (map rp_package_name ps) = {first_package ps}"
    by (cases ps) (auto simp: first_package_def)
  then show ?thesis using same by (simp add: smallest_package_def)
qed

lemma act_on_authorized:
  assumes m: "monitored (authorized cfg fg) h" and r: "r \<in> set cfg" "is_control_policy_mode (ac_mode r)"
    and fg: "ac_uid r \<notin> set fg" and ne: "ps \<noteq> []"
    and ok: "is_control_allowed_for (policy_from_record r) (managed_app_from_record (smallest_package ps) (ac_uid r))"
    and seen: "E_Discover (fallback_package_name (ac_uid r)) (ac_uid r) (Inr ps) \<in> set h"
  shows "monitored (authorized cfg fg)
    (snd (snd (act_on env settings t ab r (smallest_package ps, ac_uid r) ps s h)))"
proof (rule pass.act_on_monitored [OF m], unfold Let_def, intro impI ballI)
  let ?d = "control_decision r settings (managed_app_from_record (fst (smallest_package ps, ac_uid r)) (ac_uid r))
      (policy_from_record r) (map pending_view ps) (ce_binder env h)"
  fix p
  assume same: "\<forall>p \<in> set ps. rp_package_name p = first_package ps" and p: "p \<in> set ps"
  have "rp_package_name p = smallest_package ps"
    using smallest_of_same [OF ne same] p by blast
  then have pkg: "protected_reason_for (rp_package_name (pending_view p)) False = None"
    using record_controllable [OF ok] by (simp add: pending_view_def)
  have "same_target (pending_view p) p" by (simp add: same_target_def pending_view_def)
  with p seen have target: "\<exists>ps. E_Discover (fallback_package_name (ac_uid r)) (ac_uid r) (Inr ps) \<in> set h \<and>
      (\<exists>q \<in> set ps. same_target (pending_view p) q)" by blast
  have base: "authorized cfg fg (ac_mode r = 10) h (pending_view p)"
    unfolding authorized_def using r fg record_controllable [OF ok] pkg target
    by (intro bexI [OF _ r(1)]) simp
  show "(fd_action ?d = DA_Freeze \<or> fd_action ?d = DA_Signal \<longrightarrow> authorized cfg fg False h (pending_view p)) \<and>
      (fd_action ?d = DA_Terminate \<longrightarrow> authorized cfg fg True h (pending_view p))"
    using base control_decision_lethal [of r settings
        "managed_app_from_record (fst (smallest_package ps, ac_uid r)) (ac_uid r)" "map pending_view ps" "ce_binder env h"]
    by auto
qed

lemma download_gate_suffix: "suffix h (snd (snd (download_gate env t i ps s h)))"
  by (auto simp: download_gate_def Let_def suffix_ConsI split: prod.splits download_deferral_action.splits)

lemma background_step_authorized:
  assumes m: "monitored (authorized cfg fg) h" and r: "r \<in> set cfg" "is_control_policy_mode (ac_mode r)"
    and fg: "ac_uid r \<notin> set fg" and ne: "ps \<noteq> []"
    and ok: "is_control_allowed_for (policy_from_record r) (managed_app_from_record (smallest_package ps) (ac_uid r))"
    and seen: "E_Discover (fallback_package_name (ac_uid r)) (ac_uid r) (Inr ps) \<in> set h"
  shows "monitored (authorized cfg fg)
    (snd (snd (background_step env settings t ab r (smallest_package ps, ac_uid r) ps s h)))"
proof -
  let ?i = "(smallest_package ps, ac_uid r)"
  obtain w s1 where 1: "delay_gate settings t ab r ?i ps s = (w, s1)" by fastforce
  obtain w2 s2 h2 where 2: "download_gate env t ?i ps s1 h = (w2, s2, h2)" by (metis prod_cases3)
  have m2: "monitored (authorized cfg fg) h2" and g2: "suffix h h2"
    using pass.download_gate_monitored [OF m, of env t ?i ps s1] download_gate_suffix [of h env t ?i ps s1]
    by (simp_all add: 2)
  have seen2: "E_Discover (fallback_package_name (ac_uid r)) (ac_uid r) (Inr ps) \<in> set h2"
    using seen g2 by (meson set_mono_suffix subsetD)
  show ?thesis
    using m m2 act_on_authorized [OF m2 r fg ne ok seen2, of env settings t ab s2]
    by (auto simp: background_step_def 1 2 split: bool.splits)
qed

lemma control_record_authorized:
  assumes m: "monitored (authorized cfg fg) h" and r: "r \<in> set cfg"
  shows "monitored (authorized cfg fg) (snd (snd (control_record env settings fg t due r s h)))"
proof (cases "is_control_policy_mode (ac_mode r)")
  case False
  with m show ?thesis by (simp add: control_record_def)
next
  case ctl: True
  let ?uid = "ac_uid r" and ?name = "fallback_package_name (ac_uid r)"
  let ?found = "ce_discover env h ?name ?uid"
  let ?h1 = "E_Discover ?name ?uid ?found # h"
  have m1: "monitored (authorized cfg fg) ?h1" using m by simp
  show ?thesis
  proof (cases ?found)
    case (Inl e)
    with m1 ctl show ?thesis by (simp add: control_record_def Let_def)
  next
    case (Inr ps)
    let ?i = "(smallest_package ps, ?uid)"
    have seen: "E_Discover ?name ?uid (Inr ps) \<in> set ?h1" using Inr by simp
    have tracked: "monitored (authorized cfg fg) (snd (snd (tracked_step env settings t due r ?i ps s1 ?h1)))"
      if "?uid \<notin> set fg" "ps \<noteq> []"
        "is_control_allowed_for (policy_from_record r) (managed_app_from_record (smallest_package ps) ?uid)" for s1
      using m1 background_step_authorized [OF m1 r ctl that(1,2,3) seen, of env settings t]
        pass.wakeup_step_monitored [OF m1, of env settings t ?i ps s1]
      unfolding tracked_step_def by (simp del: monitored.simps(2))
    note steps = pass.control_blocked_monitored [OF m1, of env t ?uid s]
      pass.foreground_step_monitored [OF m1, of env t ?i ps]
    have m0: "monitored (authorized cfg fg) (E_Discover ?name ?uid (Inr ps) # h)"
      using m1 Inr by simp
    show ?thesis
      using ctl m0 steps [unfolded Inr] tracked [unfolded Inr]
      unfolding control_record_def Let_def Inr
      by (auto simp del: monitored.simps(2) split: prod.splits)
  qed
qed

lemma control_records_authorized:
  "monitored (authorized cfg fg) h \<Longrightarrow> set rs \<subseteq> set cfg \<Longrightarrow>
   monitored (authorized cfg fg) (snd (snd (control_records env settings fg t due rs s h)))"
proof (induction rs arbitrary: s h)
  case (Cons r rs)
  obtain e s1 h1 where 1: "control_record env settings fg t due r s h = (e, s1, h1)" by (metis prod_cases3)
  have "monitored (authorized cfg fg) h1"
    using control_record_authorized [OF Cons.prems(1), of r env settings t due s] Cons.prems(2) by (simp add: 1)
  then show ?case using Cons.IH [of h1 s1] Cons.prems(2) by (cases e) (simp_all add: 1)
qed simp

lemma run_control_pass_authorized:
  assumes "monitored (authorized cfg fg) h"
  shows "monitored (authorized cfg fg) (snd (snd (run_control_pass env cfg settings fg t s h)))"
proof -
  obtain s1 h1 where 1: "release_uncontrolled env cfg t s h = (s1, h1)" by fastforce
  obtain due s2 where 2: "refreeze_audit_due settings t s1 = (due, s2)" by fastforce
  obtain e s3 h3 where 3: "control_records env settings fg t due cfg s2 h1 = (e, s3, h3)" by (metis prod_cases3)
  have m1: "monitored (authorized cfg fg) h1"
    using pass.release_uncontrolled_monitored [OF assms, of env cfg t s] by (simp add: 1)
  have "monitored (authorized cfg fg) h3"
    using control_records_authorized [OF m1, of cfg env settings t due s2] by (simp add: 3)
  then show ?thesis by (cases e) (simp_all add: run_control_pass_def 1 2 3)
qed

text \<open>
  Starting from an empty history, whatever the system answers, every process a control pass
  freezes, stops or kills was validated immediately before, was discovered under the uid of a
  controlled record, belongs to an unprotected package with an application uid that is not in the
  foreground; it is killed only under mode 10 and frozen or stopped only under another mode.
\<close>

lemma pass_is_authorized:
  "monitored (authorized app_config foreground_uids)
     (snd (snd (run_control_pass env app_config settings foreground_uids timestamp_ms s [])))"
  by (rule run_control_pass_authorized) simp

subsection \<open>Nothing is left frozen unnoticed\<close>

text \<open>\<open>noticed env s h h' uid pid\<close>, of a process frozen between the histories \<open>h\<close> and
  \<open>h'\<close>: the uid has an application tracked as frozen, or the listing of the uid changed in between,
  and a discovery made while the process was frozen did not list it.\<close>

definition stable_listing :: "control_env \<Rightarrow> u32 \<Rightarrow> bool" where
  "stable_listing env uid =
     (\<exists>found. \<forall>h. ce_discover env h (fallback_package_name uid) uid = found)"

definition noticed ::
  "control_env \<Rightarrow> runtime_control_state \<Rightarrow> history \<Rightarrow> history \<Rightarrow> u32 \<Rightarrow> i32 \<Rightarrow> bool" where
  "noticed env s h h' uid pid \<longleftrightarrow>
     (\<exists>i \<in> set (rc_frozen_apps s). snd i = uid) \<or>
     \<not> stable_listing env uid \<and>
     (\<exists>ps past. suffix (E_Discover (fallback_package_name uid) uid (Inr ps) # past) h' \<and> suffix h past \<and>
        pid \<in> held_pids past \<and> pid \<notin> rp_pid ` set ps)"

text \<open>The processes acted on are those some discovery listed.\<close>

definition listed :: "control_env \<Rightarrow> u32 \<Rightarrow> runtime_process list \<Rightarrow> bool" where
  "listed env uid ps =
     (\<exists>h found. ce_discover env h (fallback_package_name uid) uid = Inr found \<and>
        rp_pid ` set found = rp_pid ` set ps)"

lemma listed_pending: "listed env uid ps \<Longrightarrow> listed env uid (map pending_view ps)"
  by (simp add: listed_def image_image pending_view_def)

lemma new_pids_unstable:
  assumes "listed env uid ps" and "ce_discover env h (fallback_package_name uid) uid = Inr post"
    and "new_pids_of uid ps post \<noteq> []"
  shows "\<not> stable_listing env uid"
proof
  assume "stable_listing env uid"
  with assms(1,2) have "rp_pid ` set post = rp_pid ` set ps"
    unfolding stable_listing_def listed_def by (metis sum.inject(2))
  with assms(3) show False by (auto simp: new_pids_of_def filter_empty_conv)
qed

lemma track_frozen_apps [simp]: "set (rc_frozen_apps (track_frozen i t own s)) = insert i (set (rc_frozen_apps s))"
  by (simp add: track_frozen_def)

lemma freeze_attempts_mono: "suffix h h' \<Longrightarrow> freeze_attempts h \<le> freeze_attempts h'"
proof -
  have "freeze_attempts h \<le> freeze_attempts (zs @ h)" for zs
    by (induction zs) (auto split: ctl_event.splits)
  then show "suffix h h' \<Longrightarrow> freeze_attempts h \<le> freeze_attempts h'" by (auto simp: suffix_def)
qed

lemma held_without_attempt:
  "suffix h h' \<Longrightarrow> freeze_attempts h' = freeze_attempts h \<Longrightarrow> held_pids h' \<subseteq> held_pids h"
proof -
  have "freeze_attempts (zs @ h) = freeze_attempts h \<Longrightarrow> held_pids (zs @ h) \<subseteq> held_pids h" for zs
  proof (induction zs)
    case (Cons e zs)
    have "freeze_attempts h \<le> freeze_attempts (zs @ h)"
      by (rule freeze_attempts_mono) (simp add: suffix_def)
    with Cons show ?case by (auto split: ctl_event.splits if_splits)
  qed simp
  then show "suffix h h' \<Longrightarrow> freeze_attempts h' = freeze_attempts h \<Longrightarrow> held_pids h' \<subseteq> held_pids h"
    by (auto simp: suffix_def)
qed

text \<open>How a freeze transaction may leave processes held.\<close>

lemma transaction_leaves:
  assumes "apply_freeze_transaction env b ps h = (out, h')" and "ft_failure out \<noteq> None"
    and "\<not> ft_residual_possible out \<or> ft_rollback_failures out = 0"
  shows "held_pids h' \<subseteq> held_pids h"
proof (cases "ft_residual_possible out")
  case True
  with assms freeze_transaction_effect [OF assms(1)] obtain left :: "i32 set" where
    "finite left" "card left \<le> 0" "held_pids h' \<subseteq> held_pids h \<union> left" by auto
  then show ?thesis by simp
next
  case False
  have "suffix h h'" using freeze_transaction_grows [of h env b ps] assms(1) by simp
  then show ?thesis
    using freeze_transaction_effect [OF assms(1)] assms(2) False held_without_attempt by blast
qed

lemma signal_transaction_leaves:
  assumes "apply_signal_stop_freeze_transaction env ps pr h = (out, h')"
    and "ft_failure (so_transaction out) \<noteq> None" and "ft_rollback_failures (so_transaction out) = 0"
  shows "held_pids h' \<subseteq> held_pids h"
proof -
  obtain tr h1 where 1: "apply_freeze_transaction env True ps h = (tr, h1)" by fastforce
  with assms have "so_transaction out = tr" "h' = h1"
    by (auto simp: apply_signal_stop_freeze_transaction_def split: if_splits prod.splits)
  with transaction_leaves [OF 1] assms(2,3) show ?thesis by simp
qed

lemma thaw_each_held: "held_pids (snd (snd (thaw_each env t reason ids fs s h))) \<subseteq> held_pids h"
proof (induction ids arbitrary: fs s h)
  case (Cons i ids)
  let ?name = "fallback_package_name (snd i)"
  let ?h1 = "E_Discover ?name (snd i) (ce_discover env h ?name (snd i)) # h"
  show ?case
  proof (cases "ce_discover env h ?name (snd i)")
    case (Inl e)
    have "held_pids ?h1 = held_pids h" by simp
    with Inl Cons.IH [where h = ?h1] show ?thesis by (simp add: Let_def)
  next
    case (Inr ps)
    obtain oc h2 where u: "unfreeze_identity_processes env (fst i) ps (frozen_ownership_of i s) ?h1 = (oc, h2)"
      by fastforce
    have h2: "held_pids h2 \<subseteq> held_pids h" using unfreeze_identity_effect [OF u] by simp
    show ?thesis
    proof (cases "ps = []")
      case True
      with Inr Cons.IH [of fs "clear_frozen i s" ?h1] show ?thesis by (simp add: Let_def)
    next
      case False
      then show ?thesis
        using Inr u order.trans [OF Cons.IH h2] by (simp add: Let_def)
    qed
  qed
qed simp

lemma thaw_identities_held:
  "held_pids (snd (snd (thaw_frozen_identities env t reason ids s h))) \<subseteq> held_pids h"
  using thaw_each_held [of env t reason ids "[]" s h]
  by (auto simp: thaw_frozen_identities_def split: prod.splits)

lemma control_blocked_held: "held_pids (snd (control_blocked env t uid s h)) \<subseteq> held_pids h"
proof -
  let ?s = "clear_transient_control_state_for_uid uid s"
  obtain r s1 h1 where 1: "thaw_frozen_identities env t ''policy or protected package blocks control''
      (filter (\<lambda>i. snd i = uid) (rc_frozen_apps ?s)) ?s h = (r, s1, h1)" by (metis prod_cases3)
  from thaw_identities_held [of env t "''policy or protected package blocks control''"
      "filter (\<lambda>i. snd i = uid) (rc_frozen_apps ?s)" ?s h]
  show ?thesis by (simp add: control_blocked_def Let_def 1)
qed

lemma unfreeze_identity_held: "held_pids (snd (unfreeze_identity_processes env pkg ps own h)) \<subseteq> held_pids h"
  using unfreeze_identity_effect [of env pkg ps own h "fst (unfreeze_identity_processes env pkg ps own h)"]
  by (metis prod.collapse)

lemma foreground_step_held: "held_pids (snd (foreground_step env t i ps s h)) \<subseteq> held_pids h"
  using unfreeze_identity_held [of env "fst i" ps "frozen_ownership_of i (remove_pending i s)" h]
  by (simp add: foreground_step_def Let_def split_beta)

lemma wakeup_step_held: "held_pids (snd (wakeup_step env settings t i ps s h)) \<subseteq> held_pids h"
  using unfreeze_identity_held [of env "fst i" ps "frozen_ownership_of i s" h]
  by (simp add: wakeup_step_def Let_def split_beta)

lemma download_gate_held [simp]: "held_pids (snd (snd (download_gate env t i ps s h))) = held_pids h"
  by (auto simp: download_gate_def Let_def split: prod.splits download_deferral_action.splits)

lemma state_edits_apps [simp]:
  "rc_frozen_apps (remove_pending i s) = rc_frozen_apps s"
  "rc_frozen_apps (set_pending i due s) = rc_frozen_apps s"
  "rc_frozen_apps (set_block i sg s) = rc_frozen_apps s"
  "rc_frozen_apps (request_network_restriction r s) = rc_frozen_apps s"
  "rc_frozen_apps (forget_since_if_untracked i s) = rc_frozen_apps s"
  "rc_frozen_apps (finish_action settings t ab r i ps d a res s) = rc_frozen_apps s"
  by (simp_all add: remove_pending_def set_pending_def set_block_def request_network_restriction_def
      requeue_network_restriction_uid_def forget_since_if_untracked_def finish_action_def)

lemma held_pids_discover: "held_pids (E_Discover name uid found # h) = held_pids h"
  by simp

lemma noticed_tracked: "i \<in> set (rc_frozen_apps s) \<Longrightarrow> noticed env s h h' (snd i) pid"
  by (auto simp: noticed_def)

lemma noticed_since: "suffix h h0 \<Longrightarrow> noticed env s h0 h' uid pid \<Longrightarrow> noticed env s h h' uid pid"
  unfolding noticed_def by (blast intro: suffix_order.trans)

lemma noticed_apps: "rc_frozen_apps s = rc_frozen_apps s0 \<Longrightarrow> noticed env s h h' uid pid = noticed env s0 h h' uid pid"
  by (simp add: noticed_def)

lemma fallback_signal_noticed:
  assumes "fallback_signal env t r i ps s h = (res, s', h')"
  shows "(i \<in> set (rc_frozen_apps s) \<longrightarrow> i \<in> set (rc_frozen_apps s')) \<and>
    (held_pids h' \<subseteq> held_pids h \<or> i \<in> set (rc_frozen_apps s'))"
proof -
  obtain out h1 where 1: "apply_signal_stop_freeze_transaction env ps LP_Never h = (out, h1)" by fastforce
  show ?thesis
    using assms signal_transaction_leaves [OF 1]
    by (cases "ft_failure (so_transaction out)") (auto simp: fallback_signal_def 1 Let_def split: if_splits)
qed

lemma freeze_failed_noticed:
  assumes out: "apply_freeze_transaction env False ps h = (out, h1)" and f: "ft_failure out = Some failure"
    and run: "freeze_failed env t r policy i ps sg out failure s h1 = (s', h')"
  shows "held_pids h' \<subseteq> held_pids h \<or> i \<in> set (rc_frozen_apps s')"
proof -
  define s1 where "s1 = (if str_contains failure shared_uid_message then set_block i sg s else s)"
  define s2 where "s2 = (if ft_residual_possible out then track_frozen i t FO_ResidualUnknown s1 else s1)"
  have res: "i \<in> set (rc_frozen_apps s2)" if "ft_residual_possible out" using that by (simp add: s2_def)
  have none: "held_pids h1 \<subseteq> held_pids h" if "\<not> ft_residual_possible out"
    using transaction_leaves [OF out] f that by simp
  obtain e s3 h3 where 3: "fallback_signal env t r i ps s2 h1 = (e, s3, h3)" by (metis prod_cases3)
  note step = fallback_signal_noticed [OF 3]
  have apps: "set (rc_frozen_apps s') = set (rc_frozen_apps
        (if fd_action (fallback_after_freeze_apply_error policy (System_Error failure)) = DA_Signal then s3 else s2)) \<and>
      h' = (if fd_action (fallback_after_freeze_apply_error policy (System_Error failure)) = DA_Signal then h3 else h1)"
    using run unfolding freeze_failed_def Let_def s1_def [symmetric] s2_def [symmetric] 3
    by (auto split: prod.splits if_splits)
  show ?thesis
    using apps step res none by (cases "ft_residual_possible out") (auto split: if_splits)
qed

lemma freeze_action_noticed:
  assumes "freeze_action env t r policy i ps sg d s h = (e, s', h')" and "\<forall>x. e \<noteq> AE_Error x"
    and "snd i = ac_uid r" and "listed env (ac_uid r) ps"
  shows "\<forall>pid \<in> held_pids h' - held_pids h. noticed env s' h h' (ac_uid r) pid"
proof -
  let ?name = "fallback_package_name (ac_uid r)"
  obtain out h1 where 1: "apply_freeze_transaction env False ps h = (out, h1)" by fastforce
  show ?thesis
  proof (cases "ft_failure out")
    case (Some failure)
    obtain s1 h2 where 2: "freeze_failed env t r policy i ps sg out failure s h1 = (s1, h2)" by fastforce
    with assms(1) have "s' = s1" "h' = h2" by (auto simp: freeze_action_def 1 Some)
    with freeze_failed_noticed [OF 1 Some 2] noticed_tracked [of i s'] assms(3) show ?thesis by auto
  next
    case None
    let ?found = "ce_discover env h1 ?name (ac_uid r)"
    obtain post where found: "?found = Inr post"
      using assms(1,2) by (cases ?found) (auto simp: freeze_action_def 1 None Let_def)
    let ?h2 = "E_Discover ?name (ac_uid r) (Inr post) # h1"
    show ?thesis
    proof (cases "new_pids_of (ac_uid r) ps post = []")
      case True
      with assms(1) found have "s' = remove_pending i (request_network_restriction r (track_frozen i t FO_CgroupBinder s))"
        by (simp add: freeze_action_def 1 None Let_def)
      then have "i \<in> set (rc_frozen_apps s')" by simp
      with noticed_tracked [of i s'] assms(3) show ?thesis by auto
    next
      case False
      obtain oc h3 where u: "unfreeze_identity_processes env (fst i) post FO_CgroupBinder ?h2 = (oc, h3)"
        by fastforce
      have g: "suffix ?h2 h3"
        using unfreeze_identity_grows [of ?h2 env "fst i" post FO_CgroupBinder] by (simp add: u)
      have h': "h' = h3" and s': "set (rc_frozen_apps s') = set (rc_frozen_apps
          (if uo_failures oc = [] then clear_frozen i s else track_frozen i t FO_ResidualUnknown s))"
        using assms(1) found False by (auto simp: freeze_action_def 1 None Let_def undo_freeze_def u)
      show ?thesis
      proof (cases "uo_failures oc = []")
        case True
        have "held_pids h' = held_pids ?h2 - rp_pid ` set post"
          using unfreeze_identity_effect [OF u] True h' by simp
        moreover have "suffix h h1" using freeze_transaction_grows [of h env False ps] by (simp add: 1)
        moreover have "suffix ?h2 h'" using g h' by simp
        ultimately show ?thesis unfolding noticed_def using new_pids_unstable [OF assms(4) found False] by (metis DiffE held_pids_discover)
      next
        case False
        with s' have "i \<in> set (rc_frozen_apps s')" by simp
        with noticed_tracked [of i s'] assms(3) show ?thesis by auto
      qed
    qed
  qed
qed

lemma signal_action_noticed:
  assumes "signal_action_step env t r i ps sg d s h = (e, s', h')"
  shows "held_pids h' \<subseteq> held_pids h \<or> i \<in> set (rc_frozen_apps s')"
proof -
  obtain pr h1 where 1: "signal_stop_ledger_promotion_for env s i ps h = (pr, h1)" by fastforce
  obtain out h2 where 2: "apply_signal_stop_freeze_transaction env ps pr h1 = (out, h2)" by fastforce
  have "held_pids (snd (signal_stop_ledger_promotion_for env s i ps h)) = held_pids h"
    by (simp add: signal_stop_ledger_promotion_for_def)
  then have h1: "held_pids h1 = held_pids h" by (simp add: 1)
  have s': "s' = fst (snd (signal_action_step env t r i ps sg d s h))" and "h' = snd (snd (signal_action_step env t r i ps sg d s h))"
    using assms by simp_all
  then have h': "h' = h2"
    by (cases "ft_failure (so_transaction out)") (simp_all add: signal_action_step_def 1 2 Let_def)
  show ?thesis
  proof (cases "ft_failure (so_transaction out)")
    case None
    have "i \<in> set (rc_frozen_apps s')"
      unfolding s' by (simp add: signal_action_step_def 1 2 Let_def None)
    then show ?thesis ..
  next
    case (Some failure)
    show ?thesis
    proof (cases "ft_rollback_failures (so_transaction out) = 0")
      case True
      have "held_pids h2 \<subseteq> held_pids h1"
        by (rule signal_transaction_leaves [OF 2 _ True]) (simp add: Some)
      then show ?thesis by (simp add: h1 h')
    next
      case False
      then have "i \<in> set (rc_frozen_apps s')"
        unfolding s' by (simp add: signal_action_step_def 1 2 Let_def Some)
      then show ?thesis ..
    qed
  qed
qed

lemma terminate_action_held:
  assumes "terminate_action env t i ps d s h = (e, s', h')"
  shows "held_pids h' \<subseteq> held_pids h"
proof -
  have each: "held_pids (snd (terminate_each env qs n g)) = held_pids g" for qs n g
    by (induction qs arbitrary: n g) (auto simp: Let_def split: option.splits sum.splits)
  have "held_pids (snd (precheck env '' before SIGKILL'' x ps h)) = held_pids h" for x
    using precheck_untouched [of env "'' before SIGKILL''" x ps h] by simp
  with each have "held_pids (snd (apply_terminate_transaction env ps h)) = held_pids h"
    by (auto simp: apply_terminate_transaction_def split: prod.splits option.splits) (metis snd_conv)+
  with assms show ?thesis
    by (auto simp: terminate_action_def split: prod.splits option.splits)
qed

lemma control_action_noticed:
  assumes "control_action_step env t r policy i ps sg d s h = (e, s', h')" and "\<forall>x. e \<noteq> AE_Error x"
    and "snd i = ac_uid r" and "listed env (ac_uid r) ps"
  shows "\<forall>pid \<in> held_pids h' - held_pids h. noticed env s' h h' (ac_uid r) pid"
proof (cases "fd_action d")
  case DA_Freeze
  with assms show ?thesis by (intro freeze_action_noticed) (simp_all add: control_action_step_def)
next
  case DA_Signal
  with assms signal_action_noticed [of env t r i ps sg d s h e s' h'] noticed_tracked [of i s']
  show ?thesis by (auto simp: control_action_step_def)
next
  case DA_Terminate
  with assms terminate_action_held [of env t i ps d s h e s' h'] show ?thesis
    by (auto simp: control_action_step_def)
qed (use assms(1) in \<open>simp_all add: control_action_step_def\<close>)

lemma act_on_noticed:
  assumes "act_on env settings t ab r i ps s h = (None, s', h')" and "snd i = ac_uid r" and "listed env (ac_uid r) ps"
  shows "\<forall>pid \<in> held_pids h' - held_pids h. noticed env s' h h' (ac_uid r) pid"
proof -
  let ?pending = "map pending_view ps"
  let ?d = "control_decision r settings (managed_app_from_record (fst i) (ac_uid r)) (policy_from_record r)
      ?pending (ce_binder env h)"
  let ?h = "E_Binder (ce_binder env h) # h"
  obtain e s1 h1 where 1: "control_action_step env t r (policy_from_record r) i ?pending
      (process_signature_of ps) ?d s ?h = (e, s1, h1)" by (metis prod_cases3)
  have e: "\<forall>x. e \<noteq> AE_Error x" and h': "h' = h1" and apps: "rc_frozen_apps s' = rc_frozen_apps s1"
    using assms(1) by (cases e; simp add: act_on_def 1 Let_def; metis state_edits_apps(6))+
  have "\<forall>pid \<in> held_pids h1 - held_pids ?h. noticed env s1 ?h h1 (ac_uid r) pid"
    by (rule control_action_noticed [OF 1 e assms(2) listed_pending [OF assms(3)]])
  then have "\<forall>pid \<in> held_pids h1 - held_pids h. noticed env s1 h h1 (ac_uid r) pid"
    using noticed_since [of h ?h] by (simp add: suffix_ConsI)
  with h' apps noticed_apps [of s' s1] show ?thesis by simp
qed

lemma background_step_noticed:
  assumes "background_step env settings t ab r i ps s h = (None, s', h')" and "snd i = ac_uid r" and "listed env (ac_uid r) ps"
  shows "\<forall>pid \<in> held_pids h' - held_pids h. noticed env s' h h' (ac_uid r) pid"
proof -
  obtain w s1 where 1: "delay_gate settings t ab r i ps s = (w, s1)" by fastforce
  obtain w2 s2 h2 where 2: "download_gate env t i ps s1 h = (w2, s2, h2)" by (metis prod_cases3)
  have "held_pids h2 = held_pids h" using download_gate_held [of env t i ps s1 h] by (simp add: 2)
  then show ?thesis
    using assms act_on_noticed [of env settings t ab r i ps s2 h2 s' h']
      noticed_since [OF download_gate_suffix [of h env t i ps s1, unfolded 2 snd_conv]]
    by (auto simp: background_step_def 1 2 split: bool.splits)
qed

lemma tracked_step_noticed:
  assumes "tracked_step env settings t due r i ps s h = (None, s', h')" and "snd i = ac_uid r" and "listed env (ac_uid r) ps"
  shows "\<forall>pid \<in> held_pids h' - held_pids h. noticed env s' h h' (ac_uid r) pid"
proof -
  note steps = background_step_noticed [OF _ assms(2,3)] wakeup_step_held [of env settings t i ps s h]
  show ?thesis
    using assms(1) steps unfolding tracked_step_def
    by (auto split: if_splits)
qed

text \<open>
  A freeze is never forgotten: after a record was handled without an error, every process that
  is newly frozen belongs to an application uid that the controller tracks as frozen, and so will be
  thawed with it, unless the process had disappeared when the uid was listed again.
\<close>

lemma no_untracked_freeze:
  assumes "control_record env settings foreground_uids timestamp_ms audit_due record s h = (None, s', h')"
  shows "\<forall>pid \<in> held_pids h' - held_pids h. noticed env s' h h' (ac_uid record) pid"
proof (cases "is_control_policy_mode (ac_mode record)")
  case False
  with assms show ?thesis by (simp add: control_record_def)
next
  case True
  let ?name = "fallback_package_name (ac_uid record)"
  obtain ps where found: "ce_discover env h ?name (ac_uid record) = Inr ps"
    using assms True
    by (cases "ce_discover env h ?name (ac_uid record)") (auto simp: control_record_def Let_def)
  let ?h1 = "E_Discover ?name (ac_uid record) (Inr ps) # h"
  let ?i = "(smallest_package ps, ac_uid record)"
  define blocked where "blocked = bt_get (rc_blocked_process_signatures s) ?i"
  define s1 where "s1 = (if blocked \<noteq> None then drop_old_block ?i s else s)"
  have held: "held_pids ?h1 = held_pids h" by simp
  have listed: "listed env (ac_uid record) ps" unfolding listed_def using found by blast
  have "h' = ?h1 \<or> h' = snd (control_blocked env timestamp_ms (ac_uid record) s ?h1) \<or>
      h' = snd (foreground_step env timestamp_ms ?i ps s1 ?h1) \<or>
      tracked_step env settings timestamp_ms audit_due record ?i ps s1 ?h1 = (None, s', h')"
    using assms True unfolding control_record_def Let_def found s1_def blocked_def
    by (auto split: if_splits)
  then show ?thesis
    using held listed noticed_since [of h ?h1, OF suffix_ConsI [OF suffix_order.refl]] control_blocked_held [of env timestamp_ms "ac_uid record" s ?h1]
      foreground_step_held [of env timestamp_ms ?i ps s1 ?h1]
      tracked_step_noticed [of env settings timestamp_ms audit_due "record" ?i ps s1 ?h1 s' h']
    by (elim disjE) (simp_all only: snd_conv, auto)
qed


lemma no_untracked_freeze_witness:
  "(let r = control_record (demo_env 0) [] [] 9000 False demo_record default_control_state []
    in noticed (demo_env 0) (fst (snd r)) [] (snd (snd r)) 10123 4242 \<and>
      noticed (demo_env 0) (fst (snd r)) [] (snd (snd r)) 10123 4243)"
proof -
  let ?r = "control_record (demo_env 0) [] [] 9000 False demo_record default_control_state []"
  have e: "fst ?r = None" and held: "held_pids (snd (snd ?r)) = {4242, 4243}"
    by code_simp+
  have "?r = (None, fst (snd ?r), snd (snd ?r))"
    using e by (metis prod.collapse)
  from no_untracked_freeze [OF this] held show ?thesis
    by (simp add: demo_record_def Let_def)
qed

end
