(* ===== verification/Server.thy ===== *)
theory Server
  imports Startup Control_Safety
begin

text \<open>
  \<^verbatim>\<open>sys/socket.rs\<close>: the requests of the manager, the health cycle of the hook, and
  one pass of the control loop over the live system.
\<close>

subsection \<open>Who may connect, and which commands change the policy\<close>

definition is_authorized_manager_peer_uid :: "u32 \<Rightarrow> u32 bset \<Rightarrow> bool" where
  "is_authorized_manager_peer_uid uid authorized_uids = (uid = 0 \<or> uid \<in> set authorized_uids)"

definition is_policy_mutation_command :: "manager_command \<Rightarrow> bool" where
  "is_policy_mutation_command command = (command = SetAppCfg \<or> command = SetSettingsVar)"

text \<open>A request is answered with the encoded frame of its command.\<close>

definition answer_request ::
  "manager_frame \<Rightarrow> metric_files \<Rightarrow> read_only_state \<Rightarrow> realtime_sampler \<Rightarrow> world \<Rightarrow>
   bytes res \<times> read_only_state \<times> realtime_sampler \<times> world" where
  "answer_request frame files s sampler w =
     (case handle_manager_command frame files s sampler w of
        (Inl e, s1, sampler1, w1) \<Rightarrow> (Inl e, s1, sampler1, w1)
      | (Inr payload, s1, sampler1, w1) \<Rightarrow>
          (encode_manager_frame (mf_command frame) payload, s1, sampler1, w1))"

subsection \<open>The hook's answers\<close>

definition xposed_debug_name :: "xposed_command \<Rightarrow> string" where
  "xposed_debug_name command =
     (case command of
        GetForeground \<Rightarrow> ''GetForeground'' | GetScreen \<Rightarrow> ''GetScreen'' | GetXposedLog \<Rightarrow> ''GetXpLog''
      | SetConfig \<Rightarrow> ''SetConfig'' | SetWakeupLock \<Rightarrow> ''SetWakeupLock'' | BreakNetwork \<Rightarrow> ''BreakNetwork''
      | UpdatePending \<Rightarrow> ''UpdatePending'' | GetHookHealth \<Rightarrow> ''GetHookHealth''
      | GetRuntimeAppStates \<Rightarrow> ''GetRuntimeAppStates'' | GetSystemFreezerHints \<Rightarrow> ''GetSystemFreezerHints'')"

definition encode_uid_payload :: "u32 list \<Rightarrow> bytes" where
  "encode_uid_payload uids = concat (map u32_to_le uids)"

definition require_xposed_success :: "xposed_command \<Rightarrow> bytes \<Rightarrow> unit res" where
  "require_xposed_success command response =
     (if length response < 4 then
        Inl (Protocol_Error (''xposed '' @ xposed_debug_name command @ '' response header is incomplete''))
      else if i32_of_le response \<noteq> 2 then
        Inl (System_Error (''xposed '' @ xposed_debug_name command @ '' rejected request''))
      else Inr ())"

type_synonym hook_calls = "(xposed_command \<times> bytes) list"

text \<open>A request to the hook whose answer must be a success; all requests are recorded.\<close>

definition checked_request ::
  "(hook_calls \<Rightarrow> xposed_command \<Rightarrow> bytes \<Rightarrow> bytes res) \<Rightarrow> xposed_command \<Rightarrow> bytes \<Rightarrow> hook_calls \<Rightarrow>
   unit res \<times> hook_calls" where
  "checked_request request command payload calls =
     ((case request calls command payload of
         Inl e \<Rightarrow> Inl e | Inr response \<Rightarrow> require_xposed_success command response),
      (command, payload) # calls)"

fun break_networks ::
  "(hook_calls \<Rightarrow> xposed_command \<Rightarrow> bytes \<Rightarrow> bytes res) \<Rightarrow> u32 list \<Rightarrow> hook_calls \<Rightarrow> u32 list \<times> hook_calls" where
  "break_networks request [] calls = ([], calls)"
| "break_networks request (uid # uids) calls =
     (case checked_request request BreakNetwork (u32_to_le uid) calls of
        (r, calls1) \<Rightarrow>
          (case break_networks request uids calls1 of
             (failed, calls2) \<Rightarrow> ((if is_ok r then failed else uid # failed), calls2)))"

record hook_runtime_sync_outcome =
  hs_pending_error :: "string option"
  hs_failed_network_uids :: "u32 list"

definition sync_hook_runtime_state ::
  "u32 list \<Rightarrow> u32 list \<Rightarrow> (hook_calls \<Rightarrow> xposed_command \<Rightarrow> bytes \<Rightarrow> bytes res) \<Rightarrow> hook_calls \<Rightarrow>
   hook_runtime_sync_outcome \<times> hook_calls" where
  "sync_hook_runtime_state pending_uids network_uids request calls =
     (case checked_request request UpdatePending (encode_uid_payload pending_uids) calls of
        (r, calls1) \<Rightarrow>
          (case break_networks request network_uids calls1 of
             (failed, calls2) \<Rightarrow>
               (\<lparr>hs_pending_error = (case r of Inr _ \<Rightarrow> None | Inl e \<Rightarrow> Some (show_error e)),
                 hs_failed_network_uids = failed\<rparr>, calls2)))"

subsection \<open>The health cycle of the hook\<close>

record hook_health_work =
  hw_needs_config_sync :: bool
  hw_xposed_payload :: "bytes option"
  hw_config_revision :: u64

record hook_health_result =
  hr_sync_result :: "bool res option"
  hr_health_result :: "string res"

definition current_xposed_payload :: "read_only_state \<Rightarrow> bytes res" where
  "current_xposed_payload s = encode_xposed_config_payload (ro_settings s) (encode_app_config (ro_app_config s))"

definition prepare_hook_health_work :: "read_only_state \<Rightarrow> hook_health_work" where
  "prepare_hook_health_work s =
    \<lparr>hw_needs_config_sync = True,
     hw_xposed_payload = (case current_xposed_payload s of Inr p \<Rightarrow> Some p | Inl _ \<Rightarrow> None),
     hw_config_revision = ro_config_revision s\<rparr>"

definition execute_hook_health_work ::
  "hook_health_work \<Rightarrow> string res \<Rightarrow> world \<Rightarrow> hook_health_result \<times> world" where
  "execute_hook_health_work work health w =
     (if \<not> hw_needs_config_sync work then (\<lparr>hr_sync_result = None, hr_health_result = health\<rparr>, w)
      else
        case hw_xposed_payload work of
          None \<Rightarrow>
            (\<lparr>hr_sync_result = Some (Inl (Protocol_Error ''failed to encode xposed config payload for sync'')),
              hr_health_result = health\<rparr>, w)
        | Some payload \<Rightarrow>
            (case hook_call payload w of
               (r, w1) \<Rightarrow> (\<lparr>hr_sync_result = Some r, hr_health_result = health\<rparr>, w1)))"

definition xposed_config_matches_current_state :: "read_only_state \<Rightarrow> bytes option \<Rightarrow> bool" where
  "xposed_config_matches_current_state s expected =
     (case expected of None \<Rightarrow> False | Some payload \<Rightarrow> current_xposed_payload s = Inr payload)"

definition push_once_now :: "(u128 \<Rightarrow> log_record) \<Rightarrow> read_only_state \<Rightarrow> world \<Rightarrow> read_only_state \<times> world" where
  "push_once_now record_at s w =
     (case read_clock w of
        (now, w1) \<Rightarrow> (s\<lparr>ro_manager_log := log_push_once (record_at now) (ro_manager_log s)\<rparr>, w1))"

definition note_sync_result ::
  "hook_health_work \<Rightarrow> bool res option \<Rightarrow> read_only_state \<Rightarrow> world \<Rightarrow> read_only_state \<times> world" where
  "note_sync_result work sync_result s w =
     (case sync_result of
        None \<Rightarrow> (s, w)
      | Some (Inr synced) \<Rightarrow>
          (let current = (synced \<and> hw_config_revision work = ro_config_revision s \<and>
                 xposed_config_matches_current_state s (hw_xposed_payload work))
           in push_once_now
                (\<lambda>now. if current then
                     diagnostic LL_Debug now (''hook config synced: managed_apps=''
                       @ show_nat (length (ro_app_config s)) @ '' settings='' @ show_nat (length (ro_settings s)))
                   else if synced then fault LL_Warn now ''discarded stale hook config sync result''
                   else fault LL_Warn now ''hook config sync rejected'')
                (s\<lparr>ro_hook_config_synced := current\<rparr>) w)
      | Some (Inl e) \<Rightarrow>
          push_once_now (\<lambda>now. fault LL_Warn now (''hook config sync failed: '' @ show_error e))
            (s\<lparr>ro_hook_config_synced := False\<rparr>) w)"

definition hook_ready :: "string res \<Rightarrow> bool" where
  "hook_ready answer =
     (case answer of Inr payload \<Rightarrow> is_ready_for_control (classify_hook_health_payload payload) | Inl _ \<Rightarrow> False)"

definition apply_hook_health_result ::
  "startup_env \<Rightarrow> hook_health_work \<Rightarrow> hook_health_result \<Rightarrow> read_only_state \<Rightarrow> capability_cache \<Rightarrow> world \<Rightarrow>
   read_only_state \<times> capability_cache \<times> world" where
  "apply_hook_health_result env work result s cache w =
     (case note_sync_result work (hr_sync_result result) (s\<lparr>ro_daemon_health := ''active''\<rparr>) w of
        (s1, w1) \<Rightarrow>
          let s2 = note_hook_health (hr_health_result result) s1;
              s3 = (if hook_ready (hr_health_result result) then s2 else s2\<lparr>ro_hook_config_synced := False\<rparr>)
          in case refresh_runtime_diagnostics env cache s3 of (s4, cache1) \<Rightarrow> (s4, cache1, w1))"

subsection \<open>A live control pass\<close>

text \<open>What a pass reads from the system, besides the calls of the controller.\<close>

record live_env =
  lv_discover :: "u32 bset \<Rightarrow> (u32, runtime_process list) btree res"
  lv_cgroup_state :: "nat \<Rightarrow> string \<Rightarrow> freeze_state res"
  lv_proc_state :: "nat \<Rightarrow> i32 \<Rightarrow> char res"
  lv_foreground :: "u32 list res"
  lv_rx_bytes :: "(u32 \<Rightarrow> u64 option) res"
  lv_control :: control_env
  lv_now :: u128

definition should_run_control_pass :: "read_only_state \<Rightarrow> bool" where
  "should_run_control_pass s =
     (ro_control_allowed s \<and> ro_hook_health s = ''active'' \<and> ro_hook_config_synced s \<and>
      list_ex (\<lambda>r. is_control_policy_mode (ac_mode r)) (ro_app_config s))"

definition processes_of_uid :: "(u32, runtime_process list) btree \<Rightarrow> u32 \<Rightarrow> runtime_process list" where
  "processes_of_uid listing uid = (case bt_get listing uid of Some ps \<Rightarrow> ps | None \<Rightarrow> [])"

text \<open>With control disabled every thaw looks its application up anew.\<close>

definition thaw_env :: "live_env \<Rightarrow> control_env" where
  "thaw_env lv = (lv_control lv)\<lparr>ce_discover := (\<lambda>_ _ uid.
     map_sum id (\<lambda>listing. processes_of_uid listing uid) (lv_discover lv [uid]))\<rparr>"

definition thaw_disabled_control_state ::
  "control_env \<Rightarrow> u128 \<Rightarrow> read_only_state \<Rightarrow> runtime_control_state \<Rightarrow> history \<Rightarrow>
   unit res \<times> read_only_state \<times> runtime_control_state \<times> history" where
  "thaw_disabled_control_state env now s c h =
     (case thaw_all_frozen env now c h of (r, c1, h1) \<Rightarrow> (r, s\<lparr>ro_freeze_status := []\<rparr>, c1, h1))"

text \<open>During a pass the controller sees the processes found at its start, and the received bytes are
  sampled at most once, and only if a candidate for a download is running.\<close>

definition pass_env :: "live_env \<Rightarrow> (u32, runtime_process list) btree \<Rightarrow> control_env" where
  "pass_env lv listing =
     (let candidate = list_ex (\<lambda>p. is_candidate_package (rp_package_name p)) (concat (map snd listing))
      in (lv_control lv)
           \<lparr>ce_discover := (\<lambda>_ _ uid. Inr (processes_of_uid listing uid)),
            ce_sample := (\<lambda>_ uid _.
              if \<not> candidate then Inr None
              else case lv_rx_bytes lv of
                     Inr values \<Rightarrow> Inr (values uid) | Inl e \<Rightarrow> Inl (System_Error (show_error e)))\<rparr>)"

definition live_processes :: "live_env \<Rightarrow> manager_app_config_record list \<Rightarrow> (u32, runtime_process list) btree res" where
  "live_processes lv app_config =
     map_sum id (map (\<lambda>(uid, ps).
         (uid, reconcile_live_process_control_states (lv_cgroup_state lv) (lv_proc_state lv) ps)))
       (lv_discover lv (managed_uids_of app_config))"

definition require_foreground_uids_for_control :: "u32 list res \<Rightarrow> u32 list res" where
  "require_foreground_uids_for_control foreground = foreground"

definition run_live_control_pass ::
  "live_env \<Rightarrow> read_only_state \<Rightarrow> runtime_control_state \<Rightarrow> history \<Rightarrow>
   unit res \<times> read_only_state \<times> runtime_control_state \<times> history" where
  "run_live_control_pass lv s c h =
     (if \<not> should_run_control_pass s then thaw_disabled_control_state (thaw_env lv) (lv_now lv) s c h
      else
        case live_processes lv (ro_app_config s) of
          Inl e \<Rightarrow> (Inl e, s, c, h)
        | Inr listing \<Rightarrow>
            (case require_foreground_uids_for_control (lv_foreground lv) of
               Inl e \<Rightarrow> (Inl e, s, c, h)
             | Inr foreground \<Rightarrow>
                 (case run_control_pass (pass_env lv listing) (ro_app_config s) (ro_settings s) foreground
                         (lv_now lv) c h of
                    (Inl e, c1, h1) \<Rightarrow> (Inl e, s, c1, h1)
                  | (Inr _, c1, h1) \<Rightarrow>
                      (case freeze_status_records (ro_app_config s) (processes_of_uid listing) foreground
                              (lv_now lv) c1 of
                         (records, c2) \<Rightarrow> (Inr (), s\<lparr>ro_freeze_status := records\<rparr>, c2, h1)))))"

subsection \<open>After a pass\<close>

definition requeue_all :: "u32 list \<Rightarrow> runtime_control_state \<Rightarrow> runtime_control_state" where
  "requeue_all uids c = fold requeue_network_restriction_uid uids c"

definition show_uid_list :: "u32 list \<Rightarrow> string" where
  "show_uid_list uids = ''['' @ str_join '', '' (map show_u32 uids) @ '']''"

text \<open>What the loop writes back into the shared state.\<close>

definition publish_pass ::
  "string \<Rightarrow> control_operation list \<Rightarrow> hook_runtime_sync_outcome \<Rightarrow> manager_freeze_status_record list \<Rightarrow>
   read_only_state \<Rightarrow> world \<Rightarrow> read_only_state \<times> world" where
  "publish_pass json operations out status s w =
     (let s1 = s\<lparr>ro_operation_log_json := json,
                ro_manager_log := fold (\<lambda>op. log_push (operation_record op)) operations (ro_manager_log s)\<rparr>;
          (s2, w2) = (case hs_pending_error out of
             None \<Rightarrow> (s1, w)
           | Some e \<Rightarrow> push_once_now (\<lambda>now. fault LL_Warn now (''hook pending UID sync failed: '' @ e)) s1 w);
          (s3, w3) = (if hs_failed_network_uids out = [] then (s2, w2)
             else push_once_now (\<lambda>now. fault LL_Warn now (''hook network break failed for UIDs ''
                    @ show_uid_list (hs_failed_network_uids out) @ ''; queued for retry'')) s2 w2)
      in (s3\<lparr>ro_freeze_status := status\<rparr>, w3))"

end
