(* ===== verification/Control_Tracking.thy ===== *)
theory Control_Tracking
  imports Server
begin

text \<open>
  Handling the record of one uid leaves the other uids alone, so what holds of the processes frozen
  for a record still holds at the end of the pass.
\<close>

subsection \<open>Applications of other uids\<close>

definition others_frozen :: "u32 \<Rightarrow> runtime_control_state \<Rightarrow> runtime_identity set" where
  "others_frozen uid s = {i \<in> set (rc_frozen_apps s). snd i \<noteq> uid}"

named_theorems others_simps \<open>steps that leave the applications of other uids as they are\<close>

lemma others_cong: "rc_frozen_apps s = rc_frozen_apps s' \<Longrightarrow> others_frozen uid s = others_frozen uid s'"
  by (simp add: others_frozen_def)

lemma others_edits [others_simps]:
  "others_frozen uid (remove_pending i s) = others_frozen uid s"
  "others_frozen uid (set_pending i due s) = others_frozen uid s"
  "others_frozen uid (set_block i sg s) = others_frozen uid s"
  "others_frozen uid (drop_old_block i s) = others_frozen uid s"
  "others_frozen uid (request_network_restriction r s) = others_frozen uid s"
  "others_frozen uid (forget_since_if_untracked i s) = others_frozen uid s"
  "others_frozen uid (log_operation t oper s) = others_frozen uid s"
  "others_frozen uid (log_unfreeze t i ps own oc a b s) = others_frozen uid s"
  "others_frozen uid (finish_action settings t ab r i ps d act res s) = others_frozen uid s"
  "others_frozen uid (clear_transient_control_state_for_uid uid' s) = others_frozen uid s"
  "others_frozen uid (clear_detached_ownership i s) = others_frozen uid s"
  by (simp_all add: others_frozen_def drop_old_block_def log_operation_def log_unfreeze_def
      clear_transient_control_state_for_uid_def clear_detached_ownership_def)

lemma others_own [others_simps]:
  assumes "snd i = uid"
  shows "others_frozen uid (track_frozen i t own s) = others_frozen uid s"
    and "others_frozen uid (clear_frozen i s) = others_frozen uid s"
    and "others_frozen uid (mark_abnormal_thaw_for_refreeze i s) = others_frozen uid s"
  using assms
  by (auto simp: others_frozen_def track_frozen_def clear_frozen_def mark_abnormal_thaw_for_refreeze_def)

lemma others_clear_detached [others_simps]: "others_frozen uid (clear_detached P s) = others_frozen uid s"
proof -
  have "others_frozen uid (fold clear_detached_ownership ids s) = others_frozen uid s" for ids
    by (induction ids arbitrary: s) (simp_all add: others_simps)
  then show ?thesis by (simp add: clear_detached_def)
qed

lemma others_no_processes [others_simps]: "others_frozen uid (no_processes uid s) = others_frozen uid s"
proof -
  have "others_frozen uid (fold clear_frozen ids s) = others_frozen uid s"
    if "\<forall>i \<in> set ids. snd i = uid" for ids s
    using that by (induction ids arbitrary: s) (simp_all add: others_simps)
  from this [THEN trans] show ?thesis
    unfolding no_processes_def Let_def by (rule; auto simp: others_simps)
qed

lemma others_thaw_each:
  "\<forall>i \<in> set ids. snd i = uid \<Longrightarrow>
   others_frozen uid (fst (snd (thaw_each env t reason ids fs s h))) = others_frozen uid s"
proof (induction ids arbitrary: fs s h)
  case (Cons i ids)
  then show ?case
    by (simp add: Let_def others_simps split: sum.split prod.split)
qed simp

lemma others_control_blocked [others_simps]:
  "others_frozen uid (fst (control_blocked env t uid s h)) = others_frozen uid s"
  using others_thaw_each [of "filter (\<lambda>i. snd i = uid) (rc_frozen_apps (clear_transient_control_state_for_uid uid s))"
      uid env t "''policy or protected package blocks control''" "[]" "clear_transient_control_state_for_uid uid s" h]
  by (simp add: control_blocked_def thaw_frozen_identities_def Let_def others_simps split_beta)

lemma others_steps [others_simps]:
  assumes "snd i = uid"
  shows "others_frozen uid (fst (foreground_step env t i ps s h)) = others_frozen uid s"
    and "others_frozen uid (fst (wakeup_step env settings t i ps s h)) = others_frozen uid s"
    and "others_frozen uid (snd (delay_gate settings t ab r i ps s)) = others_frozen uid s"
    and "others_frozen uid (fst (snd (fallback_signal env t r i ps s h))) = others_frozen uid s"
    and "others_frozen uid (fst (undo_freeze env t i d ps new s h)) = others_frozen uid s"
    and "others_frozen uid (fst (snd (signal_action_step env t r i ps sg d s h))) = others_frozen uid s"
    and "others_frozen uid (fst (snd (terminate_action env t i ps d s h))) = others_frozen uid s"
  using assms
  by (simp_all add: foreground_step_def wakeup_step_def delay_gate_def fallback_signal_def undo_freeze_def
      signal_action_step_def terminate_action_def Let_def others_simps split: prod.split option.split)

lemma others_download_gate [others_simps]:
  "others_frozen uid (fst (snd (download_gate env t i ps s h))) = others_frozen uid s"
proof -
  have "others_frozen uid (snd (evaluate_download u p smp t s)) = others_frozen uid s" for u p smp
    by (simp add: evaluate_download_def others_frozen_def split: prod.split)
  then show ?thesis
    by (auto simp: download_gate_def Let_def others_simps split: prod.split download_deferral_action.split)
      (metis snd_conv)+
qed

lemma others_freeze_failed [others_simps]:
  assumes "snd i = uid"
  shows "others_frozen uid (fst (freeze_failed env t r policy i ps sg out failure s h)) = others_frozen uid s"
proof -
  define s1 where "s1 = (if str_contains failure shared_uid_message then set_block i sg s else s)"
  define s2 where "s2 = (if ft_residual_possible out then track_frozen i t FO_ResidualUnknown s1 else s1)"
  obtain res s3 h3 where 3: "fallback_signal env t r i ps s2 h = (res, s3, h3)" by (metis prod_cases3)
  have s2: "others_frozen uid s2 = others_frozen uid s"
    using assms by (simp add: s1_def s2_def others_simps)
  moreover have "others_frozen uid s3 = others_frozen uid s2"
    using others_steps(4) [OF assms, of env t r ps s2 h] by (simp add: 3)
  ultimately show ?thesis
    unfolding freeze_failed_def Let_def s1_def [symmetric] s2_def [symmetric] 3
    using assms by (auto simp: others_simps split: prod.splits if_splits)
qed

lemma others_freeze_action [others_simps]:
  "snd i = uid \<Longrightarrow>
   others_frozen uid (fst (snd (freeze_action env t r policy i ps sg d s h))) = others_frozen uid s"
  by (simp add: freeze_action_def Let_def others_simps split_beta split: option.split sum.split)

lemma others_act_on [others_simps]:
  assumes "snd i = uid"
  shows "others_frozen uid (fst (snd (act_on env settings t ab r i ps s h))) = others_frozen uid s"
proof -
  have "others_frozen uid (fst (snd (control_action_step env t r policy i qs sg d s g))) = others_frozen uid s"
    for policy qs sg d g
    using assms by (simp add: control_action_step_def others_simps split: decision_action.split)
  then show ?thesis
    by (auto simp: act_on_def Let_def others_simps split: prod.split action_end.split)
      (metis fst_conv snd_conv)+
qed

lemma others_background_step [others_simps]:
  assumes "snd i = uid"
  shows "others_frozen uid (fst (snd (background_step env settings t ab r i ps s h))) = others_frozen uid s"
proof -
  obtain w s1 where 1: "delay_gate settings t ab r i ps s = (w, s1)" by fastforce
  obtain w2 s2 h2 where 2: "download_gate env t i ps s1 h = (w2, s2, h2)" by (metis prod_cases3)
  have "others_frozen uid s1 = others_frozen uid s" "others_frozen uid s2 = others_frozen uid s1"
    using others_steps(3) [OF assms, of settings t ab r ps s] others_download_gate [of uid env t i ps s1 h]
    by (simp_all add: 1 2)
  with assms show ?thesis
    by (simp add: background_step_def 1 2 others_simps split: bool.split)
qed

lemma control_record_others:
  "others_frozen (ac_uid r) (fst (snd (control_record env settings fg t due r s h))) = others_frozen (ac_uid r) s"
  by (simp add: control_record_def tracked_step_def Let_def others_simps split: sum.split)

subsection \<open>The history of a pass only grows\<close>

lemma release_uncontrolled_grows [history_grows]: "suffix h (snd (release_uncontrolled env cfg t s h))"
  by (simp add: release_uncontrolled_def Let_def split_beta thaw_identities_grows)

lemma release_uncontrolled_held: "held_pids (snd (release_uncontrolled env cfg t s h)) \<subseteq> held_pids h"
  by (simp add: release_uncontrolled_def Let_def split_beta thaw_identities_held)

lemma control_steps_grow [history_grows]:
  "suffix h (snd (control_blocked env t uid s h))"
  "suffix h (snd (foreground_step env t i ps s h))"
  "suffix h (snd (wakeup_step env settings t i ps s h))"
  "suffix h (snd (undo_freeze env t i d ps new s h))"
  "suffix h (snd (snd (fallback_signal env t r i ps s h)))"
  "suffix h (snd (snd (terminate_action env t i ps d s h)))"
  by (simp_all add: control_blocked_def foreground_step_def wakeup_step_def undo_freeze_def fallback_signal_def
      terminate_action_def Let_def split_beta thaw_identities_grows unfreeze_identity_grows
      signal_stop_transaction_grows terminate_transaction_grows split: option.split)

lemma freeze_failed_grows [history_grows]:
  "suffix h (snd (freeze_failed env t r policy i ps sg out failure s h))"
  by (simp add: freeze_failed_def Let_def split_beta control_steps_grow(5))

lemma freeze_action_grows [history_grows]:
  "suffix h (snd (snd (freeze_action env t r policy i ps sg d s h)))"
proof -
  obtain out h1 where 1: "apply_freeze_transaction env False ps h = (out, h1)" by fastforce
  have g: "suffix h h1" using freeze_transaction_grows [of h env False ps] by (simp add: 1)
  show ?thesis
  proof (cases "ft_failure out")
    case (Some failure)
    then show ?thesis
      using suffix_order.trans [OF g freeze_failed_grows] by (simp add: freeze_action_def 1 split_beta)
  next
    case None
    have "suffix h (E_Discover n u x # h1)" for n u x using g by (rule suffix_skip)
    then show ?thesis
      using suffix_order.trans [OF _ control_steps_grow(4)] None
      by (simp add: freeze_action_def 1 Let_def split_beta split: sum.split)
  qed
qed

lemma signal_action_grows [history_grows]:
  "suffix h (snd (snd (signal_action_step env t r i ps sg d s h)))"
  using suffix_order.trans [OF promotion_for_grows signal_stop_transaction_grows]
  by (simp add: signal_action_step_def Let_def split_beta split: option.split)

lemma act_on_grows [history_grows]: "suffix h (snd (snd (act_on env settings t ab r i ps s h)))"
proof -
  have "suffix h (snd (snd (control_action_step env t r policy i qs sg d s (E_Binder b # h))))" for policy qs sg d b
  proof -
    have "suffix g (snd (snd (control_action_step env t r policy i qs sg d s g)))" for g
      by (simp add: control_action_step_def history_grows split: decision_action.split)
    then show ?thesis by (rule suffix_step)
  qed
  then show ?thesis
    by (simp add: act_on_def Let_def split_beta split: action_end.split)
qed

lemma background_step_grows [history_grows]:
  "suffix h (snd (snd (background_step env settings t ab r i ps s h)))"
  using suffix_order.trans [OF download_gate_suffix act_on_grows] download_gate_suffix
  by (simp add: background_step_def split_beta split: bool.split)

lemma control_record_grows [history_grows]:
  "suffix h (snd (snd (control_record env settings fg t due r s h)))"
  using suffix_step [OF control_steps_grow(1)] suffix_step [OF control_steps_grow(2)]
    suffix_step [OF control_steps_grow(3)] suffix_step [OF background_step_grows]
  by (simp add: control_record_def tracked_step_def Let_def suffix_ConsI split: sum.split)

subsection \<open>Tracking through a whole pass\<close>

lemma noticed_persists:
  assumes n: "noticed env s h h' uid pid" and g: "suffix h' h''"
    and same: "others_frozen uid' s = others_frozen uid' s'" and uid: "uid \<noteq> uid'"
  shows "noticed env s' h h'' uid pid"
proof -
  have "\<exists>i \<in> set (rc_frozen_apps s'). snd i = uid" if "\<exists>i \<in> set (rc_frozen_apps s). snd i = uid"
    using that same uid unfolding others_frozen_def by blast
  then show ?thesis
    using n g unfolding noticed_def by (meson suffix_order.trans)
qed

lemma records_keep_noticed:
  assumes "noticed env s h0 h uid pid" and "uid \<notin> ac_uid ` set rs"
    and "control_records env settings fg t due rs s h = (e, s', h')"
  shows "noticed env s' h0 h' uid pid"
  using assms
proof (induction rs arbitrary: s h)
  case (Cons r rs)
  obtain x s1 h1 where 1: "control_record env settings fg t due r s h = (x, s1, h1)" by (metis prod_cases3)
  have "noticed env s1 h0 h1 uid pid"
    using control_record_others [of r env settings fg t due s h] control_record_grows [of h env settings fg t due r s]
      Cons.prems(2) by (intro noticed_persists [OF Cons.prems(1)]) (auto simp: 1)
  with Cons.IH [of s1 h1] Cons.prems show ?case by (cases x) (simp_all add: 1)
qed simp

lemma control_records_noticed:
  assumes "control_records env settings fg t due rs s h = (None, s', h')" and "distinct (map ac_uid rs)"
    and "pid \<in> held_pids h'" and "pid \<notin> held_pids h"
  shows "\<exists>r \<in> set rs. is_control_policy_mode (ac_mode r) \<and> noticed env s' h h' (ac_uid r) pid"
  using assms
proof (induction rs arbitrary: s h)
  case (Cons r rs)
  obtain s1 h1 where 1: "control_record env settings fg t due r s h = (None, s1, h1)"
    and 2: "control_records env settings fg t due rs s1 h1 = (None, s', h')"
    using Cons.prems(1) by (auto split: prod.splits option.splits)
  show ?case
  proof (cases "pid \<in> held_pids h1")
    case True
    with Cons.prems(4) no_untracked_freeze [OF 1] have n: "noticed env s1 h h1 (ac_uid r) pid" by blast
    have "is_control_policy_mode (ac_mode r)"
      using 1 True Cons.prems(4) by (cases "is_control_policy_mode (ac_mode r)") (simp_all add: control_record_def)
    moreover have "noticed env s' h h' (ac_uid r) pid"
      using records_keep_noticed [OF n _ 2] Cons.prems(2) by auto
    ultimately show ?thesis by auto
  next
    case False
    have "suffix h h1" using control_record_grows [of h env settings fg t due r s] by (simp add: 1)
    with Cons.IH [OF 2 _ Cons.prems(3) False] Cons.prems(2) noticed_since [of h h1] show ?thesis by auto
  qed
qed simp

text \<open>
  A freeze is never forgotten: after a control pass that ended without an error over records
  of different uids, every process that the pass left newly frozen belongs to a controlled record
  whose uid has an application tracked as frozen, and so will be thawed with it, unless the process
  had disappeared, while frozen, from a listing of the uid made by the pass, and listings of the uid
  can change.
\<close>

lemma pass_tracks_every_freeze:
  assumes "run_control_pass env app_config settings foreground_uids timestamp_ms s h = (Inr (), s', h')"
    and "distinct (map ac_uid app_config)"
  shows "\<forall>pid \<in> held_pids h' - held_pids h. \<exists>record \<in> set app_config.
    is_control_policy_mode (ac_mode record) \<and> noticed env s' h h' (ac_uid record) pid"
proof
  fix pid
  assume pid: "pid \<in> held_pids h' - held_pids h"
  obtain s1 h1 where 1: "release_uncontrolled env app_config timestamp_ms s h = (s1, h1)" by fastforce
  obtain due s2 where 2: "refreeze_audit_due settings timestamp_ms s1 = (due, s2)" by fastforce
  have 3: "control_records env settings foreground_uids timestamp_ms due app_config s2 h1 = (None, s', h')"
    using assms(1) by (simp add: run_control_pass_def 1 2 split: prod.splits option.splits)
  have "held_pids h1 \<subseteq> held_pids h" and g: "suffix h h1"
    using release_uncontrolled_held [of env app_config timestamp_ms s h]
      release_uncontrolled_grows [of h env app_config timestamp_ms s] by (simp_all add: 1)
  with control_records_noticed [OF 3 assms(2)] pid noticed_since [OF g]
  show "\<exists>record \<in> set app_config.
      is_control_policy_mode (ac_mode record) \<and> noticed env s' h h' (ac_uid record) pid" by blast
qed

lemma status_records_keep_frozen:
  "rc_frozen_apps (snd (freeze_status_records cfg processes_of fg t s)) = rc_frozen_apps s"
  by (simp add: freeze_status_records_def Let_def split_beta)

lemma thaw_all_held: "held_pids (snd (snd (thaw_all_frozen env t s h))) \<subseteq> held_pids h"
  by (simp add: thaw_all_frozen_def Let_def split_beta thaw_identities_held)

lemma pass_env_stable: "stable_listing (pass_env lv listing) uid"
  by (simp add: stable_listing_def pass_env_def Let_def)


definition tracking_live :: live_env where
  "tracking_live =
    \<lparr>lv_discover = (\<lambda>_. Inr [(10123, [demo_process 4242, demo_process 4243])]),
     lv_cgroup_state = (\<lambda>_ _. Inr Thawed), lv_proc_state = (\<lambda>_ _. Inr (CHR ''S'')),
     lv_foreground = Inr [], lv_rx_bytes = Inr (\<lambda>_. None), lv_control = demo_env 0, lv_now = 9000\<rparr>"

definition tracking_state :: read_only_state where
  "tracking_state = default_read_only_state
    \<lparr>ro_app_config := [demo_record], ro_settings := [], ro_control_allowed := True,
     ro_hook_health := ''active'', ro_hook_config_synced := True\<rparr>"


end
