(* ===== verification/Daemon.thy ===== *)
theory Daemon
  imports Server
begin

text \<open>
  The two threads of the daemon (\<^verbatim>\<open>run_manager_server_forever\<close> and
  \<^verbatim>\<open>spawn_control_loop\<close> of \<^verbatim>\<open>sys/socket.rs\<close>) as a step
  relation.  The main thread serves the manager one connection after the other; the loop thread runs
  health cycle, control pass and synchronisation in phases.  The policy action gate excludes a policy
  mutation from a whole loop iteration; between two phases of the loop other requests are served, since
  the state lock is free there.  A step is what happens under one lock, or one exchange with the hook.
\<close>

subsection \<open>The state of the daemon\<close>

text \<open>A mutation works on a detached copy while it holds the gate.\<close>

datatype manager_phase = M_Idle | M_Working manager_frame read_only_state

text \<open>The phases of an iteration; the gate is held in all but the first.\<close>

datatype loop_phase =
    L_Idle
  | L_Prepared hook_health_work
  | L_Executed hook_health_work hook_health_result
  | L_Applied read_only_state
  | L_Passed read_only_state "u32 list" "u32 list" string "control_operation list"
  | L_Synced read_only_state hook_runtime_sync_outcome string "control_operation list"

text \<open>\<open>dm_history\<close> keeps one history for each control pass, the last one first.\<close>

record daemon =
  dm_state :: read_only_state
  dm_sampler :: realtime_sampler
  dm_control :: runtime_control_state
  dm_history :: "history list"
  dm_calls :: hook_calls
  dm_world :: world
  dm_cache :: capability_cache
  dm_manager :: manager_phase
  dm_loop :: loop_phase

record daemon_env =
  de_files :: metric_files
  de_health :: "string res"
  de_startup :: startup_env
  de_live :: live_env
  de_request :: "hook_calls \<Rightarrow> xposed_command \<Rightarrow> bytes \<Rightarrow> bytes res"

subsection \<open>Steps of the main thread\<close>

text \<open>\<^verbatim>\<open>with_manager_state_after_request_read\<close> for a command that is no policy
  mutation: it runs on the shared state, under the state lock.\<close>

definition serve_shared :: "daemon_env \<Rightarrow> manager_frame \<Rightarrow> daemon \<Rightarrow> daemon" where
  "serve_shared env frame d =
     (case answer_request frame (de_files env) (dm_state d) (dm_sampler d) (dm_world d) of
        (r, s, sampler, w) \<Rightarrow> d\<lparr>dm_state := s, dm_sampler := sampler, dm_world := w\<rparr>)"

definition begin_mutation :: "manager_frame \<Rightarrow> daemon \<Rightarrow> daemon" where
  "begin_mutation frame d = d\<lparr>dm_manager := M_Working frame (dm_state d)\<rparr>"

text \<open>The whole working copy is written back, also when the handler failed.\<close>

definition commit_mutation :: "daemon_env \<Rightarrow> manager_frame \<Rightarrow> read_only_state \<Rightarrow> daemon \<Rightarrow> daemon" where
  "commit_mutation env frame working d =
     (case answer_request frame (de_files env) working (dm_sampler d) (dm_world d) of
        (r, s, sampler, w) \<Rightarrow>
          d\<lparr>dm_state := s, dm_sampler := sampler, dm_world := w, dm_manager := M_Idle\<rparr>)"

subsection \<open>Steps of the loop thread\<close>

definition pass_step :: "daemon_env \<Rightarrow> read_only_state \<Rightarrow> daemon \<Rightarrow> daemon" where
  "pass_step env snapshot d =
     (case run_live_control_pass (de_live env) snapshot (dm_control d) [] of
        (r, snapshot1, c1, h1) \<Rightarrow>
          (case take_network_restriction_uids c1 of
             (network, c2) \<Rightarrow>
               d\<lparr>dm_control := c2, dm_history := h1 # dm_history d,
                 dm_loop := L_Passed snapshot1 (pending_freeze_uids c1) network
                   (oplog_to_json (rc_operation_log c1)) (ol_records (rc_operation_log c1))\<rparr>))"

definition sync_step ::
  "daemon_env \<Rightarrow> read_only_state \<Rightarrow> u32 list \<Rightarrow> u32 list \<Rightarrow> string \<Rightarrow> control_operation list \<Rightarrow> daemon \<Rightarrow> daemon" where
  "sync_step env snapshot pending network json operations d =
     (case (if ro_hook_health snapshot = ''active''
            then sync_hook_runtime_state pending network (de_request env) (dm_calls d)
            else (\<lparr>hs_pending_error = None, hs_failed_network_uids = network\<rparr>, dm_calls d)) of
        (out, calls) \<Rightarrow>
          d\<lparr>dm_calls := calls, dm_control := requeue_all (hs_failed_network_uids out) (dm_control d),
            dm_loop := L_Synced snapshot out json operations\<rparr>)"

definition loop_step :: "daemon_env \<Rightarrow> daemon \<Rightarrow> daemon" where
  "loop_step env d =
     (case dm_loop d of
        L_Idle \<Rightarrow> d\<lparr>dm_loop := L_Prepared (prepare_hook_health_work (dm_state d))\<rparr>
      | L_Prepared work \<Rightarrow>
          (case execute_hook_health_work work (de_health env) (dm_world d) of
             (result, w) \<Rightarrow> d\<lparr>dm_world := w, dm_loop := L_Executed work result\<rparr>)
      | L_Executed work result \<Rightarrow>
          (case apply_hook_health_result (de_startup env) work result (dm_state d) (dm_cache d) (dm_world d) of
             (s, cache, w) \<Rightarrow> d\<lparr>dm_state := s, dm_cache := cache, dm_world := w, dm_loop := L_Applied s\<rparr>)
      | L_Applied snapshot \<Rightarrow> pass_step env snapshot d
      | L_Passed snapshot pending network json operations \<Rightarrow>
          sync_step env snapshot pending network json operations d
      | L_Synced snapshot out json operations \<Rightarrow>
          (case publish_pass json operations out (ro_freeze_status snapshot) (dm_state d) (dm_world d) of
             (s, w) \<Rightarrow> d\<lparr>dm_state := s, dm_world := w, dm_loop := L_Idle\<rparr>))"

definition gate_free :: "daemon \<Rightarrow> bool" where
  "gate_free d = (dm_loop d = L_Idle \<and> dm_manager d = M_Idle)"

inductive daemon_step :: "daemon \<Rightarrow> daemon \<Rightarrow> bool" where
  serve: "dm_manager d = M_Idle \<Longrightarrow> \<not> is_policy_mutation_command (mf_command frame) \<Longrightarrow>
    daemon_step d (serve_shared env frame d)"
| begin_change: "gate_free d \<Longrightarrow> is_policy_mutation_command (mf_command frame) \<Longrightarrow>
    daemon_step d (begin_mutation frame d)"
| commit_change: "dm_manager d = M_Working frame working \<Longrightarrow> daemon_step d (commit_mutation env frame working d)"
| begin_loop: "gate_free d \<Longrightarrow> daemon_step d (loop_step env d)"
| continue_loop: "dm_loop d \<noteq> L_Idle \<Longrightarrow> daemon_step d (loop_step env d)"

inductive_cases daemon_stepE: "daemon_step d d'"

inductive daemon_run :: "daemon \<Rightarrow> daemon \<Rightarrow> bool" for d0 where
  started: "daemon_run d0 d0"
| stepped: "daemon_run d0 d \<Longrightarrow> daemon_step d d' \<Longrightarrow> daemon_run d0 d'"

text \<open>The daemon as \<^verbatim>\<open>run_with_paths\<close> hands it to the server.\<close>

definition launched ::
  "startup_env \<Rightarrow> daemon_paths \<Rightarrow> recovery_env \<Rightarrow> (u32 bset \<Rightarrow> (u32, runtime_process list) btree res) \<Rightarrow>
   kernel \<Rightarrow> world \<Rightarrow> daemon" where
  "launched env paths recovery discover k w =
     (case start_daemon env paths None (\<lambda>payload. fst (hook_call payload w)) recovery discover k of
        (s, cache, k1) \<Rightarrow>
          \<lparr>dm_state = s, dm_sampler = default_sampler, dm_control = default_control_state, dm_history = [],
           dm_calls = [],
           dm_world = (case current_xposed_payload s of Inr payload \<Rightarrow> snd (hook_call payload w) | Inl _ \<Rightarrow> w),
           dm_cache = cache, dm_manager = M_Idle, dm_loop = L_Idle\<rparr>)"

subsection \<open>What the locks protect\<close>

text \<open>The claim behind the flag \<open>ro_hook_config_synced\<close>: the last configuration sent to the hook was
  accepted, and is the current one.\<close>

definition hook_holds :: "read_only_state \<Rightarrow> world \<Rightarrow> bool" where
  "hook_holds s w = (\<exists>payload earlier. current_xposed_payload s = Inr payload \<and> wd_hook w = (payload, Inr True) # earlier)"

definition synced_claim :: "read_only_state \<Rightarrow> world \<Rightarrow> bool" where
  "synced_claim s w = (ro_hook_config_synced s \<longrightarrow> hook_holds s w)"

definition same_policy :: "read_only_state \<Rightarrow> read_only_state \<Rightarrow> bool" where
  "same_policy s t =
     (ro_settings s = ro_settings t \<and> ro_app_config s = ro_app_config t \<and>
      ro_config_revision s = ro_config_revision t)"

text \<open>A snapshot the loop works on: the policy and the gates of the shared state.\<close>

definition snapshot_of :: "read_only_state \<Rightarrow> read_only_state \<Rightarrow> bool" where
  "snapshot_of s snapshot =
     (same_policy s snapshot \<and> ro_hook_config_synced snapshot = ro_hook_config_synced s \<and>
      ro_hook_health snapshot = ro_hook_health s \<and> ro_control_allowed snapshot = ro_control_allowed s)"

definition phase_ok :: "daemon \<Rightarrow> bool" where
  "phase_ok d =
     (case dm_loop d of
        L_Idle \<Rightarrow> synced_claim (dm_state d) (dm_world d)
      | L_Prepared work \<Rightarrow> synced_claim (dm_state d) (dm_world d) \<and> work = prepare_hook_health_work (dm_state d)
      | L_Executed work result \<Rightarrow>
          work = prepare_hook_health_work (dm_state d) \<and>
          (hr_sync_result result \<noteq> Some (Inr True) \<or> hook_holds (dm_state d) (dm_world d)) \<and>
          hr_sync_result result \<noteq> None
      | L_Applied snapshot \<Rightarrow> synced_claim (dm_state d) (dm_world d) \<and> snapshot_of (dm_state d) snapshot
      | L_Passed snapshot _ _ _ _ \<Rightarrow> synced_claim (dm_state d) (dm_world d) \<and> snapshot_of (dm_state d) snapshot
      | L_Synced snapshot _ _ _ \<Rightarrow> synced_claim (dm_state d) (dm_world d) \<and> snapshot_of (dm_state d) snapshot)"

definition gate_ok :: "daemon \<Rightarrow> bool" where
  "gate_ok d =
     (case dm_manager d of
        M_Idle \<Rightarrow> True
      | M_Working frame working \<Rightarrow>
          dm_loop d = L_Idle \<and> working = dm_state d \<and> is_policy_mutation_command (mf_command frame))"

definition daemon_ok :: "daemon \<Rightarrow> bool" where
  "daemon_ok d =
     (manager_ok (dm_state d) \<and> sampler_ok (dm_sampler d) \<and> control_state_ok (dm_control d) \<and>
      gate_ok d \<and> phase_ok d)"

subsection \<open>Requests that change no policy\<close>

definition gates_kept :: "read_only_state \<Rightarrow> world \<Rightarrow> read_only_state \<Rightarrow> world \<Rightarrow> bool" where
  "gates_kept s w s' w' =
     (steady s s' \<and> ro_hook_config_synced s' = ro_hook_config_synced s \<and> ro_hook_health s' = ro_hook_health s \<and>
      ro_control_allowed s' = ro_control_allowed s \<and> wd_hook w' = wd_hook w)"

lemma gates_kept_refl [simp]: "gates_kept s w s w" by (simp add: gates_kept_def)

lemma gates_kept_trans: "gates_kept s w s1 w1 \<Longrightarrow> gates_kept s1 w1 s2 w2 \<Longrightarrow> gates_kept s w s2 w2"
  unfolding gates_kept_def using steady_trans by auto

lemma gates_kept_policy:
  assumes "gates_kept s w s' w'"
  shows "synced_claim s' w' = synced_claim s w" "prepare_hook_health_work s' = prepare_hook_health_work s"
    "snapshot_of s' t = snapshot_of s t" "hook_holds s' w' = hook_holds s w" "manager_ok s \<Longrightarrow> manager_ok s'"
  using assms
  by (auto simp: gates_kept_def steady_def synced_claim_def hook_holds_def current_xposed_payload_def
      prepare_hook_health_work_def snapshot_of_def same_policy_def manager_ok_def)

lemma append_log_gates: "append_legacy_log_message m s w = (s', w') \<Longrightarrow> gates_kept s w s' w'"
  by (auto simp: gates_kept_def append_legacy_log_message_def steady_def read_clock_def wf_intros split: prod.splits)

lemma atomic_write_gates: "atomic_write p b w = (r, w') \<Longrightarrow> gates_kept s w s w'"
  using atomic_write_effect [of p b w r w'] by (simp add: gates_kept_def only_file_def world_frame_def)

lemma label_gates: "label_command payload s w = (r, s', w') \<Longrightarrow> gates_kept s w s' w'"
  by (auto simp: label_command_def Let_def split: option.splits prod.splits sum.splits
      dest!: append_log_gates atomic_write_gates [of _ _ _ _ _ s] intro: gates_kept_trans)

lemma uid_time_gates: "uid_time_command s w = (r, s', w') \<Longrightarrow> gates_kept s w s' w'"
proof -
  assume run: "uid_time_command s w = (r, s', w')"
  obtain t w1 where 1: "text_file (ro_uid_time_path s) w = (t, w1)" by fastforce
  obtain b s1 where 2: "encode_uid_time t s = (b, s1)" by fastforce
  have "wd_hook w1 = wd_hook w"
    using 1 file_read_frame by (fastforce simp: text_file_def world_frame_def split: prod.splits sum.splits)
  moreover have "ro_hook_config_synced s1 = ro_hook_config_synced s \<and> ro_hook_health s1 = ro_hook_health s \<and>
      ro_control_allowed s1 = ro_control_allowed s"
    using 2 by (auto simp: encode_uid_time_def Let_def split: if_splits prod.splits)
  ultimately show ?thesis
    using run steady_uid_time [OF 2] by (auto simp: uid_time_command_def 1 2 gates_kept_def)
qed

lemma plain_command_gates:
  assumes "\<not> is_policy_mutation_command (mf_command frame)"
    and "state_command frame s w = (r, s', w')"
  shows "gates_kept s w s' w'"
proof -
  have "gates_kept s w s' w'" if "clear_log_command s w = (r, s', w')"
    using that by (auto simp: clear_log_command_def gates_kept_def steady_def read_clock_def wf_intros)
  moreover have "gates_kept s w s' w'" if "proc_state_command s w = (r, s', w')"
    using that by (auto simp: proc_state_command_def append_legacy_proc_state_log_def
        split: prod.splits dest!: append_log_gates)
  ultimately show ?thesis
    using assms label_gates uid_time_gates
    unfolding state_command_def is_policy_mutation_command_def
    by (cases "mf_command frame") auto
qed

lemma answer_parts:
  assumes "answer_request frame files s sampler w = (r, s', sampler', w')"
  obtains r' where "handle_manager_command frame files s sampler w = (r', s', sampler', w')"
  using assms by (auto simp: answer_request_def split: prod.splits sum.splits)

lemma answer_plain:
  assumes "\<not> is_policy_mutation_command (mf_command frame)"
    and "answer_request frame files s sampler w = (r, s', sampler', w')"
  shows "gates_kept s w s' w'"
  using assms(2)
proof (rule answer_parts)
  fix r'
  assume "handle_manager_command frame files s sampler w = (r', s', sampler', w')"
  then show ?thesis
    using plain_command_gates [OF assms(1)]
    by (auto simp: handle_manager_command_def split: if_splits prod.splits)
qed

lemma answer_ok:
  assumes "answer_request frame files s sampler w = (r, s', sampler', w')" "manager_ok s" "sampler_ok sampler"
  shows "manager_ok s'" "sampler_ok sampler'"
  using assms(1)
  by (rule answer_parts;
      use handle_manager_command_parts assms(2,3) one_commit_ok realtime_sampler_type in blast)+

subsection \<open>Requests that change the policy\<close>

lemma settings_command_claim:
  assumes "settings_command payload s w = (r, s', w')" "synced_claim s w"
  shows "synced_claim s' w'"
proof -
  obtain resp s1 w1 where 1: "set_settings_var payload s w = (resp, s1, w1)" by (metis prod_cases3)
  have "\<not> ro_hook_config_synced s' \<or> gates_kept s w s' w'"
  proof (cases "resp = success_response")
    case True
    then show ?thesis
      using assms(1) unfolding settings_command_def 1 prod.case by (auto split: prod.splits dest!: append_log_gates
          simp: gates_kept_def)
  next
    case False
    then have "\<not> ro_hook_config_synced s1 \<or> gates_kept s w s1 w1"
      using 1 unfolding set_settings_var_def set_settings_var_with_writer_def Let_def
      by (auto split: if_splits option.splits prod.splits sum.splits)
    moreover have "gates_kept s1 w1 s' w'"
      using assms(1) False unfolding settings_command_def 1 prod.case
      by (auto split: if_splits prod.splits dest!: append_log_gates)
    ultimately show ?thesis using gates_kept_trans by (auto simp: gates_kept_def steady_def)
  qed
  then show ?thesis using assms(2) gates_kept_policy(1) by (auto simp: synced_claim_def)
qed

lemma rollback_unsynced:
  "rollback_failed_app_config_update prior payload s w = (r, s', w') \<Longrightarrow> \<not> ro_hook_config_synced s'"
  by (auto simp: rollback_failed_app_config_update_def Let_def append_log_simps split: prod.splits sum.splits if_splits)

lemma hook_refused_unsynced: "hook_refused prior payload e s w = (r, s', w') \<Longrightarrow> \<not> ro_hook_config_synced s'"
  by (auto simp: hook_refused_def append_log_simps split: prod.splits sum.splits option.splits
      dest!: rollback_unsynced)

lemma apply_app_config_claim:
  assumes "apply_app_config rs payload previous prior tokens s w = (r, s', w')"
    and "encode_xposed_config_payload (ro_settings s) (encode_app_config rs) = Inr payload"
  shows "synced_claim s' w'"
proof -
  obtain x w1 where 1: "hook_call payload w = (x, w1)" by fastforce
  show ?thesis
  proof (cases "x = Inr True")
    case False
    with assms(1) 1 obtain e where "hook_refused prior previous e s w1 = (r, s', w')"
      by (auto simp: apply_app_config_def split: sum.splits bool.splits)
    then show ?thesis using hook_refused_unsynced by (auto simp: synced_claim_def)
  next
    case True
    obtain s1 w2 where 2: "log_config_change (ro_app_config s) rs s w1 = (s1, w2)" by fastforce
    have "s' = (commit_app_config rs tokens s1)\<lparr>ro_hook_config_synced := True\<rparr>" "w' = w2"
      using assms(1) True by (simp_all add: apply_app_config_def 1 2)
    moreover have "ro_settings s1 = ro_settings s" "wd_hook w2 = wd_hook w1"
      using 2 by (auto simp: log_config_change_def append_log_simps split: option.splits)
    moreover have "wd_hook w1 = (payload, Inr True) # wd_hook w"
      using 1 True by (auto simp: hook_call_def Let_def)
    ultimately show ?thesis using assms(2) by (simp add: synced_claim_def hook_holds_def current_xposed_payload_def)
  qed
qed

lemma set_app_config_claim:
  assumes "set_app_config_with_persistence_writer atomic_write payload s w = (r, s', w')" "synced_claim s w"
  shows "synced_claim s' w'"
proof -
  have durable: "synced_claim s' w'"
    if "encode_xposed_config_payload (ro_settings s) (encode_app_config rs) = Inr p"
      "(case persist_app_config_with_writer atomic_write s (ro_app_config s) rs prior w1 of
          (Inl e, w2) \<Rightarrow> (Inl e, s\<lparr>ro_hook_config_synced := False\<rparr>, w2)
        | (Inr (AP_CommittedButUnconfirmed tokens), w2) \<Rightarrow>
            (case append_legacy_log_message m ((commit_app_config rs tokens s)\<lparr>ro_hook_config_synced := False\<rparr>) w2 of
               (s1, w3) \<Rightarrow> (Inr failure_response, s1, w3))
        | (Inr (AP_Durable tokens), w2) \<Rightarrow> apply_app_config rs p q prior tokens s w2) = (r, s', w')"
    for rs prior w1 m p q
  proof -
    obtain y w2 where 2: "persist_app_config_with_writer atomic_write s (ro_app_config s) rs prior w1 = (y, w2)"
      by fastforce
    show ?thesis
    proof (cases y)
      case (Inl e)
      with that(2) show ?thesis by (auto simp: 2 synced_claim_def)
    next
      case settled: (Inr z)
      show ?thesis
      proof (cases z)
        case (AP_Durable tokens)
        with that settled show ?thesis by (auto simp: 2 intro: apply_app_config_claim)
      next
        case (AP_CommittedButUnconfirmed tokens)
        with that(2) settled show ?thesis
          by (auto simp: 2 synced_claim_def append_log_simps split: prod.splits)
      qed
    qed
  qed
  have same: "synced_claim s' w'" if "s' = s" "wd_hook w' = wd_hook w"
    using assms(2) that by (simp add: synced_claim_def hook_holds_def)
  obtain p0 where p0: "encode_xposed_config_payload (ro_settings s) (encode_app_config (ro_app_config s)) = p0" by simp
  show ?thesis
  proof (cases p0)
    case (Inl e)
    with assms(1) p0 show ?thesis by (auto simp: set_app_config_with_persistence_writer_def intro: same)
  next
    case q: (Inr q)
    show ?thesis
    proof (cases "decode_app_config payload")
      case (Inl e)
      with assms(1) p0 q show ?thesis by (auto simp: set_app_config_with_persistence_writer_def intro: same)
    next
      case requested: (Inr requested)
      let ?rs = "merge_app_config_records (ro_app_config s) requested"
      show ?thesis
      proof (cases "encode_xposed_config_payload (ro_settings s) (encode_app_config ?rs)")
        case (Inl e)
        with assms(1) p0 q requested show ?thesis
          by (auto simp: set_app_config_with_persistence_writer_def intro: same)
      next
        case p: (Inr p)
        obtain x w1 where 1: "read_existing_file (ro_app_config_path s) w = (x, w1)" by fastforce
        show ?thesis
        proof (cases x)
          case (Inl e)
          with assms(1) p0 q requested p 1 have "s' = s" "w' = w1"
            by (simp_all add: set_app_config_with_persistence_writer_def)
          then show ?thesis using read_existing_failed [OF 1 [unfolded Inl]] same by simp
        next
          case (Inr prior)
          show ?thesis
            by (rule durable [OF p]; use assms(1) in
              \<open>simp only: set_app_config_with_persistence_writer_def p0 q requested p 1 Inr Let_def sum.case prod.case\<close>)
        qed
      qed
    qed
  qed
qed

lemma answer_claim:
  assumes "answer_request frame files s sampler w = (r, s', sampler', w')" "synced_claim s w"
  shows "synced_claim s' w'"
proof (cases "is_policy_mutation_command (mf_command frame)")
  case False
  with answer_plain [OF False assms(1)] assms(2) show ?thesis by (simp add: gates_kept_policy)
next
  case True
  from assms(1) show ?thesis
  proof (rule answer_parts)
    fix r'
    assume "handle_manager_command frame files s sampler w = (r', s', sampler', w')"
    with True assms(2) show ?thesis
      by (auto simp: handle_manager_command_def is_policy_mutation_command_def state_command_def
          split: prod.splits dest: settings_command_claim set_app_config_claim)
  qed
qed

subsection \<open>The steps of the loop\<close>

lemma hook_call_holds: "hook_call payload w = (r, w') \<Longrightarrow> wd_hook w' = (payload, r) # wd_hook w"
  by (auto simp: hook_call_def Let_def)

lemma push_once_gates: "push_once_now f s w = (s', w') \<Longrightarrow> gates_kept s w s' w'"
  by (auto simp: push_once_now_def gates_kept_def steady_def read_clock_def wf_intros split: prod.splits)

lemma note_sync_effect:
  assumes "note_sync_result work (Some result) s w = (s', w')"
  shows "steady s s' \<and> wd_hook w' = wd_hook w \<and>
    (ro_hook_config_synced s' \<longrightarrow> result = Inr True)"
proof -
  obtain b f where "push_once_now f (s\<lparr>ro_hook_config_synced := b\<rparr>) w = (s', w')" "b \<longrightarrow> result = Inr True"
    using assms by (auto simp: note_sync_result_def Let_def split: sum.splits)
  then show ?thesis using push_once_gates by (fastforce simp: gates_kept_def)
qed

lemma health_and_diagnostics:
  "steady s (note_hook_health a s)" "ro_hook_config_synced (note_hook_health a s) = ro_hook_config_synced s"
  "steady s (fst (refresh_runtime_diagnostics env cache s))"
  "ro_hook_config_synced (fst (refresh_runtime_diagnostics env cache s)) = ro_hook_config_synced s"
  by (auto simp: note_hook_health_def refresh_runtime_diagnostics_def update_diagnostics_def steady_def Let_def
      split: sum.splits prod.splits)

lemma apply_result_effect:
  assumes "apply_hook_health_result env work result s cache w = (s', cache', w')"
    and "hr_sync_result result = Some x"
  shows "steady s s' \<and> wd_hook w' = wd_hook w \<and> (ro_hook_config_synced s' \<longrightarrow> x = Inr True)"
proof -
  obtain s1 w1 where 1: "note_sync_result work (Some x) (s\<lparr>ro_daemon_health := ''active''\<rparr>) w = (s1, w1)"
    by fastforce
  note eff = note_sync_effect [OF 1]
  have s: "steady s (s\<lparr>ro_daemon_health := ''active''\<rparr>)" by (simp add: steady_def)
  define s2 where "s2 = note_hook_health (hr_health_result result) s1"
  define s3 where "s3 = (if hook_ready (hr_health_result result) then s2 else s2\<lparr>ro_hook_config_synced := False\<rparr>)"
  have fin: "s' = fst (refresh_runtime_diagnostics env cache s3)" "w' = w1"
    using assms unfolding apply_hook_health_result_def assms(2) 1 prod.case Let_def s2_def [symmetric] s3_def [symmetric]
    by (simp_all add: case_prod_beta')
  have "steady s1 s3" "ro_hook_config_synced s3 \<longrightarrow> ro_hook_config_synced s1"
    by (simp_all add: s3_def s2_def health_and_diagnostics)
  then have "steady s s3 \<and> (ro_hook_config_synced s3 \<longrightarrow> x = Inr True)"
    using eff s steady_trans by blast
  then show ?thesis
    unfolding fin using eff health_and_diagnostics(3) [of s3 env cache] steady_trans
    by (auto simp: health_and_diagnostics(4))
qed

lemma publish_gates: "publish_pass json ops out st s w = (s', w') \<Longrightarrow> gates_kept s w s' w'"
proof -
  have logs: "log_wf l \<Longrightarrow> log_wf (fold (\<lambda>op. log_push (operation_record op)) ops l)" for l
    by (induction ops arbitrary: l) (auto simp: wf_intros)
  let ?s1 = "s\<lparr>ro_operation_log_json := json,
      ro_manager_log := fold (\<lambda>op. log_push (operation_record op)) ops (ro_manager_log s)\<rparr>"
  have g1: "gates_kept s w ?s1 w" by (simp add: gates_kept_def steady_def logs)
  have status: "gates_kept t v (t'\<lparr>ro_freeze_status := x\<rparr>) v'" if "gates_kept t v t' v'" for t v t' v' x
    using that by (simp add: gates_kept_def steady_def)
  assume "publish_pass json ops out st s w = (s', w')"
  then show ?thesis
    using g1 unfolding publish_pass_def Let_def
    by (auto split: option.splits prod.splits if_splits
        dest!: push_once_gates intro!: status intro: gates_kept_trans)
qed

lemma freeze_status_ok:
  assumes "control_state_ok c"
  shows "control_state_ok (snd (freeze_status_records cfg processes_of fg now c))"
proof -
  let ?row = "status_row processes_of fg (pending_by_uid (rc_pending_freezes c)) (map snd (rc_frozen_apps c)) now"
  have "bt_wf (rc_status_since_ms c)" using assms by (simp add: control_state_ok_defs)
  then have "bt_wf (snd (status_rows ?row (filter (\<lambda>r. is_control_policy_mode (ac_mode r)) cfg) (rc_status_since_ms c)))"
    by (rule status_rows_wf [rotated]) (rule status_row_exact)
  then show ?thesis
    using assms by (auto simp: freeze_status_records_def Let_def control_state_ok_defs split: prod.splits)
qed

lemma thaw_all_ok:
  assumes "control_state_ok c"
  shows "control_state_ok (fst (snd (thaw_all_frozen env now c h)))"
proof -
  obtain r c1 h1 where 1: "thaw_frozen_identities env now ''control disabled'' (rc_frozen_apps c) c h = (r, c1, h1)"
    by (metis prod_cases3)
  have "control_state_ok c1"
    using thaw_identities_ok [OF assms, of env now "''control disabled''" "rc_frozen_apps c" h] by (simp add: 1)
  then have "control_state_ok (clear_detached (\<lambda>_. True) c1)" by (rule clear_detached_ok)
  then show ?thesis by (simp add: thaw_all_frozen_def 1 Let_def control_state_ok_defs)
qed

lemma live_pass_effect:
  assumes "run_live_control_pass lv s c h = (r, s', c', h')"
  shows "(s' = s \<or> (\<exists>st. s' = s\<lparr>ro_freeze_status := st\<rparr>)) \<and> (control_state_ok c \<longrightarrow> control_state_ok c')"
proof (cases "should_run_control_pass s")
  case False
  have "control_state_ok c \<longrightarrow> control_state_ok c'" if "thaw_all_frozen env now c h = (r, c', h')" for env now
    using thaw_all_ok [of c env now h] that by simp
  with False show ?thesis
    using assms by (auto simp: run_live_control_pass_def thaw_disabled_control_state_def split: prod.splits)
next
  case True
  show ?thesis
  proof (cases "live_processes lv (ro_app_config s)")
    case (Inl e)
    with True assms show ?thesis by (auto simp: run_live_control_pass_def)
  next
    case listing: (Inr listing)
    show ?thesis
    proof (cases "lv_foreground lv")
      case (Inl e)
      with True listing assms show ?thesis
        by (auto simp: run_live_control_pass_def require_foreground_uids_for_control_def)
    next
      case fg: (Inr fg)
      obtain x c1 h1 where 1: "run_control_pass (pass_env lv listing) (ro_app_config s) (ro_settings s) fg
          (lv_now lv) c h = (x, c1, h1)" by (metis prod_cases3)
      obtain rows c2 where 2: "freeze_status_records (ro_app_config s) (processes_of_uid listing) fg (lv_now lv) c1
          = (rows, c2)" by fastforce
      have "control_state_ok c \<longrightarrow> control_state_ok c1" using run_control_pass_ok [of c] 1 by (metis fst_conv snd_conv)
      moreover have "control_state_ok c1 \<longrightarrow> control_state_ok c2" using freeze_status_ok [of c1] 2 by (metis snd_conv)
      moreover have "(s' = s \<and> c' = c1) \<or> (s' = s\<lparr>ro_freeze_status := rows\<rparr> \<and> c' = c2)"
        using True listing fg assms
        by (cases x) (auto simp: run_live_control_pass_def require_foreground_uids_for_control_def 1 2)
      ultimately show ?thesis by metis
    qed
  qed
qed

lemma requeue_all_ok: "control_state_ok c \<Longrightarrow> control_state_ok (requeue_all uids c)"
  unfolding requeue_all_def by (induction uids arbitrary: c) (auto intro: requeue_ok)

subsection \<open>Every step keeps the invariant\<close>

lemma manager_ok_steady: "steady s s' \<Longrightarrow> manager_ok s \<Longrightarrow> manager_ok s'"
  by (auto simp: steady_def manager_ok_def)

lemma busy_loop_manager_idle: "gate_ok d \<Longrightarrow> dm_loop d \<noteq> L_Idle \<Longrightarrow> dm_manager d = M_Idle"
  by (auto simp: gate_ok_def split: manager_phase.splits)

lemma execute_effect:
  assumes "execute_hook_health_work (prepare_hook_health_work s) health w = (result, w')"
  shows "hr_sync_result result \<noteq> None" "hr_sync_result result = Some (Inr True) \<Longrightarrow> hook_holds s w'"
proof -
  show "hr_sync_result result \<noteq> None"
    using assms
    by (auto simp: execute_hook_health_work_def prepare_hook_health_work_def split: option.splits prod.splits)
  show "hook_holds s w'" if "hr_sync_result result = Some (Inr True)"
  proof (cases "current_xposed_payload s")
    case (Inl e)
    with assms that show ?thesis by (auto simp: execute_hook_health_work_def prepare_hook_health_work_def)
  next
    case (Inr p)
    obtain r w1 where 1: "hook_call p w = (r, w1)" by fastforce
    have "r = Inr True" "w' = w1"
      using assms that Inr by (auto simp: execute_hook_health_work_def prepare_hook_health_work_def 1)
    then show ?thesis using hook_call_holds [OF 1] Inr by (simp add: hook_holds_def)
  qed
qed

lemma pass_step_ok:
  assumes "control_state_ok (dm_control d)" "snapshot_of s snapshot"
  obtains c h snapshot1 p n j ops where
    "pass_step env snapshot d = d\<lparr>dm_control := c, dm_history := h, dm_loop := L_Passed snapshot1 p n j ops\<rparr>"
    "control_state_ok c" "snapshot_of s snapshot1"
proof -
  obtain r snapshot1 c1 h1 where 1: "run_live_control_pass (de_live env) snapshot (dm_control d) []
      = (r, snapshot1, c1, h1)" by (metis prod_cases4)
  obtain n c2 where 2: "take_network_restriction_uids c1 = (n, c2)" by fastforce
  note eff = live_pass_effect [OF 1]
  have "control_state_ok c2" using eff assms(1) take_network_ok [of c1] 2 by simp
  moreover have "snapshot_of s snapshot1"
    using eff assms(2) by (auto simp: snapshot_of_def same_policy_def)
  ultimately show thesis using that by (simp add: pass_step_def 1 2)
qed

lemma loop_step_ok:
  assumes ok: "daemon_ok d" and turn: "dm_loop d \<noteq> L_Idle \<or> gate_free d"
  shows "daemon_ok (loop_step env d)"
proof -
  have idle: "dm_manager d = M_Idle"
    using ok turn busy_loop_manager_idle by (auto simp: daemon_ok_def gate_free_def)
  have gate: "gate_ok d'" if "dm_manager d' = M_Idle" for d' using that by (simp add: gate_ok_def)
  note parts = ok [unfolded daemon_ok_def phase_ok_def]
  show ?thesis
  proof (cases "dm_loop d")
    case L_Idle
    with parts show ?thesis by (simp add: loop_step_def daemon_ok_def phase_ok_def gate idle)
  next
    case (L_Prepared work)
    obtain result w where 1: "execute_hook_health_work work (de_health env) (dm_world d) = (result, w)" by fastforce
    have work: "work = prepare_hook_health_work (dm_state d)" using parts L_Prepared by simp
    note execute_effect [OF 1 [unfolded work]]
    with parts L_Prepared show ?thesis
      by (auto simp: loop_step_def 1 1 [unfolded work] daemon_ok_def phase_ok_def gate idle work)
  next
    case (L_Executed work result)
    obtain s cache w where 1: "apply_hook_health_result (de_startup env) work result (dm_state d) (dm_cache d)
        (dm_world d) = (s, cache, w)" by (metis prod_cases3)
    obtain x where x: "hr_sync_result result = Some x" "x = Inr True \<Longrightarrow> hook_holds (dm_state d) (dm_world d)"
      using parts L_Executed by auto
    note eff = apply_result_effect [OF 1 x(1)]
    have after: "loop_step env d = d\<lparr>dm_state := s, dm_cache := cache, dm_world := w, dm_loop := L_Applied s\<rparr>"
      by (simp add: loop_step_def L_Executed 1)
    have "synced_claim s w"
      using eff x(2) by (auto simp: synced_claim_def hook_holds_def current_xposed_payload_def steady_def)
    moreover have "snapshot_of s s" by (simp add: snapshot_of_def same_policy_def)
    moreover have "manager_ok s" using eff parts manager_ok_steady by blast
    ultimately show ?thesis
      using parts unfolding after by (simp add: daemon_ok_def phase_ok_def gate idle)
  next
    case (L_Applied snapshot)
    have "control_state_ok (dm_control d)" "snapshot_of (dm_state d) snapshot" using parts L_Applied by simp_all
    then show ?thesis
    proof (rule pass_step_ok [where env = env])
      fix c h snapshot1 p n j ops
      assume "pass_step env snapshot d = d\<lparr>dm_control := c, dm_history := h, dm_loop := L_Passed snapshot1 p n j ops\<rparr>"
        "control_state_ok c" "snapshot_of (dm_state d) snapshot1"
      then show ?thesis
        using parts L_Applied by (simp add: loop_step_def daemon_ok_def phase_ok_def gate idle)
    qed
  next
    case (L_Passed snapshot pending network json operations)
    then show ?thesis
      using parts by (auto simp: loop_step_def sync_step_def daemon_ok_def phase_ok_def gate idle requeue_all_ok
          split: prod.splits if_splits)
  next
    case (L_Synced snapshot out json operations)
    obtain s w where 1: "publish_pass json operations out (ro_freeze_status snapshot) (dm_state d) (dm_world d) = (s, w)"
      by fastforce
    have "gates_kept (dm_state d) (dm_world d) s w" by (rule publish_gates [OF 1])
    then show ?thesis
      using parts L_Synced
      by (simp add: loop_step_def 1 daemon_ok_def phase_ok_def gate idle gates_kept_policy)
  qed
qed

lemma serve_ok:
  assumes ok: "daemon_ok d" and "dm_manager d = M_Idle" "\<not> is_policy_mutation_command (mf_command frame)"
  shows "daemon_ok (serve_shared env frame d)"
proof -
  obtain r s sampler w where 1: "answer_request frame (de_files env) (dm_state d) (dm_sampler d) (dm_world d)
      = (r, s, sampler, w)" by (metis prod_cases4)
  have kept: "gates_kept (dm_state d) (dm_world d) s w" by (rule answer_plain [OF assms(3) 1])
  note parts = ok [unfolded daemon_ok_def]
  have "manager_ok s" "sampler_ok sampler" using answer_ok [OF 1] parts by blast+
  then show ?thesis
    using parts assms(2)
    by (cases "dm_loop d")
      (auto simp: serve_shared_def 1 daemon_ok_def gate_ok_def phase_ok_def gates_kept_policy [OF kept])
qed

lemma commit_ok:
  assumes ok: "daemon_ok d" and working: "dm_manager d = M_Working frame working"
  shows "daemon_ok (commit_mutation env frame working d)"
proof -
  note parts = ok [unfolded daemon_ok_def]
  have same: "working = dm_state d" "dm_loop d = L_Idle" using parts working by (simp_all add: gate_ok_def)
  obtain r s sampler w where 1: "answer_request frame (de_files env) (dm_state d) (dm_sampler d) (dm_world d)
      = (r, s, sampler, w)" by (metis prod_cases4)
  have "synced_claim s w" using answer_claim [OF 1] parts same by (simp add: phase_ok_def)
  moreover have "manager_ok s" "sampler_ok sampler" using answer_ok [OF 1] parts by blast+
  ultimately show ?thesis
    using parts same by (simp add: commit_mutation_def 1 daemon_ok_def gate_ok_def phase_ok_def)
qed

lemma daemon_step_ok: "daemon_step d d' \<Longrightarrow> daemon_ok d \<Longrightarrow> daemon_ok d'"
proof (induction rule: daemon_step.induct)
  case (begin_change d frame)
  then show ?case by (auto simp: daemon_ok_def gate_ok_def phase_ok_def begin_mutation_def gate_free_def)
qed (blast intro: serve_ok commit_ok loop_step_ok)+

lemma daemon_run_ok: "daemon_run d0 d \<Longrightarrow> daemon_ok d0 \<Longrightarrow> daemon_ok d"
  by (induction rule: daemon_run.induct) (auto intro: daemon_step_ok)

subsection \<open>The launched daemon\<close>

lemma module_prop_synced: "ro_hook_config_synced (apply_module_prop t s) = ro_hook_config_synced s"
proof -
  have line: "ro_hook_config_synced (apply_module_line l s) = ro_hook_config_synced s" for l s
    by (simp add: apply_module_line_def Let_def split: option.splits prod.splits)
  have "ro_hook_config_synced (fold apply_module_line ls s) = ro_hook_config_synced s" for ls s
    by (induction ls arbitrary: s) (simp_all add: line)
  then show ?thesis by (simp add: apply_module_prop_def split: option.splits)
qed

lemma startup_unsynced: "\<not> ro_hook_config_synced (fst (startup_read_only_state_from_paths env paths cache))"
proof -
  have files: "\<not> ro_hook_config_synced (startup_files env paths)"
    by (auto simp: startup_files_def Let_def default_read_only_state_def import_startup_log_def module_prop_synced
        split: option.splits)
  then show ?thesis
    by (simp add: startup_read_only_state_from_paths_def Let_def update_diagnostics_def note_hook_health_def
        append_daemon_status_log_def startup_device_def startup_policy_def split: prod.splits sum.splits)
qed

lemma recovery_keeps_policy:
  "recover_stopped_managed_processes_after_restart env discover now s k = (s', k') \<Longrightarrow>
   ro_settings s' = ro_settings s \<and> ro_app_config s' = ro_app_config s \<and>
   ro_hook_config_synced s' = ro_hook_config_synced s"
  by (auto simp: recover_stopped_managed_processes_after_restart_def Let_def
      split: if_splits sum.splits prod.splits)

lemma launched_ok: "daemon_ok (launched env paths recovery discover k w)"
proof -
  let ?sync = "\<lambda>payload. fst (hook_call payload w)"
  obtain s0 cache where s0: "startup_read_only_state_from_paths env paths None = (s0, cache)" by fastforce
  obtain r s1 where 1: "sync_loaded_config_to_hook (se_clock env 2) ?sync s0 = (r, s1)" by fastforce
  define s2 where "s2 = (case r of Inr _ \<Rightarrow> s1 | Inl e \<Rightarrow> s1\<lparr>ro_manager_log := log_push_once
      (fault LL_Error (se_clock env 3) (''hook config sync failed: '' @ show_error e)) (ro_manager_log s1)\<rparr>)"
  obtain s3 k3 where 3: "recover_stopped_managed_processes_after_restart recovery discover (se_clock env 4) s2 k
      = (s3, k3)" by fastforce
  have start: "start_daemon env paths None ?sync recovery discover k = (s3, cache, k3)"
    by (simp add: start_daemon_def s0 1 s2_def [symmetric] 3 Let_def)
  have ok0: "manager_ok s0" "\<not> ro_hook_config_synced s0"
    using startup_ok [of env paths None] startup_unsynced [of env paths None] by (simp_all add: s0)
  have ok2: "manager_ok s2"
    using sync_loaded_ok [OF 1 ok0(1)] by (simp add: s2_def manager_ok_def wf_intros split: sum.splits)
  have policy: "ro_settings s1 = ro_settings s0 \<and> ro_app_config s1 = ro_app_config s0"
    using 1 by (auto simp: sync_loaded_config_to_hook_def split: sum.splits)
  have sync: "\<exists>payload. current_xposed_payload s1 = Inr payload \<and> fst (hook_call payload w) = Inr True"
    if "ro_hook_config_synced s1"
    using that 1 ok0(2) by (auto simp: sync_loaded_config_to_hook_def current_xposed_payload_def split: sum.splits)
  have s2: "current_xposed_payload s2 = current_xposed_payload s1" "ro_hook_config_synced s2 = ro_hook_config_synced s1"
    by (auto simp: s2_def current_xposed_payload_def split: sum.splits)
  have s3: "current_xposed_payload s3 = current_xposed_payload s1" "ro_hook_config_synced s3 = ro_hook_config_synced s1"
    using recovery_keeps_policy [OF 3] s2 by (auto simp: current_xposed_payload_def)
  let ?w = "case current_xposed_payload s3 of Inr payload \<Rightarrow> snd (hook_call payload w) | Inl _ \<Rightarrow> w"
  have "synced_claim s3 ?w"
  proof (unfold synced_claim_def, rule impI)
    assume "ro_hook_config_synced s3"
    with sync s3 obtain payload where p: "current_xposed_payload s3 = Inr payload" "fst (hook_call payload w) = Inr True"
      by auto
    with hook_call_holds [of payload w "Inr True" "snd (hook_call payload w)"]
    show "hook_holds s3 ?w" by (simp add: hook_holds_def prod_eq_iff)
  qed
  with recovery_keeps_ok [OF 3 ok2] show ?thesis
    by (simp add: launched_def start daemon_ok_def gate_ok_def phase_ok_def default_sampler_ok)
qed

subsection \<open>Properties of every run\<close>

definition demo_startup :: startup_env where
  "demo_startup =
    \<lparr>se_file = (\<lambda>_. \<lparr>fv_metadata = Inl missing_file, fv_text = Inl missing_file, fv_size = Inl missing_file,
       fv_bytes = Inl missing_file\<rparr>),
     se_run = (\<lambda>_ _. None), se_root = True, se_cpu_entries = None, se_os = ''android'', se_arch = ''aarch64'',
     se_hook = Inl (System_Error ''connection refused''), se_probe = [], se_clock = (\<lambda>n. n), se_instant = 0\<rparr>"

definition demo_world :: world where
  "demo_world =
    \<lparr>wd_files = (\<lambda>_. None), wd_faults = [], wd_hook = [], wd_answer = (\<lambda>_ _. Inr True), wd_clock = (\<lambda>n. n),
     wd_ticks = 0\<rparr>"

definition demo_metrics :: metric_files where
  "demo_metrics =
    \<lparr>mt_meminfo = None, mt_proc_stat = None, mt_thermal = [], mt_battery_power = None, mt_battery_voltage = None,
     mt_battery_current = None, mt_usb_voltage = None, mt_usb_current = None, mt_cur_freq = (\<lambda>_. None)\<rparr>"

definition demo_live :: live_env where
  "demo_live =
    \<lparr>lv_discover = (\<lambda>_. Inr []), lv_cgroup_state = (\<lambda>_ _. Inr Thawed), lv_proc_state = (\<lambda>_ _. Inr (CHR ''S'')),
     lv_foreground = Inr [], lv_rx_bytes = Inr (\<lambda>_. None), lv_control = demo_env 0, lv_now = 9000\<rparr>"

definition demo_daemon_env :: daemon_env where
  "demo_daemon_env =
    \<lparr>de_files = demo_metrics, de_health = Inl (System_Error ''connection refused''), de_startup = demo_startup,
     de_live = demo_live, de_request = (\<lambda>_ _ _. Inr (u32_to_le 2))\<rparr>"

definition demo_daemon :: daemon where
  "demo_daemon = launched demo_startup (paths_from_module_dir ''/module'') demo_recovery_env (\<lambda>_. Inr []) demo_kernel
     demo_world"

text \<open>Thawing alone is monitored by a predicate that allows nothing.\<close>

interpretation release_only: control_monitor "\<lambda>_ _ _. False"
  by unfold_locales

lemma live_pass_monitored:
  assumes "run_live_control_pass lv s c [] = (r, s', c', h')"
  shows "monitored (\<lambda>lethal past p. should_run_control_pass s \<and>
    (\<exists>fg. lv_foreground lv = Inr fg \<and> authorized (ro_app_config s) fg lethal past p)) h'"
proof (cases "should_run_control_pass s")
  case False
  have "monitored (\<lambda>_ _ _. False) (snd (snd (thaw_all_frozen (thaw_env lv) (lv_now lv) c [])))"
    by (rule release_only.thaw_all_monitored) simp
  then show ?thesis
    using assms False
    by (simp add: run_live_control_pass_def thaw_disabled_control_state_def split: prod.splits)
next
  case True
  show ?thesis
  proof (cases "live_processes lv (ro_app_config s)")
    case (Inl e)
    with True assms show ?thesis by (auto simp: run_live_control_pass_def)
  next
    case listing: (Inr listing)
    show ?thesis
    proof (cases "lv_foreground lv")
      case (Inl e)
      with True listing assms show ?thesis
        by (auto simp: run_live_control_pass_def require_foreground_uids_for_control_def)
    next
      case fg: (Inr fg)
      obtain x c1 h1 where 1: "run_control_pass (pass_env lv listing) (ro_app_config s) (ro_settings s) fg
          (lv_now lv) c [] = (x, c1, h1)" by (metis prod_cases3)
      have "monitored (authorized (ro_app_config s) fg) h1"
        using run_control_pass_authorized [of "ro_app_config s" fg "[]" "pass_env lv listing" "ro_settings s"
            "lv_now lv" c] by (simp add: 1)
      moreover have "h' = h1"
        using True listing fg assms
        by (cases x) (auto simp: run_live_control_pass_def require_foreground_uids_for_control_def 1
            split: prod.splits)
      ultimately show ?thesis using True fg by simp
    qed
  qed
qed

text \<open>
  C1.  In every run of the two threads, a control pass acts on the current policy: it runs while no
  policy change is in progress, and every process it freezes, stops or kills was freshly validated and
  authorized by the configuration the manager holds at that moment, while control was allowed, the hook
  active, the foreground known, and the last configuration the hook answered was exactly this policy,
  accepted.
\<close>

theorem control_pass_uses_current_policy:
  assumes "daemon_run (launched startup paths recovery discover k w) d" and "dm_loop d = L_Applied snapshot"
  shows "let d' = loop_step env d in
    dm_manager d' = M_Idle \<and> dm_state d' = dm_state d \<and> tl (dm_history d') = dm_history d \<and>
    monitored (\<lambda>lethal past p.
        ro_control_allowed (dm_state d) \<and> ro_hook_health (dm_state d) = ''active'' \<and>
        hook_holds (dm_state d) (dm_world d) \<and>
        (\<exists>fg. lv_foreground (de_live env) = Inr fg \<and>
              authorized (ro_app_config (dm_state d)) fg lethal past p))
      (hd (dm_history d'))"
proof -
  have ok: "daemon_ok d" by (rule daemon_run_ok [OF assms(1) launched_ok])
  have idle: "dm_manager d = M_Idle"
    using ok busy_loop_manager_idle [of d] assms(2) by (simp add: daemon_ok_def)
  have claim: "synced_claim (dm_state d) (dm_world d)" and snap: "snapshot_of (dm_state d) snapshot"
    using ok assms(2) by (simp_all add: daemon_ok_def phase_ok_def)
  obtain r s1 c1 h1 where 1: "run_live_control_pass (de_live env) snapshot (dm_control d) [] = (r, s1, c1, h1)"
    by (metis prod_cases4)
  have after: "dm_manager (loop_step env d) = M_Idle \<and> dm_state (loop_step env d) = dm_state d \<and>
      dm_history (loop_step env d) = h1 # dm_history d"
    by (simp add: loop_step_def assms(2) pass_step_def 1 idle split: prod.splits)
  note acts = live_pass_monitored [OF 1]
  show ?thesis
  proof (cases "should_run_control_pass snapshot")
    case True
    then have "ro_control_allowed (dm_state d) \<and> ro_hook_health (dm_state d) = ''active'' \<and>
        hook_holds (dm_state d) (dm_world d)"
      using snap claim by (auto simp: should_run_control_pass_def snapshot_of_def synced_claim_def)
    with acts True after snap show ?thesis by (simp add: snapshot_of_def same_policy_def)
  next
    case False
    have mono: "monitored (\<lambda>_ _ _. False) h \<Longrightarrow> monitored B h" for B h
      by (induction h) (auto simp: event_ok_def split: ctl_event.splits list.splits)
    from False acts have "monitored (\<lambda>_ _ _. False) h1" by simp
    with after mono show ?thesis by simp
  qed
qed

lemma demo_reaches_pass:
  obtains snapshot where
    "daemon_run demo_daemon (loop_step e (loop_step e (loop_step e demo_daemon)))"
    "dm_loop (loop_step e (loop_step e (loop_step e demo_daemon))) = L_Applied snapshot"
proof -
  let ?d1 = "loop_step e demo_daemon" let ?d2 = "loop_step e ?d1" let ?d3 = "loop_step e ?d2"
  have idle: "dm_loop demo_daemon = L_Idle" "dm_manager demo_daemon = M_Idle"
    by (simp_all add: demo_daemon_def launched_def split: prod.splits)
  then obtain work where 1: "dm_loop ?d1 = L_Prepared work" by (simp add: loop_step_def)
  obtain result w where "execute_hook_health_work work (de_health e) (dm_world ?d1) = (result, w)" by fastforce
  with 1 have 2: "dm_loop ?d2 = L_Executed work result" by (simp add: loop_step_def [of e ?d1])
  obtain s c w2 where "apply_hook_health_result (de_startup e) work result (dm_state ?d2) (dm_cache ?d2)
      (dm_world ?d2) = (s, c, w2)" by (metis prod_cases3)
  with 2 have 3: "dm_loop ?d3 = L_Applied s" by (simp add: loop_step_def [of e ?d2])
  have "daemon_step demo_daemon ?d1" using idle by (intro begin_loop) (simp add: gate_free_def)
  moreover have "daemon_step ?d1 ?d2" "daemon_step ?d2 ?d3" using 1 2 by (auto intro: continue_loop)
  ultimately have "daemon_run demo_daemon ?d3" by (meson started stepped)
  with 3 show thesis using that by blast
qed

theorem control_pass_uses_current_policy_witness:
  "let d = loop_step demo_daemon_env (loop_step demo_daemon_env (loop_step demo_daemon_env demo_daemon))
   in dm_manager (loop_step demo_daemon_env d) = M_Idle \<and> dm_state (loop_step demo_daemon_env d) = dm_state d"
proof -
  let ?e = demo_daemon_env
  let ?d = "loop_step ?e (loop_step ?e (loop_step ?e demo_daemon))"
  obtain snapshot where "daemon_run demo_daemon ?d" "dm_loop ?d = L_Applied snapshot"
    by (rule demo_reaches_pass)
  from control_pass_uses_current_policy [OF this(1) [unfolded demo_daemon_def] this(2) [unfolded demo_daemon_def],
      of ?e]
  show ?thesis by (simp add: Let_def demo_daemon_def)
qed

text \<open>
  C4.  Every reachable state of the daemon is well formed: the shared state, the sampler and the control
  state keep their types, a policy change and an iteration of the loop never overlap, and the copy a
  policy change works on is still the shared state, so writing it back loses no update.
\<close>

theorem daemon_invariant:
  assumes "daemon_run (launched startup paths recovery discover k w) d"
  shows "manager_ok (dm_state d) \<and> sampler_ok (dm_sampler d) \<and> control_state_ok (dm_control d) \<and>
    (case dm_manager d of
       M_Idle \<Rightarrow> True
     | M_Working frame working \<Rightarrow> dm_loop d = L_Idle \<and> working = dm_state d)"
  using daemon_run_ok [OF assms launched_ok]
  by (auto simp: daemon_ok_def gate_ok_def split: manager_phase.splits)

theorem daemon_invariant_witness: "control_state_ok (dm_control demo_daemon)"
  using daemon_invariant [OF started, of demo_startup "paths_from_module_dir ''/module''" demo_recovery_env
      "\<lambda>_. Inr []" demo_kernel demo_world]
  by (simp add: demo_daemon_def)

subsection \<open>The gate opens again\<close>

text \<open>A schedule of the two threads while the loop is busy.\<close>

datatype turn = Loop_Turn daemon_env | Request_Turn daemon_env manager_frame

definition take_turn :: "turn \<Rightarrow> daemon \<Rightarrow> daemon" where
  "take_turn t d =
     (case t of Loop_Turn env \<Rightarrow> loop_step env d | Request_Turn env frame \<Rightarrow> serve_shared env frame d)"

fun is_loop_turn :: "turn \<Rightarrow> bool" where
  "is_loop_turn (Loop_Turn _) = True"
| "is_loop_turn (Request_Turn _ _) = False"

definition phases_left :: "daemon \<Rightarrow> nat" where
  "phases_left d =
     (case dm_loop d of
        L_Idle \<Rightarrow> 0 | L_Prepared _ \<Rightarrow> 5 | L_Executed _ _ \<Rightarrow> 4 | L_Applied _ \<Rightarrow> 3 | L_Passed _ _ _ _ _ \<Rightarrow> 2
      | L_Synced _ _ _ _ \<Rightarrow> 1)"

lemma loop_step_phases:
  "phases_left (loop_step env d) = (if phases_left d = 0 then 5 else phases_left d - 1)"
  "dm_manager (loop_step env d) = dm_manager d"
  by (auto simp: phases_left_def loop_step_def pass_step_def sync_step_def split: loop_phase.splits prod.splits)

lemma serve_phases:
  "phases_left (serve_shared env frame d) = phases_left d" "dm_manager (serve_shared env frame d) = dm_manager d"
  by (auto simp: phases_left_def serve_shared_def split: prod.splits)

lemma turns_phases:
  "length (filter is_loop_turn turns) \<le> phases_left d \<Longrightarrow>
   phases_left (fold take_turn turns d) = phases_left d - length (filter is_loop_turn turns) \<and>
   dm_manager (fold take_turn turns d) = dm_manager d"
proof (induction turns arbitrary: d)
  case (Cons t turns)
  show ?case
  proof (cases t)
    case (Loop_Turn env)
    with Cons show ?thesis by (simp add: take_turn_def loop_step_phases)
  next
    case (Request_Turn env frame)
    with Cons show ?thesis by (simp add: take_turn_def serve_phases)
  qed
qed simp



subsection \<open>What the hook is told after a pass\<close>

definition network_calls :: "u32 list \<Rightarrow> hook_calls" where
  "network_calls uids = rev (map (\<lambda>u. (BreakNetwork, u32_to_le u)) uids)"

definition restriction_refused ::
  "(hook_calls \<Rightarrow> xposed_command \<Rightarrow> bytes \<Rightarrow> bytes res) \<Rightarrow> u32 list \<Rightarrow> hook_calls \<Rightarrow> nat \<Rightarrow> bool" where
  "restriction_refused request uids calls i =
     (\<not> is_ok (case request (network_calls (take i uids) @ calls) BreakNetwork (u32_to_le (uids ! i)) of
          Inl e \<Rightarrow> Inl e | Inr response \<Rightarrow> require_xposed_success BreakNetwork response))"

lemma break_networks_exact:
  "break_networks request uids calls =
     (map (nth uids) (filter (restriction_refused request uids calls) [0..<length uids]), network_calls uids @ calls)"
proof (induction uids arbitrary: calls)
  case (Cons uid uids)
  have shift: "restriction_refused request (uid # uids) calls (Suc i) =
      restriction_refused request uids ((BreakNetwork, u32_to_le uid) # calls) i" for i
    by (simp add: restriction_refused_def network_calls_def)
  have idx: "[0..<Suc n] = 0 # map Suc [0..<n]" for n by (simp add: map_Suc_upt upt_conv_Cons)
  show ?case
    by (simp add: checked_request_def Cons.IH idx filter_map comp_def shift del: upt_Suc)
      (simp add: restriction_refused_def network_calls_def)
qed (simp add: network_calls_def)

lemma requeue_all_requests: "set (rc_network_restriction_requests (requeue_all uids c)) =
    set (rc_network_restriction_requests c) \<union> set uids"
  unfolding requeue_all_def
  by (induction uids arbitrary: c) (auto simp: requeue_network_restriction_uid_def)

text \<open>
  C17.  No network restriction is lost: after a pass, with an active hook the pending uids are sent
  first and then one request for each uid whose network is to be cut, in order; a uid is queued again
  exactly if its request failed or was not acknowledged with success; without an active hook nothing is
  sent and every uid is queued again.
\<close>

theorem network_restrictions_settled:
  "let d' = sync_step env snapshot pending network json operations d;
       told = (UpdatePending, encode_uid_payload pending) # dm_calls d;
       queued = set (rc_network_restriction_requests (dm_control d))
   in if ro_hook_health snapshot = ''active''
      then dm_calls d' = network_calls network @ told \<and>
           set (rc_network_restriction_requests (dm_control d')) =
             queued \<union> {network ! i |i. i < length network \<and> restriction_refused (de_request env) network told i}
      else dm_calls d' = dm_calls d \<and>
           set (rc_network_restriction_requests (dm_control d')) = queued \<union> set network"
  by (auto simp: sync_step_def sync_hook_runtime_state_def checked_request_def break_networks_exact
      requeue_all_requests Let_def)

end
