(* ===== verification/Loops.thy ===== *)
theory Loops
  imports Rt_Prelude
begin

text \<open>
  A contract for the loops that wait for the world: each turn ends the loop or goes on with less fuel,
  whatever the answers are.  Such a loop returns, and what its turns promise holds of its result.  The
  fuel is a pair: what is left of the work, and what is left of the time or of the interruptions.
\<close>

definition less_fuel :: "nat \<times> nat \<Rightarrow> nat \<times> nat \<Rightarrow> bool" where
  "less_fuel a b = (fst a < fst b \<or> fst a = fst b \<and> snd a < snd b)"

lemma wf_less_fuel: "wfP less_fuel"
proof -
  have "{(a, b). less_fuel a b} = less_than <*lex*> less_than"
    by (auto simp: less_fuel_def)
  then show ?thesis by (simp add: wfp_def wf_lex_prod)
qed

text \<open>What a turn promises: \<open>Inl\<close> is the state to go on with, \<open>Inr\<close> the result.\<close>

definition turn_ok ::
  "('s \<Rightarrow> nat \<times> nat) \<Rightarrow> ('s \<Rightarrow> bool) \<Rightarrow> ('s \<Rightarrow> 'r \<Rightarrow> bool) \<Rightarrow> 's \<Rightarrow> 's + 'r \<Rightarrow> bool" where
  "turn_ok fuel alive promised s t =
     (case t of
        Inl s' \<Rightarrow> alive s' \<and> less_fuel (fuel s') (fuel s) \<and> (\<forall>r. promised s' r \<longrightarrow> promised s r)
      | Inr r \<Rightarrow> promised s r)"

lemma turn_okI:
  "(\<And>s'. t = Inl s' \<Longrightarrow> alive s' \<and> less_fuel (fuel s') (fuel s) \<and> (\<forall>r. promised s' r \<longrightarrow> promised s r)) \<Longrightarrow>
   (\<And>r. t = Inr r \<Longrightarrow> promised s r) \<Longrightarrow> turn_ok fuel alive promised s t"
  by (cases t) (simp_all add: turn_ok_def)

locale returning_loop =
  fixes turn :: "'s \<Rightarrow> 's + 'r" and loop :: "'s \<Rightarrow> 'r option"
    and fuel :: "'s \<Rightarrow> nat \<times> nat" and alive :: "'s \<Rightarrow> bool" and promised :: "'s \<Rightarrow> 'r \<Rightarrow> bool"
  assumes unroll: "alive s \<Longrightarrow> loop s = (case turn s of Inl s' \<Rightarrow> loop s' | Inr r \<Rightarrow> Some r)"
    and turns: "alive s \<Longrightarrow> turn_ok fuel alive promised s (turn s)"
begin

lemma returns: "alive s \<Longrightarrow> \<exists>r. loop s = Some r \<and> promised s r"
proof (induction "fuel s" arbitrary: s rule: wfp_induct_rule [OF wf_less_fuel])
  case 1
  show ?case
  proof (cases "turn s")
    case (Inl s')
    with 1 turns [of s] show ?thesis
      using unroll [of s] by (auto simp: turn_ok_def)
  next
    case (Inr r)
    with 1 turns [of s] show ?thesis
      using unroll [of s] by (simp add: turn_ok_def)
  qed
qed

lemma result_promised: "alive s \<Longrightarrow> loop s = Some r \<Longrightarrow> promised s r"
  using returns [of s] by auto

end

text \<open>The interruptions still to come, where one that does not come is always ahead.\<close>

definition interruptions :: "(nat \<Rightarrow> bool) \<Rightarrow> nat \<Rightarrow> nat" where
  "interruptions quiet n = (LEAST m. n \<le> m \<and> quiet m) - n"

lemma interruptions_step:
  assumes "\<exists>m \<ge> n. quiet m" and "\<not> quiet n"
  shows "interruptions quiet (Suc n) < interruptions quiet n"
proof -
  let ?l = "LEAST m. n \<le> m \<and> quiet m"
  have l: "n \<le> ?l \<and> quiet ?l" using assms(1) by (rule LeastI_ex)
  then have "Suc n \<le> ?l" using assms(2) by (metis Suc_leI le_neq_implies_less)
  moreover have "(LEAST m. Suc n \<le> m \<and> quiet m) \<le> ?l"
    using l calculation by (intro Least_le) simp
  ultimately show ?thesis by (simp add: interruptions_def)
qed

end
