(* ===== verification/Streams.thy ===== *)
theory Streams
  imports Daemon Loops
begin

text \<open>
  The reads and writes of whole frames under one deadline (\<^verbatim>\<open>sys/socket.rs\<close>), one
  connection of the manager, and the requests to the hook (\<^verbatim>\<open>sys/xposed_bridge.rs\<close>).
  The loops are partial functions: whether they return depends on the clock and the peer.
\<close>

subsection \<open>Channels\<close>

text \<open>
  A socket with the clock beside it: what the \<open>n\<close>-th reading of the clock and the \<open>n\<close>-th call of each
  kind give, and what has been read and written.  Times are in nanoseconds.
\<close>

record channel =
  ch_now :: "nat \<Rightarrow> nat"
  ch_limit :: "nat \<Rightarrow> io_error option"
  ch_input :: "nat \<Rightarrow> io_error + bytes"
  ch_output :: "nat \<Rightarrow> io_error + nat"
  ch_ticks :: nat
  ch_limits :: "nat list"
  ch_reads :: nat
  ch_writes :: nat
  ch_got :: bytes
  ch_sent :: bytes

definition read_instant :: "channel \<Rightarrow> nat \<times> channel" where
  "read_instant ch = (ch_now ch (ch_ticks ch), ch\<lparr>ch_ticks := Suc (ch_ticks ch)\<rparr>)"

definition set_timeout :: "nat \<Rightarrow> channel \<Rightarrow> io_error option \<times> channel" where
  "set_timeout t ch = (ch_limit ch (length (ch_limits ch)), ch\<lparr>ch_limits := t # ch_limits ch\<rparr>)"

text \<open>A read delivers at most the bytes asked for, a write takes at most those given.\<close>

definition stream_read :: "nat \<Rightarrow> channel \<Rightarrow> (io_error + bytes) \<times> channel" where
  "stream_read n ch =
     (let r = map_sum id (take n) (ch_input ch (ch_reads ch))
      in (r, ch\<lparr>ch_reads := Suc (ch_reads ch),
               ch_got := ch_got ch @ (case r of Inl _ \<Rightarrow> [] | Inr bs \<Rightarrow> bs)\<rparr>))"

definition stream_write :: "bytes \<Rightarrow> channel \<Rightarrow> (io_error + nat) \<times> channel" where
  "stream_write bs ch =
     (let r = map_sum id (min (length bs)) (ch_output ch (ch_writes ch))
      in (r, ch\<lparr>ch_writes := Suc (ch_writes ch),
               ch_sent := ch_sent ch @ (case r of Inl _ \<Rightarrow> [] | Inr k \<Rightarrow> take k bs)\<rparr>))"

subsection \<open>Frames under a deadline\<close>

definition deadline_exceeded :: io_error where
  "deadline_exceeded = \<lparr>io_kind = TimedOut, io_message = ''manager frame deadline exceeded''\<rparr>"

definition frame_ended :: io_error where
  "frame_ended = \<lparr>io_kind = UnexpectedEof, io_message = ''manager frame ended before all bytes arrived''\<rparr>"

definition write_stalled :: io_error where
  "write_stalled = \<lparr>io_kind = WriteZero, io_message = ''manager response write made no progress''\<rparr>"

text \<open>The remaining time is computed anew before each read or write and set as its timeout.\<close>

definition begin_attempt :: "nat \<Rightarrow> channel \<Rightarrow> io_error option \<times> channel" where
  "begin_attempt deadline ch =
     (case read_instant ch of (now, ch1) \<Rightarrow>
        if deadline \<le> now then (Some deadline_exceeded, ch1) else set_timeout (deadline - now) ch1)"

definition timed_out :: "io_error \<Rightarrow> bool" where
  "timed_out e = (io_kind e = TimedOut \<or> io_kind e = WouldBlock)"

partial_function (option) read_exact_with_deadline ::
  "nat \<Rightarrow> nat \<Rightarrow> bytes \<Rightarrow> channel \<Rightarrow> ((io_error + bytes) \<times> channel) option" where
  "read_exact_with_deadline deadline n acc ch =
     (if n \<le> length acc then Some (Inr acc, ch)
      else case begin_attempt deadline ch of
        (Some e, ch1) \<Rightarrow> Some (Inl e, ch1)
      | (None, ch1) \<Rightarrow>
          (case stream_read (n - length acc) ch1 of
             (Inr bs, ch2) \<Rightarrow>
               if bs = [] then Some (Inl frame_ended, ch2)
               else (case read_instant ch2 of (now, ch3) \<Rightarrow>
                       if deadline \<le> now then Some (Inl deadline_exceeded, ch3)
                       else read_exact_with_deadline deadline n (acc @ bs) ch3)
           | (Inl e, ch2) \<Rightarrow>
               if io_kind e = Interrupted then read_exact_with_deadline deadline n acc ch2
               else if timed_out e then Some (Inl deadline_exceeded, ch2)
               else Some (Inl e, ch2)))"

partial_function (option) write_all_with_deadline ::
  "nat \<Rightarrow> bytes \<Rightarrow> channel \<Rightarrow> ((io_error + unit) \<times> channel) option" where
  "write_all_with_deadline deadline bs ch =
     (if bs = [] then Some (Inr (), ch)
      else case begin_attempt deadline ch of
        (Some e, ch1) \<Rightarrow> Some (Inl e, ch1)
      | (None, ch1) \<Rightarrow>
          (case stream_write bs ch1 of
             (Inr k, ch2) \<Rightarrow>
               if k = 0 then Some (Inl write_stalled, ch2)
               else (case read_instant ch2 of (now, ch3) \<Rightarrow>
                       if deadline \<le> now then Some (Inl deadline_exceeded, ch3)
                       else write_all_with_deadline deadline (drop k bs) ch3)
           | (Inl e, ch2) \<Rightarrow>
               if io_kind e = Interrupted then write_all_with_deadline deadline bs ch2
               else if timed_out e then Some (Inl deadline_exceeded, ch2)
               else Some (Inl e, ch2)))"

definition manager_stream_timeout :: nat where "manager_stream_timeout = 5 * 10 ^ 9"

definition io_failed :: "(io_error + 'a) \<Rightarrow> 'a res" where
  "io_failed r = (case r of Inl e \<Rightarrow> Inl (Io_Error e) | Inr x \<Rightarrow> Inr x)"

definition header_payload_len :: "bytes \<Rightarrow> nat" where
  "header_payload_len header = unat (u32_of_le [header ! 0, header ! 1, header ! 2, header ! 3])"

definition read_manager_request :: "channel \<Rightarrow> (manager_frame res \<times> channel) option" where
  "read_manager_request ch =
     (case read_instant ch of (now, ch1) \<Rightarrow>
        let deadline = now + manager_stream_timeout
        in case read_exact_with_deadline deadline manager_header_len [] ch1 of
             None \<Rightarrow> None
           | Some (Inl e, ch2) \<Rightarrow> Some (Inl (Io_Error e), ch2)
           | Some (Inr header, ch2) \<Rightarrow>
               let payload_len = header_payload_len header
               in if payload_len > manager_max_payload_len then
                    Some (Inl (Protocol_Error (''manager frame payload too large: '' @ show_nat payload_len @ '' > ''
                      @ show_nat manager_max_payload_len)), ch2)
                  else
                    case read_exact_with_deadline deadline payload_len [] ch2 of
                      None \<Rightarrow> None
                    | Some (Inl e, ch3) \<Rightarrow> Some (Inl (Io_Error e), ch3)
                    | Some (Inr payload, ch3) \<Rightarrow> Some (parse_manager_frame (header @ payload), ch3))"

definition write_manager_response :: "bytes \<Rightarrow> channel \<Rightarrow> (unit res \<times> channel) option" where
  "write_manager_response response ch =
     (case read_instant ch of (now, ch1) \<Rightarrow>
        map_option (apfst io_failed) (write_all_with_deadline (now + manager_stream_timeout) response ch1))"

subsection \<open>One connection of the manager\<close>

text \<open>What \<^verbatim>\<open>getsockopt(SO_PEERCRED)\<close> gives: the length of the answer and the uid.\<close>

type_synonym peer_credentials = "io_error + nat \<times> u32"

definition ucred_len :: nat where "ucred_len = 12"

definition manager_peer_uid :: "peer_credentials \<Rightarrow> u32 res" where
  "manager_peer_uid credentials =
     (case credentials of
        Inl e \<Rightarrow> Inl (Io_Error e)
      | Inr (len, uid) \<Rightarrow>
          if len \<noteq> ucred_len then Inl (System_Error ''manager peer credential response is incomplete'')
          else Inr uid)"

text \<open>An accepted descriptor is kept only with readable credentials of an authorized uid.\<close>

definition accept_manager :: "u32 bset \<Rightarrow> io_error + peer_credentials \<Rightarrow> bool res" where
  "accept_manager authorized_uids accepted =
     (case accepted of
        Inl e \<Rightarrow> Inl (Io_Error e)
      | Inr credentials \<Rightarrow>
          (case manager_peer_uid credentials of
             Inl _ \<Rightarrow> Inr False
           | Inr uid \<Rightarrow> Inr (is_authorized_manager_peer_uid uid authorized_uids)))"

definition serve_manager_connection ::
  "(manager_frame \<Rightarrow> 's \<Rightarrow> bytes res \<times> 's) \<Rightarrow> 's \<Rightarrow> channel \<Rightarrow> (unit res \<times> 's \<times> channel) option" where
  "serve_manager_connection handle s ch =
     (case read_manager_request ch of
        None \<Rightarrow> None
      | Some (Inl e, ch1) \<Rightarrow> Some (Inl e, s, ch1)
      | Some (Inr frame, ch1) \<Rightarrow>
          (case handle frame s of
             (Inl e, s1) \<Rightarrow> Some (Inl e, s1, ch1)
           | (Inr response, s1) \<Rightarrow>
               map_option (\<lambda>(r, ch2). (r, s1, ch2)) (write_manager_response response ch1)))"

text \<open>A turn of \<^verbatim>\<open>run_manager_server_forever\<close>; an error of \<^verbatim>\<open>accept\<close> ends the server.\<close>

definition serve_peer ::
  "u32 bset \<Rightarrow> io_error + peer_credentials \<Rightarrow> (manager_frame \<Rightarrow> 's \<Rightarrow> bytes res \<times> 's) \<Rightarrow> 's \<Rightarrow> channel \<Rightarrow>
   (unit res \<times> 's \<times> channel) option" where
  "serve_peer authorized_uids accepted handle s ch =
     (case accept_manager authorized_uids accepted of
        Inl e \<Rightarrow> Some (Inl e, s, ch)
      | Inr False \<Rightarrow> Some (Inr (), s, ch)
      | Inr True \<Rightarrow>
          map_option (\<lambda>(_, s1, ch1). (Inr (), s1, ch1)) (serve_manager_connection handle s ch))"

subsection \<open>The loops return once the clock passes the deadline\<close>

definition clock_unbounded :: "channel \<Rightarrow> bool" where
  "clock_unbounded ch = (\<forall>limit. \<exists>n. \<forall>m \<ge> n. limit \<le> ch_now ch m)"

text \<open>What a call leaves alone: the environment; timeouts are added, none of them zero.\<close>

definition same_peer :: "channel \<Rightarrow> channel \<Rightarrow> bool" where
  "same_peer ch ch' =
     (ch_now ch' = ch_now ch \<and> ch_limit ch' = ch_limit ch \<and> ch_input ch' = ch_input ch \<and>
      ch_output ch' = ch_output ch \<and>
      (\<exists>ts. ch_limits ch' = ts @ ch_limits ch \<and> 0 \<notin> set ts))"

lemma same_peer_refl [simp]: "same_peer ch ch" by (simp add: same_peer_def)

lemma same_peer_trans: "same_peer ch ch1 \<Longrightarrow> same_peer ch1 ch2 \<Longrightarrow> same_peer ch ch2"
  by (auto simp: same_peer_def)

lemma same_peer_clock: "same_peer ch ch' \<Longrightarrow> clock_unbounded ch' = clock_unbounded ch"
  by (simp add: same_peer_def clock_unbounded_def)

lemma instant_facts:
  "read_instant ch = (now, ch') \<Longrightarrow>
   same_peer ch ch' \<and> ch_got ch' = ch_got ch \<and> ch_sent ch' = ch_sent ch \<and> ch_ticks ch' = Suc (ch_ticks ch) \<and>
   now = ch_now ch (ch_ticks ch)"
  by (auto simp: read_instant_def same_peer_def)

lemma attempt_facts:
  "begin_attempt deadline ch = (e, ch') \<Longrightarrow>
   same_peer ch ch' \<and> ch_got ch' = ch_got ch \<and> ch_sent ch' = ch_sent ch \<and> ch_ticks ch' = Suc (ch_ticks ch) \<and>
   (e = None \<longrightarrow> ch_now ch (ch_ticks ch) < deadline)"
  by (auto simp: begin_attempt_def read_instant_def set_timeout_def same_peer_def split: if_splits)

lemma read_facts:
  "stream_read n ch = (r, ch') \<Longrightarrow>
   same_peer ch ch' \<and> ch_sent ch' = ch_sent ch \<and> ch_ticks ch' = ch_ticks ch \<and>
   ch_got ch' = ch_got ch @ (case r of Inl _ \<Rightarrow> [] | Inr bs \<Rightarrow> bs) \<and> (\<forall>bs. r = Inr bs \<longrightarrow> length bs \<le> n)"
  by (cases "ch_input ch (ch_reads ch)"; cases r) (auto simp: stream_read_def same_peer_def Let_def)

lemma write_facts:
  "stream_write bs ch = (r, ch') \<Longrightarrow>
   same_peer ch ch' \<and> ch_got ch' = ch_got ch \<and> ch_ticks ch' = ch_ticks ch \<and>
   ch_sent ch' = ch_sent ch @ (case r of Inl _ \<Rightarrow> [] | Inr k \<Rightarrow> take k bs)"
  by (cases "ch_output ch (ch_writes ch)"; cases r) (auto simp: stream_write_def same_peer_def Let_def)

text \<open>What a read of \<open>n\<close> bytes, \<open>acc\<close> of them here already, leaves behind.\<close>

definition read_done :: "nat \<Rightarrow> nat \<Rightarrow> bytes \<Rightarrow> channel \<Rightarrow> (io_error + bytes) \<Rightarrow> channel \<Rightarrow> bool" where
  "read_done deadline n acc ch r ch' =
     (same_peer ch ch' \<and> ch_sent ch' = ch_sent ch \<and> (n \<le> length acc \<longrightarrow> ch' = ch) \<and>
      (\<exists>more. ch_got ch' = ch_got ch @ more \<and> length (acc @ more) \<le> max n (length acc) \<and>
         (case r of
            Inr bs \<Rightarrow> bs = acc @ more \<and> n \<le> length bs \<and>
              (length acc < n \<longrightarrow> ch_now ch (ch_ticks ch' - 1) < deadline)
          | Inl _ \<Rightarrow> True)))"

text \<open>One turn of \<^verbatim>\<open>read_exact_with_deadline\<close>.\<close>

definition read_turn :: "nat \<Rightarrow> nat \<Rightarrow> bytes \<times> channel \<Rightarrow> bytes \<times> channel + (io_error + bytes) \<times> channel" where
  "read_turn deadline n = (\<lambda>(acc, ch).
     if n \<le> length acc then Inr (Inr acc, ch)
     else case begin_attempt deadline ch of
       (Some e, ch1) \<Rightarrow> Inr (Inl e, ch1)
     | (None, ch1) \<Rightarrow>
         (case stream_read (n - length acc) ch1 of
            (Inr bs, ch2) \<Rightarrow>
              if bs = [] then Inr (Inl frame_ended, ch2)
              else (case read_instant ch2 of (now, ch3) \<Rightarrow>
                      if deadline \<le> now then Inr (Inl deadline_exceeded, ch3) else Inl (acc @ bs, ch3))
          | (Inl e, ch2) \<Rightarrow>
              if io_kind e = Interrupted then Inl (acc, ch2)
              else Inr (Inl (if timed_out e then deadline_exceeded else e), ch2)))"

definition uninterrupted :: "io_error + 'a \<Rightarrow> bool" where
  "uninterrupted r = (\<forall>e. r = Inl e \<longrightarrow> io_kind e \<noteq> Interrupted)"

definition late_from :: "nat \<Rightarrow> nat \<Rightarrow> channel \<Rightarrow> bool" where
  "late_from N deadline ch = (\<forall>m \<ge> N. deadline \<le> ch_now ch m)"

lemma late_peer: "same_peer ch ch' \<Longrightarrow> late_from N deadline ch' = late_from N deadline ch"
  by (simp add: same_peer_def late_from_def)

lemma early_tick: "late_from N deadline ch \<Longrightarrow> ch_now ch k < deadline \<Longrightarrow> k < N"
  unfolding late_from_def by (meson leD leI)

lemma late_exists: "clock_unbounded ch \<Longrightarrow> \<exists>N. late_from N deadline ch"
  by (auto simp: clock_unbounded_def late_from_def)

lemma read_turn_ok:
  assumes late: "late_from N deadline ch"
  shows "turn_ok (\<lambda>(acc, ch). (0, N - ch_ticks ch)) (\<lambda>(acc, ch). late_from N deadline ch)
    (\<lambda>(acc, ch) (r, ch'). read_done deadline n acc ch r ch') (acc, ch) (read_turn deadline n (acc, ch))"
proof (cases "n \<le> length acc")
  case True
  then show ?thesis by (simp add: turn_ok_def read_turn_def read_done_def)
next
  case short: False
  obtain e ch1 where 1: "begin_attempt deadline ch = (e, ch1)" by fastforce
  note f1 = attempt_facts [OF 1]
  show ?thesis
  proof (cases e)
    case (Some x)
    with short f1 show ?thesis by (simp add: turn_ok_def read_turn_def 1 read_done_def)
  next
    case None
    with f1 have tick: "ch_ticks ch < N" using early_tick [OF late] by blast
    obtain x ch2 where 2: "stream_read (n - length acc) ch1 = (x, ch2)" by fastforce
    note f2 = read_facts [OF 2]
    have peer: "same_peer ch ch2" using f1 f2 same_peer_trans by blast
    obtain now ch3 where 3: "read_instant ch2 = (now, ch3)" by fastforce
    note f3 = instant_facts [OF 3]
    have peer3: "same_peer ch ch3" using peer f3 same_peer_trans by blast
    have clock: "ch_now ch2 = ch_now ch" "ch_now ch3 = ch_now ch" using peer peer3 by (simp_all add: same_peer_def)
    show ?thesis
    proof (cases x)
      case (Inl y)
      then show ?thesis
        using short f1 f2 tick late late_peer [OF peer] same_peer_trans [OF peer] peer clock
        by (auto simp: turn_ok_def read_turn_def 1 None 2 less_fuel_def read_done_def split: sum.splits)
    next
      case (Inr bs)
      have len: "length bs \<le> n - length acc" using f2 Inr by blast
      have fin: "read_done deadline n acc ch r ch'"
        if d: "read_done deadline n (acc @ bs) ch3 r ch'" and "now < deadline" for r ch'
      proof -
        from d obtain more where "ch_got ch' = ch_got ch @ bs @ more" "length (acc @ bs @ more) \<le> n"
          "\<And>zs. r = Inr zs \<Longrightarrow> zs = acc @ bs @ more \<and> n \<le> length zs \<and>
             (length (acc @ bs) < n \<longrightarrow> ch_now ch (ch_ticks ch' - 1) < deadline)"
          using short f1 f2 f3 len clock Inr by (cases r) (auto simp: read_done_def)
        moreover have "same_peer ch ch'" "ch_sent ch' = ch_sent ch" "n \<le> length (acc @ bs) \<Longrightarrow> ch' = ch3"
          using d f1 f2 f3 same_peer_trans [OF peer3] by (simp_all add: read_done_def)
        ultimately show ?thesis
          using short f1 f2 f3 clock \<open>now < deadline\<close>
          by (cases r; cases "n \<le> length (acc @ bs)") (auto simp: read_done_def intro!: exI [of _ "bs @ more"])
      qed
      moreover have "read_done deadline n acc ch (Inl z) ch2" "read_done deadline n acc ch (Inl z) ch3" for z
        using short f1 f2 f3 peer peer3 len Inr by (auto simp: read_done_def)
      ultimately show ?thesis
        using short f1 f2 f3 tick late late_peer [OF peer3]
        by (auto simp: turn_ok_def read_turn_def 1 None 2 Inr 3 less_fuel_def)
    qed
  qed
qed

interpretation reading: returning_loop "read_turn deadline n" "\<lambda>(acc, ch). read_exact_with_deadline deadline n acc ch"
  "\<lambda>(acc, ch). (0, N - ch_ticks ch)" "\<lambda>(acc, ch). late_from N deadline ch"
  "\<lambda>(acc, ch) (r, ch'). read_done deadline n acc ch r ch'" for deadline n N
proof (unfold_locales, goal_cases)
  case (1 s)
  obtain acc ch where s: "s = (acc, ch)" by fastforce
  show ?case
    unfolding s prod.case
    by (subst read_exact_with_deadline.simps) (auto simp: read_turn_def split: prod.split option.split sum.split)
next
  case (2 s)
  then show ?case using read_turn_ok by (cases s) auto
qed

lemma read_exact_returns:
  "late_from N deadline ch \<Longrightarrow>
   \<exists>r ch'. read_exact_with_deadline deadline n acc ch = Some (r, ch') \<and> read_done deadline n acc ch r ch'"
  using reading.returns [of N deadline "(acc, ch)" n] by auto

text \<open>A write has sent a prefix, and on success everything.\<close>

definition write_done :: "bytes \<Rightarrow> channel \<Rightarrow> ('e + unit) \<Rightarrow> channel \<Rightarrow> bool" where
  "write_done bs ch r ch' =
     (same_peer ch ch' \<and> ch_got ch' = ch_got ch \<and>
      (\<exists>k. ch_sent ch' = ch_sent ch @ take k bs \<and> (r = Inr () \<longrightarrow> take k bs = bs)))"

lemma write_done_more:
  assumes "write_done (drop k bs) ch2 r ch'" and peer: "same_peer ch ch2"
    and "ch_got ch2 = ch_got ch" "ch_sent ch2 = ch_sent ch @ take k bs"
  shows "write_done bs ch r ch'"
proof -
  from assms obtain j where "ch_sent ch' = ch_sent ch @ take k bs @ take j (drop k bs)"
    "r = Inr () \<longrightarrow> take j (drop k bs) = drop k bs" "same_peer ch ch'" "ch_got ch' = ch_got ch"
    using same_peer_trans [OF peer] by (auto simp: write_done_def)
  moreover have "take k bs @ take j (drop k bs) = take (k + j) bs" by (simp add: take_add)
  ultimately show ?thesis
    unfolding write_done_def by (metis append_take_drop_id)
qed

lemma write_done_start: "same_peer ch ch' \<Longrightarrow> ch_got ch' = ch_got ch \<Longrightarrow> ch_sent ch' = ch_sent ch \<Longrightarrow>
    write_done bs ch (Inl e) ch'"
  by (auto simp: write_done_def intro: exI [of _ 0])

text \<open>One turn of \<^verbatim>\<open>write_all_with_deadline\<close>.\<close>

definition write_turn :: "nat \<Rightarrow> bytes \<times> channel \<Rightarrow> bytes \<times> channel + (io_error + unit) \<times> channel" where
  "write_turn deadline = (\<lambda>(bs, ch).
     if bs = [] then Inr (Inr (), ch)
     else case begin_attempt deadline ch of
       (Some e, ch1) \<Rightarrow> Inr (Inl e, ch1)
     | (None, ch1) \<Rightarrow>
         (case stream_write bs ch1 of
            (Inr k, ch2) \<Rightarrow>
              if k = 0 then Inr (Inl write_stalled, ch2)
              else (case read_instant ch2 of (now, ch3) \<Rightarrow>
                      if deadline \<le> now then Inr (Inl deadline_exceeded, ch3) else Inl (drop k bs, ch3))
          | (Inl e, ch2) \<Rightarrow>
              if io_kind e = Interrupted then Inl (bs, ch2)
              else Inr (Inl (if timed_out e then deadline_exceeded else e), ch2)))"

lemma write_turn_ok:
  assumes late: "late_from N deadline ch"
  shows "turn_ok (\<lambda>(bs, ch). (0, N - ch_ticks ch)) (\<lambda>(bs, ch). late_from N deadline ch)
    (\<lambda>(bs, ch) (r, ch'). write_done bs ch r ch') (bs, ch) (write_turn deadline (bs, ch))"
proof (cases "bs = []")
  case True
  then show ?thesis by (simp add: turn_ok_def write_turn_def write_done_def)
next
  case more: False
  obtain e ch1 where 1: "begin_attempt deadline ch = (e, ch1)" by fastforce
  note f1 = attempt_facts [OF 1]
  show ?thesis
  proof (cases e)
    case (Some x)
    with more f1 show ?thesis by (simp add: turn_ok_def write_turn_def 1 write_done_start)
  next
    case None
    with f1 have tick: "ch_ticks ch < N" using early_tick [OF late] by blast
    obtain x ch2 where 2: "stream_write bs ch1 = (x, ch2)" by fastforce
    note f2 = write_facts [OF 2]
    have peer: "same_peer ch ch2" using f1 f2 same_peer_trans by blast
    obtain now ch3 where 3: "read_instant ch2 = (now, ch3)" by fastforce
    note f3 = instant_facts [OF 3]
    have peer3: "same_peer ch ch3" using peer f3 same_peer_trans by blast
    show ?thesis
    proof (cases x)
      case (Inl y)
      then show ?thesis
        using more f1 f2 tick late late_peer [OF peer] peer write_done_more [of 0 bs ch2 _ _ ch]
        by (auto simp: turn_ok_def write_turn_def 1 None 2 less_fuel_def write_done_start)
    next
      case (Inr k)
      have "write_done bs ch (Inl z) ch2" "write_done bs ch (Inl z) ch3" for z
        using f1 f2 f3 Inr peer peer3 by (auto simp: write_done_def)
      then show ?thesis
        using more f1 f2 f3 tick late late_peer [OF peer3] peer3 Inr write_done_more [of k bs ch3 _ _ ch]
        by (auto simp: turn_ok_def write_turn_def 1 None 2 3 less_fuel_def)
    qed
  qed
qed

interpretation writing: returning_loop "write_turn deadline" "\<lambda>(bs, ch). write_all_with_deadline deadline bs ch"
  "\<lambda>(bs, ch). (0, N - ch_ticks ch)" "\<lambda>(bs, ch). late_from N deadline ch"
  "\<lambda>(bs, ch) (r, ch'). write_done bs ch r ch'" for deadline N
proof (unfold_locales, goal_cases)
  case (1 s)
  obtain bs ch where s: "s = (bs, ch)" by fastforce
  show ?case
    unfolding s prod.case
    by (subst write_all_with_deadline.simps) (auto simp: write_turn_def split: prod.split option.split sum.split)
next
  case (2 s)
  then show ?case using write_turn_ok by (cases s) auto
qed

lemma write_all_returns:
  "late_from N deadline ch \<Longrightarrow>
   \<exists>r ch'. write_all_with_deadline deadline bs ch = Some (r, ch') \<and> write_done bs ch r ch'"
  using writing.returns [of N deadline "(bs, ch)"] by auto

subsection \<open>A request is read whole, in time, and no further\<close>

definition request_done :: "channel \<Rightarrow> manager_frame res \<Rightarrow> channel \<Rightarrow> bool" where
  "request_done ch r ch' =
     (same_peer ch ch' \<and> ch_sent ch' = ch_sent ch \<and>
      (\<exists>got. ch_got ch' = ch_got ch @ got \<and> length got \<le> manager_header_len + manager_max_payload_len \<and>
         (\<forall>frame. r = Inr frame \<longrightarrow>
            parse_manager_frame got = Inr frame \<and>
            ch_now ch (ch_ticks ch' - 1) < ch_now ch (ch_ticks ch) + manager_stream_timeout)))"

lemma read_request_returns:
  assumes clock: "clock_unbounded ch"
  shows "\<exists>r ch'. read_manager_request ch = Some (r, ch') \<and> request_done ch r ch'"
proof -
  obtain now ch1 where 1: "read_instant ch = (now, ch1)" by fastforce
  note f1 = instant_facts [OF 1]
  let ?deadline = "now + manager_stream_timeout"
  obtain N where N: "late_from N ?deadline ch" using late_exists [OF clock] by blast
  then have N1: "late_from N ?deadline ch1" using f1 late_peer by blast
  obtain h ch2 where 2: "read_exact_with_deadline ?deadline manager_header_len [] ch1 = Some (h, ch2)"
    and d2: "read_done ?deadline manager_header_len [] ch1 h ch2"
    using read_exact_returns [OF N1] by blast
  have peer2: "same_peer ch ch2" using f1 d2 same_peer_trans by (auto simp: read_done_def)
  obtain got where got: "ch_got ch2 = ch_got ch @ got" "length got \<le> manager_header_len" "ch_sent ch2 = ch_sent ch"
    using d2 f1 by (auto simp: read_done_def)
  have short: "request_done ch (Inl e) ch2" for e
    using peer2 got by (auto simp: request_done_def)
  show ?thesis
  proof (cases h)
    case (Inl e)
    with short show ?thesis by (simp add: read_manager_request_def 1 2 Let_def)
  next
    case header: (Inr header)
    then have got2: "got = header" "length header = manager_header_len"
      "ch_now ch (ch_ticks ch2 - 1) < ?deadline"
      using d2 got f1 by (auto simp: read_done_def manager_header_len_def same_peer_def)
    show ?thesis
    proof (cases "header_payload_len header > manager_max_payload_len")
      case True
      with short header show ?thesis by (simp add: read_manager_request_def 1 2 Let_def)
    next
      case small: False
      let ?n = "header_payload_len header"
      have N2: "late_from N ?deadline ch2" using N late_peer [OF peer2] by simp
      obtain x ch3 where 3: "read_exact_with_deadline ?deadline ?n [] ch2 = Some (x, ch3)"
        and d3: "read_done ?deadline ?n [] ch2 x ch3"
        using read_exact_returns [OF N2] by blast
      obtain more where more: "ch_got ch3 = ch_got ch @ header @ more" "length more \<le> ?n" "ch_sent ch3 = ch_sent ch"
        using d3 got got2 by (auto simp: read_done_def)
      have peer3: "same_peer ch ch3" using peer2 d3 same_peer_trans by (auto simp: read_done_def)
      have len: "length (header @ more) \<le> manager_header_len + manager_max_payload_len"
        using more(2) small got2(2) by simp
      show ?thesis
      proof (cases x)
        case (Inl e)
        then show ?thesis
          using 3 header small peer3 more len
          by (auto simp: read_manager_request_def 1 2 Let_def request_done_def)
      next
        case (Inr payload)
        then have payload: "payload = more" "?n \<le> length payload"
          "0 < ?n \<Longrightarrow> ch_now ch (ch_ticks ch3 - 1) < ?deadline"
          using d3 more got got2 peer2 by (auto simp: read_done_def same_peer_def)
        have "ch3 = ch2" if "?n = 0" using d3 that by (simp add: read_done_def)
        then have "ch_now ch (ch_ticks ch3 - 1) < ch_now ch (ch_ticks ch) + manager_stream_timeout"
          using payload(3) got2(3) f1 by (cases "?n = 0") simp_all
        then have "request_done ch (parse_manager_frame (header @ payload)) ch3"
          using peer3 more len payload(1) by (auto simp: request_done_def)
        then show ?thesis
          using 3 header small Inr by (simp add: read_manager_request_def 1 2 Let_def)
      qed
    qed
  qed
qed

lemma write_response_returns:
  assumes clock: "clock_unbounded ch"
  shows "\<exists>r ch'. write_manager_response response ch = Some (r, ch') \<and> write_done response ch r ch'"
proof -
  obtain now ch1 where 1: "read_instant ch = (now, ch1)" by fastforce
  note f1 = instant_facts [OF 1]
  have "clock_unbounded ch1" using clock f1 same_peer_clock by blast
  then obtain N where "late_from N (now + manager_stream_timeout) ch1" using late_exists by blast
  then obtain x ch2 where 2: "write_all_with_deadline (now + manager_stream_timeout) response ch1 = Some (x, ch2)"
    and d: "write_done response ch1 x ch2" using write_all_returns by blast
  have "write_done response ch1 (io_failed x) ch2"
    using d by (cases x) (auto simp: write_done_def io_failed_def)
  then have "write_done response ch (io_failed x) ch2"
    using write_done_more [of 0 response ch1 "io_failed x" ch2 ch] f1 by simp
  then show ?thesis by (simp add: write_manager_response_def 1 2)
qed

text \<open>What serving an authorized peer leaves: at most one request handled, exactly the one read.\<close>

definition connection_done ::
  "(manager_frame \<Rightarrow> 's \<Rightarrow> bytes res \<times> 's) \<Rightarrow> 's \<Rightarrow> channel \<Rightarrow> 's \<Rightarrow> channel \<Rightarrow> bool" where
  "connection_done handle s ch s' ch' =
     (\<exists>got sent. ch_got ch' = ch_got ch @ got \<and> ch_sent ch' = ch_sent ch @ sent \<and>
        length got \<le> manager_header_len + manager_max_payload_len \<and>
        (s' = s \<and> sent = [] \<or>
         (\<exists>frame. parse_manager_frame got = Inr frame \<and> s' = snd (handle frame s) \<and>
            (case fst (handle frame s) of Inl _ \<Rightarrow> sent = [] | Inr response \<Rightarrow> prefix sent response))))"

lemma serve_connection_returns:
  assumes clock: "clock_unbounded ch"
  shows "\<exists>r s' ch'. serve_manager_connection handle s ch = Some (r, s', ch') \<and> same_peer ch ch' \<and>
    connection_done handle s ch s' ch'"
proof -
  obtain r ch1 where 1: "read_manager_request ch = Some (r, ch1)" and d1: "request_done ch r ch1"
    using read_request_returns [OF clock] by blast
  have peer: "same_peer ch ch1" using d1 by (simp add: request_done_def)
  obtain got where got: "ch_got ch1 = ch_got ch @ got" "length got \<le> manager_header_len + manager_max_payload_len"
    "ch_sent ch1 = ch_sent ch" "\<And>frame. r = Inr frame \<Longrightarrow> parse_manager_frame got = Inr frame"
    using d1 by (auto simp: request_done_def)
  show ?thesis
  proof (cases r)
    case (Inl e)
    then show ?thesis using 1 peer got by (auto simp: serve_manager_connection_def connection_done_def)
  next
    case (Inr frame)
    obtain x s1 where 2: "handle frame s = (x, s1)" by fastforce
    show ?thesis
    proof (cases x)
      case (Inl e)
      then show ?thesis
        using 1 2 Inr peer got by (auto simp: serve_manager_connection_def connection_done_def)
    next
      case response: (Inr response)
      have "clock_unbounded ch1" using clock same_peer_clock [OF peer] by simp
      then obtain y ch2 where 3: "write_manager_response response ch1 = Some (y, ch2)" "write_done response ch1 y ch2"
        using write_response_returns by blast
      then obtain k where k: "ch_sent ch2 = ch_sent ch @ take k response" "ch_got ch2 = ch_got ch @ got"
        "same_peer ch1 ch2" using got by (auto simp: write_done_def)
      have "connection_done handle s ch s1 ch2"
        unfolding connection_done_def using k got Inr 2 response
        by (auto simp: take_is_prefix intro!: exI [of _ got] exI [of _ "take k response"] exI [of _ frame])
      then show ?thesis
        using 1 2 Inr response 3 same_peer_trans [OF peer k(3)] by (simp add: serve_manager_connection_def)
    qed
  qed
qed

definition sample_channel :: channel where
  "sample_channel =
    \<lparr>ch_now = (\<lambda>n. n * 10 ^ 9), ch_limit = (\<lambda>_. None), ch_input = (\<lambda>_. Inl deadline_exceeded),
     ch_output = (\<lambda>_. Inr 1), ch_ticks = 0, ch_limits = [], ch_reads = 0, ch_writes = 0, ch_got = [], ch_sent = []\<rparr>"

lemma sample_clock: "clock_unbounded sample_channel"
proof -
  have "limit \<le> m * 10 ^ 9" if "limit \<le> m" for limit m :: nat
    using that by (simp add: order_trans)
  then show ?thesis unfolding clock_unbounded_def sample_channel_def by (metis channel.select_convs(1))
qed

text \<open>
  C19.  One connection never holds the server for ever: if the clock goes on, serving a peer returns,
  whatever arrives, however slowly and in whatever pieces, with reads and writes that fail, are
  interrupted or deliver single bytes, and whatever the handler answers.
\<close>

theorem serving_a_peer_returns:
  assumes "clock_unbounded ch"
  shows "serve_peer authorized_uids accepted handle s ch \<noteq> None"
  using serve_connection_returns [OF assms, of handle s]
  by (auto simp: serve_peer_def split: sum.splits bool.splits)

theorem serving_a_peer_returns_witness:
  "serve_peer [10001] (Inr (Inr (ucred_len, 10001))) (\<lambda>frame n. (Inr [], Suc n)) (0 :: nat) sample_channel \<noteq> None"
  by (rule serving_a_peer_returns) (rule sample_clock)

text \<open>
  C11.  What a connection can do: only root and the uids of the manager are served, from any other
  peer no byte is read and nothing is sent or changed; an authorized peer has at most one request
  handled, and only if its bytes, however split, form exactly one valid frame; nothing is read beyond the
  largest frame, and only a prefix of the handler's response is sent.
\<close>

theorem connection_exact:
  assumes "clock_unbounded ch" and "serve_peer authorized_uids accepted handle s ch = Some (r, s', ch')"
  shows "if accept_manager authorized_uids accepted = Inr True
    then (\<exists>uid. accepted = Inr (Inr (ucred_len, uid)) \<and> (uid = 0 \<or> uid \<in> set authorized_uids)) \<and>
      r = Inr () \<and> connection_done handle s ch s' ch'
    else s' = s \<and> ch' = ch"
proof (cases "accept_manager authorized_uids accepted")
  case (Inl e)
  with assms(2) show ?thesis by (simp add: serve_peer_def)
next
  case (Inr b)
  show ?thesis
  proof (cases b)
    case False
    with Inr assms(2) show ?thesis by (simp add: serve_peer_def)
  next
    case True
    have "\<exists>uid. accepted = Inr (Inr (ucred_len, uid)) \<and> (uid = 0 \<or> uid \<in> set authorized_uids)"
      using Inr True
      by (auto simp: accept_manager_def manager_peer_uid_def is_authorized_manager_peer_uid_def
          split: sum.splits prod.splits if_splits)
    moreover have "r = Inr () \<and> connection_done handle s ch s' ch'"
      using Inr True assms(2) serve_connection_returns [OF assms(1), of handle s]
      by (auto simp: serve_peer_def)
    ultimately show ?thesis using Inr True by simp
  qed
qed

theorem connection_exact_witness:
  "snd (the (serve_peer [10001] (Inr (Inr (ucred_len, 10002))) (\<lambda>frame n. (Inr [], Suc n)) (0 :: nat) sample_channel))
     = (0, sample_channel)"
proof -
  let ?p = "serve_peer [10001] (Inr (Inr (ucred_len, 10002))) (\<lambda>frame n. (Inr [], Suc n)) (0 :: nat) sample_channel"
  have denied: "accept_manager [10001] (Inr (Inr (ucred_len, 10002))) = Inr False"
    by (simp add: accept_manager_def manager_peer_uid_def is_authorized_manager_peer_uid_def)
  then have "?p = Some (Inr (), 0, sample_channel)" by (simp add: serve_peer_def)
  from connection_exact [OF sample_clock this] denied show ?thesis
    using \<open>?p = Some (Inr (), 0, sample_channel)\<close> by simp
qed

end
