(* ===== verification/Hook_Bridge.thy ===== *)
theory Hook_Bridge
  imports Streams
begin

text \<open>
  \<^verbatim>\<open>sys/xposed_bridge.rs\<close>: one request to the hook in the system server, over an
  abstract socket whose peer must be the system server or root.
\<close>

subsection \<open>Connecting\<close>

definition xposed_socket_abstract_name :: string where
  "xposed_socket_abstract_name = ''FreezeitXposedServer''"

definition xposed_response_deadline :: nat where "xposed_response_deadline = 3 * 10 ^ 9"
definition xposed_write_timeout :: nat where "xposed_write_timeout = 3 * 10 ^ 9"
definition xposed_response_max_bytes :: nat where "xposed_response_max_bytes = 1024 * 1024"

text \<open>\<^verbatim>\<open>sockaddr_un\<close> without its family and the leading zero byte.\<close>

definition max_abstract_name_len :: nat where "max_abstract_name_len = 110 - 2 - 1"

record hook_socket =
  hs_socket :: "io_error option"
  hs_connect :: "io_error option"
  hs_peer :: peer_credentials

definition is_authorized_hook_peer_uid :: "u32 \<Rightarrow> bool" where
  "is_authorized_hook_peer_uid uid = (uid = 0 \<or> uid = 1000)"

definition authenticate_hook_peer :: "peer_credentials \<Rightarrow> unit res" where
  "authenticate_hook_peer credentials =
     (case credentials of
        Inl e \<Rightarrow> Inl (Io_Error e)
      | Inr (len, uid) \<Rightarrow>
          if len \<noteq> ucred_len then Inl (System_Error ''xposed peer credential response is incomplete'')
          else if \<not> is_authorized_hook_peer_uid uid then
            Inl (System_Error (''refusing xposed bridge peer with uid '' @ show_u32 uid))
          else Inr ())"

definition connect_abstract_socket :: "string \<Rightarrow> hook_socket \<Rightarrow> unit res" where
  "connect_abstract_socket name socket =
     (if length name > max_abstract_name_len then Inl (System_Error ''xposed socket name is too long'')
      else case hs_socket socket of
        Some e \<Rightarrow> Inl (Io_Error e)
      | None \<Rightarrow>
          (case hs_connect socket of
             Some e \<Rightarrow> Inl (Io_Error e)
           | None \<Rightarrow> authenticate_hook_peer (hs_peer socket)))"

subsection \<open>The exchange\<close>

text \<open>\<^verbatim>\<open>Write::write_all\<close> of the standard library.\<close>

definition write_all_stalled :: io_error where
  "write_all_stalled = \<lparr>io_kind = WriteZero, io_message = ''failed to write whole buffer''\<rparr>"

partial_function (option) write_all :: "bytes \<Rightarrow> channel \<Rightarrow> ((io_error + unit) \<times> channel) option" where
  "write_all bs ch =
     (if bs = [] then Some (Inr (), ch)
      else case stream_write bs ch of
        (Inr k, ch1) \<Rightarrow> if k = 0 then Some (Inl write_all_stalled, ch1) else write_all (drop k bs) ch1
      | (Inl e, ch1) \<Rightarrow> if io_kind e = Interrupted then write_all bs ch1 else Some (Inl e, ch1))"

definition response_deadline_exceeded :: io_error where
  "response_deadline_exceeded = \<lparr>io_kind = TimedOut, io_message = ''xposed response deadline exceeded''\<rparr>"

definition response_too_large :: io_error where
  "response_too_large = \<lparr>io_kind = InvalidData, io_message = ''xposed response is too large''\<rparr>"

text \<open>The length of a response is far from overflowing, so that \<^verbatim>\<open>checked_add\<close> succeeds.\<close>

definition append_response_chunk :: "bytes \<Rightarrow> bytes \<Rightarrow> io_error + bytes" where
  "append_response_chunk response chunk =
     (if length response + length chunk > xposed_response_max_bytes then Inl response_too_large
      else Inr (response @ chunk))"

definition response_chunk_size :: nat where "response_chunk_size = 8 * 1024"

partial_function (option) read_response_with_deadline ::
  "nat \<Rightarrow> bytes \<Rightarrow> channel \<Rightarrow> ((io_error + bytes) \<times> channel) option" where
  "read_response_with_deadline deadline response ch =
     (case read_instant ch of (now, ch1) \<Rightarrow>
        if deadline \<le> now then Some (Inl response_deadline_exceeded, ch1)
        else case set_timeout (deadline - now) ch1 of
          (Some e, ch2) \<Rightarrow> Some (Inl e, ch2)
        | (None, ch2) \<Rightarrow>
            (case stream_read response_chunk_size ch2 of
               (Inr chunk, ch3) \<Rightarrow>
                 if chunk = [] then Some (Inr response, ch3)
                 else (case read_instant ch3 of (now1, ch4) \<Rightarrow>
                         if deadline \<le> now1 then Some (Inl response_deadline_exceeded, ch4)
                         else case append_response_chunk response chunk of
                                Inl e \<Rightarrow> Some (Inl e, ch4)
                              | Inr response1 \<Rightarrow> read_response_with_deadline deadline response1 ch4)
             | (Inl e, ch3) \<Rightarrow>
                 if timed_out e then
                   (case read_instant ch3 of (now1, ch4) \<Rightarrow>
                      Some (Inl (if deadline \<le> now1 then response_deadline_exceeded else e), ch4))
                 else Some (Inl e, ch3)))"

text \<open>From the connection to the end of the answer.\<close>

definition exchange_request :: "bytes \<Rightarrow> channel \<Rightarrow> (bytes res \<times> channel) option" where
  "exchange_request request ch =
     (case set_timeout xposed_response_deadline ch of
        (Some e, ch1) \<Rightarrow> Some (Inl (Io_Error e), ch1)
      | (None, ch1) \<Rightarrow>
          (case set_timeout xposed_write_timeout ch1 of
             (Some e, ch2) \<Rightarrow> Some (Inl (Io_Error e), ch2)
           | (None, ch2) \<Rightarrow>
               (case write_all request ch2 of
                  None \<Rightarrow> None
                | Some (Inl e, ch3) \<Rightarrow> Some (Inl (Io_Error e), ch3)
                | Some (Inr _, ch3) \<Rightarrow>
                    (case read_instant ch3 of (now, ch4) \<Rightarrow>
                       map_option (apfst io_failed)
                         (read_response_with_deadline (now + xposed_response_deadline) [] ch4)))))"

definition request_bytes ::
  "hook_socket \<Rightarrow> xposed_command \<Rightarrow> bytes \<Rightarrow> channel \<Rightarrow> (bytes res \<times> channel) option" where
  "request_bytes socket command payload ch =
     (case encode_xposed_frame command payload of
        Inl e \<Rightarrow> Some (Inl e, ch)
      | Inr request \<Rightarrow>
          (case connect_abstract_socket xposed_socket_abstract_name socket of
             Inl e \<Rightarrow> Some (Inl e, ch)
           | Inr _ \<Rightarrow> exchange_request request ch))"

subsection \<open>The requests of the daemon\<close>

definition answered :: "('a \<Rightarrow> 'b res) \<Rightarrow> ('a res \<times> channel) option \<Rightarrow> ('b res \<times> channel) option" where
  "answered f = map_option (apfst (\<lambda>r. case r of Inl e \<Rightarrow> Inl e | Inr x \<Rightarrow> f x))"

definition request_text ::
  "hook_socket \<Rightarrow> xposed_command \<Rightarrow> bytes \<Rightarrow> channel \<Rightarrow> (string res \<times> channel) option" where
  "request_text socket command payload ch =
     answered (\<lambda>response.
         case utf8_error (bytes_text response) of
           Some e \<Rightarrow> Inl (Protocol_Error (''xposed response is not utf-8: '' @ show_utf8_error e))
         | None \<Rightarrow> Inr (bytes_text response))
       (request_bytes socket command payload ch)"

definition query_hook_health :: "hook_socket \<Rightarrow> channel \<Rightarrow> (string res \<times> channel) option" where
  "query_hook_health socket ch = request_text socket GetHookHealth [] ch"

definition query_foreground_uids :: "hook_socket \<Rightarrow> channel \<Rightarrow> (u32 list res \<times> channel) option" where
  "query_foreground_uids socket ch =
     answered parse_foreground_uid_payload (request_bytes socket GetForeground [] ch)"

definition set_config_answer :: "bytes \<Rightarrow> bool res" where
  "set_config_answer response =
     (if length response < 4 then Inl (Protocol_Error ''xposed set config response header is incomplete'')
      else Inr (i32_of_le response = 2))"

definition set_config :: "hook_socket \<Rightarrow> bytes \<Rightarrow> channel \<Rightarrow> (bool res \<times> channel) option" where
  "set_config socket payload ch = answered set_config_answer (request_bytes socket SetConfig payload ch)"

subsection \<open>What a request does\<close>

text \<open>The peer does not interrupt writing for ever.\<close>

definition writes_settle :: "channel \<Rightarrow> bool" where
  "writes_settle ch = (\<forall>n. \<exists>m \<ge> n. \<forall>e. ch_output ch m = Inl e \<longrightarrow> io_kind e \<noteq> Interrupted)"

lemma same_peer_settle: "same_peer ch ch' \<Longrightarrow> writes_settle ch' = writes_settle ch"
  by (simp add: same_peer_def writes_settle_def)

lemma write_progress: "stream_write bs ch = (r, ch') \<Longrightarrow> ch_writes ch' = Suc (ch_writes ch) \<and>
    r = map_sum id (min (length bs)) (ch_output ch (ch_writes ch))"
  by (auto simp: stream_write_def Let_def)

text \<open>One turn of \<^verbatim>\<open>write_all\<close>.\<close>

definition std_write_turn :: "bytes \<times> channel \<Rightarrow> bytes \<times> channel + (io_error + unit) \<times> channel" where
  "std_write_turn = (\<lambda>(bs, ch).
     if bs = [] then Inr (Inr (), ch)
     else case stream_write bs ch of
       (Inr k, ch1) \<Rightarrow> if k = 0 then Inr (Inl write_all_stalled, ch1) else Inl (drop k bs, ch1)
     | (Inl e, ch1) \<Rightarrow> if io_kind e = Interrupted then Inl (bs, ch1) else Inr (Inl e, ch1))"

definition std_write_fuel :: "bytes \<times> channel \<Rightarrow> nat \<times> nat" where
  "std_write_fuel = (\<lambda>(bs, ch). (length bs, interruptions (\<lambda>m. uninterrupted (ch_output ch m)) (ch_writes ch)))"

lemma std_write_turn_ok:
  assumes settle: "writes_settle ch"
  shows "turn_ok std_write_fuel (\<lambda>(bs, ch). writes_settle ch) (\<lambda>(bs, ch) (r, ch'). write_done bs ch r ch')
    (bs, ch) (std_write_turn (bs, ch))"
proof (cases "bs = []")
  case True
  then show ?thesis by (simp add: turn_ok_def std_write_turn_def write_done_def)
next
  case more: False
  obtain x ch1 where 1: "stream_write bs ch = (x, ch1)" by fastforce
  note f1 = write_facts [OF 1] and p1 = write_progress [OF 1]
  have peer: "same_peer ch ch1" and settle1: "writes_settle ch1"
    using f1 settle same_peer_settle by auto
  show ?thesis
  proof (cases x)
    case (Inl e)
    have "interruptions (\<lambda>m. uninterrupted (ch_output ch m)) (Suc (ch_writes ch)) <
        interruptions (\<lambda>m. uninterrupted (ch_output ch m)) (ch_writes ch)" if "io_kind e = Interrupted"
      using that settle p1 Inl
      by (intro interruptions_step) (auto simp: writes_settle_def uninterrupted_def map_sum_def split: sum.splits)
    moreover have "ch_output ch1 = ch_output ch" using peer by (simp add: same_peer_def)
    ultimately show ?thesis
      using more f1 p1 [THEN conjunct1] settle1 Inl write_done_more [of 0 bs ch1 _ _ ch]
      by (auto simp: turn_ok_def std_write_turn_def 1 std_write_fuel_def less_fuel_def write_done_start)
  next
    case (Inr k)
    have "write_done bs ch (Inl z) ch1" for z
      using f1 Inr by (auto simp: write_done_def)
    then show ?thesis
      using more f1 settle1 Inr write_done_more [of k bs ch1 _ _ ch]
      by (auto simp: turn_ok_def std_write_turn_def 1 std_write_fuel_def less_fuel_def)
  qed
qed

interpretation std_writing: returning_loop std_write_turn "\<lambda>(bs, ch). write_all bs ch" std_write_fuel
  "\<lambda>(bs, ch). writes_settle ch" "\<lambda>(bs, ch) (r, ch'). write_done bs ch r ch'"
proof (unfold_locales, goal_cases)
  case (1 s)
  obtain bs ch where s: "s = (bs, ch)" by fastforce
  show ?case
    unfolding s prod.case
    by (subst write_all.simps) (auto simp: std_write_turn_def split: prod.split sum.split)
next
  case (2 s)
  then show ?case using std_write_turn_ok by (cases s) auto
qed

lemma std_write_returns:
  "writes_settle ch \<Longrightarrow> \<exists>r ch'. write_all bs ch = Some (r, ch') \<and> write_done bs ch r ch'"
  using std_writing.returns [of "(bs, ch)"] by auto

definition response_done :: "bytes \<Rightarrow> channel \<Rightarrow> (io_error + bytes) \<Rightarrow> channel \<Rightarrow> bool" where
  "response_done response ch r ch' =
     (same_peer ch ch' \<and> ch_sent ch' = ch_sent ch \<and>
      (\<exists>more. ch_got ch' = ch_got ch @ more \<and>
         length (response @ more) \<le> max (length response) xposed_response_max_bytes + response_chunk_size \<and>
         (\<forall>bs. r = Inr bs \<longrightarrow> bs = response @ more \<and>
            length bs \<le> max (length response) xposed_response_max_bytes)))"

lemma timeout_facts:
  "set_timeout t ch = (e, ch') \<Longrightarrow> 0 < t \<Longrightarrow>
   same_peer ch ch' \<and> ch_got ch' = ch_got ch \<and> ch_sent ch' = ch_sent ch \<and> ch_ticks ch' = ch_ticks ch \<and>
   ch_writes ch' = ch_writes ch"
  by (auto simp: set_timeout_def same_peer_def)

text \<open>One turn of \<^verbatim>\<open>read_response_with_deadline\<close>.\<close>

definition response_turn :: "nat \<Rightarrow> bytes \<times> channel \<Rightarrow> bytes \<times> channel + (io_error + bytes) \<times> channel" where
  "response_turn deadline = (\<lambda>(response, ch).
     case read_instant ch of (now, ch1) \<Rightarrow>
       if deadline \<le> now then Inr (Inl response_deadline_exceeded, ch1)
       else case set_timeout (deadline - now) ch1 of
         (Some e, ch2) \<Rightarrow> Inr (Inl e, ch2)
       | (None, ch2) \<Rightarrow>
           (case stream_read response_chunk_size ch2 of
              (Inr chunk, ch3) \<Rightarrow>
                if chunk = [] then Inr (Inr response, ch3)
                else (case read_instant ch3 of (now1, ch4) \<Rightarrow>
                        if deadline \<le> now1 then Inr (Inl response_deadline_exceeded, ch4)
                        else case append_response_chunk response chunk of
                               Inl e \<Rightarrow> Inr (Inl e, ch4)
                             | Inr response1 \<Rightarrow> Inl (response1, ch4))
            | (Inl e, ch3) \<Rightarrow>
                if timed_out e then
                  (case read_instant ch3 of (now1, ch4) \<Rightarrow>
                     Inr (Inl (if deadline \<le> now1 then response_deadline_exceeded else e), ch4))
                else Inr (Inl e, ch3)))"

lemma response_stop: "same_peer ch ch' \<Longrightarrow> ch_sent ch' = ch_sent ch \<Longrightarrow> ch_got ch' = ch_got ch @ rest \<Longrightarrow>
    length rest \<le> response_chunk_size \<Longrightarrow> response_done response ch (Inl z) ch'"
  by (auto simp: response_done_def max_def)

lemma response_turn_ok:
  assumes late: "late_from N deadline ch"
  shows "turn_ok (\<lambda>(response, ch). (0, N - ch_ticks ch)) (\<lambda>(response, ch). late_from N deadline ch)
    (\<lambda>(response, ch) (r, ch'). response_done response ch r ch') (response, ch) (response_turn deadline (response, ch))"
proof -
  obtain now ch1 where 1: "read_instant ch = (now, ch1)" by fastforce
  have f1: "same_peer ch ch1 \<and> ch_got ch1 = ch_got ch \<and> ch_sent ch1 = ch_sent ch \<and>
      ch_ticks ch1 = Suc (ch_ticks ch)" and now: "now = ch_now ch (ch_ticks ch)"
    using instant_facts [OF 1] by simp_all
  obtain e ch2 where 2: "set_timeout (deadline - now) ch1 = (e, ch2)" by fastforce
  note f2 = timeout_facts [OF 2]
  obtain x ch3 where 3: "stream_read response_chunk_size ch2 = (x, ch3)" by fastforce
  note f3 = read_facts [OF 3]
  obtain now1 ch4 where 4: "read_instant ch3 = (now1, ch4)" by fastforce
  have f4: "same_peer ch3 ch4 \<and> ch_got ch4 = ch_got ch3 \<and> ch_sent ch4 = ch_sent ch3 \<and>
      ch_ticks ch4 = Suc (ch_ticks ch3)"
    using instant_facts [OF 4] by simp
  show ?thesis
  proof (cases "deadline \<le> now")
    case True
    with f1 response_stop [of ch ch1 "[]"] show ?thesis by (simp add: turn_ok_def response_turn_def 1)
  next
    case early: False
    then have tick: "ch_ticks ch < N" using now early_tick [OF late, of "ch_ticks ch"] by simp
    have peer2: "same_peer ch ch2" using f1 f2 early same_peer_trans by auto
    have peer3: "same_peer ch ch3" and peer4: "same_peer ch ch4" using f3 f4 peer2 same_peer_trans by blast+
    show ?thesis
    proof (cases e)
      case (Some y)
      with early f1 f2 peer2 response_stop [of ch ch2 "[]"] show ?thesis
        by (simp add: turn_ok_def response_turn_def 1 2)
    next
      case None
      show ?thesis
      proof (cases x)
        case (Inl y)
        with early f1 f2 f3 f4 peer3 peer4 response_stop [of ch ch3 "[]"] response_stop [of ch ch4 "[]"]
        show ?thesis by (simp add: turn_ok_def response_turn_def 1 2 None 3 4)
      next
        case (Inr chunk)
        have got: "ch_got ch3 = ch_got ch @ chunk" "ch_got ch4 = ch_got ch @ chunk" "ch_sent ch3 = ch_sent ch"
          "ch_sent ch4 = ch_sent ch" "length chunk \<le> response_chunk_size"
          using early f1 f2 f3 f4 Inr by simp_all
        have go: "late_from N deadline ch4 \<and> N - ch_ticks ch4 < N - ch_ticks ch \<and>
            (\<forall>r ch'. response_done response1 ch4 r ch' \<longrightarrow> response_done response ch r ch')"
          if "append_response_chunk response chunk = Inr response1" for response1
          using that tick early f1 f2 f3 f4 late late_peer [OF peer4] got same_peer_trans [OF peer4]
          by (auto simp: append_response_chunk_def response_done_def max_def split: if_splits)
        have whole: "response_done response ch (Inr response) ch3" if "chunk = []"
          using that got peer3 by (simp add: response_done_def)
        show ?thesis
          using early go whole Inr response_stop [OF peer4 got(4,2,5)]
          by (auto simp: turn_ok_def response_turn_def 1 2 None 3 4 less_fuel_def split: sum.split)
      qed
    qed
  qed
qed

interpretation answering: returning_loop "response_turn deadline"
  "\<lambda>(response, ch). read_response_with_deadline deadline response ch" "\<lambda>(response, ch). (0, N - ch_ticks ch)"
  "\<lambda>(response, ch). late_from N deadline ch" "\<lambda>(response, ch) (r, ch'). response_done response ch r ch'"
  for deadline N
proof (unfold_locales, goal_cases)
  case (1 s)
  obtain response ch where s: "s = (response, ch)" by fastforce
  show ?case
    unfolding s prod.case
    by (subst read_response_with_deadline.simps)
      (auto simp: response_turn_def split: prod.split option.split sum.split)
next
  case (2 s)
  then show ?case using response_turn_ok by (cases s) auto
qed

lemma response_returns:
  "late_from N deadline ch \<Longrightarrow>
   \<exists>r ch'. read_response_with_deadline deadline response ch = Some (r, ch') \<and> response_done response ch r ch'"
  using answering.returns [of N deadline "(response, ch)"] by auto

text \<open>What a request leaves behind.\<close>

definition exchange_done ::
  "hook_socket \<Rightarrow> xposed_command \<Rightarrow> bytes \<Rightarrow> channel \<Rightarrow> bytes res \<Rightarrow> channel \<Rightarrow> bool" where
  "exchange_done socket command payload ch r ch' =
     (if is_ok (encode_xposed_frame command payload) \<and>
         is_ok (connect_abstract_socket xposed_socket_abstract_name socket)
      then \<exists>request k more. encode_xposed_frame command payload = Inr request \<and>
             ch_sent ch' = ch_sent ch @ take k request \<and> ch_got ch' = ch_got ch @ more \<and>
             (case r of
                Inl _ \<Rightarrow> True
              | Inr response \<Rightarrow>
                  take k request = request \<and> response = more \<and> length response \<le> xposed_response_max_bytes)
      else \<not> is_ok r \<and> ch' = ch)"

lemma request_returns:
  assumes clock: "clock_unbounded ch" and settle: "writes_settle ch"
  shows "\<exists>r ch'. request_bytes socket command payload ch = Some (r, ch') \<and>
    exchange_done socket command payload ch r ch'"
proof (cases "encode_xposed_frame command payload")
  case (Inl e)
  then show ?thesis by (simp add: request_bytes_def exchange_done_def is_ok_def)
next
  case request: (Inr request)
  show ?thesis
  proof (cases "connect_abstract_socket xposed_socket_abstract_name socket")
    case (Inl e)
    with request show ?thesis by (simp add: request_bytes_def exchange_done_def is_ok_def)
  next
    case connected: (Inr u)
    have failed: "exchange_done socket command payload ch (Inl e) ch'"
      if "ch_sent ch' = ch_sent ch @ take k request" "ch_got ch' = ch_got ch @ more" for e ch' k more
      using that request connected by (auto simp: exchange_done_def is_ok_def)
    have none: "exchange_done socket command payload ch (Inl e) ch'"
      if "ch_sent ch' = ch_sent ch" "ch_got ch' = ch_got ch" for e ch'
      using failed [of ch' 0 "[]"] that by simp
    obtain e1 ch1 where 1: "set_timeout xposed_response_deadline ch = (e1, ch1)" by fastforce
    have f1: "same_peer ch ch1" "ch_got ch1 = ch_got ch" "ch_sent ch1 = ch_sent ch"
      using timeout_facts [OF 1] by (simp_all add: xposed_response_deadline_def)
    obtain e2 ch2 where 2: "set_timeout xposed_write_timeout ch1 = (e2, ch2)" by fastforce
    have f2: "same_peer ch ch2" "ch_got ch2 = ch_got ch" "ch_sent ch2 = ch_sent ch"
      using timeout_facts [OF 2] f1 same_peer_trans by (auto simp: xposed_write_timeout_def)
    have "writes_settle ch2" using settle same_peer_settle f2 by simp
    then obtain x ch3 where 3: "write_all request ch2 = Some (x, ch3)" "write_done request ch2 x ch3"
      using std_write_returns by blast
    obtain k where k: "ch_sent ch3 = ch_sent ch @ take k request" "ch_got ch3 = ch_got ch"
      "x = Inr () \<Longrightarrow> take k request = request" "same_peer ch ch3"
      using 3(2) f2 same_peer_trans by (auto simp: write_done_def)
    obtain now ch4 where 4: "read_instant ch3 = (now, ch4)" by fastforce
    have f4: "same_peer ch ch4" "ch_got ch4 = ch_got ch" "ch_sent ch4 = ch_sent ch @ take k request"
      using instant_facts [OF 4] k same_peer_trans by auto
    have "clock_unbounded ch4" using clock same_peer_clock [OF f4(1)] by simp
    then obtain N where "late_from N (now + xposed_response_deadline) ch4" using late_exists by blast
    then obtain y ch5 where 5: "read_response_with_deadline (now + xposed_response_deadline) [] ch4 = Some (y, ch5)"
      "response_done [] ch4 y ch5" using response_returns by blast
    have fin: "exchange_done socket command payload ch (io_failed y) ch5" if x: "x = Inr ()"
    proof (cases y)
      case (Inl e)
      then show ?thesis using 5(2) f4 failed by (auto simp: response_done_def io_failed_def)
    next
      case (Inr bs)
      then show ?thesis
        using 5(2) f4 k(3) [OF x] request connected
        by (auto simp: response_done_def io_failed_def exchange_done_def is_ok_def intro!: exI [of _ k])
    qed
    show ?thesis
      using request connected f1 f2 none k failed [of ch3 k "[]"] fin
      by (cases e1; cases e2; cases x) (simp_all add: request_bytes_def exchange_request_def 1 2 3 4 5)
  qed
qed

definition system_server_socket :: hook_socket where
  "system_server_socket = \<lparr>hs_socket = None, hs_connect = None, hs_peer = Inr (ucred_len, 1000)\<rparr>"

lemma sample_settles: "writes_settle sample_channel"
  by (auto simp: writes_settle_def sample_channel_def)





end
