(* ===== verification/Descriptors.thy ===== *)
theory Descriptors
  imports Hook_Bridge
begin

text \<open>
  The socket calls of the server (\<^verbatim>\<open>sys/socket.rs\<close>) and of the client of the
  hook (\<^verbatim>\<open>sys/xposed_bridge.rs\<close>): which descriptors they open, to whom they bind,
  connect and talk, and that every descriptor is closed once.  A descriptor that the source owns through
  \<^verbatim>\<open>ManagerListener\<close> or \<^verbatim>\<open>UnixStream\<close> is closed where its
  owner is dropped.
\<close>

subsection \<open>Socket calls\<close>

type_synonym fd = i32

datatype socket_event =
    K_Socket "io_error + fd"
  | K_Bind fd bytes "io_error option"
  | K_Listen fd nat "io_error option"
  | K_Connect fd bytes "io_error option"
  | K_Accept fd "io_error + fd"
  | K_Credentials fd peer_credentials
  | K_Exchange fd channel
  | K_Close fd

text \<open>The calls so far, the last one first; every answer may depend on them.\<close>

type_synonym socket_history = "socket_event list"

record socket_calls =
  sc_socket :: "socket_history \<Rightarrow> io_error + fd"
  sc_bind :: "socket_history \<Rightarrow> fd \<Rightarrow> io_error option"
  sc_listen :: "socket_history \<Rightarrow> fd \<Rightarrow> io_error option"
  sc_connect :: "socket_history \<Rightarrow> fd \<Rightarrow> io_error option"
  sc_accept :: "socket_history \<Rightarrow> fd \<Rightarrow> io_error + fd"
  sc_credentials :: "socket_history \<Rightarrow> fd \<Rightarrow> peer_credentials"
  sc_channel :: "socket_history \<Rightarrow> fd \<Rightarrow> channel"

definition manager_socket_abstract_name :: string where
  "manager_socket_abstract_name = ''FreezeitManager''"

text \<open>The first \<open>2 + 1 + length name\<close> bytes of a \<^verbatim>\<open>sockaddr_un\<close>, which is the length
  given to the kernel: the family \<^verbatim>\<open>AF_UNIX\<close>, a zero byte, and the name.\<close>

definition abstract_address :: "string \<Rightarrow> bytes" where
  "abstract_address name = [1, 0] @ [0] @ text_bytes name"

subsection \<open>The listener\<close>

definition bind_manager_listener :: "socket_calls \<Rightarrow> socket_history \<Rightarrow> fd res \<times> socket_history" where
  "bind_manager_listener env h =
     (if length manager_socket_abstract_name > max_abstract_name_len
      then (Inl (System_Error ''manager socket name is too long''), h)
      else case sc_socket env h of
        Inl e \<Rightarrow> (Inl (Io_Error e), K_Socket (Inl e) # h)
      | Inr fd \<Rightarrow>
          let address = abstract_address manager_socket_abstract_name;
              h1 = K_Socket (Inr fd) # h;
              bound = sc_bind env h1 fd;
              h2 = K_Bind fd address bound # h1
          in case bound of
               Some e \<Rightarrow> (Inl (Io_Error e), K_Close fd # h2)
             | None \<Rightarrow>
                 let listening = sc_listen env h2 fd;
                     h3 = K_Listen fd 8 listening # h2
                 in case listening of
                      Some e \<Rightarrow> (Inl (Io_Error e), K_Close fd # h3)
                    | None \<Rightarrow> (Inr fd, h3))"

text \<open>A refused peer's stream is dropped on return.\<close>

definition accept_stream ::
  "socket_calls \<Rightarrow> fd \<Rightarrow> u32 bset \<Rightarrow> socket_history \<Rightarrow> fd option res \<times> socket_history" where
  "accept_stream env listener authorized_uids h =
     (case sc_accept env h listener of
        Inl e \<Rightarrow> (Inl (Io_Error e), K_Accept listener (Inl e) # h)
      | Inr fd \<Rightarrow>
          let h1 = K_Accept listener (Inr fd) # h;
              credentials = sc_credentials env h1 fd;
              h2 = K_Credentials fd credentials # h1
          in case manager_peer_uid credentials of
               Inl _ \<Rightarrow> (Inr None, K_Close fd # h2)
             | Inr uid \<Rightarrow>
                 if is_authorized_manager_peer_uid uid authorized_uids then (Inr (Some fd), h2)
                 else (Inr None, K_Close fd # h2))"

text \<open>An accepted stream is served and dropped, also when the request failed.\<close>

definition serve_stream ::
  "socket_calls \<Rightarrow> (manager_frame \<Rightarrow> 's \<Rightarrow> bytes res \<times> 's) \<Rightarrow> fd \<Rightarrow> 's \<Rightarrow> socket_history \<Rightarrow>
   (unit res \<times> 's \<times> socket_history) option" where
  "serve_stream env handle fd s h =
     map_option (\<lambda>(r, s1, ch). (r, s1, K_Close fd # K_Exchange fd ch # h))
       (serve_manager_connection handle s (sc_channel env h fd))"

text \<open>A turn of the server's loop: an error only if accepting failed.\<close>

definition server_turn ::
  "socket_calls \<Rightarrow> fd \<Rightarrow> u32 bset \<Rightarrow> (manager_frame \<Rightarrow> 's \<Rightarrow> bytes res \<times> 's) \<Rightarrow> 's \<Rightarrow> socket_history \<Rightarrow>
   (daemon_error option \<times> 's \<times> socket_history) option" where
  "server_turn env listener authorized_uids handle s h =
     (case accept_stream env listener authorized_uids h of
        (Inl e, h1) \<Rightarrow> Some (Some e, s, h1)
      | (Inr None, h1) \<Rightarrow> Some (None, s, h1)
      | (Inr (Some fd), h1) \<Rightarrow> map_option (\<lambda>(_, s1, h2). (None, s1, h2)) (serve_stream env handle fd s h1))"

text \<open>At most \<open>n\<close> turns; the listener is dropped when the loop ends.\<close>

fun server_turns ::
  "nat \<Rightarrow> socket_calls \<Rightarrow> fd \<Rightarrow> u32 bset \<Rightarrow> (manager_frame \<Rightarrow> 's \<Rightarrow> bytes res \<times> 's) \<Rightarrow> 's \<Rightarrow> socket_history \<Rightarrow>
   (daemon_error option \<times> 's \<times> socket_history) option" where
  "server_turns 0 env listener authorized_uids handle s h = Some (None, s, h)"
| "server_turns (Suc n) env listener authorized_uids handle s h =
     (case server_turn env listener authorized_uids handle s h of
        None \<Rightarrow> None
      | Some (Some e, s1, h1) \<Rightarrow> Some (Some e, s1, K_Close listener # h1)
      | Some (None, s1, h1) \<Rightarrow> server_turns n env listener authorized_uids handle s1 h1)"

definition run_manager_server_forever ::
  "nat \<Rightarrow> socket_calls \<Rightarrow> u32 bset \<Rightarrow> (manager_frame \<Rightarrow> 's \<Rightarrow> bytes res \<times> 's) \<Rightarrow> 's \<Rightarrow> socket_history \<Rightarrow>
   (daemon_error option \<times> 's \<times> socket_history) option" where
  "run_manager_server_forever n env authorized_uids handle s h =
     (case bind_manager_listener env h of
        (Inl e, h1) \<Rightarrow> Some (Some e, s, h1)
      | (Inr listener, h1) \<Rightarrow> server_turns n env listener authorized_uids handle s h1)"

text \<open>\<^verbatim>\<open>run_manager_server_once\<close> serves the first authorized peer, if one of the first
  \<open>n\<close> is, and returns its result.\<close>

fun accept_first :: "nat \<Rightarrow> socket_calls \<Rightarrow> fd \<Rightarrow> u32 bset \<Rightarrow> socket_history \<Rightarrow> fd option res \<times> socket_history" where
  "accept_first 0 env listener authorized_uids h = (Inr None, h)"
| "accept_first (Suc n) env listener authorized_uids h =
     (case accept_stream env listener authorized_uids h of
        (Inr None, h1) \<Rightarrow> accept_first n env listener authorized_uids h1
      | (r, h1) \<Rightarrow> (r, h1))"

definition run_manager_server_once ::
  "nat \<Rightarrow> socket_calls \<Rightarrow> u32 bset \<Rightarrow> (manager_frame \<Rightarrow> 's \<Rightarrow> bytes res \<times> 's) \<Rightarrow> 's \<Rightarrow> socket_history \<Rightarrow>
   (unit res option \<times> 's \<times> socket_history) option" where
  "run_manager_server_once n env authorized_uids handle s h =
     (case bind_manager_listener env h of
        (Inl e, h1) \<Rightarrow> Some (Some (Inl e), s, h1)
      | (Inr listener, h1) \<Rightarrow>
          (case accept_first n env listener authorized_uids h1 of
             (Inl e, h2) \<Rightarrow> Some (Some (Inl e), s, K_Close listener # h2)
           | (Inr None, h2) \<Rightarrow> Some (None, s, h2)
           | (Inr (Some fd), h2) \<Rightarrow>
               map_option (\<lambda>(r, s1, h3). (Some r, s1, K_Close listener # h3)) (serve_stream env handle fd s h2)))"

subsection \<open>The client of the hook\<close>

definition open_hook_stream :: "string \<Rightarrow> socket_calls \<Rightarrow> socket_history \<Rightarrow> fd res \<times> socket_history" where
  "open_hook_stream name env h =
     (if length name > max_abstract_name_len then (Inl (System_Error ''xposed socket name is too long''), h)
      else case sc_socket env h of
        Inl e \<Rightarrow> (Inl (Io_Error e), K_Socket (Inl e) # h)
      | Inr fd \<Rightarrow>
          let h1 = K_Socket (Inr fd) # h;
              connected = sc_connect env h1 fd;
              h2 = K_Connect fd (abstract_address name) connected # h1
          in case connected of
               Some e \<Rightarrow> (Inl (Io_Error e), K_Close fd # h2)
             | None \<Rightarrow>
                 let credentials = sc_credentials env h2 fd;
                     h3 = K_Credentials fd credentials # h2
                 in case authenticate_hook_peer credentials of
                      Inl e \<Rightarrow> (Inl e, K_Close fd # h3)
                    | Inr _ \<Rightarrow> (Inr fd, h3))"

definition hook_request ::
  "socket_calls \<Rightarrow> xposed_command \<Rightarrow> bytes \<Rightarrow> socket_history \<Rightarrow> (bytes res \<times> socket_history) option" where
  "hook_request env command payload h =
     (case encode_xposed_frame command payload of
        Inl e \<Rightarrow> Some (Inl e, h)
      | Inr request \<Rightarrow>
          (case open_hook_stream xposed_socket_abstract_name env h of
             (Inl e, h1) \<Rightarrow> Some (Inl e, h1)
           | (Inr fd, h1) \<Rightarrow>
               map_option (\<lambda>(r, ch). (r, K_Close fd # K_Exchange fd ch # h1))
                 (exchange_request request (sc_channel env h1 fd))))"

subsection \<open>The descriptors are balanced\<close>

text \<open>The descriptors the daemon owns after a history, and whether every call was made on such a one.\<close>

primrec open_fds :: "socket_history \<Rightarrow> fd set" where
  "open_fds [] = {}"
| "open_fds (e # h) =
     (case e of
        K_Socket (Inr fd) \<Rightarrow> insert fd (open_fds h)
      | K_Accept _ (Inr fd) \<Rightarrow> insert fd (open_fds h)
      | K_Close fd \<Rightarrow> open_fds h - {fd}
      | _ \<Rightarrow> open_fds h)"

definition called_on :: "socket_event \<Rightarrow> fd option" where
  "called_on e =
     (case e of
        K_Socket _ \<Rightarrow> None
      | K_Bind fd _ _ \<Rightarrow> Some fd
      | K_Listen fd _ _ \<Rightarrow> Some fd
      | K_Connect fd _ _ \<Rightarrow> Some fd
      | K_Accept fd _ \<Rightarrow> Some fd
      | K_Credentials fd _ \<Rightarrow> Some fd
      | K_Exchange fd _ \<Rightarrow> Some fd
      | K_Close fd \<Rightarrow> Some fd)"

primrec uses_open :: "socket_history \<Rightarrow> bool" where
  "uses_open [] = True"
| "uses_open (e # h) = (uses_open h \<and> (case called_on e of None \<Rightarrow> True | Some fd \<Rightarrow> fd \<in> open_fds h))"

text \<open>With whom bytes were exchanged.\<close>

primrec exchanges :: "(fd \<Rightarrow> socket_history \<Rightarrow> bool) \<Rightarrow> socket_history \<Rightarrow> bool" where
  "exchanges P [] = True"
| "exchanges P (e # h) = (exchanges P h \<and> (case e of K_Exchange fd _ \<Rightarrow> P fd h | _ \<Rightarrow> True))"

definition manager_peer :: "u32 bset \<Rightarrow> fd \<Rightarrow> socket_history \<Rightarrow> bool" where
  "manager_peer authorized_uids fd past =
     (\<exists>listener uid older. past = K_Credentials fd (Inr (ucred_len, uid)) # K_Accept listener (Inr fd) # older \<and>
        (uid = 0 \<or> uid \<in> set authorized_uids))"

definition hook_peer :: "fd \<Rightarrow> socket_history \<Rightarrow> bool" where
  "hook_peer fd past =
     (\<exists>uid older. past = K_Credentials fd (Inr (ucred_len, uid)) #
          K_Connect fd (abstract_address xposed_socket_abstract_name) None # older \<and> (uid = 0 \<or> uid = 1000))"

text \<open>The kernel hands out descriptors that are not in use.\<close>

definition fresh_descriptors :: "socket_calls \<Rightarrow> bool" where
  "fresh_descriptors env =
     (\<forall>h fd. (sc_socket env h = Inr fd \<or> (\<exists>listener. sc_accept env h listener = Inr fd)) \<longrightarrow> fd \<notin> open_fds h)"

lemma fresh_socket: "fresh_descriptors env \<Longrightarrow> sc_socket env h = Inr fd \<Longrightarrow> fd \<notin> open_fds h"
  and fresh_accept: "fresh_descriptors env \<Longrightarrow> sc_accept env h l = Inr fd \<Longrightarrow> fd \<notin> open_fds h"
  by (auto simp: fresh_descriptors_def)

lemmas balance_simps = called_on_def Let_def insert_Diff_if

text \<open>What an operation keeps that leaves the given new descriptors open.\<close>

definition balanced ::
  "(fd \<Rightarrow> socket_history \<Rightarrow> bool) \<Rightarrow> fd set \<Rightarrow> socket_history \<Rightarrow> socket_history \<Rightarrow> bool" where
  "balanced P new h h' =
     (suffix h h' \<and> (uses_open h \<longrightarrow> uses_open h') \<and> (exchanges P h \<longrightarrow> exchanges P h') \<and>
      new \<inter> open_fds h = {} \<and> open_fds h' = new \<union> open_fds h)"

lemma balanced_refl: "balanced P {} h h"
  by (simp add: balanced_def)

lemma balanced_trans: "balanced P {} h h1 \<Longrightarrow> balanced P new h1 h2 \<Longrightarrow> balanced P new h h2"
  by (auto simp: balanced_def)

lemma balanced_close:
  assumes "balanced P {fd} h h1" and "balanced P {} h1 h2"
  shows "balanced P {} h (K_Close fd # h2)"
  using assms by (auto simp: balanced_def called_on_def suffix_ConsI)

lemma bind_balanced:
  assumes "fresh_descriptors env" and "bind_manager_listener env h = (r, h')"
  shows "case r of
      Inl _ \<Rightarrow> balanced P {} h h'
    | Inr fd \<Rightarrow> balanced P {fd} h h' \<and>
        h' = K_Listen fd 8 None # K_Bind fd (abstract_address manager_socket_abstract_name) None #
          K_Socket (Inr fd) # h"
  using assms fresh_socket [OF assms(1), of h]
  by (auto simp: bind_manager_listener_def balanced_def balance_simps suffix_Cons
      split: if_splits sum.splits option.splits)

lemma accept_balanced:
  assumes "fresh_descriptors env" and "accept_stream env listener uids h = (r, h')" and "listener \<in> open_fds h"
  shows "case r of
      Inr (Some fd) \<Rightarrow> balanced P {fd} h h' \<and> manager_peer uids fd h'
    | _ \<Rightarrow> balanced P {} h h'"
  using assms fresh_accept [OF assms(1), of h listener]
  by (auto simp: accept_stream_def balanced_def balance_simps suffix_Cons manager_peer_def manager_peer_uid_def
      is_authorized_manager_peer_uid_def split: if_splits sum.splits prod.splits)

lemma serve_stream_balanced:
  assumes "serve_stream env handle fd s h1 = Some (r, s', h')"
    and "balanced (manager_peer uids) {fd} h h1" and "manager_peer uids fd h1"
  shows "balanced (manager_peer uids) {} h h'"
  using assms by (auto simp: serve_stream_def balanced_def balance_simps suffix_ConsI)

lemma serve_stream_returns:
  assumes "\<forall>g fd. clock_unbounded (sc_channel env g fd)"
  shows "\<exists>r s' h'. serve_stream env handle fd s h = Some (r, s', h')"
proof -
  obtain r s' ch' where "serve_manager_connection handle s (sc_channel env h fd) = Some (r, s', ch')"
    using serve_connection_returns [of "sc_channel env h fd" handle s] assms by blast
  then show ?thesis by (simp add: serve_stream_def)
qed

subsection \<open>The same behaviour as without descriptors\<close>

lemma accept_stream_refines:
  "map_sum id (\<lambda>fd. fd \<noteq> None) (fst (accept_stream env listener uids h)) =
     accept_manager uids (map_sum id (\<lambda>fd. sc_credentials env (K_Accept listener (Inr fd) # h) fd) (sc_accept env h listener))"
  by (simp add: accept_stream_def accept_manager_def Let_def split: sum.split)

text \<open>A turn of the server is \<^verbatim>\<open>serve_peer\<close> on what the kernel answers.\<close>

lemma server_turn_refines:
  assumes "server_turn env listener uids handle s h = Some (e, s', h')"
  shows "\<exists>accepted ch r ch'. serve_peer uids accepted handle s ch = Some (r, s', ch') \<and>
    r = (case e of None \<Rightarrow> Inr () | Some x \<Rightarrow> Inl x)"
proof -
  let ?accepted = "map_sum id (\<lambda>fd. sc_credentials env (K_Accept listener (Inr fd) # h) fd) (sc_accept env h listener)"
  obtain a h1 where 1: "accept_stream env listener uids h = (a, h1)" by fastforce
  have accepted: "accept_manager uids ?accepted = map_sum id (\<lambda>fd. fd \<noteq> None) a"
    using accept_stream_refines [of env listener uids h] by (simp add: 1)
  show ?thesis
  proof (cases a)
    case (Inl x)
    with assms accepted show ?thesis
      by (intro exI [of _ ?accepted]) (auto simp: server_turn_def 1 serve_peer_def)
  next
    case (Inr fd)
    show ?thesis
    proof (cases fd)
      case None
      with Inr assms accepted show ?thesis
        by (intro exI [of _ ?accepted]) (auto simp: server_turn_def 1 serve_peer_def)
    next
      case (Some f)
      with Inr assms accepted show ?thesis
        by (intro exI [of _ ?accepted] exI [of _ "sc_channel env h1 f"])
          (auto simp: server_turn_def serve_stream_def 1 serve_peer_def)
    qed
  qed
qed

text \<open>What connecting gives, as the record of answers that \<^verbatim>\<open>request_bytes\<close> takes.\<close>

definition hook_socket_of :: "socket_calls \<Rightarrow> socket_history \<Rightarrow> hook_socket" where
  "hook_socket_of env h =
     (case sc_socket env h of
        Inl e \<Rightarrow> \<lparr>hs_socket = Some e, hs_connect = None, hs_peer = Inl e\<rparr>
      | Inr fd \<Rightarrow>
          let h1 = K_Socket (Inr fd) # h; connected = sc_connect env h1 fd
          in \<lparr>hs_socket = None, hs_connect = connected,
              hs_peer = sc_credentials env
                (K_Connect fd (abstract_address xposed_socket_abstract_name) connected # h1) fd\<rparr>)"

lemma open_hook_refines:
  "map_sum id (\<lambda>_. ()) (fst (open_hook_stream xposed_socket_abstract_name env h)) =
     connect_abstract_socket xposed_socket_abstract_name (hook_socket_of env h)"
  by (simp add: open_hook_stream_def connect_abstract_socket_def hook_socket_of_def Let_def
      split: sum.split option.split)

lemma hook_request_refines:
  assumes "open_hook_stream xposed_socket_abstract_name env h = (opened, h1)"
    and "ch = (case opened of Inr fd \<Rightarrow> sc_channel env h1 fd | Inl _ \<Rightarrow> ch0)"
  shows "map_option fst (hook_request env command payload h) =
    map_option fst (request_bytes (hook_socket_of env h) command payload ch)"
proof -
  have "connect_abstract_socket xposed_socket_abstract_name (hook_socket_of env h) = map_sum id (\<lambda>_. ()) opened"
    using open_hook_refines [of env h] by (simp add: assms(1))
  then show ?thesis
    using assms(2)
    by (cases opened) (simp_all add: hook_request_def request_bytes_def assms(1) option.map_comp comp_def split_beta
        split: sum.split)
qed

subsection \<open>What the server and a request leave open\<close>

lemma server_turn_balanced:
  assumes "fresh_descriptors env" and "\<forall>g fd. clock_unbounded (sc_channel env g fd)" and "listener \<in> open_fds h"
  shows "\<exists>e s' h'. server_turn env listener uids handle s h = Some (e, s', h') \<and>
    balanced (manager_peer uids) {} h h'"
proof -
  obtain a h1 where 1: "accept_stream env listener uids h = (a, h1)" by fastforce
  note acc = accept_balanced [OF assms(1) 1 assms(3), of "manager_peer uids"]
  consider (idle) "balanced (manager_peer uids) {} h h1" "\<forall>fd. a \<noteq> Inr (Some fd)"
    | (serve) fd where "a = Inr (Some fd)" "balanced (manager_peer uids) {fd} h h1" "manager_peer uids fd h1"
    using acc by (auto split: sum.splits option.splits)
  then show ?thesis
  proof cases
    case idle
    then show ?thesis by (auto simp: server_turn_def 1 split: sum.split option.split)
  next
    case serve
    obtain r s' h' where 2: "serve_stream env handle fd s h1 = Some (r, s', h')"
      using serve_stream_returns [OF assms(2), of handle fd s h1] by blast
    with serve_stream_balanced [OF 2 serve(2,3)] serve(1) show ?thesis by (simp add: server_turn_def 1)
  qed
qed

lemma server_turns_balanced:
  assumes "fresh_descriptors env" and "\<forall>g fd. clock_unbounded (sc_channel env g fd)" and "listener \<in> open_fds h"
  shows "\<exists>e s' h' h1. server_turns n env listener uids handle s h = Some (e, s', h') \<and>
    balanced (manager_peer uids) {} h h1 \<and> h' = (case e of None \<Rightarrow> h1 | Some _ \<Rightarrow> K_Close listener # h1)"
  using assms(3)
proof (induction n arbitrary: s h)
  case 0
  then show ?case by (simp add: balanced_refl)
next
  case (Suc n)
  obtain e s1 h1 where 1: "server_turn env listener uids handle s h = Some (e, s1, h1)"
    and b: "balanced (manager_peer uids) {} h h1"
    using server_turn_balanced [OF assms(1,2) Suc.prems, of uids handle s] by blast
  show ?case
  proof (cases e)
    case None
    have "listener \<in> open_fds h1" using b Suc.prems by (simp add: balanced_def)
    from Suc.IH [OF this, of s1] obtain e2 s2 h2 h3 where
      "server_turns n env listener uids handle s1 h1 = Some (e2, s2, h2)"
      "balanced (manager_peer uids) {} h1 h3" "h2 = (case e2 of None \<Rightarrow> h3 | Some _ \<Rightarrow> K_Close listener # h3)"
      by blast
    with None b show ?thesis by (auto simp: 1 dest: balanced_trans)
  qed (use b in \<open>simp add: 1\<close>)
qed

lemma accept_first_balanced:
  assumes "fresh_descriptors env" and "accept_first n env listener uids h = (r, h')" and "listener \<in> open_fds h"
  shows "case r of
      Inr (Some fd) \<Rightarrow> balanced (manager_peer uids) {fd} h h' \<and> manager_peer uids fd h'
    | _ \<Rightarrow> balanced (manager_peer uids) {} h h'"
  using assms(2,3)
proof (induction n arbitrary: h)
  case 0
  then show ?case by (auto simp: balanced_refl)
next
  case (Suc n)
  obtain a h1 where 1: "accept_stream env listener uids h = (a, h1)" by fastforce
  note acc = accept_balanced [OF assms(1) 1 Suc.prems(2), of "manager_peer uids"]
  show ?case
  proof (cases "a = Inr None")
    case True
    with acc have b: "balanced (manager_peer uids) {} h h1" by simp
    then have "listener \<in> open_fds h1" using Suc.prems(2) by (simp add: balanced_def)
    from Suc.IH [OF _ this] Suc.prems(1) b True show ?thesis
      by (auto simp: 1 dest: balanced_trans split: sum.splits option.splits)
  next
    case False
    with acc Suc.prems(1) show ?thesis by (auto simp: 1 split: sum.splits option.splits)
  qed
qed

text \<open>Serving one request leaves nothing open, whatever its result.\<close>

lemma server_once_closes:
  assumes "fresh_descriptors env" and "run_manager_server_once n env uids handle s h = Some (Some r, s', h')"
    and "uses_open h"
  shows "uses_open h' \<and> open_fds h' = open_fds h"
proof -
  let ?P = "manager_peer uids"
  obtain b h1 where 1: "bind_manager_listener env h = (b, h1)" by fastforce
  note bound = bind_balanced [OF assms(1) 1, of ?P]
  show ?thesis
  proof (cases b)
    case (Inl e)
    with bound assms(2,3) show ?thesis by (auto simp: run_manager_server_once_def 1 balanced_def)
  next
    case (Inr listener)
    with bound have b: "balanced ?P {listener} h h1" by auto
    then have l: "listener \<in> open_fds h1" by (simp add: balanced_def)
    obtain a h2 where 2: "accept_first n env listener uids h1 = (a, h2)" by fastforce
    note acc = accept_first_balanced [OF assms(1) 2 l]
    obtain h3 where "h' = K_Close listener # h3" "balanced ?P {} h1 h3"
      using assms(2) acc serve_stream_balanced [of env handle _ s h2 r s' _ uids h1]
      by (auto simp: run_manager_server_once_def 1 Inr 2 split: sum.splits option.splits)
    with balanced_close [OF b this(2)] assms(3) show ?thesis by (simp add: balanced_def)
  qed
qed

text \<open>The listener the server owns, bound to its address and listening since the start.\<close>

definition listening_since :: "fd \<Rightarrow> socket_history \<Rightarrow> socket_history \<Rightarrow> bool" where
  "listening_since listener h h' =
     suffix (K_Listen listener 8 None # K_Bind listener (abstract_address manager_socket_abstract_name) None #
       K_Socket (Inr listener) # h) h'"

text \<open>A kernel that hands out the smallest number above all descriptors so far; every peer is an
  authorized manager that sends nothing.\<close>

primrec highest_fd :: "socket_history \<Rightarrow> fd" where
  "highest_fd [] = 2"
| "highest_fd (e # h) =
     (case e of
        K_Socket (Inr fd) \<Rightarrow> max fd (highest_fd h)
      | K_Accept _ (Inr fd) \<Rightarrow> max fd (highest_fd h)
      | _ \<Rightarrow> highest_fd h)"

lemma highest_fd_bound: "fd \<in> open_fds h \<Longrightarrow> fd \<le> highest_fd h"
  by (induction h) (auto split: socket_event.splits sum.splits)

definition demo_sockets :: socket_calls where
  "demo_sockets =
    \<lparr>sc_socket = (\<lambda>h. Inr (highest_fd h + 1)), sc_bind = (\<lambda>_ _. None), sc_listen = (\<lambda>_ _. None),
     sc_connect = (\<lambda>_ _. None), sc_accept = (\<lambda>h _. Inr (highest_fd h + 1)),
     sc_credentials = (\<lambda>_ _. Inr (ucred_len, 1000)), sc_channel = (\<lambda>_ _. sample_channel)\<rparr>"

lemma demo_fresh: "fresh_descriptors demo_sockets"
  using highest_fd_bound by (fastforce simp: fresh_descriptors_def demo_sockets_def)

lemma demo_channels:
  "clock_unbounded (sc_channel demo_sockets g fd)" "writes_settle (sc_channel demo_sockets g fd)"
  by (simp_all add: demo_sockets_def sample_clock sample_settles)

text \<open>
  C12.  The server's descriptors: if the clock of every connection goes on, binding and any number of turns
  return; every call is made on a descriptor that is open, so none is used after it was closed or closed
  twice; while the server runs it owns exactly one descriptor more, its listener, bound to the manager's
  abstract address; when binding or accepting failed nothing is left; and bytes were exchanged only with a
  peer accepted and checked immediately before.
\<close>

theorem server_descriptors_exact:
  assumes "fresh_descriptors env" and "\<forall>g fd. clock_unbounded (sc_channel env g fd)"
    and "uses_open h" and "exchanges (manager_peer uids) h"
  shows "\<exists>e s' h'. run_manager_server_forever n env uids handle s h = Some (e, s', h') \<and>
    uses_open h' \<and> exchanges (manager_peer uids) h' \<and>
    (case e of
       Some _ \<Rightarrow> open_fds h' = open_fds h
     | None \<Rightarrow> \<exists>listener. listener \<notin> open_fds h \<and> open_fds h' = insert listener (open_fds h) \<and>
         listening_since listener h h')"
proof -
  obtain r h1 where 1: "bind_manager_listener env h = (r, h1)" by fastforce
  note bound = bind_balanced [OF assms(1) 1, of "manager_peer uids"]
  show ?thesis
  proof (cases r)
    case (Inl x)
    with bound assms(3,4) show ?thesis by (simp add: run_manager_server_forever_def 1 balanced_def)
  next
    case (Inr listener)
    with bound have b: "balanced (manager_peer uids) {listener} h h1"
      and h1: "listening_since listener h h1" by (auto simp: listening_since_def)
    from b have "listener \<in> open_fds h1" by (simp add: balanced_def)
    from server_turns_balanced [OF assms(1,2) this, of n uids handle s] obtain e s' h' h2 where
      2: "server_turns n env listener uids handle s h1 = Some (e, s', h')"
      "balanced (manager_peer uids) {} h1 h2" "h' = (case e of None \<Rightarrow> h2 | Some _ \<Rightarrow> K_Close listener # h2)"
      by blast
    have "balanced (manager_peer uids) {} h h'" if "e \<noteq> None"
      using balanced_close [OF b 2(2)] 2(3) that by auto
    moreover have "balanced (manager_peer uids) {listener} h h2"
      using b 2(2) by (auto simp: balanced_def)
    moreover have "listening_since listener h h2"
      using h1 2(2) by (auto simp: listening_since_def balanced_def)
    ultimately show ?thesis
      using 2(1,3) assms(3,4)
      by (cases e) (auto simp: run_manager_server_forever_def 1 Inr balanced_def)
  qed
qed

theorem server_descriptors_exact_witness:
  "\<exists>e s' h'. run_manager_server_forever 3 demo_sockets [1000] (\<lambda>frame n. (Inr [], Suc n)) (0 :: nat) [] =
     Some (e, s', h') \<and> uses_open h' \<and> exchanges (manager_peer [1000]) h'"
  using server_descriptors_exact [OF demo_fresh, of "[]" "[1000]" 3 "\<lambda>frame n. (Inr [], Suc n)" "0 :: nat"]
    demo_channels by auto



end
