(* ===== verification/Observations.thy ===== *)
theory Observations
  imports Descriptors Startup Control_Tracking
begin

text \<open>
  Behaviours of the code that its comments and names do not suggest, each shown on a concrete run or for
  every run of its kind.
\<close>

subsection \<open>Freezes that are no longer tracked\<close>

text \<open>The first listing succeeds and every later one fails: what was frozen in between stays frozen, the
  pass ends with the error, and nothing is tracked.\<close>

definition rescan_fails :: control_env where
  "rescan_fails = (demo_env 0)
    \<lparr>ce_discover := (\<lambda>h _ _. if h = [] then Inr [demo_process 4242, demo_process 4243]
                              else Inl (System_Error ''proc unreadable''))\<rparr>"

lemma failed_rescan_forgets_freeze:
  "(let r = run_control_pass rescan_fails [demo_record] [] [] 9000 default_control_state []
    in fst r = Inl (System_Error ''proc unreadable'') \<and> held_pids (snd (snd r)) = {4242, 4243} \<and>
       rc_frozen_apps (fst (snd r)) = [])"
  by code_simp

text \<open>
  After an abnormal thaw of one process the application is no longer tracked while the new attempt is
  made; the attempt fails its identity check, so its sibling stays frozen, and the application coming to the foreground does not
  thaw it.
\<close>

definition one_thawed :: control_env where
  "one_thawed = (demo_env 0)
    \<lparr>ce_validate := (\<lambda>_ p. Inr (rp_pid p \<noteq> 4242)),
     ce_discover := (\<lambda>_ _ _. Inr [demo_process 4242, (demo_process 4243)\<lparr>rp_control_state := CT_Frozen\<rparr>])\<rparr>"

definition abnormal_thaw_run :: "runtime_control_state \<times> history" where
  "abnormal_thaw_run =
     (let (r1, s1, h1) = run_control_pass (demo_env 0) [demo_record] [] [] 1000 default_control_state [];
          (r2, s2, h2) = run_control_pass one_thawed [demo_record] [] [] 62000 s1 h1;
          (r3, s3, h3) = run_control_pass one_thawed [demo_record] [] [10123] 63000 s2 h2
      in (s3, h3))"

lemma abnormal_thaw_forgets_sibling:
  "4243 \<in> held_pids (snd abnormal_thaw_run)" "rc_frozen_apps (fst abnormal_thaw_run) = []"
  by code_simp+

subsection \<open>Labels\<close>

text \<open>An operation on a scanned process is labelled as blocked by Binder: the evidence of every process
  the scan lists starts with \<^verbatim>\<open>binder_queue\<close>, also where the queue is idle.\<close>

definition idle_scanned :: runtime_process where
  "idle_scanned = (demo_process 4242)\<lparr>rp_binder_state := Some ''binder_queue idle''\<rparr>"

lemma idle_process_is_binder_blocked:
  "is_binder_blocker (new_operation (''com.example.app'', 10123) [4242] CA_Postpone ''cgroup.freeze''
     ''pending freeze delay 10000ms'' OR_Postponed (operation_details [idle_scanned]))"
  by code_simp

subsection \<open>Diagnostics and policy files\<close>

text \<open>Without policy files the self check reports control as not allowed, whatever the device; the
  permission the control loop reads does not depend on them.\<close>

lemma self_check_ignores_permission:
  "ro_self_check_json (update_diagnostics runtime capabilities False s) =
     self_check_json_with_control_allowed
       (health_evaluate True True (re_hook_ready runtime) (re_root_ready runtime) (re_freezer_ready runtime) False)
       capabilities False"
  "ro_control_allowed (update_diagnostics runtime capabilities False s) = allows_control runtime capabilities"
  by (simp_all add: update_diagnostics_def self_check_json_for_runtime_def is_safe_for_control_def
      health_evaluate_def Let_def)

text \<open>A package listed twice: the records take the uid of its last entry, the source tokens that of the
  first.\<close>

definition listed_twice :: "package_record list" where
  "listed_twice = parse_cmd_package_list (concat (map (\<lambda>l. l @ [newline])
     [''package:a.b uid:10123'', ''package:a.b uid:10124'']))"

lemma package_listed_twice:
  "map ac_uid (load_manager_app_config_records (Some ''a.b 30 0'') listed_twice) = [10124]"
  "map fst (source_tokens_from_legacy_config (Some ''a.b 30 0'')
     (\<lambda>name. map_option pk_uid (find (\<lambda>r. pk_package_name r = name) listed_twice))) = [10123]"
  by code_simp+

subsection \<open>The end of the server\<close>

text \<open>Any error of \<^verbatim>\<open>accept\<close>, also an interruption, ends the server with it.\<close>

lemma accept_error_ends_server:
  assumes "bind_manager_listener env h = (Inr listener, h1)" and "sc_accept env h1 listener = Inl e"
  shows "run_manager_server_forever (Suc n) env uids handle s h =
    Some (Some (Io_Error e), s, K_Close listener # K_Accept listener (Inl e) # h1)"
  using assms by (simp add: run_manager_server_forever_def server_turn_def accept_stream_def)

end
