(* ===== verification/Command_Runner.thy ===== *)
theory Command_Runner
  imports Streams
begin

text \<open>
  \<^verbatim>\<open>app/command_runner.rs\<close>: a helper program is run in its own process group with a
  deadline and a limit on its combined output, and is killed and reaped on every failure.
\<close>

subsection \<open>The child\<close>

datatype stop_event = Kill_Group bool | Kill_Child | Wait_Child

text \<open>
  What the system answers (the \<open>n\<close>-th reading of the clock, \<^verbatim>\<open>try_wait\<close>,
  \<^verbatim>\<open>poll\<close>, read of a pipe), how often it was asked, and what happened to the child.
\<close>

record child =
  cd_now :: "nat \<Rightarrow> nat"
  cd_wait :: "nat \<Rightarrow> io_error + int option"
  cd_poll :: "nat \<Rightarrow> io_error + bool \<times> bool"
  cd_out :: "nat \<Rightarrow> io_error + bytes"
  cd_err :: "nat \<Rightarrow> io_error + bytes"
  cd_killpg :: bool
  cd_ticks :: nat
  cd_waits :: nat
  cd_polls :: "(nat \<times> bool \<times> bool) list"
  cd_out_reads :: nat
  cd_err_reads :: nat
  cd_out_got :: bytes
  cd_err_got :: bytes
  cd_stops :: "stop_event list"

definition child_instant :: "child \<Rightarrow> nat \<times> child" where
  "child_instant c = (cd_now c (cd_ticks c), c\<lparr>cd_ticks := Suc (cd_ticks c)\<rparr>)"

definition try_wait :: "child \<Rightarrow> (io_error + int option) \<times> child" where
  "try_wait c = (cd_wait c (cd_waits c), c\<lparr>cd_waits := Suc (cd_waits c)\<rparr>)"

text \<open>\<^verbatim>\<open>poll\<close> on the open descriptors; a closed one is never ready.\<close>

definition poll_streams :: "nat \<Rightarrow> bool \<Rightarrow> bool \<Rightarrow> child \<Rightarrow> (io_error + bool \<times> bool) \<times> child" where
  "poll_streams timeout_ms out_open err_open c =
     (map_sum id (\<lambda>(out, err). (out_open \<and> out, err_open \<and> err)) (cd_poll c (length (cd_polls c))),
      c\<lparr>cd_polls := (timeout_ms, out_open, err_open) # cd_polls c\<rparr>)"

definition stop_child :: "child \<Rightarrow> child" where
  "stop_child c =
     (let c1 = c\<lparr>cd_stops := (if cd_killpg c then [] else [Kill_Child]) @ Kill_Group (cd_killpg c) # cd_stops c\<rparr>
      in case try_wait c1 of
           (Inr (Some _), c2) \<Rightarrow> c2
         | (_, c2) \<Rightarrow> c2\<lparr>cd_stops := Wait_Child # cd_stops c2\<rparr>)"

subsection \<open>Reading one pipe\<close>

datatype stream = Stdout | Stderr

datatype stream_read_state = Open | Closed | Limit_Exceeded

definition read_buffer_size :: nat where "read_buffer_size = 8 * 1024"

definition pipe_read :: "stream \<Rightarrow> child \<Rightarrow> (io_error + bytes) \<times> child" where
  "pipe_read s c =
     (case s of
        Stdout \<Rightarrow>
          (let r = map_sum id (take read_buffer_size) (cd_out c (cd_out_reads c))
           in (r, c\<lparr>cd_out_reads := Suc (cd_out_reads c),
                  cd_out_got := cd_out_got c @ (case r of Inl _ \<Rightarrow> [] | Inr bs \<Rightarrow> bs)\<rparr>))
      | Stderr \<Rightarrow>
          (let r = map_sum id (take read_buffer_size) (cd_err c (cd_err_reads c))
           in (r, c\<lparr>cd_err_reads := Suc (cd_err_reads c),
                  cd_err_got := cd_err_got c @ (case r of Inl _ \<Rightarrow> [] | Inr bs \<Rightarrow> bs)\<rparr>)))"

partial_function (option) read_stream_chunk ::
  "stream \<Rightarrow> bytes \<Rightarrow> nat \<Rightarrow> child \<Rightarrow> ((io_error + stream_read_state \<times> bytes) \<times> child) option" where
  "read_stream_chunk s output max_output_bytes c =
     (case pipe_read s c of
        (Inr bs, c1) \<Rightarrow>
          Some (Inr (if bs = [] then (Closed, output)
                     else if length bs > max_output_bytes - length output then (Limit_Exceeded, output)
                     else (Open, output @ bs)), c1)
      | (Inl e, c1) \<Rightarrow>
          if io_kind e = Interrupted then read_stream_chunk s output max_output_bytes c1
          else if io_kind e = WouldBlock then Some (Inr (Open, output), c1)
          else Some (Inl e, c1))"

subsection \<open>The loop\<close>

definition command_timeout :: nat where "command_timeout = 10 * 10 ^ 9"
definition max_output_bytes :: nat where "max_output_bytes = 16 * 1024 * 1024"
definition poll_interval :: nat where "poll_interval = 50 * 10 ^ 6"

record runner =
  rn_stdout :: bytes
  rn_stderr :: bytes
  rn_stdout_open :: bool
  rn_stderr_open :: bool
  rn_status :: "int option"

record finished_command =
  co_status :: int
  co_stdout :: bytes
  co_stderr :: bytes

definition output_limit_error :: "string \<Rightarrow> nat \<Rightarrow> daemon_error" where
  "output_limit_error program limit =
     System_Error (''command `'' @ program @ ''` exceeded combined output limit of '' @ show_nat limit @ '' bytes'')"

definition command_timed_out :: "string \<Rightarrow> nat \<Rightarrow> daemon_error" where
  "command_timed_out program timeout =
     System_Error (''command `'' @ program @ ''` timed out after '' @ show_nat (timeout div 10 ^ 6) @ '' ms'')"

definition poll_timeout_ms :: "nat \<Rightarrow> nat" where
  "poll_timeout_ms remaining = max 1 (min remaining poll_interval div 10 ^ 6)"

definition drain_stdout :: "string \<Rightarrow> nat \<Rightarrow> runner \<Rightarrow> child \<Rightarrow> (runner res \<times> child) option" where
  "drain_stdout program limit rn c =
     (case read_stream_chunk Stdout (rn_stdout rn) (limit - length (rn_stderr rn)) c of
        None \<Rightarrow> None
      | Some (Inl e, c1) \<Rightarrow> Some (Inl (Io_Error e), stop_child c1)
      | Some (Inr (Open, out), c1) \<Rightarrow> Some (Inr (rn\<lparr>rn_stdout := out\<rparr>), c1)
      | Some (Inr (Closed, out), c1) \<Rightarrow> Some (Inr (rn\<lparr>rn_stdout_open := False\<rparr>), c1)
      | Some (Inr (Limit_Exceeded, out), c1) \<Rightarrow> Some (Inl (output_limit_error program limit), stop_child c1))"

definition drain_stderr :: "string \<Rightarrow> nat \<Rightarrow> runner \<Rightarrow> child \<Rightarrow> (runner res \<times> child) option" where
  "drain_stderr program limit rn c =
     (case read_stream_chunk Stderr (rn_stderr rn) (limit - length (rn_stdout rn)) c of
        None \<Rightarrow> None
      | Some (Inl e, c1) \<Rightarrow> Some (Inl (Io_Error e), stop_child c1)
      | Some (Inr (Open, out), c1) \<Rightarrow> Some (Inr (rn\<lparr>rn_stderr := out\<rparr>), c1)
      | Some (Inr (Closed, out), c1) \<Rightarrow> Some (Inr (rn\<lparr>rn_stderr_open := False\<rparr>), c1)
      | Some (Inr (Limit_Exceeded, out), c1) \<Rightarrow> Some (Inl (output_limit_error program limit), stop_child c1))"

text \<open>The descriptors that are ready, standard output first.\<close>

definition drain_ready :: "string \<Rightarrow> nat \<Rightarrow> bool \<times> bool \<Rightarrow> runner \<Rightarrow> child \<Rightarrow> (runner res \<times> child) option" where
  "drain_ready program limit ready rn c =
     (case (if fst ready then drain_stdout program limit rn c else Some (Inr rn, c)) of
        None \<Rightarrow> None
      | Some (Inl e, c1) \<Rightarrow> Some (Inl e, c1)
      | Some (Inr rn1, c1) \<Rightarrow> if snd ready then drain_stderr program limit rn1 c1 else Some (Inr rn1, c1))"

definition note_exit :: "runner \<Rightarrow> child \<Rightarrow> runner res \<times> child" where
  "note_exit rn c =
     (if rn_status rn \<noteq> None then (Inr rn, c)
      else case try_wait c of
        (Inr status, c1) \<Rightarrow> (Inr (rn\<lparr>rn_status := status\<rparr>), c1)
      | (Inl e, c1) \<Rightarrow> (Inl (Io_Error e), stop_child c1))"

definition finished :: "runner \<Rightarrow> finished_command option" where
  "finished rn =
     (if rn_stdout_open rn \<or> rn_stderr_open rn then None
      else map_option (\<lambda>status. \<lparr>co_status = status, co_stdout = rn_stdout rn, co_stderr = rn_stderr rn\<rparr>)
             (rn_status rn))"

partial_function (option) run_loop ::
  "string \<Rightarrow> nat \<Rightarrow> nat \<Rightarrow> nat \<Rightarrow> runner \<Rightarrow> child \<Rightarrow> (finished_command res \<times> child) option" where
  "run_loop program timeout limit deadline rn c =
     (case note_exit rn c of
        (Inl e, c1) \<Rightarrow> Some (Inl e, c1)
      | (Inr rn1, c1) \<Rightarrow>
          (case finished rn1 of
             Some out \<Rightarrow> Some (Inr out, c1)
           | None \<Rightarrow>
               (case child_instant c1 of (now, c2) \<Rightarrow>
                  if deadline - now = 0 then Some (Inl (command_timed_out program timeout), stop_child c2)
                  else case poll_streams (poll_timeout_ms (deadline - now)) (rn_stdout_open rn1) (rn_stderr_open rn1) c2 of
                    (Inl e, c3) \<Rightarrow>
                      if io_kind e = Interrupted then run_loop program timeout limit deadline rn1 c3
                      else Some (Inl (Io_Error e), stop_child c3)
                  | (Inr ready, c3) \<Rightarrow>
                      (case drain_ready program limit ready rn1 c3 of
                         None \<Rightarrow> None
                       | Some (Inl e, c4) \<Rightarrow> Some (Inl e, c4)
                       | Some (Inr rn2, c4) \<Rightarrow> run_loop program timeout limit deadline rn2 c4))))"

definition initial_runner :: runner where
  "initial_runner =
    \<lparr>rn_stdout = [], rn_stderr = [], rn_stdout_open = True, rn_stderr_open = True, rn_status = None\<rparr>"

text \<open>The result of spawning, and of making both pipes non-blocking.\<close>

definition run_command_with_limits ::
  "io_error option \<Rightarrow> io_error option \<Rightarrow> string \<Rightarrow> nat \<Rightarrow> nat \<Rightarrow> child \<Rightarrow> (finished_command res \<times> child) option" where
  "run_command_with_limits spawned nonblocking program timeout limit c =
     (case spawned of
        Some e \<Rightarrow> Some (Inl (Io_Error e), c)
      | None \<Rightarrow>
          (case nonblocking of
             Some e \<Rightarrow> Some (Inl (Io_Error e), stop_child c)
           | None \<Rightarrow>
               (case child_instant c of (now, c1) \<Rightarrow>
                  run_loop program timeout limit (now + timeout) initial_runner c1)))"

definition daemon_error_to_io :: "daemon_error \<Rightarrow> io_error" where
  "daemon_error_to_io error =
     (case error of Io_Error e \<Rightarrow> e | e \<Rightarrow> \<lparr>io_kind = OtherIo, io_message = show_error e\<rparr>)"

definition run_command ::
  "io_error option \<Rightarrow> io_error option \<Rightarrow> string \<Rightarrow> child \<Rightarrow> ((io_error + finished_command) \<times> child) option" where
  "run_command spawned nonblocking program c =
     map_option (apfst (map_sum daemon_error_to_io id))
       (run_command_with_limits spawned nonblocking program command_timeout max_output_bytes c)"

subsection \<open>What the loop keeps\<close>

definition same_child :: "child \<Rightarrow> child \<Rightarrow> bool" where
  "same_child c c' =
     (cd_now c' = cd_now c \<and> cd_wait c' = cd_wait c \<and> cd_poll c' = cd_poll c \<and> cd_out c' = cd_out c \<and>
      cd_err c' = cd_err c \<and> cd_killpg c' = cd_killpg c)"

lemma same_child_refl [simp]: "same_child c c" by (simp add: same_child_def)

lemma same_child_trans: "same_child c c1 \<Longrightarrow> same_child c1 c2 \<Longrightarrow> same_child c c2"
  by (simp add: same_child_def)

text \<open>Killed with its group, or alone where that failed, and reaped.\<close>

definition stopped :: "child \<Rightarrow> child \<Rightarrow> bool" where
  "stopped c c' =
     (same_child c c' \<and>
      (\<exists>later. cd_stops c' = later @ Kill_Group (cd_killpg c) # cd_stops c \<and>
         (cd_killpg c \<or> Kill_Child \<in> set later) \<and>
         (Wait_Child \<in> set later \<or> (\<exists>n status. cd_wait c n = Inr (Some status)))))"

lemma stop_child_stopped: "same_child c0 c \<Longrightarrow> cd_stops c = cd_stops c0 \<Longrightarrow> stopped c0 (stop_child c)"
  by (cases "cd_wait c (cd_waits c)"; cases "cd_killpg c")
    (auto simp: stop_child_def try_wait_def stopped_def same_child_def Let_def split: option.splits)

text \<open>Neither pipe interrupts reading for ever.\<close>

definition reads_settle :: "child \<Rightarrow> bool" where
  "reads_settle c =
     (\<forall>n. (\<exists>m \<ge> n. \<forall>e. cd_out c m = Inl e \<longrightarrow> io_kind e \<noteq> Interrupted) \<and>
          (\<exists>m \<ge> n. \<forall>e. cd_err c m = Inl e \<longrightarrow> io_kind e \<noteq> Interrupted))"

lemma same_child_settles: "same_child c c' \<Longrightarrow> reads_settle c' = reads_settle c"
  by (simp add: same_child_def reads_settle_def)

definition pipe :: "stream \<Rightarrow> child \<Rightarrow> nat \<Rightarrow> io_error + bytes" where
  "pipe s c = (case s of Stdout \<Rightarrow> cd_out c | Stderr \<Rightarrow> cd_err c)"

definition pipe_reads :: "stream \<Rightarrow> child \<Rightarrow> nat" where
  "pipe_reads s c = (case s of Stdout \<Rightarrow> cd_out_reads c | Stderr \<Rightarrow> cd_err_reads c)"

definition got_from :: "stream \<Rightarrow> child \<Rightarrow> bytes" where
  "got_from s c = (case s of Stdout \<Rightarrow> cd_out_got c | Stderr \<Rightarrow> cd_err_got c)"

definition other :: "stream \<Rightarrow> stream" where
  "other s = (case s of Stdout \<Rightarrow> Stderr | Stderr \<Rightarrow> Stdout)"

definition chunk_done :: "stream \<Rightarrow> bytes \<Rightarrow> nat \<Rightarrow> child \<Rightarrow> io_error + stream_read_state \<times> bytes \<Rightarrow> child \<Rightarrow> bool" where
  "chunk_done s output limit c r c' =
     (same_child c c' \<and> cd_ticks c' = cd_ticks c \<and> cd_stops c' = cd_stops c \<and>
      got_from (other s) c' = got_from (other s) c \<and>
      (case r of
         Inl _ \<Rightarrow> True
       | Inr (state, out) \<Rightarrow> state \<noteq> Limit_Exceeded \<longrightarrow>
           (\<exists>bs. out = output @ bs \<and> got_from s c' = got_from s c @ bs \<and>
              (bs = [] \<or> length out \<le> limit) \<and> (state = Closed \<longrightarrow> bs = []))))"

lemma pipe_read_facts:
  "pipe_read s c = (r, c') \<Longrightarrow>
   same_child c c' \<and> cd_ticks c' = cd_ticks c \<and> cd_stops c' = cd_stops c \<and>
   got_from (other s) c' = got_from (other s) c \<and> pipe_reads s c' = Suc (pipe_reads s c) \<and>
   got_from s c' = got_from s c @ (case r of Inl _ \<Rightarrow> [] | Inr bs \<Rightarrow> bs)"
  by (cases s) (auto simp: pipe_read_def same_child_def got_from_def other_def pipe_reads_def pipe_def Let_def)

lemma pipe_read_value:
  "pipe_read s c = (r, c') \<Longrightarrow> r = map_sum id (take read_buffer_size) (pipe s c (pipe_reads s c))"
  by (cases s) (auto simp: pipe_read_def pipe_reads_def pipe_def Let_def)

text \<open>One turn of \<^verbatim>\<open>read_stream_chunk\<close>; only an interrupted read goes on.\<close>

definition chunk_turn ::
  "stream \<Rightarrow> bytes \<Rightarrow> nat \<Rightarrow> child \<Rightarrow> child + (io_error + stream_read_state \<times> bytes) \<times> child" where
  "chunk_turn s output limit c =
     (case pipe_read s c of
        (Inr bs, c1) \<Rightarrow>
          Inr (Inr (if bs = [] then (Closed, output)
                    else if length bs > limit - length output then (Limit_Exceeded, output)
                    else (Open, output @ bs)), c1)
      | (Inl e, c1) \<Rightarrow>
          if io_kind e = Interrupted then Inl c1
          else Inr (if io_kind e = WouldBlock then Inr (Open, output) else Inl e, c1))"

definition chunk_fuel :: "stream \<Rightarrow> child \<Rightarrow> nat \<times> nat" where
  "chunk_fuel s c = (0, interruptions (\<lambda>m. uninterrupted (pipe s c m)) (pipe_reads s c))"

lemma chunk_turn_ok:
  assumes settle: "reads_settle c"
  shows "turn_ok (chunk_fuel s) reads_settle (\<lambda>c (r, c'). chunk_done s output limit c r c') c
    (chunk_turn s output limit c)"
proof -
  obtain x c1 where 1: "pipe_read s c = (x, c1)" by fastforce
  note f1 = pipe_read_facts [OF 1]
  show ?thesis
  proof (cases x)
    case (Inl e)
    have "interruptions (\<lambda>m. uninterrupted (pipe s c m)) (Suc (pipe_reads s c)) <
        interruptions (\<lambda>m. uninterrupted (pipe s c m)) (pipe_reads s c)" if "io_kind e = Interrupted"
      using that settle pipe_read_value [OF 1] Inl
      by (intro interruptions_step; cases s)
        (auto simp: reads_settle_def uninterrupted_def pipe_def map_sum_def split: sum.splits)
    moreover have "pipe s c1 = pipe s c" using f1 by (cases s) (auto simp: pipe_def same_child_def)
    moreover have "chunk_done s output limit c r c'" if "chunk_done s output limit c1 r c'" for r c'
      using that f1 Inl same_child_trans by (auto simp: chunk_done_def split: sum.splits)
    ultimately show ?thesis
      using f1 settle same_child_settles Inl
      by (auto simp: turn_ok_def chunk_turn_def 1 chunk_fuel_def less_fuel_def) (auto simp: chunk_done_def)
  next
    case (Inr bs)
    have "length output + length bs \<le> limit" if "bs \<noteq> []" "\<not> limit - length output < length bs"
      using that by (cases bs) auto
    with f1 Inr show ?thesis by (auto simp: turn_ok_def chunk_turn_def 1 chunk_done_def)
  qed
qed

interpretation chunk: returning_loop "chunk_turn s out limit" "read_stream_chunk s out limit" "chunk_fuel s"
  reads_settle "\<lambda>c (r, c'). chunk_done s out limit c r c'" for s out limit
proof (unfold_locales, goal_cases)
  case (1 c)
  show ?case
    by (subst read_stream_chunk.simps) (simp add: chunk_turn_def split: prod.split sum.split)
next
  case (2 c)
  then show ?case by (rule chunk_turn_ok)
qed

lemma chunk_returns:
  "reads_settle c \<Longrightarrow>
   \<exists>r c'. read_stream_chunk s output limit c = Some (r, c') \<and> chunk_done s output limit c r c'"
  using chunk.returns [of c s "output" limit] by auto

text \<open>While the command runs: nothing was stopped, and all that was read is kept, within the limit.\<close>

definition running :: "nat \<Rightarrow> child \<Rightarrow> runner \<Rightarrow> child \<Rightarrow> bool" where
  "running limit c0 rn c =
     (same_child c0 c \<and> cd_stops c = cd_stops c0 \<and> cd_out_got c = cd_out_got c0 @ rn_stdout rn \<and>
      cd_err_got c = cd_err_got c0 @ rn_stderr rn \<and> length (rn_stdout rn) + length (rn_stderr rn) \<le> limit \<and>
      (\<forall>status. rn_status rn = Some status \<longrightarrow> (\<exists>n. cd_wait c0 n = Inr (Some status))))"

definition drained :: "nat \<Rightarrow> child \<Rightarrow> nat \<Rightarrow> runner res \<Rightarrow> child \<Rightarrow> bool" where
  "drained limit c0 ticks r c' =
     (case r of Inl _ \<Rightarrow> stopped c0 c' | Inr rn \<Rightarrow> running limit c0 rn c' \<and> cd_ticks c' = ticks)"

lemma drain_stdout_returns:
  assumes run: "running limit c0 rn c" and settle: "reads_settle c0"
  shows "\<exists>r c'. drain_stdout program limit rn c = Some (r, c') \<and> drained limit c0 (cd_ticks c) r c'"
proof -
  have "reads_settle c" using run settle same_child_settles by (auto simp: running_def)
  then obtain x c1 where 1: "read_stream_chunk Stdout (rn_stdout rn) (limit - length (rn_stderr rn)) c = Some (x, c1)"
    "chunk_done Stdout (rn_stdout rn) (limit - length (rn_stderr rn)) c x c1" using chunk_returns by blast
  have stop: "stopped c0 (stop_child c1)"
    using run 1(2) same_child_trans by (intro stop_child_stopped) (auto simp: running_def chunk_done_def)
  have peer: "same_child c0 c1" using run 1(2) same_child_trans by (auto simp: running_def chunk_done_def)
  show ?thesis
  proof (cases x)
    case (Inl e)
    with stop show ?thesis by (simp add: drain_stdout_def 1(1) drained_def)
  next
    case (Inr y)
    then obtain state out where y: "x = Inr (state, out)" by (cases y) auto
    show ?thesis
      using run 1(2) stop peer y
      by (cases state) (auto simp: drain_stdout_def 1(1) drained_def running_def chunk_done_def got_from_def other_def)
  qed
qed

lemma drain_stderr_returns:
  assumes run: "running limit c0 rn c" and settle: "reads_settle c0"
  shows "\<exists>r c'. drain_stderr program limit rn c = Some (r, c') \<and> drained limit c0 (cd_ticks c) r c'"
proof -
  have "reads_settle c" using run settle same_child_settles by (auto simp: running_def)
  then obtain x c1 where 1: "read_stream_chunk Stderr (rn_stderr rn) (limit - length (rn_stdout rn)) c = Some (x, c1)"
    "chunk_done Stderr (rn_stderr rn) (limit - length (rn_stdout rn)) c x c1" using chunk_returns by blast
  have stop: "stopped c0 (stop_child c1)"
    using run 1(2) same_child_trans by (intro stop_child_stopped) (auto simp: running_def chunk_done_def)
  have peer: "same_child c0 c1" using run 1(2) same_child_trans by (auto simp: running_def chunk_done_def)
  show ?thesis
  proof (cases x)
    case (Inl e)
    with stop show ?thesis by (simp add: drain_stderr_def 1(1) drained_def)
  next
    case (Inr y)
    then obtain state out where y: "x = Inr (state, out)" by (cases y) auto
    show ?thesis
      using run 1(2) stop peer y
      by (cases state) (auto simp: drain_stderr_def 1(1) drained_def running_def chunk_done_def got_from_def other_def)
  qed
qed

lemma drain_ready_returns:
  assumes run: "running limit c0 rn c" and settle: "reads_settle c0"
  shows "\<exists>r c'. drain_ready program limit ready rn c = Some (r, c') \<and> drained limit c0 (cd_ticks c) r c'"
proof -
  obtain x c1 where 1: "(if fst ready then drain_stdout program limit rn c else Some (Inr rn, c)) = Some (x, c1)"
    "drained limit c0 (cd_ticks c) x c1"
    using drain_stdout_returns [OF assms, of program] run by (cases "fst ready") (auto simp: drained_def)
  show ?thesis
  proof (cases x)
    case (Inl e)
    with 1 show ?thesis by (simp add: drain_ready_def)
  next
    case (Inr rn1)
    with 1(2) have run1: "running limit c0 rn1 c1" "cd_ticks c1 = cd_ticks c" by (simp_all add: drained_def)
    with drain_stderr_returns [OF run1(1) settle, of program] 1 Inr show ?thesis
      by (cases "snd ready") (auto simp: drain_ready_def)
  qed
qed

definition command_done :: "nat \<Rightarrow> child \<Rightarrow> finished_command res \<Rightarrow> child \<Rightarrow> bool" where
  "command_done limit c0 r c' =
     (case r of
        Inl _ \<Rightarrow> stopped c0 c'
      | Inr out \<Rightarrow>
          cd_stops c' = cd_stops c0 \<and> cd_out_got c' = cd_out_got c0 @ co_stdout out \<and>
          cd_err_got c' = cd_err_got c0 @ co_stderr out \<and> length (co_stdout out) + length (co_stderr out) \<le> limit \<and>
          (\<exists>n. cd_wait c0 n = Inr (Some (co_status out))))"

lemma note_exit_facts:
  assumes "note_exit rn c = (r, c')" and run: "running limit c0 rn c"
  shows "case r of Inl _ \<Rightarrow> stopped c0 c' | Inr rn1 \<Rightarrow> running limit c0 rn1 c' \<and> cd_ticks c' = cd_ticks c"
proof -
  have stop: "stopped c0 (stop_child (c\<lparr>cd_waits := Suc (cd_waits c)\<rparr>))"
    using run by (intro stop_child_stopped) (auto simp: running_def same_child_def)
  have same: "cd_wait c = cd_wait c0" using run by (simp add: running_def same_child_def)
  show ?thesis
    using assms stop
    by (cases "rn_status rn"; cases "cd_wait c (cd_waits c)")
      (auto simp: note_exit_def try_wait_def running_def same_child_def same intro: exI [of _ "cd_waits c"])
qed

text \<open>One turn of the loop.\<close>

definition run_turn ::
  "string \<Rightarrow> nat \<Rightarrow> nat \<Rightarrow> nat \<Rightarrow> runner \<times> child \<Rightarrow> runner \<times> child + finished_command res \<times> child" where
  "run_turn program timeout limit deadline = (\<lambda>(rn, c).
     case note_exit rn c of
       (Inl e, c1) \<Rightarrow> Inr (Inl e, c1)
     | (Inr rn1, c1) \<Rightarrow>
         (case finished rn1 of
            Some out \<Rightarrow> Inr (Inr out, c1)
          | None \<Rightarrow>
              (case child_instant c1 of (now, c2) \<Rightarrow>
                 if deadline - now = 0 then Inr (Inl (command_timed_out program timeout), stop_child c2)
                 else case poll_streams (poll_timeout_ms (deadline - now)) (rn_stdout_open rn1) (rn_stderr_open rn1) c2 of
                   (Inl e, c3) \<Rightarrow>
                     if io_kind e = Interrupted then Inl (rn1, c3) else Inr (Inl (Io_Error e), stop_child c3)
                 | (Inr ready, c3) \<Rightarrow>
                     (case the (drain_ready program limit ready rn1 c3) of
                        (Inl e, c4) \<Rightarrow> Inr (Inl e, c4)
                      | (Inr rn2, c4) \<Rightarrow> Inl (rn2, c4)))))"

definition run_alive :: "nat \<Rightarrow> nat \<Rightarrow> nat \<Rightarrow> child \<Rightarrow> runner \<times> child \<Rightarrow> bool" where
  "run_alive N deadline limit c0 =
     (\<lambda>(rn, c). (\<forall>m \<ge> N. deadline \<le> cd_now c0 m) \<and> reads_settle c0 \<and> running limit c0 rn c)"

lemma running_stop: "running limit c0 rn c \<Longrightarrow> stopped c0 (stop_child c)"
  by (intro stop_child_stopped) (auto simp: running_def)

lemma run_turn_ok:
  assumes alive: "run_alive N deadline limit c0 (rn, c)"
  shows "run_loop program timeout limit deadline rn c =
      (case run_turn program timeout limit deadline (rn, c) of
         Inl (rn', c') \<Rightarrow> run_loop program timeout limit deadline rn' c' | Inr r \<Rightarrow> Some r) \<and>
    turn_ok (\<lambda>(rn, c). (0, N - cd_ticks c)) (run_alive N deadline limit c0) (\<lambda>_ (r, c'). command_done limit c0 r c')
      (rn, c) (run_turn program timeout limit deadline (rn, c))"
proof -
  have late: "\<forall>m \<ge> N. deadline \<le> cd_now c0 m" and settle: "reads_settle c0" and run: "running limit c0 rn c"
    using alive by (simp_all add: run_alive_def)
  obtain x c1 where 1: "note_exit rn c = (x, c1)" by fastforce
  note f1 = note_exit_facts [OF 1 run]
  show ?thesis
  proof (cases x)
    case (Inl e)
    with f1 show ?thesis
      by (subst run_loop.simps) (simp add: run_turn_def 1 turn_ok_def command_done_def)
  next
    case rn1: (Inr rn1)
    with f1 have run1: "running limit c0 rn1 c1" and tick: "cd_ticks c1 = cd_ticks c" by simp_all
    show ?thesis
    proof (cases "finished rn1")
      case (Some out)
      have "command_done limit c0 (Inr out) c1"
        using Some run1 by (auto simp: finished_def command_done_def running_def split: if_splits)
      with rn1 Some show ?thesis
        by (subst run_loop.simps) (simp add: run_turn_def 1 turn_ok_def)
    next
      case None
      obtain now c2 where 2: "child_instant c1 = (now, c2)" by fastforce
      have run2: "running limit c0 rn1 c2" and tick2: "cd_ticks c2 = Suc (cd_ticks c)"
        and now: "now = cd_now c0 (cd_ticks c)"
        using 2 run1 tick by (auto simp: child_instant_def running_def same_child_def)
      obtain y c3 where 3: "poll_streams (poll_timeout_ms (deadline - now)) (rn_stdout_open rn1)
          (rn_stderr_open rn1) c2 = (y, c3)" by fastforce
      have run3: "running limit c0 rn1 c3" and tick3: "cd_ticks c3 = Suc (cd_ticks c)"
        using 3 run2 tick2 by (auto simp: poll_streams_def running_def same_child_def)
      show ?thesis
      proof (cases "deadline - now = 0")
        case True
        with rn1 None running_stop [OF run2] show ?thesis
          by (subst run_loop.simps) (simp add: run_turn_def 1 2 turn_ok_def command_done_def)
      next
        case early: False
        then have "cd_ticks c < N" using now late by (meson diff_is_0_eq leI)
        then have less: "N - Suc (cd_ticks c) < N - cd_ticks c" by simp
        show ?thesis
        proof (cases y)
          case (Inl e)
          with rn1 None early less tick3 run3 running_stop [OF run3] late settle show ?thesis
            by (subst run_loop.simps)
              (simp add: run_turn_def 1 2 3 turn_ok_def less_fuel_def run_alive_def command_done_def)
        next
          case ready: (Inr ready)
          obtain z c4 where 4: "drain_ready program limit ready rn1 c3 = Some (z, c4)"
            "drained limit c0 (cd_ticks c3) z c4"
            using drain_ready_returns [OF run3 settle] by blast
          with rn1 None early ready less tick3 late settle show ?thesis
            by (subst run_loop.simps; cases z)
              (simp_all add: run_turn_def 1 2 3 turn_ok_def less_fuel_def run_alive_def command_done_def drained_def)
        qed
      qed
    qed
  qed
qed

interpretation runner_loop: returning_loop "run_turn program timeout limit deadline"
  "\<lambda>(rn, c). run_loop program timeout limit deadline rn c" "\<lambda>(rn, c). (0, N - cd_ticks c)"
  "run_alive N deadline limit c0" "\<lambda>_ (r, c'). command_done limit c0 r c'"
  for program timeout limit deadline N c0
proof (unfold_locales, goal_cases)
  case (1 s)
  then show ?case using run_turn_ok [of N deadline limit c0 "fst s" "snd s" program timeout] by (cases s) simp
next
  case (2 s)
  then show ?case using run_turn_ok [of N deadline limit c0 "fst s" "snd s" program timeout] by (cases s) simp
qed

lemma run_loop_returns:
  assumes "\<forall>m \<ge> N. deadline \<le> cd_now c0 m" and "reads_settle c0" and "running limit c0 rn c"
  shows "\<exists>r c'. run_loop program timeout limit deadline rn c = Some (r, c') \<and> command_done limit c0 r c'"
  using runner_loop.returns [of N deadline limit c0 "(rn, c)" program timeout] assms
  by (auto simp: run_alive_def)

definition command_clock_unbounded :: "child \<Rightarrow> bool" where
  "command_clock_unbounded c = (\<forall>limit. \<exists>n. \<forall>m \<ge> n. limit \<le> cd_now c m)"

lemma command_returns:
  assumes "command_clock_unbounded c" and settle: "reads_settle c"
  shows "\<exists>r c'. run_command_with_limits None None program timeout limit c = Some (r, c') \<and> command_done limit c r c'"
proof -
  obtain now c1 where 1: "child_instant c = (now, c1)" by fastforce
  obtain N where N: "\<forall>m \<ge> N. now + timeout \<le> cd_now c m"
    using assms by (auto simp: command_clock_unbounded_def)
  have "running limit c initial_runner c1"
    using 1 by (auto simp: child_instant_def running_def initial_runner_def same_child_def)
  from run_loop_returns [OF N settle this] show ?thesis
    by (simp add: run_command_with_limits_def 1)
qed

definition silent_child :: child where
  "silent_child =
    \<lparr>cd_now = (\<lambda>n. n * 10 ^ 9), cd_wait = (\<lambda>_. Inr None), cd_poll = (\<lambda>_. Inr (False, False)),
     cd_out = (\<lambda>_. Inr []), cd_err = (\<lambda>_. Inr []), cd_killpg = True, cd_ticks = 0, cd_waits = 0, cd_polls = [],
     cd_out_reads = 0, cd_err_reads = 0, cd_out_got = [], cd_err_got = [], cd_stops = []\<rparr>"

lemma silent_clock: "command_clock_unbounded silent_child" "reads_settle silent_child"
proof -
  have "limit \<le> m * 10 ^ 9" if "limit \<le> m" for limit m :: nat
    using that by (simp add: order_trans)
  then show "command_clock_unbounded silent_child"
    unfolding command_clock_unbounded_def silent_child_def by (metis child.select_convs(1))
  show "reads_settle silent_child" by (auto simp: reads_settle_def silent_child_def)
qed

text \<open>
  C22.  A helper program never blocks the daemon: if the clock goes on and no pipe interrupts reading for
  ever, running it returns, even if it neither exits nor closes its pipes, and whatever
  \<^verbatim>\<open>poll\<close>, the pipes and \<^verbatim>\<open>try_wait\<close> report.
\<close>

theorem command_run_returns:
  assumes "command_clock_unbounded c" and "reads_settle c"
  shows "run_command spawned nonblocking program c \<noteq> None"
  using command_returns [OF assms, of program command_timeout max_output_bytes]
  by (auto simp: run_command_def run_command_with_limits_def split: option.splits)

theorem command_run_returns_witness: "run_command None None ''dumpsys'' silent_child \<noteq> None"
  by (rule command_run_returns) (rule silent_clock)+



end
