(* ===== verification/Live_Kernel.thy ===== *)
theory Live_Kernel
  imports Actuators Control_Pass
begin

text \<open>
  The controller over the kernel: the calls a control pass makes (\<^verbatim>\<open>freeze_process\<close>,
  \<^verbatim>\<open>unfreeze_process\<close> and the SIGSTOP ledger, as
  \<^verbatim>\<open>run_live_control_pass\<close> passes them in) act on one kernel, whose state is replayed
  from the history of the pass.  The guarantees of the transactions then hold of what the kernel
  itself holds frozen or stopped.
\<close>

subsection \<open>The kernel behind a history\<close>

primrec kernel_after :: "kernel_env \<Rightarrow> kernel \<Rightarrow> history \<Rightarrow> kernel" where
  "kernel_after ke k0 [] = k0"
| "kernel_after ke k0 (e # h) =
     (let k = kernel_after ke k0 h
      in case e of
           E_Freeze p _ \<Rightarrow> snd (freeze_process ke p k)
         | E_Unfreeze p _ \<Rightarrow> snd (unfreeze_process ke p k)
         | E_Ledger pid start _ \<Rightarrow>
             k\<lparr>kn_disk := snd (recorded_signal_stop_ownership_from_ledger (pid, start) (kn_disk k))\<rparr>
         | E_Promote pid start _ \<Rightarrow>
             k\<lparr>kn_disk := snd (promote_freezeit_signal_stop_at_path (pid, start) (kn_disk k))\<rparr>
         | _ \<Rightarrow> k)"

text \<open>The controller's environment with these calls; the other answers are those of \<open>base\<close>.\<close>

definition kernel_control_env :: "kernel_env \<Rightarrow> kernel \<Rightarrow> control_env \<Rightarrow> control_env" where
  "kernel_control_env ke k0 base =
     base\<lparr>ce_freeze := \<lambda>h p. fst (freeze_process ke p (kernel_after ke k0 h)),
          ce_unfreeze := \<lambda>h p. fst (unfreeze_process ke p (kernel_after ke k0 h)),
          ce_ledger := \<lambda>h pid start.
            fst (recorded_signal_stop_ownership_from_ledger (pid, start) (kn_disk (kernel_after ke k0 h))),
          ce_promote := \<lambda>h pid start.
            fst (promote_freezeit_signal_stop_at_path (pid, start) (kn_disk (kernel_after ke k0 h)))\<rparr>"

subsection \<open>Transactions\<close>

lemma kernel_after_validate [simp]: "kernel_after ke k0 (E_Validate p v # h) = kernel_after ke k0 h"
  by (simp add: Let_def)

lemma precheck_kernel:
  "precheck env phase expected ps h = (m, h') \<Longrightarrow> kernel_after ke k0 h' = kernel_after ke k0 h"
proof (induction ps arbitrary: h)
  case (Cons p ps)
  then show ?case
    by (auto simp: Let_def simp del: kernel_after.simps(2) split: if_splits option.splits)
qed simp

lemma owed_by_Nil: "owed_by [] k k' = nothing_new k k'"
  by (simp add: owed_by_def nothing_new_def)

lemma owed_by_trans: "owed_by ps k k1 \<Longrightarrow> owed_by qs k1 k2 \<Longrightarrow> owed_by (ps @ qs) k k2"
  unfolding owed_by_def by (intro conjI; clarsimp; blast)

lemma owed_by_perm: "set ps = set qs \<Longrightarrow> owed_by ps k k' = owed_by qs k k'"
  by (simp add: owed_by_def)

lemma owed_by_less: "owed_by ps k k1 \<Longrightarrow> nothing_new k1 k2 \<Longrightarrow> owed_by ps k k2"
  unfolding owed_by_def nothing_new_def by blast

lemma held_stays: "process_held p k \<Longrightarrow> holds_more k k' \<Longrightarrow> process_held p k'"
  by (auto simp: process_held_def holds_more_def nothing_new_def split: option.splits)

lemma free_stays: "process_free p k \<Longrightarrow> nothing_new k k' \<Longrightarrow> process_free p k'"
  by (auto simp: process_free_def nothing_new_def split: option.splits)

lemma holds_more_trans: "holds_more k k1 \<Longrightarrow> holds_more k1 k2 \<Longrightarrow> holds_more k k2"
  by (auto simp: holds_more_def nothing_new_def)

lemma nothing_new_trans: "nothing_new k k1 \<Longrightarrow> nothing_new k1 k2 \<Longrightarrow> nothing_new k k2"
  by (auto simp: nothing_new_def)

lemma nothing_new_refl [simp]: "nothing_new k k" "holds_more k k" by (simp_all add: nothing_new_def holds_more_def)

text \<open>Freeing a process settles what it owed.\<close>

lemma free_settles:
  assumes "owed_by (p # ps) k k1" "nothing_new k1 k2" "process_free p k2"
  shows "owed_by ps k k2"
proof -
  have "x \<in> bound_pids (kn_events k) \<or> (\<exists>q \<in> set ps. x = word_of_int (rp_pid q) \<and> rp_cgroup_freeze_path q \<noteq> None)"
    if "x \<in> bound_pids (kn_events k2)" for x
  proof -
    have "x \<in> bound_pids (kn_events k1)" using that assms(2) by (auto simp: nothing_new_def)
    then have "x \<in> bound_pids (kn_events k) \<or>
        (\<exists>q \<in> set (p # ps). x = word_of_int (rp_pid q) \<and> rp_cgroup_freeze_path q \<noteq> None)"
      using assms(1) unfolding owed_by_def by blast
    then show ?thesis using that assms(3) by (auto simp: process_free_def)
  qed
  moreover have "x \<in> frozen_cgroups (kn_events k) \<or> (\<exists>q \<in> set ps. rp_cgroup_freeze_path q = Some x)"
    if "x \<in> frozen_cgroups (kn_events k2)" for x
  proof -
    have "x \<in> frozen_cgroups (kn_events k1)" using that assms(2) by (auto simp: nothing_new_def)
    then have "x \<in> frozen_cgroups (kn_events k) \<or> (\<exists>q \<in> set (p # ps). rp_cgroup_freeze_path q = Some x)"
      using assms(1) unfolding owed_by_def by blast
    then show ?thesis using that assms(3) by (auto simp: process_free_def)
  qed
  moreover have "x \<in> stopped_pids (kn_events k) \<or> (\<exists>q \<in> set ps. x = rp_pid q \<and> rp_cgroup_freeze_path q = None)"
    if "x \<in> stopped_pids (kn_events k2)" for x
  proof -
    have "x \<in> stopped_pids (kn_events k1)" using that assms(2) by (auto simp: nothing_new_def)
    then have "x \<in> stopped_pids (kn_events k) \<or>
        (\<exists>q \<in> set (p # ps). x = rp_pid q \<and> rp_cgroup_freeze_path q = None)"
      using assms(1) unfolding owed_by_def by blast
    then show ?thesis using that assms(3) by (auto simp: process_free_def)
  qed
  ultimately show ?thesis unfolding owed_by_def by blast
qed

lemma freeze_each_kernel:
  fixes ke k0 base
  defines "env \<equiv> kernel_control_env ke k0 base" and "K \<equiv> kernel_after ke k0"
  assumes "freeze_each env b ps sg h = (sg', f, h')"
    and "owed_by (map (control_view b) sg) k (K h)"
  shows "refusals (K h) \<le> refusals (K h') \<and>
    (refusals (K h') = refusals (K h) \<longrightarrow> owed_by (map (control_view b) sg') k (K h')) \<and>
    (f = None \<longrightarrow> holds_more (K h) (K h') \<and> list_all (\<lambda>p. process_held (control_view b p) (K h')) ps)"
  using assms(3,4)
proof (induction ps arbitrary: sg h)
  case Nil
  then show ?case by simp
next
  case (Cons p ps)
  let ?v = "ce_validate env h p"
  show ?case
  proof (cases "validation_failure [] p ?v")
    case (Some m)
    with Cons.prems(1) have "sg' = sg" "f = Some m" "h' = E_Validate p ?v # h" by (simp_all add: Let_def)
    then show ?thesis using Cons.prems(2) by (simp add: K_def Let_def)
  next
    case valid: None
    let ?t = "control_view b p" and ?h1 = "E_Validate p ?v # h"
    obtain r k1 where 1: "freeze_process ke ?t (K h) = (r, k1)" by fastforce
    have r: "ce_freeze env ?h1 ?t = r" using 1 by (simp add: env_def kernel_control_env_def K_def)
    let ?h2 = "E_Freeze ?t r # ?h1"
    have k1: "K ?h2 = k1" using 1 by (simp add: K_def)
    note eff = freeze_process_effect [OF 1]
    show ?thesis
    proof (cases r)
      case (Inl e)
      with Cons.prems(1) valid r have out: "sg' = sg" "f \<noteq> None" "h' = ?h2" by (auto simp: Let_def)
      have "refusals (K h') = refusals (K h) \<Longrightarrow> nothing_new (K h) (K h')"
        using eff Inl out k1 by auto
      then show ?thesis
        using eff Cons.prems(2) owed_by_less out k1 by auto
    next
      case (Inr u)
      with Cons.prems(1) valid r have rec: "freeze_each env b ps (sg @ [p]) ?h2 = (sg', f, h')"
        by (simp add: Let_def)
      have ok: "process_held ?t k1" "holds_more (K h) k1" "owed_by [?t] (K h) k1" "refusals (K h) \<le> refusals k1"
        using eff Inr by auto
      have owed: "owed_by (map (control_view b) (sg @ [p])) k (K ?h2)"
        using owed_by_trans [OF Cons.prems(2) ok(3)] by (simp add: k1)
      from Cons.IH [OF rec owed] ok show ?thesis
        unfolding k1 using held_stays holds_more_trans by auto
    qed
  qed
qed

lemma rollback_each_kernel:
  fixes ke k0 base
  defines "env \<equiv> kernel_control_env ke k0 base" and "K \<equiv> kernel_after ke k0"
  assumes "rollback_each env b ps (n, failures) h = ((n', failures'), h')"
  shows "failures \<le> failures' \<and> refusals (K h) \<le> refusals (K h') \<and>
    (failures' = failures \<and> owed_by (map (control_view b) ps) k (K h) \<longrightarrow> nothing_new k (K h'))"
  using assms(3)
proof (induction ps arbitrary: n failures h)
  case Nil
  then show ?case by (simp add: owed_by_Nil)
next
  case (Cons p ps)
  let ?v = "ce_validate env h p"
  let ?t = "control_view b p" and ?h1 = "E_Validate p ?v # h"
  obtain r k1 where 1: "unfreeze_process ke ?t (K h) = (r, k1)" by fastforce
  have r: "ce_unfreeze env ?h1 ?t = r" using 1 by (simp add: env_def kernel_control_env_def K_def)
  let ?h2 = "E_Unfreeze ?t r # ?h1"
  have k1: "K ?h2 = k1" using 1 by (simp add: K_def)
  have kv: "K ?h1 = K h" by (simp add: K_def)
  note eff = unfreeze_process_effect [OF 1]
  consider (invalid) "rollback_each env b ps (n, failures + 1) ?h1 = ((n', failures'), h')"
    | (failed) "rollback_each env b ps (n, failures + 1) ?h2 = ((n', failures'), h')" "\<not> is_ok r"
    | (undone) "rollback_each env b ps (n + 1, failures) ?h2 = ((n', failures'), h')" "is_ok r"
    using Cons.prems r by (auto simp: Let_def split: if_splits)
  then show ?case
  proof cases
    case invalid
    from Cons.IH [OF this] show ?thesis unfolding kv by auto
  next
    case failed
    from Cons.IH [OF this(1)] eff show ?thesis unfolding k1 by auto
  next
    case undone
    have "owed_by (map (control_view b) ps) k k1" if "owed_by (map (control_view b) (p # ps)) k (K h)"
      using free_settles that eff undone(2) by auto
    with Cons.IH [OF undone(1)] eff show ?thesis unfolding k1 by auto
  qed
qed

lemma unfreeze_each_kernel:
  fixes ke k0 base
  defines "env \<equiv> kernel_control_env ke k0 base" and "K \<equiv> kernel_after ke k0"
  assumes "unfreeze_each env b ps out h = (out', h')"
  shows "nothing_new (K h) (K h') \<and> (\<exists>more. uo_failures out' = uo_failures out @ more \<and>
    (more = [] \<longrightarrow> list_all (\<lambda>p. process_free (control_view b p) (K h')) ps))"
  using assms(3)
proof (induction ps arbitrary: out h)
  case Nil
  then show ?case by simp
next
  case (Cons p ps)
  let ?t = "control_view b p"
  let ?v = "ce_validate env h ?t"
  let ?h1 = "E_Validate ?t ?v # h"
  have kv: "K ?h1 = K h" by (simp add: K_def)
  show ?case
  proof (cases "validation_failure '' before unfreeze'' ?t ?v")
    case (Some m)
    with Cons.prems have "unfreeze_each env b ps (out\<lparr>uo_failures := uo_failures out @ [m]\<rparr>) ?h1 = (out', h')"
      by (simp add: Let_def)
    from Cons.IH [OF this] show ?thesis unfolding kv by auto
  next
    case None
    obtain r k1 where 1: "unfreeze_process ke ?t (K h) = (r, k1)" by fastforce
    have r: "ce_unfreeze env ?h1 ?t = r" using 1 by (simp add: env_def kernel_control_env_def K_def)
    let ?h2 = "E_Unfreeze ?t r # ?h1"
    have k1: "K ?h2 = k1" using 1 by (simp add: K_def)
    note eff = unfreeze_process_effect [OF 1]
    show ?thesis
    proof (cases r)
      case (Inl e)
      let ?out = "out\<lparr>uo_failures := uo_failures out @
          [''unfreeze failed for pid '' @ show_int (rp_pid ?t) @ '': '' @ show_error e]\<rparr>"
      have "unfreeze_each env b ps ?out ?h2 = (out', h')" using Cons.prems None r Inl by (simp add: Let_def)
      from Cons.IH [OF this] eff nothing_new_trans show ?thesis unfolding k1 by auto
    next
      case (Inr u)
      have "unfreeze_each env b ps (out\<lparr>uo_applied := uo_applied out + 1\<rparr>) ?h2 = (out', h')"
        using Cons.prems None r Inr by (simp add: Let_def)
      from Cons.IH [OF this] eff Inr nothing_new_trans free_stays show ?thesis unfolding k1 by auto
    qed
  qed
qed

text \<open>
  C3.  Freezing an application is all or nothing in the kernel itself: with the daemon's own calls, a
  transaction that reports no failure leaves every process held (Binder context and cgroup frozen, or
  the pid stopped) and releases nothing; one that fails without a rollback failure leaves nothing held
  that was not held before, unless the kernel refused to take back a Binder freeze or a stop.
\<close>

theorem kernel_freeze_atomic:
  assumes "apply_freeze_transaction (kernel_control_env ke k0 base) by_signal processes h = (out, h')"
  shows "let k = kernel_after ke k0 h; k' = kernel_after ke k0 h'
    in (ft_failure out = None \<longrightarrow>
         list_all (\<lambda>p. process_held (control_view by_signal p) k') processes \<and> holds_more k k') \<and>
       (ft_failure out \<noteq> None \<and> ft_rollback_failures out = 0 \<and> refusals k' = refusals k \<longrightarrow> nothing_new k k')"
proof -
  let ?env = "kernel_control_env ke k0 base" and ?K = "kernel_after ke k0"
  let ?view = "map (control_view by_signal)"
  obtain m h1 where 1: "precheck ?env [] (first_package processes) processes h = (m, h1)" by fastforce
  have k1: "?K h1 = ?K h" by (rule precheck_kernel [OF 1])
  obtain sg f h2 where 2: "freeze_each ?env by_signal processes [] h1 = (sg, f, h2)" by (metis prod_cases3)
  have "owed_by (?view []) (?K h) (?K h1)" by (simp add: owed_by_Nil k1)
  note froze = freeze_each_kernel [OF 2 this]
  obtain n failures h3 where 3: "rollback_each ?env by_signal (rev sg) (0, 0) h2 = ((n, failures), h3)"
    by (metis prod.exhaust)
  note undone = rollback_each_kernel [OF 3, of "?K h"]
  have reversed: "owed_by (?view (rev sg)) (?K h) (?K h2) = owed_by (?view sg) (?K h) (?K h2)"
    by (rule owed_by_perm) simp
  show ?thesis
  proof (cases m)
    case (Some x)
    with assms have "ft_failure out \<noteq> None" "h' = h1" by (auto simp: apply_freeze_transaction_def 1)
    then show ?thesis by (auto simp: k1 Let_def)
  next
    case None
    show ?thesis
    proof (cases f)
      case frozen: None
      with assms None have "ft_failure out = None" "h' = h2" by (auto simp: apply_freeze_transaction_def 1 2)
      then show ?thesis using froze frozen by (auto simp: k1 Let_def)
    next
      case (Some x)
      with assms None have out: "ft_failure out \<noteq> None" "ft_rollback_failures out = failures" "h' = h3"
        by (auto simp: apply_freeze_transaction_def 1 2 3)
      have "nothing_new (?K h) (?K h3)" if "failures = 0" "refusals (?K h3) = refusals (?K h)"
      proof -
        have "refusals (?K h2) = refusals (?K h)" using froze undone that k1 by simp
        then have "owed_by (?view (rev sg)) (?K h) (?K h2)" using froze reversed k1 by simp
        then show ?thesis using undone that(1) by simp
      qed
      with out show ?thesis by (auto simp: Let_def)
    qed
  qed
qed

text \<open>A kernel that takes every call.\<close>

definition willing_kernel_env :: kernel_env where
  "willing_kernel_env = demo_kernel_env\<lparr>ke_write := \<lambda>_ _ _. None\<rparr>"

theorem kernel_freeze_atomic_witness:
  "process_held (demo_process 4242)
     (kernel_after willing_kernel_env demo_kernel
       (snd (apply_freeze_transaction (kernel_control_env willing_kernel_env demo_kernel (demo_env 0)) False
          [demo_process 4242, demo_process 4243] [])))"
proof -
  let ?r = "apply_freeze_transaction (kernel_control_env willing_kernel_env demo_kernel (demo_env 0)) False
      [demo_process 4242, demo_process 4243] []"
  have "ft_failure (fst ?r) = None" by code_simp
  with kernel_freeze_atomic [OF prod.collapse [symmetric, of ?r]] show ?thesis
    by (simp add: Let_def control_view_def)
qed

text \<open>
  C15.  Thawing an application frees it in the kernel: with the daemon's own calls nothing is held
  afterwards that was not held before, and without a reported failure every process is free, not stopped
  and, unless it was only ever stopped by signal, with neither its Binder context nor its cgroup frozen.
\<close>

theorem kernel_thaw_frees:
  assumes "unfreeze_identity_processes (kernel_control_env ke k0 base) expected_package processes ownership h = (out, h')"
  shows "let k = kernel_after ke k0 h; k' = kernel_after ke k0 h'
    in nothing_new k k' \<and>
       (uo_failures out = [] \<longrightarrow>
         list_all (\<lambda>p. process_free (control_view (ownership = FO_SignalOnly) p) k') processes)"
proof (cases "list_ex (\<lambda>p. rp_package_name p \<noteq> expected_package) processes")
  case True
  with assms have "h' = h" "uo_failures out \<noteq> []" by (auto simp: unfreeze_identity_processes_def)
  then show ?thesis by (auto simp: Let_def)
next
  case False
  with assms have "unfreeze_each (kernel_control_env ke k0 base) (ownership = FO_SignalOnly) processes
      \<lparr>uo_applied = 0, uo_failures = []\<rparr> h = (out, h')"
    by (simp add: unfreeze_identity_processes_def)
  from unfreeze_each_kernel [OF this] show ?thesis by (auto simp: Let_def)
qed

theorem kernel_thaw_frees_witness:
  "process_free (demo_process 4242)
     (kernel_after willing_kernel_env demo_kernel
       (snd (unfreeze_identity_processes (kernel_control_env willing_kernel_env demo_kernel (demo_env 0))
          ''com.example.app'' [demo_process 4242] FO_CgroupBinder [])))"
proof -
  let ?r = "unfreeze_identity_processes (kernel_control_env willing_kernel_env demo_kernel (demo_env 0))
      ''com.example.app'' [demo_process 4242] FO_CgroupBinder []"
  have "uo_failures (fst ?r) = []" by code_simp
  with kernel_thaw_frees [OF prod.collapse [symmetric, of ?r]] show ?thesis
    by (simp add: Let_def control_view_def)
qed

end
