(* ===== verification/Support.thy ===== *)
theory Support
  imports Command_Runner Startup Control_Pass
begin

text \<open>
  The remaining public operations of the controller, of the download deferral and of the operation log: sampling the received
  bytes with \<^verbatim>\<open>dumpsys\<close>, loading the policy with retries, the variants of the control
  pass with fewer parameters, and the helpers for diagnostics and restart reports.
\<close>

subsection \<open>Received bytes\<close>

text \<open>An exit status is a success when its raw value is zero.\<close>

definition sampled_uid_rx_bytes :: "io_error + finished_command \<Rightarrow> (u32, u64) btree res" where
  "sampled_uid_rx_bytes run =
     (case run of
        Inl e \<Rightarrow> Inl (Io_Error e)
      | Inr out \<Rightarrow>
          if co_status out \<noteq> 0 then
            Inl (System_Error (''dumpsys netstats failed: '' @ str_trim (stdout_text (co_stderr out))))
          else parse_uid_rx_bytes (stdout_text (co_stdout out)))"

definition sample_uid_rx_bytes_map ::
  "io_error option \<Rightarrow> io_error option \<Rightarrow> child \<Rightarrow> ((u32, u64) btree res \<times> child) option" where
  "sample_uid_rx_bytes_map spawned nonblocking c =
     map_option (apfst sampled_uid_rx_bytes) (run_command spawned nonblocking ''/system/bin/dumpsys'' c)"

definition sample_uid_rx_bytes ::
  "u32 \<Rightarrow> io_error option \<Rightarrow> io_error option \<Rightarrow> child \<Rightarrow> (u64 option res \<times> child) option" where
  "sample_uid_rx_bytes uid spawned nonblocking c =
     map_option (apfst (map_sum id (\<lambda>values. bt_get values uid))) (sample_uid_rx_bytes_map spawned nonblocking c)"

lemma sampling_returns:
  "command_clock_unbounded c \<Longrightarrow> reads_settle c \<Longrightarrow> sample_uid_rx_bytes uid spawned nonblocking c \<noteq> None"
  using command_returns [of c "''/system/bin/dumpsys''" command_timeout max_output_bytes]
  by (auto simp: sample_uid_rx_bytes_def sample_uid_rx_bytes_map_def run_command_def run_command_with_limits_def
      split: option.splits)

subsection \<open>Loading the policy with retries\<close>

definition no_policy_files :: loaded_policy_files where
  "no_policy_files = \<lparr>lf_app_config = None, lf_app_label = None, lf_settings = None\<rparr>"

text \<open>\<open>fs i\<close> is the file system at the \<open>i\<close>-th attempt; \<open>loaded\<close> is what the one before found.\<close>

fun load_attempts ::
  "(nat \<Rightarrow> string \<Rightarrow> file_view) \<Rightarrow> daemon_paths \<Rightarrow> nat \<Rightarrow> nat \<Rightarrow> loaded_policy_files option \<Rightarrow>
   loaded_policy_files res" where
  "load_attempts fs paths i 0 loaded = Inr (case loaded of Some f \<Rightarrow> f | None \<Rightarrow> no_policy_files)"
| "load_attempts fs paths i (Suc n) loaded =
     (case load_policy_files (fs i) paths of
        Inl e \<Rightarrow> Inl e
      | Inr f \<Rightarrow> if policy_files_available f then Inr f else load_attempts fs paths (Suc i) n (Some f))"

definition load_policy_with_retries ::
  "(nat \<Rightarrow> string \<Rightarrow> file_view) \<Rightarrow> daemon_paths \<Rightarrow> nat \<Rightarrow> loaded_policy_files res" where
  "load_policy_with_retries fs paths attempts = load_attempts fs paths 0 (max 1 attempts) None"

text \<open>The first attempt that fails or finds a file decides; without one, the last attempt does.\<close>

lemma load_attempts_decided:
  assumes "k < n"
    and "\<And>j. j < k \<Longrightarrow> \<exists>f. load_policy_files (fs (i + j)) paths = Inr f \<and> \<not> policy_files_available f"
    and "\<And>f. load_policy_files (fs (i + k)) paths = Inr f \<Longrightarrow> policy_files_available f \<or> Suc k = n"
  shows "load_attempts fs paths i n loaded = load_policy_files (fs (i + k)) paths"
  using assms
proof (induction k arbitrary: n i loaded)
  case 0
  then obtain m where n: "n = Suc m" by (cases n) auto
  show ?case
  proof (cases "load_policy_files (fs i) paths")
    case (Inr f)
    with 0(3) [of f] n show ?thesis by (cases m) auto
  qed (simp add: n)
next
  case (Suc k)
  then obtain m where n: "n = Suc m" by (cases n) auto
  obtain f where f: "load_policy_files (fs i) paths = Inr f" "\<not> policy_files_available f"
    using Suc.prems(2) [of 0] by auto
  have "load_attempts fs paths (Suc i) m (Some f) = load_policy_files (fs (Suc i + k)) paths"
  proof (rule Suc.IH)
    show "k < m" using Suc.prems(1) n by simp
    show "\<exists>f. load_policy_files (fs (Suc i + j)) paths = Inr f \<and> \<not> policy_files_available f" if "j < k" for j
      using Suc.prems(2) [of "Suc j"] that by simp
    show "policy_files_available f \<or> Suc k = m" if "load_policy_files (fs (Suc i + k)) paths = Inr f" for f
      using Suc.prems(3) [of f] that n by simp
  qed
  with f n show ?case by simp
qed

lemma retries_decided:
  assumes "k < max 1 attempts"
    and "\<And>j. j < k \<Longrightarrow> \<exists>f. load_policy_files (fs j) paths = Inr f \<and> \<not> policy_files_available f"
    and "\<And>f. load_policy_files (fs k) paths = Inr f \<Longrightarrow> policy_files_available f \<or> Suc k = max 1 attempts"
  shows "load_policy_with_retries fs paths attempts = load_policy_files (fs k) paths"
  unfolding load_policy_with_retries_def
  using load_attempts_decided [of k "max 1 attempts" fs 0 paths None] assms by simp

subsection \<open>Control passes with fewer parameters\<close>

text \<open>Without a sampler the received bytes of a uid come from \<open>rx\<close>, the sampling of the uid alone; without a
  terminator the process is killed with \<^verbatim>\<open>kill(2)\<close>; without a validator every process is valid.\<close>

definition run_control_pass_with_sampling ::
  "control_env \<Rightarrow> (i32 \<Rightarrow> i32 \<Rightarrow> io_error option) \<Rightarrow> manager_app_config_record list \<Rightarrow> bytes \<Rightarrow> u32 list \<Rightarrow> u128 \<Rightarrow>
   runtime_control_state \<Rightarrow> history \<Rightarrow> unit res \<times> runtime_control_state \<times> history" where
  "run_control_pass_with_sampling env kill =
     run_control_pass (env\<lparr>ce_terminate := \<lambda>_. terminate_runtime_process kill\<rparr>)"

definition run_control_pass_with_validation ::
  "control_env \<Rightarrow> (i32 \<Rightarrow> i32 \<Rightarrow> io_error option) \<Rightarrow> (history \<Rightarrow> u32 \<Rightarrow> u64 option res) \<Rightarrow>
   manager_app_config_record list \<Rightarrow> bytes \<Rightarrow> u32 list \<Rightarrow> u128 \<Rightarrow>
   runtime_control_state \<Rightarrow> history \<Rightarrow> unit res \<times> runtime_control_state \<times> history" where
  "run_control_pass_with_validation env kill rx =
     run_control_pass_with_sampling (env\<lparr>ce_sample := \<lambda>h uid _. rx h uid\<rparr>) kill"

definition run_control_pass_with_settings ::
  "control_env \<Rightarrow> (i32 \<Rightarrow> i32 \<Rightarrow> io_error option) \<Rightarrow> (history \<Rightarrow> u32 \<Rightarrow> u64 option res) \<Rightarrow>
   manager_app_config_record list \<Rightarrow> bytes \<Rightarrow> u32 list \<Rightarrow> u128 \<Rightarrow>
   runtime_control_state \<Rightarrow> history \<Rightarrow> unit res \<times> runtime_control_state \<times> history" where
  "run_control_pass_with_settings env kill rx =
     run_control_pass_with_validation (env\<lparr>ce_validate := \<lambda>_ _. Inr True\<rparr>) kill rx"

definition run_plain_control_pass ::
  "control_env \<Rightarrow> (i32 \<Rightarrow> i32 \<Rightarrow> io_error option) \<Rightarrow> (history \<Rightarrow> u32 \<Rightarrow> u64 option res) \<Rightarrow>
   manager_app_config_record list \<Rightarrow> u32 list \<Rightarrow> u128 \<Rightarrow>
   runtime_control_state \<Rightarrow> history \<Rightarrow> unit res \<times> runtime_control_state \<times> history" where
  "run_plain_control_pass env kill rx app_config =
     run_control_pass_with_settings env kill rx app_config []"

lemma plain_pass_invariant:
  "control_state_ok s \<Longrightarrow> control_state_ok (fst (snd (run_plain_control_pass env kill rx cfg fg t s h)))"
  unfolding run_plain_control_pass_def run_control_pass_with_settings_def run_control_pass_with_validation_def
    run_control_pass_with_sampling_def
  by (rule run_control_pass_ok)

subsection \<open>Decisions and reports\<close>

definition decide_freeze :: "managed_app \<Rightarrow> freeze_policy \<Rightarrow> runtime_process list \<Rightarrow> freeze_decision" where
  "decide_freeze app policy processes = can_freeze default_environment app policy processes"

definition decide_freeze_after_reconciliation ::
  "managed_app \<Rightarrow> package_record \<Rightarrow> freeze_policy \<Rightarrow> runtime_process list \<Rightarrow> freeze_decision res" where
  "decide_freeze_after_reconciliation app current policy processes =
     (case reconcile_uid app current of
        Inl message \<Rightarrow> Inl (System_Error message)
      | Inr _ \<Rightarrow> Inr (decide_freeze app policy processes))"

definition mark_frozen :: "runtime_process list \<Rightarrow> runtime_process list" where
  "mark_frozen processes = mark_processes_frozen processes"

definition mark_running :: "runtime_process list \<Rightarrow> runtime_process list" where
  "mark_running processes = mark_processes_running processes"

definition recover_after_restart ::
  "u64 \<Rightarrow> u128 \<Rightarrow> string \<Rightarrow> u32 \<Rightarrow> runtime_process list \<Rightarrow> control_operation" where
  "recover_after_restart operation_id timestamp_ms package_name uid processes =
    \<lparr>co_operation_id = operation_id, co_timestamp_ms = timestamp_ms, co_package_name = package_name,
     co_uid = uid, co_pid_list = map rp_pid processes, co_action = CA_Recover,
     co_backend = ''restart-reconciliation'', co_reason = ''daemon restart reconciliation'',
     co_result = OR_Success,
     co_details = ''observed '' @ show_nat (length processes) @ '' process(es) before new control''\<rparr>"

record diagnostic_state =
  ds_health :: module_health
  ds_capabilities :: "control_capability list"
  ds_operation_log :: operation_log

definition read_only_state_with_diagnostics :: "diagnostic_state \<Rightarrow> read_only_state" where
  "read_only_state_with_diagnostics d =
     (let s = default_read_only_state
            \<lparr>ro_health_report_json := health_report_json (ds_health d),
             ro_capability_report_json := capability_report_json (ds_capabilities d),
             ro_compatibility_report_json := compatibility_json
               (runtime_environment_new ''unknown'' ''unknown'' 0 [] ''unknown'' False False False) (ds_capabilities d),
             ro_operation_log_json := oplog_to_json (ds_operation_log d)\<rparr>
      in s\<lparr>ro_manager_log := fold (\<lambda>op. log_push (operation_record op)) (ol_records (ds_operation_log d))
             (ro_manager_log s),
           ro_self_check_json := self_check_json (ds_health d) (ds_capabilities d)\<rparr>)"

lemma diagnostics_ok: "manager_ok (read_only_state_with_diagnostics d)"
proof -
  have logs: "log_wf l \<Longrightarrow> log_wf (fold (\<lambda>op. log_push (operation_record op)) ops l)" for l ops
    by (induction ops arbitrary: l) (auto simp: wf_intros)
  show ?thesis
    using default_manager_ok
    by (simp add: read_only_state_with_diagnostics_def Let_def manager_ok_def logs)
qed

subsection \<open>The operation log as a file\<close>

text \<open>\<^verbatim>\<open>fs::write\<close> truncates the file and then writes it.\<close>

definition persist_json :: "string \<Rightarrow> operation_log \<Rightarrow> world \<Rightarrow> unit res \<times> world" where
  "persist_json path log w =
     and_then (file_step (set_file path (Some [])) w)
       (file_step (set_file path (Some (text_bytes (oplog_to_json log)))))"

definition not_utf8 :: io_error where
  "not_utf8 = \<lparr>io_kind = InvalidData, io_message = ''stream did not contain valid UTF-8''\<rparr>"

text \<open>A path whose metadata cannot be read counts as absent.\<close>

definition load_persisted_json :: "string \<Rightarrow> world \<Rightarrow> string option res \<times> world" where
  "load_persisted_json path w =
     (case world_fault w of
        (injected, w1) \<Rightarrow>
          if injected \<noteq> None \<or> wd_files w1 path = None then (Inr None, w1)
          else
            (case file_read path w1 of
               (Inl e, w2) \<Rightarrow> (Inl (Io_Error e), w2)
             | (Inr b, w2) \<Rightarrow>
                 (if valid_utf8 (bytes_text b) then Inr (Some (bytes_text b)) else Inl (Io_Error not_utf8), w2)))"

lemma persisted_log_loads:
  assumes "persist_json path log w = (Inr (), w1)" and "wd_faults w1 = []" and "valid_utf8 (oplog_to_json log)"
  shows "fst (load_persisted_json path w1) = Inr (Some (oplog_to_json log))"
proof -
  have "wd_files w1 path = Some (text_bytes (oplog_to_json log))"
    using assms(1)
    by (auto simp: persist_json_def and_then_def file_step_def set_file_def split: prod.splits option.splits sum.splits)
  then show ?thesis
    using assms(2,3) by (simp add: load_persisted_json_def world_fault_def file_read_def)
qed

text \<open>A persist that fails leaves the file as it was, or empty.\<close>

lemma persist_failed:
  assumes "persist_json path log w = (Inl e, w1)"
  shows "wd_files w1 = wd_files w \<or> wd_files w1 = (wd_files w)(path := Some [])"
  using assms
  by (auto simp: persist_json_def and_then_def file_step_def set_file_def world_fault_def
      split: prod.splits option.splits sum.splits list.splits)

end
