(* ===== verification/Spec2Isabelle.thy ===== *)
theory Spec2Isabelle
  imports Logging Deferral Compat Inventory Stop_Ledger Xposed Control_Tracking Manager Startup Daemon Descriptors Observations Command_Runner Live_Kernel Support
begin

text \<open>
  The daemon of Freezeit for COS16 (\<^verbatim>\<open>freezeitDaemon/src\<close>), which freezes the background
  applications of an Android device: a server thread answers the manager application over an abstract
  socket, and a loop thread, once a second, checks the hook in the system server, sends it the policy,
  runs a control pass over the applications under policy, and tells it what to do about pending freezes
  and networks.  All paths below are relative to \<^verbatim>\<open>freezeitDaemon/src\<close>.

  Machine integers are words where they wrap or are combined bitwise, and naturals or integers with
  the bounds of their types written out elsewhere; strings are lists of UTF-8 bytes; a
  \<^verbatim>\<open>BTreeMap\<close> is a sorted association list; a fallible operation returns a sum whose left
  side is the error.  The outside (files, kernel, hook, clock, processes) is a parameter: a record of
  answers that may depend on everything asked before, or a world with a list of faults.  A history
  or a list of events, newest first, records the calls that matter.

  Foundations.
  \<^verbatim>\<open>Rt_Prelude\<close>, \<^verbatim>\<open>Rt_Text\<close>, \<^verbatim>\<open>Rt_Bytes\<close>: ordered maps and sets,
  saturating arithmetic, Rust strings with UTF-8 validation, splitting, trimming and number parsing,
  little endian bytes; the rule collections used by \<^verbatim>\<open>auto\<close> and the contract of a keyed store.
  \<^verbatim>\<open>Loops\<close>: the contract of a loop that waits for the world.
  \<^verbatim>\<open>Domain\<close>: \<^verbatim>\<open>domain/*.rs\<close> and \<^verbatim>\<open>app/error.rs\<close>.

  Leaf components.
  \<^verbatim>\<open>Deferral\<close>: \<^verbatim>\<open>app/scheduler.rs\<close>, \<^verbatim>\<open>app/foreground.rs\<close>,
  \<^verbatim>\<open>app/download_deferral.rs\<close>.
  \<^verbatim>\<open>Oplog\<close>, \<^verbatim>\<open>Logging\<close>: \<^verbatim>\<open>app/operation_log.rs\<close> and \<^verbatim>\<open>app/logging.rs\<close>,
  two instances of one contract of a bounded log.
  \<^verbatim>\<open>Backend\<close>, \<^verbatim>\<open>Freezer_Backend\<close>: \<^verbatim>\<open>sys/binder.rs\<close>, \<^verbatim>\<open>sys/cgroup.rs\<close>
  and the decision of \<^verbatim>\<open>app/freezer_backend.rs\<close>.
  \<^verbatim>\<open>Health\<close>, \<^verbatim>\<open>Compat\<close>: \<^verbatim>\<open>app/health.rs\<close>, \<^verbatim>\<open>app/compatibility.rs\<close>,
  \<^verbatim>\<open>protocol/manager_v2.rs\<close>.
  \<^verbatim>\<open>Inventory\<close>: \<^verbatim>\<open>app/package_inventory.rs\<close>, \<^verbatim>\<open>config/migration.rs\<close>,
  \<^verbatim>\<open>config/loader.rs\<close>.
  \<^verbatim>\<open>Procfs\<close>: the scans of \<^verbatim>\<open>sys/procfs.rs\<close>; \<^verbatim>\<open>Ledger\<close>,
  \<^verbatim>\<open>Ledger_Laws\<close>, \<^verbatim>\<open>Stop_Ledger\<close>: its ledger of stopped processes on a disk with
  faults, the refinement of a map from identities to ownership, the contract its clients use, and
  \<^verbatim>\<open>sys/signal.rs\<close> as a client.
  \<^verbatim>\<open>Frames\<close>, \<^verbatim>\<open>Xposed\<close>: the wire formats of \<^verbatim>\<open>protocol/manager_v1.rs\<close> and
  \<^verbatim>\<open>protocol/xposed.rs\<close>, both instances of one contract of a frame codec, and the parser of
  the hook's report.
  \<^verbatim>\<open>Command_Runner\<close>: \<^verbatim>\<open>app/command_runner.rs\<close>.

  The controller (\<^verbatim>\<open>app/controller.rs\<close>).
  \<^verbatim>\<open>Track\<close>: what is tracked as frozen, pending or blocked, with its invariant
  \<^verbatim>\<open>control_state_ok\<close>, and the status table.  \<^verbatim>\<open>Transactions\<close>: freezing, stopping,
  terminating and thawing an application; a contract for monitors of histories says which acts were
  allowed when they happened.  \<^verbatim>\<open>Control_Pass\<close>: the pass over all records;
  \<^verbatim>\<open>Control_Safety\<close>: what it may do; \<^verbatim>\<open>Control_Tracking\<close>: that nothing stays frozen unnoticed.
  \<^verbatim>\<open>Recovery\<close>: the release of what an earlier run left behind.  \<^verbatim>\<open>Startup\<close>:
  everything before the server loop, and the diagnostics.  \<^verbatim>\<open>Support\<close>: policy loading with
  retries, sampling, the file of the operation log and the smaller public operations.

  The manager's state (\<^verbatim>\<open>protocol/manager_v1.rs\<close>).
  \<^verbatim>\<open>World\<close>: files with atomic writes and faults, hook and clock.
  \<^verbatim>\<open>Manager_State\<close>, \<^verbatim>\<open>App_Config\<close>: the shared state, the settings and the change of
  the application policies with persistence, hook and rollback.  \<^verbatim>\<open>Realtime\<close>: the sampler and
  the charts.  \<^verbatim>\<open>Manager\<close>: the dispatch of every command, and its invariant
  \<^verbatim>\<open>manager_ok\<close>.

  The server.
  \<^verbatim>\<open>Actuators\<close>: \<^verbatim>\<open>freeze_process\<close> and \<^verbatim>\<open>unfreeze_process\<close> of
  \<^verbatim>\<open>sys/socket.rs\<close> down to ioctl, file write and signal.  \<^verbatim>\<open>Live_Kernel\<close>: the
  transactions of the controller over these calls, so that their guarantees hold of the kernel.
  \<^verbatim>\<open>Server\<close>: requests, hook health cycle, live control pass.  \<^verbatim>\<open>Daemon\<close>: the two
  threads as a step relation, a step being what happens under one lock or one exchange with the hook;
  the policy action gate excludes a policy change from a whole iteration.  \<^verbatim>\<open>Streams\<close>: accept,
  peer credentials and frames under a deadline.  \<^verbatim>\<open>Hook_Bridge\<close>:
  \<^verbatim>\<open>sys/xposed_bridge.rs\<close>.  \<^verbatim>\<open>Descriptors\<close>: the socket calls of both and the descriptors they
  open and close, with the same results as without descriptors.

  What is shown.  Over all runs of the two threads: a control pass acts only on the current policy,
  which the hook accepted last, and only on processes authorized by it and validated just before; the
  states keep their types, no update is lost, and the gate opens again.  Policy and settings changes
  are all or nothing across memory, file and hook under every schedule of faults.  Freezing an application
  is all or nothing, in the history of calls and in the kernel, up to the rollback failures it reports;
  thawing frees; recovery only releases; after a control pass that ended without an error, whatever it
  froze is tracked.  The ledger refines a map and never promotes a process by
  accident.  Servers, hook requests and helper programs return if the clock goes on, read and send no
  more than they may, trust only the peers they should, and leak no descriptor.  Formats round trip; logs, frames and
  responses keep their bounds.

  Loops.  Scans and lists are structural recursion.  The JSON skipper of \<^verbatim>\<open>Xposed\<close> is a
  function over its three mutually recursive loops whose termination follows from the shrinking input.  The loops that wait for a peer, a pipe or a child are
  \<^verbatim>\<open>partial_function (option)\<close>: not returning is \<^verbatim>\<open>None\<close>, and returning is proved
  from a clock that passes every limit and, where a call may be interrupted without reading the clock,
  from interruptions that end; each of them is an instance of the contract of \<^verbatim>\<open>Loops\<close>.

  Observations.  \<^verbatim>\<open>Observations\<close> shows behaviours that the comments and names of the code do not suggest:
  freezes that are no longer tracked after an error, labels and checks that disagree with the state they
  report, and errors that end the server.

  Not modelled.  The Java application, the shell scripts and packaging; the module tree and
  \<^verbatim>\<open>main.rs\<close>, which only call \<^verbatim>\<open>run\<close>; poisoned mutexes and panics of a request;
  the thread-local switches of the tests in
  \<^verbatim>\<open>app/controller.rs\<close>, kept at their production value.  Waiting for a second between two
  iterations and the length of time under a lock have no meaning in the step relation.  The kernel, the
  hook and the clock are parameters, so their own behaviour is not claimed, only what the daemon makes
  of it.
\<close>

end
